(* ===== verification/Prelude.thy ===== *)
theory Prelude
  imports Main "HOL-Library.AList"
begin

text \<open>
  The prelude of the development: the shapes every component shares.

  \<^item> A Python operation that reads and writes an object and may raise is a function
    \<open>state \<Rightarrow> (error + result) \<times> state\<close>. The state is returned on both branches, because
    what the code wrote before it raised stays written.
  \<^item> A Python \<open>dict\<close> whose order is observable is an association list: \<open>AList.update\<close>
    replaces in place or appends at the end, as \<open>dict\<close> does; \<open>map_of\<close> is the lookup.
  \<^item> A Python \<open>str\<close> is a \<^typ>\<open>string\<close>: one \<^typ>\<open>char\<close> per code point, code points
    U+0000 to U+00FF. The string methods below follow CPython on that range. Text with a code
    point above U+00FF is outside the model.
  \<^item> \<open>bytes\<close> is the same type read as octets. A \<open>datetime\<close> is an \<^typ>\<open>int\<close> (microseconds
    of UTC) that the clock may hand out with or without its zone.
\<close>

named_theorems sx_simps "unfolding of the state-and-exception combinators"

section \<open>State with exceptions\<close>

type_synonym ('s, 'e, 'a) sx = "'s \<Rightarrow> ('e + 'a) \<times> 's"

definition sx_return :: "'a \<Rightarrow> ('s, 'e, 'a) sx" where
  "sx_return x = (\<lambda>s. (Inr x, s))"

definition sx_raise :: "'e \<Rightarrow> ('s, 'e, 'a) sx" where
  "sx_raise e = (\<lambda>s. (Inl e, s))"

definition sx_bind :: "('s, 'e, 'a) sx \<Rightarrow> ('a \<Rightarrow> ('s, 'e, 'b) sx) \<Rightarrow> ('s, 'e, 'b) sx" where
  "sx_bind m f = (\<lambda>s. case m s of (Inl e, s') \<Rightarrow> (Inl e, s') | (Inr x, s') \<Rightarrow> f x s')"

text \<open>\<open>if cond: raise e\<close>, a pure result that may be an error, and a read of the state.\<close>

definition raise_if :: "bool \<Rightarrow> 'e \<Rightarrow> ('s, 'e, unit) sx" where
  "raise_if b e = (if b then sx_raise e else sx_return ())"

definition sx_lift :: "'e + 'a \<Rightarrow> ('s, 'e, 'a) sx" where
  "sx_lift r = (\<lambda>s. (r, s))"

definition sx_gets :: "('s \<Rightarrow> 'a) \<Rightarrow> ('s, 'e, 'a) sx" where
  "sx_gets f = (\<lambda>s. (Inr (f s), s))"

definition sx_modify :: "('s \<Rightarrow> 's) \<Rightarrow> ('s, 'e, unit) sx" where
  "sx_modify f = (\<lambda>s. (Inr (), f s))"

text \<open>\<open>try: m except ...\<close>: the error as a value, for a handler to inspect.\<close>

definition sx_try :: "('s, 'e, 'a) sx \<Rightarrow> ('s, 'f, 'e + 'a) sx" where
  "sx_try m = (\<lambda>s. case m s of (r, s') \<Rightarrow> (Inr r, s'))"

text \<open>An operation of a part of the state, with its errors named as the whole names them.\<close>

definition sx_zoom ::
  "('s \<Rightarrow> 't) \<Rightarrow> ('t \<Rightarrow> 's \<Rightarrow> 's) \<Rightarrow> ('e \<Rightarrow> 'f) \<Rightarrow> ('t, 'e, 'a) sx \<Rightarrow> ('s, 'f, 'a) sx" where
  "sx_zoom view put err m = (\<lambda>s. case m (view s) of
     (Inl e, t) \<Rightarrow> (Inl (err e), put t s) | (Inr x, t) \<Rightarrow> (Inr x, put t s))"

definition ok :: "('e + 'a) \<times> 's \<Rightarrow> bool" where
  "ok r = (case fst r of Inl _ \<Rightarrow> False | Inr _ \<Rightarrow> True)"

lemmas sx_defs [sx_simps] =
  sx_return_def sx_raise_def sx_bind_def raise_if_def sx_lift_def sx_gets_def sx_modify_def

lemma ok_simps [simp]: "ok (Inr x, s)" "\<not> ok (Inl e, s)"
  by (simp_all add: ok_def)

lemma ok_cases:
  assumes "ok r"
  obtains x s where "r = (Inr x, s)"
  using assms by (cases r; cases "fst r") auto

lemma sx_bind_Inr:
  "sx_bind m f s = (Inr y, s') \<longleftrightarrow> (\<exists>x t. m s = (Inr x, t) \<and> f x t = (Inr y, s'))"
  by (auto simp: sx_bind_def split: prod.splits sum.splits)

lemma sx_try_raise_Inr:
  "sx_bind (sx_try m) (\<lambda>r. case r of Inl e \<Rightarrow> sx_raise (g e) | Inr x \<Rightarrow> f x) s = (Inr y, s')
    \<longleftrightarrow> (\<exists>x t. m s = (Inr x, t) \<and> f x t = (Inr y, s'))"
  by (simp add: sx_bind_def sx_try_def sx_raise_def case_prod_beta prod_eq_iff split: sum.split)

text \<open>
  A triple: from a state with \<open>P\<close>, a normal end leaves \<open>Q\<close> of the result and an error leaves \<open>E\<close>.
\<close>

definition triple ::
  "('s \<Rightarrow> bool) \<Rightarrow> ('s, 'e, 'a) sx \<Rightarrow> ('a \<Rightarrow> 's \<Rightarrow> bool) \<Rightarrow> ('e \<Rightarrow> 's \<Rightarrow> bool) \<Rightarrow> bool" where
  "triple P m Q E = (\<forall>s. P s \<longrightarrow> (case m s of (Inr x, s') \<Rightarrow> Q x s' | (Inl e, s') \<Rightarrow> E e s'))"

named_theorems triple_intros "rules that carry a triple through the combinators"

lemma triple_return [triple_intros]: "(\<And>s. P s \<Longrightarrow> Q x s) \<Longrightarrow> triple P (sx_return x) Q E"
  by (simp add: triple_def sx_return_def)

lemma triple_raise [triple_intros]: "(\<And>s. P s \<Longrightarrow> E e s) \<Longrightarrow> triple P (sx_raise e) Q E"
  by (simp add: triple_def sx_raise_def)

lemma triple_bind:
  "triple P m R E \<Longrightarrow> (\<And>x. triple (R x) (f x) Q E) \<Longrightarrow> triple P (sx_bind m f) Q E"
  unfolding triple_def sx_bind_def by (fastforce split: prod.splits sum.splits)

lemma triple_try:
  "triple P m (\<lambda>x. Q (Inr x)) (\<lambda>e. Q (Inl e)) \<Longrightarrow> triple P (sx_try m) Q E"
  unfolding triple_def sx_try_def by (fastforce split: prod.splits sum.splits)

lemma triple_if [triple_intros]:
  "(b \<Longrightarrow> triple P m Q E) \<Longrightarrow> (\<not> b \<Longrightarrow> triple P n Q E) \<Longrightarrow> triple P (if b then m else n) Q E"
  by simp

lemma triple_sum [triple_intros]:
  "(\<And>e. r = Inl e \<Longrightarrow> triple P (f e) Q E) \<Longrightarrow> (\<And>x. r = Inr x \<Longrightarrow> triple P (g x) Q E)
    \<Longrightarrow> triple P (case r of Inl e \<Rightarrow> f e | Inr x \<Rightarrow> g x) Q E"
  by (cases r) simp_all

lemma triple_conseq: "triple P m Q E \<Longrightarrow> (\<And>x s. Q x s \<Longrightarrow> Q' x s) \<Longrightarrow> (\<And>e s. E e s \<Longrightarrow> E' e s)
    \<Longrightarrow> triple P m Q' E'"
  unfolding triple_def by (fastforce split: prod.splits sum.splits)

lemma tripleD:
  "triple P m Q E \<Longrightarrow> P s \<Longrightarrow> m s = (Inr x, s') \<Longrightarrow> Q x s'"
  "triple P m Q E \<Longrightarrow> P s \<Longrightarrow> m s = (Inl e, s') \<Longrightarrow> E e s'"
  by (auto simp: triple_def)

text \<open>A predicate of the state kept on both ends, and a step that cannot affect it.\<close>

abbreviation keeps :: "('s \<Rightarrow> bool) \<Rightarrow> ('s, 'e, 'a) sx \<Rightarrow> bool" where
  "keeps I m \<equiv> triple I m (\<lambda>_. I) (\<lambda>_. I)"

lemma keeps_bind [triple_intros]: "keeps I m \<Longrightarrow> (\<And>x. keeps I (f x)) \<Longrightarrow> keeps I (sx_bind m f)"
  by (rule triple_bind)

lemma keeps_try [triple_intros]: "keeps I m \<Longrightarrow> keeps I (sx_try m)"
  by (rule triple_try)

lemma keeps_snd: "keeps I m \<longleftrightarrow> (\<forall>s. I s \<longrightarrow> I (snd (m s)))"
  by (simp add: triple_def case_prod_beta split: sum.split)

lemma keepsD: "keeps I m \<Longrightarrow> I s \<Longrightarrow> I (snd (m s))"
  by (simp add: keeps_snd)

lemma keeps_pure: "(\<And>s. snd (m s) = s) \<Longrightarrow> keeps I m"
  by (simp add: keeps_snd)

lemma keeps_modify: "(\<And>s. I s \<Longrightarrow> I (f s)) \<Longrightarrow> keeps I (sx_modify f)"
  by (simp add: keeps_snd sx_modify_def)

lemma keeps_lift: "keeps I (sx_lift r)"
  by (rule keeps_pure) (simp add: sx_lift_def)

lemma keeps_gets: "keeps I (sx_gets f)"
  by (rule keeps_pure) (simp add: sx_gets_def)

lemma keeps_raise_if: "keeps I (raise_if b e)"
  by (rule keeps_pure) (simp add: raise_if_def sx_raise_def sx_return_def)

lemma keeps_return: "keeps I (sx_return x)"
  by (rule keeps_pure) (simp add: sx_return_def)

lemmas keeps_simple = keeps_lift keeps_raise_if keeps_gets keeps_return

lemma keeps_lift_bind: "(\<And>x. r = Inr x \<Longrightarrow> keeps I (f x)) \<Longrightarrow> keeps I (sx_bind (sx_lift r) f)"
  by (cases r) (simp_all add: triple_def sx_bind_def sx_lift_def)

lemma keeps_gets_bind: "(\<And>st. I st \<Longrightarrow> I (snd (f (g st) st))) \<Longrightarrow> keeps I (sx_bind (sx_gets g) f)"
  by (simp add: keeps_snd sx_bind_def sx_gets_def)

text \<open>
  The errors of two layers meet where a caller catches or re-raises; a result can be mapped on
  either side.
\<close>

definition map_error :: "('e \<Rightarrow> 'f) \<Rightarrow> 'e + 'a \<Rightarrow> 'f + 'a" where
  "map_error f r = (case r of Inl e \<Rightarrow> Inl (f e) | Inr x \<Rightarrow> Inr x)"

lemma map_error_simps [simp]:
  "map_error f (Inl e) = Inl (f e)" "map_error f (Inr x) = Inr x"
  by (simp_all add: map_error_def)

lemma map_error_eq_Inr [simp]: "map_error f r = Inr x \<longleftrightarrow> r = Inr x"
  by (cases r) simp_all

text \<open>A pure result that may be an error, and what follows it.\<close>

definition res_bind :: "'e + 'a \<Rightarrow> ('a \<Rightarrow> 'e + 'b) \<Rightarrow> 'e + 'b" where
  "res_bind r f = (case r of Inl e \<Rightarrow> Inl e | Inr x \<Rightarrow> f x)"

lemma res_bind_simps [simp]: "res_bind (Inl e) f = Inl e" "res_bind (Inr x) f = f x"
  by (simp_all add: res_bind_def)

lemma res_bind_Inr: "res_bind r f = Inr y \<longleftrightarrow> (\<exists>x. r = Inr x \<and> f x = Inr y)"
  by (cases r) simp_all

text \<open>\<open>all(f(x) for x in xs)\<close> where \<open>f\<close> may raise: it stops at the first false one.\<close>

fun all_checked :: "('a \<Rightarrow> 'e + bool) \<Rightarrow> 'a list \<Rightarrow> 'e + bool" where
  "all_checked f [] = Inr True"
| "all_checked f (x # xs) = res_bind (f x) (\<lambda>b. if b then all_checked f xs else Inr False)"

lemma all_checked_True: "all_checked f xs = Inr True \<longleftrightarrow> (\<forall>x\<in>set xs. f x = Inr True)"
  by (induction xs) (auto simp: res_bind_Inr split: if_splits)

section \<open>Datetimes\<close>

datatype py_datetime = Aware int | Naive int

text \<open>
  A timestamp column of a table hands its instant back with or without a zone (SQLite drops it); the
  driver is that choice. \<open>as_utc\<close> is how every repository reads such a column.
\<close>

datatype column_driver = KeepsZone | DropsZone

fun column_time :: "column_driver \<Rightarrow> int \<Rightarrow> py_datetime" where
  "column_time KeepsZone t = Aware t"
| "column_time DropsZone t = Naive t"

fun as_utc :: "py_datetime option \<Rightarrow> int option" where
  "as_utc None = None"
| "as_utc (Some (Naive t)) = Some t"
| "as_utc (Some (Aware t)) = Some t"

lemma as_utc_column [simp]: "as_utc (Some (column_time drv t)) = Some t"
  by (cases drv) simp_all

lemma as_utc_map_column [simp]: "as_utc (map_option (column_time drv) t) = t"
  by (cases t) simp_all

text \<open>\<open>_now\<close> of the services: a clock without a zone is refused, an aware one is read as UTC.\<close>

fun require_aware :: "'e \<Rightarrow> py_datetime \<Rightarrow> 'e + int" where
  "require_aware e (Aware t) = Inr t"
| "require_aware e (Naive t) = Inl e"

section \<open>Text\<close>

type_synonym bytes = string

abbreviation code_point :: "char \<Rightarrow> nat" where
  "code_point c \<equiv> of_char c"

text \<open>\<open>str.isspace\<close> on U+0000 to U+00FF.\<close>

definition is_space :: "char \<Rightarrow> bool" where
  "is_space c = (let n = code_point c in
     (9 \<le> n \<and> n \<le> 13) \<or> (28 \<le> n \<and> n \<le> 32) \<or> n = 133 \<or> n = 160)"

definition py_lstrip :: "string \<Rightarrow> string" where
  "py_lstrip s = dropWhile is_space s"

definition py_rstrip :: "string \<Rightarrow> string" where
  "py_rstrip s = rev (dropWhile is_space (rev s))"

definition py_strip :: "string \<Rightarrow> string" where
  "py_strip s = py_rstrip (py_lstrip s)"

lemma dropWhile_head: "dropWhile P xs = y # ys \<Longrightarrow> \<not> P y"
  by (metis dropWhile_eq_Cons_conv)

lemma py_lstrip_idem [simp]: "py_lstrip (py_lstrip s) = py_lstrip s"
  by (simp add: py_lstrip_def)

lemma py_rstrip_idem [simp]: "py_rstrip (py_rstrip s) = py_rstrip s"
  by (simp add: py_rstrip_def)

lemma py_rstrip_Cons_nonspace:
  assumes "\<not> is_space c"
  shows "\<exists>t. py_rstrip (c # s) = c # t"
proof (cases "\<forall>x\<in>set s. is_space x")
  case True
  then have "dropWhile is_space (rev s @ [c]) = dropWhile is_space [c]"
    by (intro dropWhile_append2) simp
  with assms show ?thesis by (simp add: py_rstrip_def)
next
  case False
  then obtain x where "x \<in> set (rev s)" "\<not> is_space x" by auto
  then have "dropWhile is_space (rev s @ [c]) = dropWhile is_space (rev s) @ [c]"
    by (rule dropWhile_append1)
  then show ?thesis by (simp add: py_rstrip_def)
qed

lemma py_strip_idem [simp]: "py_strip (py_strip s) = py_strip s"
proof (cases "py_lstrip s")
  case Nil
  have "py_strip s = []" by (simp only: py_strip_def Nil) (simp add: py_rstrip_def)
  then show ?thesis
    by (simp only:) (simp add: py_strip_def py_rstrip_def py_lstrip_def)
next
  case (Cons c t)
  then have c: "\<not> is_space c"
    by (auto simp: py_lstrip_def dest: dropWhile_head)
  from py_rstrip_Cons_nonspace [OF c] obtain u where u: "py_rstrip (c # t) = c # u" by blast
  have "py_strip s = c # u" by (simp add: py_strip_def Cons u)
  moreover have "py_lstrip (c # u) = c # u" using c by (simp add: py_lstrip_def)
  moreover have "py_rstrip (c # u) = c # u" using u by (metis py_rstrip_idem)
  ultimately show ?thesis by (simp only: py_strip_def)
qed

text \<open>\<open>str.trim\<close> of Rust on U+0000 to U+00FF.\<close>

definition trim_space :: "char \<Rightarrow> bool" where
  "trim_space c = (let n = code_point c in (9 \<le> n \<and> n \<le> 13) \<or> n = 32 \<or> n = 133 \<or> n = 160)"

definition model_trim :: "string \<Rightarrow> string" where
  "model_trim s = rev (dropWhile trim_space (rev (dropWhile trim_space s)))"

lemma dropWhile_both:
  "dropWhile P (rev (dropWhile P (rev (dropWhile P s)))) = rev (dropWhile P (rev (dropWhile P s)))"
proof (cases "dropWhile P (rev (dropWhile P s)) = []")
  case False
  let ?t = "dropWhile P s"
  let ?u = "dropWhile P (rev ?t)"
  have t: "?t = rev ?u @ rev (takeWhile P (rev ?t))"
    by (metis rev_append rev_rev_ident takeWhile_dropWhile_id)
  have "?t \<noteq> []" using False by (metis dropWhile.simps(1) rev.simps(1))
  then have "\<not> P (hd ?t)" by (rule hd_dropWhile)
  moreover have "hd (rev ?u) = hd ?t" using False t by (metis hd_append2 rev_is_Nil_conv)
  ultimately show ?thesis by (simp only: dropWhile_eq_self_iff) simp
next
  case True
  then show ?thesis by (simp only: rev.simps dropWhile.simps)
qed

lemma model_trim_idem [simp]: "model_trim (model_trim s) = model_trim s"
  by (simp add: model_trim_def dropWhile_both)

definition contains_text :: "string \<Rightarrow> string \<Rightarrow> bool" where
  "contains_text p s = (\<exists>i\<in>set [0..<Suc (length s)]. take (length p) (drop i s) = p)"

definition ends_with :: "string \<Rightarrow> string \<Rightarrow> bool" where
  "ends_with p s = (length p \<le> length s \<and> drop (length s - length p) s = p)"

text \<open>Character classes of the regular expressions.\<close>

definition is_digit :: "char \<Rightarrow> bool" where
  "is_digit c = (48 \<le> code_point c \<and> code_point c \<le> 57)"

definition is_upper :: "char \<Rightarrow> bool" where
  "is_upper c = (65 \<le> code_point c \<and> code_point c \<le> 90)"

definition is_lower :: "char \<Rightarrow> bool" where
  "is_lower c = (97 \<le> code_point c \<and> code_point c \<le> 122)"

definition is_alnum :: "char \<Rightarrow> bool" where
  "is_alnum c = (is_digit c \<or> is_upper c \<or> is_lower c)"

definition is_hex_lower :: "char \<Rightarrow> bool" where
  "is_hex_lower c = (is_digit c \<or> (97 \<le> code_point c \<and> code_point c \<le> 102))"

text \<open>\<open>str.lower\<close> and \<open>str.upper\<close>: the two letters whose capital lies above U+00FF stay.\<close>

definition lower_char :: "char \<Rightarrow> char" where
  "lower_char c = (let n = code_point c in
     if (65 \<le> n \<and> n \<le> 90) \<or> (192 \<le> n \<and> n \<le> 222 \<and> n \<noteq> 215) then char_of (n + 32) else c)"

definition py_lower :: "string \<Rightarrow> string" where
  "py_lower s = map lower_char s"

definition upper_char :: "char \<Rightarrow> string" where
  "upper_char c = (let n = code_point c in
     if n = 223 then ''SS''
     else if (97 \<le> n \<and> n \<le> 122) \<or> (224 \<le> n \<and> n \<le> 254 \<and> n \<noteq> 247) then [char_of (n - 32)]
     else [c])"

definition py_upper :: "string \<Rightarrow> string" where
  "py_upper s = concat (map upper_char s)"

text \<open>
  \<open>str.casefold\<close>. The micro sign folds to a letter above U+00FF; it is kept, which compares as the
  original does as long as no text holds that letter.
\<close>

definition py_casefold :: "string \<Rightarrow> string" where
  "py_casefold s = concat (map (\<lambda>c. if code_point c = 223 then ''ss'' else [lower_char c]) s)"

text \<open>\<open>"".join(s.split())\<close>: every whitespace character is dropped.\<close>

definition drop_spaces :: "string \<Rightarrow> string" where
  "drop_spaces s = filter (\<lambda>c. \<not> is_space c) s"

definition is_ascii :: "string \<Rightarrow> bool" where
  "is_ascii s = list_all (\<lambda>c. code_point c < 128) s"

text \<open>\<open>str.encode("utf-8")\<close> on U+0000 to U+00FF.\<close>

definition utf8_char :: "char \<Rightarrow> bytes" where
  "utf8_char c = (let n = code_point c in
     if n < 128 then [c] else [char_of (192 + n div 64), char_of (128 + n mod 64)])"

definition utf8 :: "string \<Rightarrow> bytes" where
  "utf8 s = concat (map utf8_char s)"

text \<open>\<open>str.replace(old, new)\<close> for a non-empty \<open>old\<close>.\<close>

function py_replace :: "string \<Rightarrow> string \<Rightarrow> string \<Rightarrow> string" where
  "py_replace old new s =
     (if s = [] \<or> old = [] then s
      else if take (length old) s = old then new @ py_replace old new (drop (length old) s)
      else hd s # py_replace old new (tl s))"
  by pat_completeness auto
termination
  by (relation "measure (\<lambda>(old, new, s). length s)") auto

declare py_replace.simps [simp del]

definition starts_with :: "string \<Rightarrow> string \<Rightarrow> bool" where
  "starts_with p s = (take (length p) s = p)"

text \<open>\<open>str.split()\<close>: the words between runs of whitespace.\<close>

fun split_words :: "string \<Rightarrow> string \<Rightarrow> string list" where
  "split_words word [] = (if word = [] then [] else [word])"
| "split_words word (c # cs) =
     (if is_space c then (if word = [] then [] else [word]) @ split_words [] cs
      else split_words (word @ [c]) cs)"

definition py_split :: "string \<Rightarrow> string list" where
  "py_split s = split_words [] s"

text \<open>\<open>" ".join(words)\<close>\<close>

definition join_words :: "string list \<Rightarrow> string" where
  "join_words ws = (case ws of [] \<Rightarrow> [] | w # ws' \<Rightarrow> w @ concat (map (\<lambda>v. CHR '' '' # v) ws'))"

section \<open>Values of type Any\<close>

text \<open>
  What a Python mapping of untyped values can hold. A finite float is its \<open>repr\<close>, since no
  component computes with floats from such a mapping. A dict keeps its insertion order.
\<close>

datatype py_float = FiniteFloat string | NonFiniteFloat

datatype py_value =
    PNone
  | PBool bool
  | PInt int
  | PFloat py_float
  | PStr string
  | PBytes bytes
  | PList "py_value list"
  | PDict "(py_value \<times> py_value) list"
  | PObject

type_synonym py_mapping = "(string \<times> py_value) list"

section \<open>Lists and maps\<close>

lemma map_of_update [simp]: "map_of (AList.update k v al) = (map_of al)(k \<mapsto> v)"
  by (rule update_conv')

lemma map_of_update_key: "map_of (AList.update k v al) k' = (if k' = k then Some v else map_of al k')"
  by simp

lemma map_of_map_key:
  "map_of al k \<noteq> None \<Longrightarrow> map_of (map (\<lambda>(k', _). (k', g k')) al) k = Some (g k)"
  by (induction al) (auto split: if_splits)

lemma map_of_eq_Some_set: "map_of al k = Some v \<Longrightarrow> (k, v) \<in> set al"
  by (rule map_of_SomeD)

lemma distinct_map_fst_in_set:
  "distinct (map fst al) \<Longrightarrow> (k, v) \<in> set al \<longleftrightarrow> map_of al k = Some v"
  by (metis map_of_eq_Some_iff)

lemma distinct_filter_keys: "distinct (map fst d) \<Longrightarrow> distinct (map fst (filter Q d))"
  by (induction d) auto

end
