(* ===== verification/Sanitization.thy ===== *)
theory Sanitization
  imports Prelude
begin

text \<open>
  Normalisation of untrusted text (\<^verbatim>\<open>security/sanitization.py\<close>). On U+0000 to U+00FF the normal
  form NFKC acts character by character; the eight characters whose normal form leaves that range
  (diaeresis, macron, acute, micro, cedilla and the three fractions) stay themselves here.
  Category C on the range is the two control blocks and the soft hyphen.
\<close>

definition nfkc_char :: "char \<Rightarrow> char" where
  "nfkc_char c = (let n = code_point c in
     if n = 160 then CHR '' ''
     else if n = 170 then CHR ''a''
     else if n = 178 then CHR ''2''
     else if n = 179 then CHR ''3''
     else if n = 185 then CHR ''1''
     else if n = 186 then CHR ''o''
     else c)"

definition nfkc :: "string \<Rightarrow> string" where
  "nfkc s = map nfkc_char s"

definition category_C :: "char \<Rightarrow> bool" where
  "category_C c = (let n = code_point c in n < 32 \<or> (127 \<le> n \<and> n < 160) \<or> n = 173)"

datatype input_error = ExceedsLength nat | InvalidEmployeeId | UnsafeFilename

definition is_newline :: "char \<Rightarrow> bool" where
  "is_newline c = (code_point c = 10 \<or> code_point c = 13)"

definition is_control_whitespace :: "char \<Rightarrow> bool" where
  "is_control_whitespace c = (code_point c = 9 \<or> is_newline c)"

fun normalize_chars :: "bool \<Rightarrow> string \<Rightarrow> string" where
  "normalize_chars allow_newlines [] = []"
| "normalize_chars allow_newlines (c # cs) =
     (if category_C c then
        (if allow_newlines \<and> is_control_whitespace c
         then (if is_newline c then char_of (10 :: nat) else CHR '' '') # normalize_chars allow_newlines cs
         else normalize_chars allow_newlines cs)
      else c # normalize_chars allow_newlines cs)"

definition normalize_text :: "string \<Rightarrow> nat \<Rightarrow> bool \<Rightarrow> input_error + string" where
  "normalize_text value max_length allow_newlines = (let
       cleaned = py_strip (normalize_chars allow_newlines (nfkc value))
     in if max_length < length cleaned then Inl (ExceedsLength max_length) else Inr cleaned)"

text \<open>\<^verbatim>\<open>^[A-Za-z0-9][A-Za-z0-9_-]{0,63}$\<close> under \<open>fullmatch\<close>.\<close>

definition employee_id_syntax :: "string \<Rightarrow> bool" where
  "employee_id_syntax s = (s \<noteq> [] \<and> is_alnum (hd s) \<and> length s \<le> 64
     \<and> list_all (\<lambda>c. is_alnum c \<or> c = CHR ''_'' \<or> c = CHR ''-'') (tl s))"

definition validate_employee_id :: "string \<Rightarrow> input_error + string" where
  "validate_employee_id value = (case normalize_text value 64 False of
     Inl e \<Rightarrow> Inl e
   | Inr normalized \<Rightarrow>
       if employee_id_syntax normalized then Inr normalized else Inl InvalidEmployeeId)"

text \<open>
  Past the two separator tests no slash or backslash is left, so a \<open>PurePosixPath\<close> of the text
  has the text as its only part (\<open>.\<close> has none) and is relative; a \<open>PureWindowsPath\<close> has a drive
  when the second character is a colon (\<open>ntpath.splitroot\<close>), and otherwise the same parts.
\<close>

definition windows_drive :: "string \<Rightarrow> bool" where
  "windows_drive s = (2 \<le> length s \<and> s ! 1 = CHR '':'')"

definition contains_path_traversal :: "string \<Rightarrow> bool" where
  "contains_path_traversal value = (char_of (0 :: nat) \<in> set value \<or> (let normalized = py_strip (nfkc value) in
     normalized = [] \<or> CHR ''/'' \<in> set normalized \<or> CHR 0x5C \<in> set normalized
     \<or> windows_drive normalized \<or> normalized = ''..''))"

definition sanitize_filename_metadata :: "string \<Rightarrow> input_error + string" where
  "sanitize_filename_metadata value =
     (if contains_path_traversal value then Inl UnsafeFilename
      else case normalize_text value 255 False of
        Inl e \<Rightarrow> Inl e
      | Inr normalized \<Rightarrow>
          if contains_path_traversal normalized then Inl UnsafeFilename
          else if normalized \<in> {''.'', ''..''} then Inl UnsafeFilename
          else Inr normalized)"

section \<open>Normal forms\<close>

lemma set_dropWhile_subset: "set (dropWhile P xs) \<subseteq> set xs"
  by (auto dest: set_dropWhileD)

lemma set_py_strip: "set (py_strip s) \<subseteq> set s"
  using set_dropWhile_subset [of is_space s]
    set_dropWhile_subset [of is_space "rev (dropWhile is_space s)"]
  by (auto simp: py_strip_def py_rstrip_def py_lstrip_def)

definition clean_char :: "bool \<Rightarrow> char \<Rightarrow> bool" where
  "clean_char allow_newlines c = (nfkc_char c = c
     \<and> (\<not> category_C c \<or> allow_newlines \<and> code_point c = (10 :: nat)))"

definition clean_text :: "nat \<Rightarrow> bool \<Rightarrow> string \<Rightarrow> bool" where
  "clean_text max_length allow_newlines s =
     (length s \<le> max_length \<and> py_strip s = s \<and> list_all (clean_char allow_newlines) s)"

lemma nfkc_char_fixed: "nfkc_char (nfkc_char c) = nfkc_char c"
  by (simp add: nfkc_char_def Let_def)

lemma code_point_10: "code_point c = (10 :: nat) \<longleftrightarrow> c = char_of (10 :: nat)"
proof
  assume "code_point c = (10 :: nat)"
  then have "char_of (10 :: nat) = (char_of (code_point c :: nat) :: char)" by (simp only:)
  then show "c = char_of (10 :: nat)" by (simp only: char_of_char)
qed simp

lemma normalize_chars_clean:
  "list_all (\<lambda>c. nfkc_char c = c) cs \<Longrightarrow> list_all (clean_char nl) (normalize_chars nl cs)"
  by (induction cs)
    (auto simp: clean_char_def nfkc_char_def category_C_def Let_def)

lemma normalize_chars_fixed: "list_all (clean_char nl) cs \<Longrightarrow> normalize_chars nl cs = cs"
  by (induction cs) (auto simp: clean_char_def is_control_whitespace_def is_newline_def code_point_10)

lemma nfkc_fixed: "list_all (clean_char nl) cs \<Longrightarrow> nfkc cs = cs"
  by (induction cs) (auto simp: nfkc_def clean_char_def)

lemma normalize_text_clean: "normalize_text v n nl = Inr t \<Longrightarrow> clean_text n nl t"
proof -
  assume t: "normalize_text v n nl = Inr t"
  let ?s = "normalize_chars nl (nfkc v)"
  have "list_all (clean_char nl) ?s"
    by (rule normalize_chars_clean) (simp add: nfkc_def list_all_length nfkc_char_fixed)
  then have "list_all (clean_char nl) (py_strip ?s)"
    using set_py_strip [of ?s] by (auto simp: list_all_iff)
  with t show ?thesis
    by (auto simp: normalize_text_def clean_text_def Let_def split: if_splits)
qed

lemma clean_normalize_text: "clean_text n nl t \<Longrightarrow> normalize_text t n nl = Inr t"
  by (auto simp: clean_text_def normalize_text_def nfkc_fixed normalize_chars_fixed Let_def)

lemma normalize_text_idem: "normalize_text v n nl = Inr t \<Longrightarrow> normalize_text t n nl = Inr t"
  by (rule clean_normalize_text [OF normalize_text_clean])

lemma validate_employee_id_result:
  "validate_employee_id v = Inr e \<Longrightarrow> employee_id_syntax e \<and> normalize_text e 64 False = Inr e"
  by (auto simp: validate_employee_id_def normalize_text_idem split: sum.splits if_splits)

lemma sanitize_filename_result:
  "sanitize_filename_metadata v = Inr f \<Longrightarrow>
     \<not> contains_path_traversal f \<and> f \<notin> {''.'', ''..''} \<and> normalize_text f 255 False = Inr f"
  by (auto simp: sanitize_filename_metadata_def normalize_text_idem split: sum.splits if_splits)

lemma validate_employee_id_idem: "validate_employee_id v = Inr e \<Longrightarrow> validate_employee_id e = Inr e"
  using validate_employee_id_result [of v e] by (simp add: validate_employee_id_def [of e])

lemma sanitize_filename_idem:
  "sanitize_filename_metadata v = Inr f \<Longrightarrow> sanitize_filename_metadata f = Inr f"
  using sanitize_filename_result [of v f] by (simp add: sanitize_filename_metadata_def [of f])

section \<open>The promise\<close>

text \<open>Sanitised text. \<open>normalize_text\<close> returns text within its bound, stripped, without control
  characters and its own normal form; a validated employee identifier keeps its syntax and a sanitised
  filename names no other directory, and both are accepted unchanged when they are checked again.\<close>

theorem sanitized_text_normal:
  "(\<forall>v n nl t. normalize_text v n nl = Inr t \<longrightarrow> clean_text n nl t \<and> normalize_text t n nl = Inr t)
   \<and> (\<forall>v e. validate_employee_id v = Inr e \<longrightarrow>
        employee_id_syntax e \<and> validate_employee_id e = Inr e)
   \<and> (\<forall>v f. sanitize_filename_metadata v = Inr f \<longrightarrow>
        \<not> contains_path_traversal f \<and> sanitize_filename_metadata f = Inr f)"
  using normalize_text_clean normalize_text_idem validate_employee_id_result validate_employee_id_idem
    sanitize_filename_result sanitize_filename_idem
  by blast

theorem sanitized_text_normal_witness:
  "sanitize_filename_metadata ''report.pdf'' = Inr ''report.pdf'' \<and> \<not> contains_path_traversal ''report.pdf''"
proof -
  have "sanitize_filename_metadata '' report.pdf'' = Inr ''report.pdf''" by code_simp
  with sanitized_text_normal show ?thesis by blast
qed

end
