(* ===== verification/DicModels.thy ===== *)
theory DicModels
  imports Sanitization
begin

text \<open>
  The records an adapter of Dipendenti in Cloud exchanges (\<^verbatim>\<open>dic/models.py\<close>) and its errors
  (\<^verbatim>\<open>dic/errors.py\<close>). A \<open>FunctionId\<close> is its text. The constraints of a record that the code of the
  development relies on are checked where it is built; a \<open>SecretStr\<close> is its text. A text is trimmed
  on its way into a record (\<open>str_strip_whitespace\<close>, which trims as Rust does); the keys and values of
  a parameter mapping are kept as they are.
\<close>

section \<open>Errors and enumerations\<close>

datatype dic_error =
    DicValidationError string
  | DicWriteDisabledError string
  | DicApprovalError string
  | DicInvalidPreparedActionError string
  | DicNotFoundError string
  | DicConfigurationError string
  | DicValueError string
  | ModelValidationError string
  | PyKeyError string
  | PyIndexError
  | PyAttributeError string
  | DicAdapterFault

definition FUNCTION_IDS :: "string list" where
  "FUNCTION_IDS =
     [''EMP-READ-001'', ''EMP-READ-002'', ''EMP-SEARCH-001'', ''EMP-FILTER-001'', ''EMP-SORT-001'',
      ''EMP-PAGE-001'', ''EMP-CONTRACT-001'', ''EMP-RBAC-001'', ''EMP-TIME-001'', ''EMP-MAT-001'',
      ''EMP-BAL-001'', ''EMP-PAY-001'', ''EMP-PAY-002'', ''EMP-DOC-001'', ''EMP-UPDATE-001'',
      ''EMP-CREATE-001'', ''EMP-CONTRACT-002'', ''EMP-CONTRACT-003'', ''EMP-MAT-002'', ''EMP-BAL-002'',
      ''EMP-CONNECT-001'', ''EMP-CONNECT-002'', ''EMP-INVITE-001'', ''EMP-INVITE-002'', ''EMP-RBAC-002'',
      ''EMP-STATUS-001'', ''EMP-STATUS-002'', ''EMP-DOC-002'', ''EMP-DOC-003'', ''EMP-DOC-004'',
      ''EMP-DOC-005'', ''EMP-DELETE-001'', ''EMP-EXPORT-001'', ''EMP-NOTIF-001'', ''EMP-NOTIF-002'',
      ''EMP-ONBOARD-001'']"

datatype employee_filter = FILTER_ACTIVE | FILTER_INACTIVE | FILTER_ALL

datatype sort_direction = SORT_ASC | SORT_DESC

datatype account_state = ACCOUNT_CONNECTED | ACCOUNT_INVITED | ACCOUNT_NOT_CONNECTED | ACCOUNT_UNKNOWN

datatype employee_state = EMPLOYEE_ACTIVE | EMPLOYEE_INACTIVE | EMPLOYEE_UNKNOWN

datatype operation_status = OP_PREPARED | OP_SUCCEEDED | OP_REJECTED | OP_RECONCILIATION_REQUIRED

datatype reconciliation_state =
  REC_CONFIRMED_APPLIED | REC_CONFIRMED_NOT_APPLIED | REC_UNKNOWN

section \<open>What an adapter reads\<close>

datatype employee_sort = SORT_NAME | SORT_PAYROLL_NUMBER | SORT_STATUS | SORT_CONTRACT

record employee_list_query =
  eq_query :: "string option"
  eq_employee_filter :: employee_filter
  eq_sort_by :: employee_sort
  eq_sort_direction :: sort_direction
  eq_page :: int
  eq_page_size :: int

record employee_list_item =
  ei_employee_id :: string
  ei_display_name :: "string option"
  ei_first_name :: "string option"
  ei_last_name :: "string option"
  ei_display_name_redacted :: string
  ei_email_redacted :: "string option"
  ei_tax_code_redacted :: "string option"
  ei_job_title :: "string option"
  ei_group_name :: "string option"
  ei_payroll_number :: "string option"
  ei_contract_label :: "string option"
  ei_contract_state :: "string option"
  ei_contract_period :: "string option"
  ei_schedule_model :: "string option"
  ei_workplace :: "string option"
  ei_account_state :: account_state
  ei_employee_state :: employee_state
  ei_current_contract_valid_from :: "(nat \<times> nat \<times> nat) option"
  ei_current_contract_valid_to :: "(nat \<times> nat \<times> nat) option"

record employee_list_result =
  el_items :: "employee_list_item list"
  el_page :: int
  el_page_size :: int
  el_total :: int
  el_has_next :: bool

record payroll_metadata =
  pm_payroll_id :: string
  pm_employee_id :: string
  pm_year :: int
  pm_month :: "int option"
  pm_status :: "string option"
  pm_published_at :: "string option"
  pm_net_cents :: "int option"
  pm_attachment_filename :: "string option"
  pm_attachment_url :: "string option"

section \<open>What an adapter executes\<close>

text \<open>\<^verbatim>\<open>^[a-z][a-z0-9_]{0,63}$\<close> under \<open>fullmatch\<close>.\<close>

definition parameter_key :: "string \<Rightarrow> bool" where
  "parameter_key s = (s \<noteq> [] \<and> length s \<le> 64 \<and> is_lower (hd s)
     \<and> list_all (\<lambda>c. is_lower c \<or> is_digit c \<or> c = CHR ''_'') (tl s))"

fun check_parameter :: "py_value \<Rightarrow> nat \<Rightarrow> string option"
  and check_parameter_items :: "py_value list \<Rightarrow> nat \<Rightarrow> string option"
  and check_parameter_members :: "(py_value \<times> py_value) list \<Rightarrow> nat \<Rightarrow> string option" where
  "check_parameter v depth =
     (if 4 < depth then Some ''action parameters are too deeply nested''
      else case v of
        PStr s \<Rightarrow> if 4096 < length s then Some ''action parameter string is too long'' else None
      | PFloat NonFiniteFloat \<Rightarrow> Some ''action parameter number must be finite''
      | PList vs \<Rightarrow> if 50 < length vs then Some ''action parameter list is too long''
          else check_parameter_items vs (Suc depth)
      | PDict ms \<Rightarrow> if 32 < length ms then Some ''action parameter object is too large''
          else check_parameter_members ms (Suc depth)
      | _ \<Rightarrow> None)"
| "check_parameter_items [] depth = None"
| "check_parameter_items (v # vs) depth =
     (case check_parameter v depth of Some e \<Rightarrow> Some e | None \<Rightarrow> check_parameter_items vs depth)"
| "check_parameter_members [] depth = None"
| "check_parameter_members ((k, v) # ms) depth =
     (if (case k of PStr s \<Rightarrow> \<not> parameter_key s | _ \<Rightarrow> True)
      then Some ''invalid nested action parameter key''
      else case check_parameter v depth of Some e \<Rightarrow> Some e
      | None \<Rightarrow> check_parameter_members ms depth)"

fun check_action_items :: "py_mapping \<Rightarrow> string option" where
  "check_action_items [] = None"
| "check_action_items ((k, v) # ms) =
     (if \<not> parameter_key k then Some ''invalid action parameter key''
      else case check_parameter v 0 of Some e \<Rightarrow> Some e | None \<Rightarrow> check_action_items ms)"

definition check_action_parameters :: "py_mapping \<Rightarrow> string option" where
  "check_action_parameters ms =
     (if 32 < length ms then Some ''too many action parameters'' else check_action_items ms)"

record preview_change =
  pc_field :: string
  pc_before_redacted :: "string option"
  pc_after_redacted :: "string option"

record dic_action =
  da_action_id :: string
  da_function_id :: string
  da_employee_id :: "string option"
  da_parameters :: py_mapping
  da_idempotency_key :: string
  da_correlation_id :: string
  da_request_fingerprint :: string
  da_preview :: "preview_change list"
  da_required_approvals :: nat
  da_created_at :: int
  da_expires_at :: int

record execution_result =
  er_action_id :: string
  er_function_id :: string
  er_status :: operation_status
  er_changed :: bool
  er_postcondition_verified :: bool
  er_message :: string
  er_correlation_id :: string
  er_details :: "(string \<times> string) list"

record reconciliation_result =
  rr_action_id :: string
  rr_state :: reconciliation_state
  rr_detail :: string

definition is_hex :: "char \<Rightarrow> bool" where
  "is_hex c = (is_hex_lower c \<or> (65 \<le> code_point c \<and> code_point c \<le> 70))"

text \<open>The pattern of \<open>action_id\<close>: a UUID of the variant and the versions the pattern allows.\<close>

definition uuid_syntax :: "string \<Rightarrow> bool" where
  "uuid_syntax s = (length s = 36
     \<and> list_all (\<lambda>i. if i \<in> {8, 13, 18, 23} then s ! i = CHR ''-'' else is_hex (s ! i)) [0..<36]
     \<and> s ! 14 \<in> {CHR ''1'', CHR ''2'', CHR ''3'', CHR ''4'', CHR ''5''}
     \<and> s ! 19 \<in> {CHR ''8'', CHR ''9'', CHR ''a'', CHR ''A'', CHR ''b'', CHR ''B''})"

definition sha256_text :: "string \<Rightarrow> bool" where
  "sha256_text s = (length s = 64 \<and> list_all is_hex_lower s)"

definition new_preview_change ::
  "string \<Rightarrow> string option \<Rightarrow> string option \<Rightarrow> dic_error + preview_change" where
  "new_preview_change field old new = (let
       field = model_trim field; old = map_option model_trim old; new = map_option model_trim new
     in if field = [] \<or> 128 < length field then Inl (ModelValidationError ''field'')
        else if (case old of None \<Rightarrow> False | Some s \<Rightarrow> 512 < length s)
        then Inl (ModelValidationError ''before_redacted'')
        else if (case new of None \<Rightarrow> False | Some s \<Rightarrow> 512 < length s)
        then Inl (ModelValidationError ''after_redacted'')
        else Inr \<lparr>pc_field = field, pc_before_redacted = old, pc_after_redacted = new\<rparr>)"

text \<open>Building a \<open>PreparedAction\<close>: every constraint of its fields, and its two validators.\<close>

definition new_dic_action :: "dic_action \<Rightarrow> dic_error + dic_action" where
  "new_dic_action a = (let
       a = a\<lparr>da_action_id := model_trim (da_action_id a),
             da_employee_id := map_option model_trim (da_employee_id a),
             da_idempotency_key := model_trim (da_idempotency_key a),
             da_correlation_id := model_trim (da_correlation_id a),
             da_request_fingerprint := model_trim (da_request_fingerprint a)\<rparr>
     in if \<not> uuid_syntax (da_action_id a) then Inl (ModelValidationError ''action_id'')
        else if (case da_employee_id a of None \<Rightarrow> False | Some e \<Rightarrow> \<not> employee_id_syntax e)
        then Inl (ModelValidationError ''employee_id'')
        else if length (da_idempotency_key a) < 8 \<or> 128 < length (da_idempotency_key a)
        then Inl (ModelValidationError ''idempotency_key'')
        else if length (da_correlation_id a) < 8 \<or> 128 < length (da_correlation_id a)
        then Inl (ModelValidationError ''correlation_id'')
        else if \<not> sha256_text (da_request_fingerprint a)
        then Inl (ModelValidationError ''request_fingerprint'')
        else if 2 < da_required_approvals a then Inl (ModelValidationError ''required_approvals'')
        else case check_action_parameters (da_parameters a) of
          Some e \<Rightarrow> Inl (ModelValidationError e)
        | None \<Rightarrow>
            if da_expires_at a \<le> da_created_at a
            then Inl (ModelValidationError ''expires_at must be after created_at'')
            else Inr a)"

end
