(* ===== verification/PolicyRoles.thy ===== *)
theory PolicyRoles
  imports Prelude
begin

text \<open>
  Logical roles and role rules (\<^verbatim>\<open>policies/roles.py\<close>). A \<open>LogicalRole\<close> is a \<open>StrEnum\<close>, so a
  value that reaches \<open>normalize_roles\<close> is a string either way; \<open>parse_role\<close> is the
  constructor call \<open>LogicalRole(value)\<close>. The closure loop is the source's: one pass over a
  snapshot of the roles, repeated while a pass added something.
\<close>

datatype logical_role =
    READ_ONLY
  | HR_READ_ROLE
  | HR_WRITE_ROLE
  | IAM_OPERATOR
  | DOCUMENT_OPERATOR
  | APPROVER
  | SECURITY_ADMIN
  | SYSTEM_ADMIN

instantiation logical_role :: finite
begin

instance
proof
  have "(UNIV :: logical_role set) = {READ_ONLY, HR_READ_ROLE, HR_WRITE_ROLE, IAM_OPERATOR,
      DOCUMENT_OPERATOR, APPROVER, SECURITY_ADMIN, SYSTEM_ADMIN}"
    using logical_role.exhaust by auto
  then show "finite (UNIV :: logical_role set)" by (metis finite.simps)
qed

end

definition role_value :: "logical_role \<Rightarrow> string" where
  "role_value r = (case r of
     READ_ONLY \<Rightarrow> ''READ_ONLY''
   | HR_READ_ROLE \<Rightarrow> ''HR_READ''
   | HR_WRITE_ROLE \<Rightarrow> ''HR_WRITE''
   | IAM_OPERATOR \<Rightarrow> ''IAM_OPERATOR''
   | DOCUMENT_OPERATOR \<Rightarrow> ''DOCUMENT_OPERATOR''
   | APPROVER \<Rightarrow> ''APPROVER''
   | SECURITY_ADMIN \<Rightarrow> ''SECURITY_ADMIN''
   | SYSTEM_ADMIN \<Rightarrow> ''SYSTEM_ADMIN'')"

definition all_roles :: "logical_role list" where
  "all_roles = [READ_ONLY, HR_READ_ROLE, HR_WRITE_ROLE, IAM_OPERATOR, DOCUMENT_OPERATOR,
     APPROVER, SECURITY_ADMIN, SYSTEM_ADMIN]"

definition parse_role :: "string \<Rightarrow> logical_role option" where
  "parse_role v = map_of (map (\<lambda>r. (role_value r, r)) all_roles) v"

lemma parse_role_value [simp]: "parse_role (role_value r) = Some r"
  by (cases r) (simp_all add: parse_role_def all_roles_def role_value_def)

fun implied_roles :: "logical_role \<Rightarrow> logical_role list" where
  "implied_roles HR_READ_ROLE = [READ_ONLY]"
| "implied_roles HR_WRITE_ROLE = [HR_READ_ROLE, READ_ONLY]"
| "implied_roles _ = []"

section \<open>The closure loop of normalize\_roles\<close>

text \<open>\<open>for implied in \<dots>: if implied not in roles: roles.add(implied)\<close>.\<close>

fun add_implied :: "logical_role list \<Rightarrow> logical_role list \<Rightarrow> logical_role list" where
  "add_implied [] roles = roles"
| "add_implied (i # is) roles =
     add_implied is (if i \<in> set roles then roles else roles @ [i])"

fun role_pass :: "logical_role list \<Rightarrow> logical_role list \<Rightarrow> logical_role list" where
  "role_pass [] roles = roles"
| "role_pass (r # rs) roles = role_pass rs (add_implied (implied_roles r) roles)"

lemma add_implied_extends: "\<exists>ys. add_implied is roles = roles @ ys \<and> set ys \<subseteq> set is \<and>
    set ys \<inter> set roles = {}"
proof (induction "is" arbitrary: roles)
  case Nil
  then show ?case by simp
next
  case (Cons i "is")
  show ?case
  proof (cases "i \<in> set roles")
    case True
    with Cons [of roles] show ?thesis by auto
  next
    case False
    from Cons [of "roles @ [i]"] obtain ys where
      "add_implied is (roles @ [i]) = (roles @ [i]) @ ys" "set ys \<subseteq> set is"
      "set ys \<inter> set (roles @ [i]) = {}" by blast
    with False show ?thesis by (intro exI [of _ "i # ys"]) auto
  qed
qed

lemma set_add_implied: "set (add_implied is roles) = set roles \<union> set is"
  by (induction "is" arbitrary: roles) auto

lemma set_role_pass: "set (role_pass rs roles) = set roles \<union> (\<Union>r\<in>set rs. set (implied_roles r))"
  by (induction rs arbitrary: roles) (auto simp: set_add_implied)

lemma role_pass_extends: "\<exists>ys. role_pass rs roles = roles @ ys \<and> set ys \<inter> set roles = {}"
proof (induction rs arbitrary: roles)
  case Nil
  then show ?case by simp
next
  case (Cons r rs)
  obtain ys where ys: "add_implied (implied_roles r) roles = roles @ ys" "set ys \<inter> set roles = {}"
    using add_implied_extends by blast
  from Cons [of "roles @ ys"] obtain zs where
    "role_pass rs (roles @ ys) = (roles @ ys) @ zs" "set zs \<inter> set (roles @ ys) = {}" by blast
  with ys show ?case by (intro exI [of _ "ys @ zs"]) auto
qed

lemma role_pass_changed: "role_pass rs roles \<noteq> roles \<Longrightarrow> set roles \<subset> set (role_pass rs roles)"
proof -
  assume ne: "role_pass rs roles \<noteq> roles"
  obtain ys where ys: "role_pass rs roles = roles @ ys" "set ys \<inter> set roles = {}"
    using role_pass_extends by blast
  with ne have "ys \<noteq> []" by auto
  then obtain y where "y \<in> set ys" by (cases ys) auto
  with ys show ?thesis by auto
qed

text \<open>The loop ends: a pass that changed something leaves fewer roles outside the set.\<close>

function close_roles :: "logical_role list \<Rightarrow> logical_role list" where
  "close_roles roles =
     (let next = role_pass roles roles in if next = roles then roles else close_roles next)"
  by pat_completeness auto
termination
proof (relation "measure (\<lambda>roles. card (- set roles))", goal_cases)
  case 1
  show ?case by simp
next
  case (2 roles "next")
  then have "set roles \<subset> set next" by (auto dest: role_pass_changed)
  then have "- set next \<subset> - set roles" by auto
  then show ?case by (simp add: psubset_card_mono)
qed

declare close_roles.simps [simp del]

fun parse_roles :: "string list \<Rightarrow> logical_role list option" where
  "parse_roles [] = Some []"
| "parse_roles (v # vs) =
     (case parse_role v of
        None \<Rightarrow> None
      | Some r \<Rightarrow> map_option (\<lambda>rs. r # rs) (parse_roles vs))"

text \<open>
  The result is a \<open>frozenset\<close>, held as a list; \<open>None\<close> is the \<open>ValueError\<close> of an unknown role.
\<close>

definition normalize_roles :: "string list \<Rightarrow> logical_role list option" where
  "normalize_roles vals = map_option (\<lambda>rs. close_roles (remdups rs)) (parse_roles vals)"

section \<open>What the loop computes\<close>

definition implied_closed :: "logical_role set \<Rightarrow> bool" where
  "implied_closed R = (\<forall>r\<in>R. set (implied_roles r) \<subseteq> R)"

definition expand_roles :: "logical_role set \<Rightarrow> logical_role set" where
  "expand_roles R = R \<union> (if HR_WRITE_ROLE \<in> R then {HR_READ_ROLE, READ_ONLY} else {})
     \<union> (if HR_READ_ROLE \<in> R then {READ_ONLY} else {})"

lemma implied_closed_iff:
  "implied_closed R \<longleftrightarrow>
     (HR_WRITE_ROLE \<in> R \<longrightarrow> HR_READ_ROLE \<in> R \<and> READ_ONLY \<in> R) \<and> (HR_READ_ROLE \<in> R \<longrightarrow> READ_ONLY \<in> R)"
proof
  assume "implied_closed R"
  then show "(HR_WRITE_ROLE \<in> R \<longrightarrow> HR_READ_ROLE \<in> R \<and> READ_ONLY \<in> R) \<and>
      (HR_READ_ROLE \<in> R \<longrightarrow> READ_ONLY \<in> R)"
    unfolding implied_closed_def by (metis implied_roles.simps(1,2) insert_subset list.simps(15))
next
  assume R: "(HR_WRITE_ROLE \<in> R \<longrightarrow> HR_READ_ROLE \<in> R \<and> READ_ONLY \<in> R) \<and>
      (HR_READ_ROLE \<in> R \<longrightarrow> READ_ONLY \<in> R)"
  have "set (implied_roles r) \<subseteq> R" if "r \<in> R" for r
    using R that by (cases r) auto
  then show "implied_closed R" by (simp add: implied_closed_def)
qed

lemma expand_roles_closed: "implied_closed (expand_roles R)"
  by (auto simp: implied_closed_iff expand_roles_def)

lemma expand_roles_id: "implied_closed R \<Longrightarrow> expand_roles R = R"
  by (auto simp: implied_closed_iff expand_roles_def)

lemma expand_roles_implied: "expand_roles (R \<union> (\<Union>r\<in>R. set (implied_roles r))) = expand_roles R"
proof -
  have in_implied: "x \<in> set (implied_roles r) \<Longrightarrow>
      (r = HR_READ_ROLE \<and> x = READ_ONLY) \<or> (r = HR_WRITE_ROLE \<and> (x = HR_READ_ROLE \<or> x = READ_ONLY))" for r x
    by (cases r) auto
  show ?thesis
    by (rule set_eqI) (use in_implied in \<open>fastforce simp: expand_roles_def split: if_splits\<close>)
qed

lemma set_close_roles: "set (close_roles roles) = expand_roles (set roles)"
proof (induction roles rule: close_roles.induct)
  case (1 roles)
  show ?case
  proof (cases "role_pass roles roles = roles")
    case True
    then have "(\<Union>r\<in>set roles. set (implied_roles r)) \<subseteq> set roles"
      by (metis Un_upper2 set_role_pass)
    then have "implied_closed (set roles)" by (auto simp: implied_closed_def)
    with True show ?thesis by (simp add: close_roles.simps [of roles] expand_roles_id)
  next
    case False
    with 1 [OF refl] have "set (close_roles roles) = expand_roles (set (role_pass roles roles))"
      by (simp add: close_roles.simps [of roles])
    then show ?thesis by (simp add: set_role_pass expand_roles_implied)
  qed
qed

lemma normalize_roles_expand:
  "map_option set (normalize_roles vals) = map_option (\<lambda>rs. expand_roles (set rs)) (parse_roles vals)"
  by (simp add: normalize_roles_def option.map_comp comp_def set_close_roles)

lemma normalize_roles_Some:
  "normalize_roles vals = Some rs \<Longrightarrow>
     \<exists>ps. parse_roles vals = Some ps \<and> set rs = expand_roles (set ps)"
  by (auto simp: normalize_roles_def set_close_roles)

lemma parse_roles_values [simp]: "parse_roles (map role_value rs) = Some rs"
  by (induction rs) simp_all

lemma parse_roles_None: "parse_roles vals = None \<longleftrightarrow> (\<exists>v\<in>set vals. parse_role v = None)"
  by (induction vals) (auto split: option.splits)

section \<open>Role rules\<close>

record role_rule =
  rr_all_of :: "logical_role list"
  rr_any_of :: "logical_role list"
  rr_entitlements :: "string list"

text \<open>
  \<open>RoleRule.matches\<close> runs the closure loop again; the roles are \<open>LogicalRole\<close> members at both
  call sites, so no \<open>ValueError\<close> can come from the second run.
\<close>

definition role_rule_matches :: "role_rule \<Rightarrow> logical_role list \<Rightarrow> string set \<Rightarrow> bool" where
  "role_rule_matches rule roles entitlements = (let expanded = close_roles roles in
     set (rr_all_of rule) \<subseteq> set expanded
     \<and> (rr_any_of rule = [] \<or> \<not> (set (rr_any_of rule) \<inter> set expanded = {}))
     \<and> set (rr_entitlements rule) \<subseteq> entitlements)"

record scoped_role_rule =
  sr_scope :: string
  sr_rule :: role_rule

lemma expand_roles_mono: "R \<subseteq> R' \<Longrightarrow> expand_roles R \<subseteq> expand_roles R'"
  by (auto simp: expand_roles_def)

lemma role_rule_matches_mono:
  assumes "role_rule_matches rule rs E" and "set rs \<subseteq> set rs'" and "E \<subseteq> E'"
  shows "role_rule_matches rule rs' E'"
  using assms expand_roles_mono [OF assms(2)]
  by (auto simp: role_rule_matches_def Let_def set_close_roles)

section \<open>The promise\<close>

text \<open>Role normalisation. \<open>normalize_roles\<close> refuses exactly the inputs with an unknown role, and
  otherwise returns the least set of roles that holds the given ones and everything they imply.\<close>

theorem normalize_roles_least_closure:
  "(normalize_roles vals = None \<longleftrightarrow> (\<exists>v\<in>set vals. parse_role v = None))
   \<and> (\<forall>rs ps. normalize_roles vals = Some rs \<and> parse_roles vals = Some ps \<longrightarrow>
        implied_closed (set rs) \<and> set ps \<subseteq> set rs
        \<and> (\<forall>R. implied_closed R \<and> set ps \<subseteq> R \<longrightarrow> set rs \<subseteq> R))"
proof -
  have least: "expand_roles P \<subseteq> R" if "implied_closed R" "P \<subseteq> R" for P R
    using expand_roles_mono [OF that(2)] expand_roles_id [OF that(1)] by simp
  have "normalize_roles vals = None \<longleftrightarrow> (\<exists>v\<in>set vals. parse_role v = None)"
    by (simp add: normalize_roles_def parse_roles_None)
  moreover have "implied_closed (set rs) \<and> set ps \<subseteq> set rs
        \<and> (\<forall>R. implied_closed R \<and> set ps \<subseteq> R \<longrightarrow> set rs \<subseteq> R)"
    if "normalize_roles vals = Some rs" "parse_roles vals = Some ps" for rs ps
  proof -
    from normalize_roles_Some [OF that(1)] that(2) have rs: "set rs = expand_roles (set ps)" by simp
    have "set ps \<subseteq> expand_roles (set ps)" by (auto simp: expand_roles_def)
    then show ?thesis unfolding rs using expand_roles_closed least by blast
  qed
  ultimately show ?thesis by blast
qed

theorem normalize_roles_least_closure_witness:
  "\<exists>rs. normalize_roles [''HR_WRITE''] = Some rs \<and> implied_closed (set rs) \<and> HR_WRITE_ROLE \<in> set rs"
proof -
  have p: "parse_roles [''HR_WRITE''] = Some [HR_WRITE_ROLE]" by code_simp
  then have "normalize_roles [''HR_WRITE''] \<noteq> None" by (simp add: normalize_roles_def)
  then obtain rs where rs: "normalize_roles [''HR_WRITE''] = Some rs" by auto
  with p normalize_roles_least_closure [of "[''HR_WRITE'']"] show ?thesis by auto
qed

end
