(* ===== verification/PolicyCatalog.thy ===== *)
theory PolicyCatalog
  imports PolicyRoles
begin

text \<open>
  The authoritative Function ID catalogue (\<^verbatim>\<open>policies/catalog.py\<close>): the types of a specification,
  the constructors \<open>_rule\<close>, \<open>_read\<close>, \<open>_write\<close>, \<open>_text\<close> and \<open>_date\<close> with their keyword defaults,
  the 36 specifications in source order, and \<open>_build_catalog\<close> with every refusal it can raise.
  A \<open>frozenset\<close> of the source is a list in the order the source writes it.
\<close>

datatype action_class =
  AC_READ | AC_SEARCH | AC_FILTER | AC_PREPARE_WRITE | AC_FILE_UPLOAD | AC_EXPORT

datatype sensitivity = SENS_LOW | SENS_MEDIUM | SENS_HIGH | SENS_CRITICAL

datatype write_parameter_kind = KIND_TEXT | KIND_INTEGER | KIND_BOOLEAN | KIND_DECIMAL | KIND_DATE

text \<open>The two regular expressions the catalogue uses.\<close>

datatype param_pattern = IDENTIFIER_PATTERN | UPLOAD_ID_PATTERN

record write_parameter_spec =
  wp_name :: string
  wp_kind :: write_parameter_kind
  wp_required :: bool
  wp_min_length :: "nat option"
  wp_max_length :: "nat option"
  wp_min_value :: "int option"
  wp_max_value :: "int option"
  wp_max_integer_digits :: "nat option"
  wp_max_decimal_places :: "nat option"
  wp_pattern :: "param_pattern option"
  wp_choices :: "string list"

datatype resource_snapshot_kind =
    SNAP_EMPLOYEE
  | SNAP_EMPLOYEE_CREATE
  | SNAP_CONTRACT
  | SNAP_MATURATION_COLLECTION
  | SNAP_BALANCE_CORRECTION
  | SNAP_ACCOUNT
  | SNAP_ROLE
  | SNAP_DOCUMENT
  | SNAP_DOCUMENT_COLLECTION
  | SNAP_EXPORT_SOURCE
  | SNAP_NOTIFICATION

definition PREVIEW_FIELD_MASKS :: "(string \<times> string) list" where
  "PREVIEW_FIELD_MASKS = [
     (''first_name'', ''[PII_REDACTED]''),
     (''last_name'', ''[PII_REDACTED]''),
     (''name'', ''[PII_REDACTED]''),
     (''payroll_number'', ''[PII_REDACTED]''),
     (''tax_code'', ''[PII_REDACTED]''),
     (''birth_date'', ''[PII_REDACTED]''),
     (''iban'', ''[PII_REDACTED]''),
     (''phone'', ''[PII_REDACTED]''),
     (''business_email'', ''[PII_REDACTED]''),
     (''address'', ''[PII_REDACTED]''),
     (''notes'', ''[REDACTED]''),
     (''description'', ''[REDACTED]''),
     (''title'', ''[REDACTED]''),
     (''original_filename'', ''[REDACTED]''),
     (''upload_id'', ''[REDACTED]'')]"

record function_spec =
  fs_function_id :: string
  fs_title :: string
  fs_action_class :: action_class
  fs_sensitivity :: sensitivity
  fs_feature_flags :: "string list"
  fs_role_rules :: "scoped_role_rule list"
  fs_confirmation_required :: bool
  fs_approvals_required :: nat
  fs_approver_roles :: "logical_role list"
  fs_requires_target :: bool
  fs_destructive :: bool
  fs_expose_to_model :: bool
  fs_enabled_by_default :: bool
  fs_required_capabilities :: "string list"
  fs_text_confirmation_template :: "string option"
  fs_write_parameters :: "write_parameter_spec list"
  fs_write_required_any :: "string list"
  fs_write_selectors :: "string list"
  fs_resource_snapshot :: "resource_snapshot_kind option"
  fs_fixed_preview_after :: "(string \<times> string) list"
  fs_deletes_resource :: bool
  fs_always_effectful :: bool
  fs_operator_live_available :: bool
  fs_adapter_managed :: bool

definition is_write :: "function_spec \<Rightarrow> bool" where
  "is_write spec = (fs_action_class spec \<in> {AC_PREPARE_WRITE, AC_FILE_UPLOAD, AC_EXPORT})"

fun find_scope :: "scoped_role_rule list \<Rightarrow> string \<Rightarrow> role_rule option" where
  "find_scope [] scope = None"
| "find_scope (r # rs) scope = (if sr_scope r = scope then Some (sr_rule r) else find_scope rs scope)"

definition spec_role_rule :: "function_spec \<Rightarrow> string \<Rightarrow> role_rule option" where
  "spec_role_rule spec scope =
     (case find_scope (fs_role_rules spec) scope of
        Some rule \<Rightarrow> Some rule
      | None \<Rightarrow> find_scope (fs_role_rules spec) ''default'')"

definition operational_parameter_names :: "function_spec \<Rightarrow> string list" where
  "operational_parameter_names spec =
     filter (\<lambda>n. n \<noteq> ''motivation'') (map wp_name (fs_write_parameters spec))"

definition preview_mask :: "string \<Rightarrow> string option" where
  "preview_mask field_name = map_of PREVIEW_FIELD_MASKS field_name"

section \<open>Constructors with their keyword defaults\<close>

definition make_rule ::
  "logical_role list \<Rightarrow> string \<Rightarrow> logical_role list \<Rightarrow> string list \<Rightarrow> scoped_role_rule" where
  "make_rule roles scope all_of entitlements =
     \<lparr>sr_scope = scope,
      sr_rule = \<lparr>rr_all_of = all_of, rr_any_of = roles, rr_entitlements = entitlements\<rparr>\<rparr>"

record read_options =
  ro_action_class :: action_class
  ro_sensitivity :: sensitivity
  ro_target :: bool
  ro_expose :: bool
  ro_capabilities :: "string list"
  ro_adapter_managed :: bool

definition default_read_options :: read_options where
  "default_read_options = \<lparr>ro_action_class = AC_READ, ro_sensitivity = SENS_MEDIUM,
     ro_target = False, ro_expose = True, ro_capabilities = [], ro_adapter_managed = True\<rparr>"

definition read_spec ::
  "string \<Rightarrow> string \<Rightarrow> scoped_role_rule list \<Rightarrow> read_options \<Rightarrow> function_spec" where
  "read_spec function_id title role_rules opts =
     \<lparr>fs_function_id = function_id, fs_title = title,
      fs_action_class = ro_action_class opts, fs_sensitivity = ro_sensitivity opts,
      fs_feature_flags = [''ENABLE_READ_ACTIONS''], fs_role_rules = role_rules,
      fs_confirmation_required = False, fs_approvals_required = 0, fs_approver_roles = [],
      fs_requires_target = ro_target opts, fs_destructive = False,
      fs_expose_to_model = ro_expose opts, fs_enabled_by_default = True,
      fs_required_capabilities = ro_capabilities opts, fs_text_confirmation_template = None,
      fs_write_parameters = [], fs_write_required_any = [], fs_write_selectors = [],
      fs_resource_snapshot = None, fs_fixed_preview_after = [], fs_deletes_resource = False,
      fs_always_effectful = False, fs_operator_live_available = True,
      fs_adapter_managed = ro_adapter_managed opts\<rparr>"

record write_options =
  wo_approvals :: nat
  wo_approver_roles :: "logical_role list"
  wo_sensitivity :: sensitivity
  wo_target :: bool
  wo_destructive :: bool
  wo_expose :: bool
  wo_action_class :: action_class
  wo_capabilities :: "string list"
  wo_confirmation_template :: "string option"
  wo_write_required_any :: "string list"
  wo_write_selectors :: "string list"
  wo_fixed_preview_after :: "(string \<times> string) list"
  wo_deletes_resource :: bool
  wo_always_effectful :: bool
  wo_operator_live_available :: bool

definition default_write_options :: write_options where
  "default_write_options = \<lparr>wo_approvals = 0, wo_approver_roles = [APPROVER],
     wo_sensitivity = SENS_HIGH, wo_target = True, wo_destructive = False, wo_expose = True,
     wo_action_class = AC_PREPARE_WRITE, wo_capabilities = [], wo_confirmation_template = None,
     wo_write_required_any = [], wo_write_selectors = [], wo_fixed_preview_after = [],
     wo_deletes_resource = False, wo_always_effectful = False,
     wo_operator_live_available = True\<rparr>"

definition write_spec ::
  "string \<Rightarrow> string \<Rightarrow> string \<Rightarrow> scoped_role_rule list \<Rightarrow> write_options \<Rightarrow>
   write_parameter_spec list \<Rightarrow> resource_snapshot_kind \<Rightarrow> function_spec" where
  "write_spec function_id title flag roles opts write_parameters resource_snapshot =
     \<lparr>fs_function_id = function_id, fs_title = title,
      fs_action_class = wo_action_class opts, fs_sensitivity = wo_sensitivity opts,
      fs_feature_flags = [''ENABLE_WRITE_ACTIONS'', flag], fs_role_rules = roles,
      fs_confirmation_required = True, fs_approvals_required = wo_approvals opts,
      fs_approver_roles = (if wo_approvals opts \<noteq> 0 then wo_approver_roles opts else []),
      fs_requires_target = wo_target opts, fs_destructive = wo_destructive opts,
      fs_expose_to_model = wo_expose opts, fs_enabled_by_default = False,
      fs_required_capabilities = wo_capabilities opts,
      fs_text_confirmation_template = wo_confirmation_template opts,
      fs_write_parameters = write_parameters,
      fs_write_required_any = wo_write_required_any opts,
      fs_write_selectors = wo_write_selectors opts,
      fs_resource_snapshot = Some resource_snapshot,
      fs_fixed_preview_after = wo_fixed_preview_after opts,
      fs_deletes_resource = wo_deletes_resource opts,
      fs_always_effectful = wo_always_effectful opts,
      fs_operator_live_available = wo_operator_live_available opts,
      fs_adapter_managed = True\<rparr>"

text \<open>\<open>WriteParameterSpec(name, kind)\<close> with the dataclass defaults of its other fields.\<close>

definition WriteParameterSpec :: "string \<Rightarrow> write_parameter_kind \<Rightarrow> write_parameter_spec" where
  "WriteParameterSpec name kind = \<lparr>wp_name = name, wp_kind = kind, wp_required = True,
     wp_min_length = None, wp_max_length = None, wp_min_value = None, wp_max_value = None,
     wp_max_integer_digits = None, wp_max_decimal_places = None, wp_pattern = None,
     wp_choices = []\<rparr>"

definition text_param ::
  "string \<Rightarrow> bool \<Rightarrow> nat \<Rightarrow> param_pattern option \<Rightarrow> string list \<Rightarrow> write_parameter_spec" where
  "text_param name required max_length pattern choices =
     (WriteParameterSpec name KIND_TEXT)
       \<lparr>wp_required := required, wp_min_length := Some 1, wp_max_length := Some max_length,
        wp_pattern := pattern, wp_choices := choices\<rparr>"

definition date_param :: "string \<Rightarrow> bool \<Rightarrow> write_parameter_spec" where
  "date_param name required = (WriteParameterSpec name KIND_DATE)\<lparr>wp_required := required\<rparr>"

definition HR_READ :: "scoped_role_rule list" where
  "HR_READ = [make_rule [HR_READ_ROLE] ''default'' [] []]"

definition PAYROLL_READ :: "scoped_role_rule list" where
  "PAYROLL_READ = [make_rule [HR_READ_ROLE] ''default'' [] [''payroll:read'']]"

definition HR_WRITE :: "scoped_role_rule list" where
  "HR_WRITE = [make_rule [HR_WRITE_ROLE] ''default'' [] []]"

definition IAM :: "scoped_role_rule list" where
  "IAM = [make_rule [IAM_OPERATOR] ''default'' [] []]"

definition DOCS :: "scoped_role_rule list" where
  "DOCS = [make_rule [DOCUMENT_OPERATOR] ''default'' [] []]"

definition DOCS_READ :: "scoped_role_rule list" where
  "DOCS_READ = [make_rule [DOCUMENT_OPERATOR] ''default'' [] [''documents:metadata'']]"

definition APPROVERS :: "logical_role list" where
  "APPROVERS = [APPROVER, SYSTEM_ADMIN]"

definition OPTIONAL_MOTIVATION :: write_parameter_spec where
  "OPTIONAL_MOTIVATION = (WriteParameterSpec ''motivation'' KIND_TEXT)
     \<lparr>wp_required := False, wp_min_length := Some 3, wp_max_length := Some 500\<rparr>"

definition REQUIRED_MOTIVATION :: write_parameter_spec where
  "REQUIRED_MOTIVATION = (WriteParameterSpec ''motivation'' KIND_TEXT)
     \<lparr>wp_min_length := Some 3, wp_max_length := Some 500\<rparr>"

definition EMPLOYEE_FIELDS :: "write_parameter_spec list" where
  "EMPLOYEE_FIELDS = [
     text_param ''first_name'' False 128 None [],
     text_param ''last_name'' False 128 None [],
     text_param ''payroll_number'' False 64 None [],
     text_param ''tax_code'' False 32 None [],
     date_param ''birth_date'' False,
     text_param ''iban'' False 64 None [],
     text_param ''job_title'' False 128 None [],
     text_param ''phone'' False 64 None [],
     text_param ''business_email'' False 320 None [],
     text_param ''address'' False 256 None [],
     text_param ''workplace'' False 128 None [],
     text_param ''notes'' False 512 None []]"

definition EMPLOYEE_FIELD_NAMES :: "string list" where
  "EMPLOYEE_FIELD_NAMES = map wp_name EMPLOYEE_FIELDS"

section \<open>The specifications, in source order\<close>

definition EMP_READ_001 :: function_spec where
  "EMP_READ_001 = read_spec ''EMP-READ-001'' ''Elenco e conteggio dipendenti''
     [make_rule [READ_ONLY] ''aggregate'' [] [], make_rule [READ_ONLY] ''exposure'' [] [], make_rule [HR_READ_ROLE] ''default'' [] []]
     (default_read_options\<lparr>ro_sensitivity := SENS_LOW\<rparr>)"

definition EMP_READ_002 :: function_spec where
  "EMP_READ_002 = read_spec ''EMP-READ-002'' ''Dettaglio anagrafico redatto''
     HR_READ
     (default_read_options\<lparr>ro_target := True\<rparr>)"

definition EMP_SEARCH_001 :: function_spec where
  "EMP_SEARCH_001 = read_spec ''EMP-SEARCH-001'' ''Ricerca dipendente''
     HR_READ
     (default_read_options\<lparr>ro_action_class := AC_SEARCH\<rparr>)"

definition EMP_FILTER_001 :: function_spec where
  "EMP_FILTER_001 = read_spec ''EMP-FILTER-001'' ''Filtri elenco''
     HR_READ
     (default_read_options\<lparr>ro_action_class := AC_FILTER\<rparr>)"

definition EMP_SORT_001 :: function_spec where
  "EMP_SORT_001 = read_spec ''EMP-SORT-001'' ''Ordinamento elenco''
     HR_READ
     (default_read_options\<lparr>ro_action_class := AC_FILTER\<rparr>)"

definition EMP_PAGE_001 :: function_spec where
  "EMP_PAGE_001 = read_spec ''EMP-PAGE-001'' ''Paginazione''
     HR_READ
     (default_read_options\<lparr>ro_action_class := AC_FILTER\<rparr>)"

definition EMP_CONTRACT_001 :: function_spec where
  "EMP_CONTRACT_001 = read_spec ''EMP-CONTRACT-001'' ''Consultazione contratti''
     HR_READ
     (default_read_options)"

definition EMP_RBAC_001 :: function_spec where
  "EMP_RBAC_001 = read_spec ''EMP-RBAC-001'' ''Consultazione gruppi e ruoli''
     HR_READ
     (default_read_options\<lparr>ro_target := True\<rparr>)"

definition EMP_TIME_001 :: function_spec where
  "EMP_TIME_001 = read_spec ''EMP-TIME-001'' ''Consultazione timbratura''
     HR_READ
     (default_read_options\<lparr>ro_target := True\<rparr>)"

definition EMP_MAT_001 :: function_spec where
  "EMP_MAT_001 = read_spec ''EMP-MAT-001'' ''Consultazione maturazioni''
     HR_READ
     (default_read_options\<lparr>ro_target := True\<rparr>)"

definition EMP_BAL_001 :: function_spec where
  "EMP_BAL_001 = read_spec ''EMP-BAL-001'' ''Consultazione bilancio''
     [make_rule [HR_READ_ROLE] ''default'' [] [''balances:read'']]
     (default_read_options\<lparr>ro_sensitivity := SENS_HIGH, ro_target := True\<rparr>)"

definition EMP_PAY_001 :: function_spec where
  "EMP_PAY_001 = read_spec ''EMP-PAY-001'' ''Metadati e netto buste paga''
     PAYROLL_READ
     (default_read_options\<lparr>ro_sensitivity := SENS_HIGH, ro_target := True\<rparr>)"

definition EMP_PAY_002 :: function_spec where
  "EMP_PAY_002 = read_spec ''EMP-PAY-002'' ''Ricerca dipendenti con busta paga per mese''
     PAYROLL_READ
     (default_read_options\<lparr>ro_sensitivity := SENS_HIGH\<rparr>)"

definition EMP_NOTIF_001 :: function_spec where
  "EMP_NOTIF_001 = read_spec ''EMP-NOTIF-001'' ''Notifiche Dipendenti in Cloud''
     HR_READ
     (default_read_options\<lparr>ro_sensitivity := SENS_HIGH\<rparr>)"

definition EMP_DOC_001 :: function_spec where
  "EMP_DOC_001 = read_spec ''EMP-DOC-001'' ''Metadati documenti''
     DOCS_READ
     (default_read_options\<lparr>ro_sensitivity := SENS_HIGH, ro_target := True\<rparr>)"

definition EMP_ONBOARD_001 :: function_spec where
  "EMP_ONBOARD_001 = read_spec ''EMP-ONBOARD-001'' ''Estrazione locale documento per bozza dipendente''
     HR_WRITE
     (default_read_options\<lparr>ro_sensitivity := SENS_CRITICAL, ro_expose := False, ro_capabilities := [''clamav'', ''tesseract_ita_eng''], ro_adapter_managed := False\<rparr>)"

definition EMP_UPDATE_001 :: function_spec where
  "EMP_UPDATE_001 = write_spec ''EMP-UPDATE-001'' ''Modifica dati dipendente'' ''ENABLE_EMPLOYEE_UPDATE''
     HR_WRITE
     (default_write_options\<lparr>wo_write_required_any := EMPLOYEE_FIELD_NAMES\<rparr>)
     (EMPLOYEE_FIELDS @ [OPTIONAL_MOTIVATION])
     SNAP_EMPLOYEE"

definition EMP_CREATE_001 :: function_spec where
  "EMP_CREATE_001 = write_spec ''EMP-CREATE-001'' ''Creazione dipendente'' ''ENABLE_EMPLOYEE_CREATE''
     HR_WRITE
     (default_write_options\<lparr>wo_target := False\<rparr>)
     ([text_param ''creation_mode'' False 16 None [''manual''],
        text_param ''first_name'' True 128 None [],
        text_param ''last_name'' True 128 None []] @ drop 2 EMPLOYEE_FIELDS @ [OPTIONAL_MOTIVATION])
     SNAP_EMPLOYEE_CREATE"

definition EMP_CONTRACT_002 :: function_spec where
  "EMP_CONTRACT_002 = write_spec ''EMP-CONTRACT-002'' ''Creazione o modifica contratto'' ''ENABLE_CONTRACT_WRITE''
     HR_WRITE
     (default_write_options\<lparr>wo_approvals := 1,
       wo_approver_roles := [HR_WRITE_ROLE, APPROVER],
       wo_write_required_any := [''schedule'', ''flexibility'', ''permanent'', ''start_date'', ''end_date'', ''ccnl_level'', ''work_regime'', ''description'', ''contract_type''],
       wo_write_selectors := [''contract_id'']\<rparr>)
     ([text_param ''contract_id'' False 128 (Some IDENTIFIER_PATTERN) [],
        text_param ''schedule'' False 128 None [],
        text_param ''flexibility'' False 128 None [],
        (WriteParameterSpec ''permanent'' KIND_BOOLEAN)
          \<lparr>wp_required := False\<rparr>,
        date_param ''start_date'' False,
        date_param ''end_date'' False,
        text_param ''ccnl_level'' False 128 None [],
        text_param ''work_regime'' False 128 None [],
        text_param ''description'' False 256 None [],
        text_param ''contract_type'' False 128 None [],
        OPTIONAL_MOTIVATION])
     SNAP_CONTRACT"

definition EMP_MAT_002 :: function_spec where
  "EMP_MAT_002 = write_spec ''EMP-MAT-002'' ''Nuova maturazione'' ''ENABLE_MATURATION_WRITE''
     HR_WRITE
     (default_write_options\<lparr>wo_approvals := 1,
       wo_approver_roles := [HR_WRITE_ROLE, APPROVER]\<rparr>)
     ([text_param ''category'' True 128 None [],
        date_param ''valid_from'' False,
        date_param ''valid_to'' False,
        OPTIONAL_MOTIVATION])
     SNAP_MATURATION_COLLECTION"

definition EMP_BAL_002 :: function_spec where
  "EMP_BAL_002 = write_spec ''EMP-BAL-002'' ''Correzione bilancio'' ''ENABLE_BALANCE_CORRECTION''
     HR_WRITE
     (default_write_options\<lparr>wo_approvals := 2,
       wo_approver_roles := APPROVERS,
       wo_sensitivity := SENS_CRITICAL,
       wo_destructive := True,
       wo_expose := False,
       wo_confirmation_template := Some ''CONFIRM {employee_id}'',
       wo_write_selectors := [''year'', ''month'', ''category'', ''previous_value'']\<rparr>)
     ([(WriteParameterSpec ''year'' KIND_INTEGER)
          \<lparr>wp_min_value := Some 2000, wp_max_value := Some 2100\<rparr>,
        (WriteParameterSpec ''month'' KIND_INTEGER)
          \<lparr>wp_min_value := Some 1, wp_max_value := Some 12\<rparr>,
        (WriteParameterSpec ''category'' KIND_TEXT)
          \<lparr>wp_min_length := Some 1, wp_max_length := Some 64\<rparr>,
        (WriteParameterSpec ''previous_value'' KIND_DECIMAL)
          \<lparr>wp_max_integer_digits := Some 9, wp_max_decimal_places := Some 4\<rparr>,
        (WriteParameterSpec ''amount'' KIND_DECIMAL)
          \<lparr>wp_max_integer_digits := Some 9, wp_max_decimal_places := Some 4\<rparr>,
        REQUIRED_MOTIVATION])
     SNAP_BALANCE_CORRECTION"

definition EMP_CONNECT_001 :: function_spec where
  "EMP_CONNECT_001 = write_spec ''EMP-CONNECT-001'' ''Collegamento dipendente'' ''ENABLE_ACCOUNT_CONNECT''
     IAM
     (default_write_options\<lparr>wo_approvals := 1,
       wo_approver_roles := [IAM_OPERATOR, HR_WRITE_ROLE, APPROVER],
       wo_fixed_preview_after := [(''account_state'', ''connected'')]\<rparr>)
     ([OPTIONAL_MOTIVATION])
     SNAP_ACCOUNT"

definition EMP_CONNECT_002 :: function_spec where
  "EMP_CONNECT_002 = write_spec ''EMP-CONNECT-002'' ''Scollegamento dipendente'' ''ENABLE_ACCOUNT_DISCONNECT''
     IAM
     (default_write_options\<lparr>wo_approvals := 2,
       wo_approver_roles := APPROVERS,
       wo_sensitivity := SENS_CRITICAL,
       wo_destructive := True,
       wo_confirmation_template := Some ''CONFIRM {employee_id}'',
       wo_fixed_preview_after := [(''account_state'', ''not_connected'')]\<rparr>)
     ([REQUIRED_MOTIVATION])
     SNAP_ACCOUNT"

definition EMP_INVITE_001 :: function_spec where
  "EMP_INVITE_001 = write_spec ''EMP-INVITE-001'' ''Reinvio invito'' ''ENABLE_INVITE_ACTIONS''
     IAM
     (default_write_options\<lparr>wo_fixed_preview_after := [(''account_state'', ''invited'')],
       wo_always_effectful := True,
       wo_operator_live_available := False\<rparr>)
     ([OPTIONAL_MOTIVATION])
     SNAP_ACCOUNT"

definition EMP_INVITE_002 :: function_spec where
  "EMP_INVITE_002 = write_spec ''EMP-INVITE-002'' ''Annullamento invito'' ''ENABLE_INVITE_ACTIONS''
     IAM
     (default_write_options\<lparr>wo_fixed_preview_after := [(''account_state'', ''not_connected'')]\<rparr>)
     ([OPTIONAL_MOTIVATION])
     SNAP_ACCOUNT"

definition EMP_RBAC_002 :: function_spec where
  "EMP_RBAC_002 = write_spec ''EMP-RBAC-002'' ''Modifica permessi e ruoli'' ''ENABLE_RBAC_WRITE''
     [make_rule [] ''default'' [IAM_OPERATOR, APPROVER] []]
     (default_write_options\<lparr>wo_approvals := 2,
       wo_approver_roles := APPROVERS,
       wo_sensitivity := SENS_CRITICAL,
       wo_destructive := True,
       wo_expose := False,
       wo_confirmation_template := Some ''CONFIRM {employee_id}'',
       wo_write_selectors := [''role_name'']\<rparr>)
     ([REQUIRED_MOTIVATION,
        (WriteParameterSpec ''role_name'' KIND_TEXT)
          \<lparr>wp_min_length := Some 1, wp_max_length := Some 128\<rparr>,
        WriteParameterSpec ''enabled'' KIND_BOOLEAN])
     SNAP_ROLE"

definition EMP_STATUS_001 :: function_spec where
  "EMP_STATUS_001 = write_spec ''EMP-STATUS-001'' ''Disattivazione dipendente'' ''ENABLE_STATUS_CHANGE''
     [make_rule [] ''default'' [HR_WRITE_ROLE, APPROVER] []]
     (default_write_options\<lparr>wo_approvals := 2,
       wo_approver_roles := APPROVERS,
       wo_sensitivity := SENS_CRITICAL,
       wo_destructive := True,
       wo_confirmation_template := Some ''CONFIRM {employee_id}'',
       wo_fixed_preview_after := [(''employee_state'', ''inactive'')]\<rparr>)
     ([REQUIRED_MOTIVATION])
     SNAP_ACCOUNT"

definition EMP_STATUS_002 :: function_spec where
  "EMP_STATUS_002 = write_spec ''EMP-STATUS-002'' ''Riattivazione dipendente'' ''ENABLE_STATUS_CHANGE''
     HR_WRITE
     (default_write_options\<lparr>wo_approvals := 1,
       wo_approver_roles := [APPROVER, SYSTEM_ADMIN],
       wo_fixed_preview_after := [(''employee_state'', ''active'')]\<rparr>)
     ([OPTIONAL_MOTIVATION])
     SNAP_ACCOUNT"

definition EMP_NOTIF_002 :: function_spec where
  "EMP_NOTIF_002 = write_spec ''EMP-NOTIF-002'' ''Modifica stato lettura notifica DIC'' ''ENABLE_NOTIFICATION_STATE_CHANGE''
     HR_WRITE
     (default_write_options\<lparr>wo_target := False,
       wo_expose := False,
       wo_write_selectors := [''notification_id'']\<rparr>)
     ([(WriteParameterSpec ''notification_id'' KIND_INTEGER)
          \<lparr>wp_min_value := Some 1, wp_max_value := Some 9007199254740991\<rparr>,
        WriteParameterSpec ''read'' KIND_BOOLEAN])
     SNAP_NOTIFICATION"

definition EMP_DOC_002 :: function_spec where
  "EMP_DOC_002 = write_spec ''EMP-DOC-002'' ''Upload documento'' ''ENABLE_DOCUMENT_UPLOAD''
     DOCS
     (default_write_options\<lparr>wo_action_class := AC_FILE_UPLOAD,
       wo_capabilities := [''clamav''],
       wo_write_selectors := [''upload_id'']\<rparr>)
     ([text_param ''upload_id'' True 32 (Some UPLOAD_ID_PATTERN) [],
        text_param ''category'' True 128 None [],
        date_param ''expiry_date'' False,
        OPTIONAL_MOTIVATION])
     SNAP_DOCUMENT_COLLECTION"

definition EMP_DOC_004 :: function_spec where
  "EMP_DOC_004 = write_spec ''EMP-DOC-004'' ''Modifica metadati documento'' ''ENABLE_DOCUMENT_UPDATE''
     DOCS
     (default_write_options\<lparr>wo_write_required_any := [''category'', ''expiry_date''],
       wo_write_selectors := [''document_id'']\<rparr>)
     ([text_param ''document_id'' True 128 (Some IDENTIFIER_PATTERN) [],
        text_param ''category'' False 128 None [],
        date_param ''expiry_date'' False,
        OPTIONAL_MOTIVATION])
     SNAP_DOCUMENT"

definition EMP_DOC_005 :: function_spec where
  "EMP_DOC_005 = write_spec ''EMP-DOC-005'' ''Eliminazione documento'' ''ENABLE_DOCUMENT_DELETE''
     DOCS
     (default_write_options\<lparr>wo_approvals := 2,
       wo_approver_roles := APPROVERS,
       wo_sensitivity := SENS_CRITICAL,
       wo_destructive := True,
       wo_confirmation_template := Some ''CONFIRM {employee_id}'',
       wo_write_selectors := [''document_id''],
       wo_deletes_resource := True,
       wo_operator_live_available := False\<rparr>)
     ([text_param ''document_id'' True 128 (Some IDENTIFIER_PATTERN) [],
        REQUIRED_MOTIVATION])
     SNAP_DOCUMENT"

definition EMP_EXPORT_001 :: function_spec where
  "EMP_EXPORT_001 = write_spec ''EMP-EXPORT-001'' ''Esportazione locale protetta'' ''ENABLE_EXPORT''
     [make_rule [HR_READ_ROLE, DOCUMENT_OPERATOR] ''exposure'' [] [], make_rule [HR_READ_ROLE] ''employees'' [] [], make_rule [HR_READ_ROLE] ''balances'' [] [''balances:read''], make_rule [DOCUMENT_OPERATOR] ''documents'' [] []]
     (default_write_options\<lparr>wo_action_class := AC_EXPORT,
       wo_target := False,
       wo_always_effectful := True,
       wo_operator_live_available := True\<rparr>)
     ([text_param ''scope'' True 16 None [''employees'', ''balances'', ''documents''],
        text_param ''format'' True 8 None [''pdf'', ''docx'', ''xlsx''],
        text_param ''dataset'' True 32 None [''employees'', ''contracts_expiring''],
        text_param ''status'' True 16 None [''active'', ''inactive'', ''all''],
        date_param ''date_from'' False,
        date_param ''date_to'' False,
        (WriteParameterSpec ''year'' KIND_INTEGER)
          \<lparr>wp_required := False, wp_min_value := Some 2000, wp_max_value := Some 2100\<rparr>,
        OPTIONAL_MOTIVATION])
     SNAP_EXPORT_SOURCE"

definition EMP_DOC_003 :: function_spec where
  "EMP_DOC_003 = write_spec ''EMP-DOC-003'' ''Download documento in area locale protetta'' ''ENABLE_DOCUMENT_DOWNLOAD''
     DOCS
     (default_write_options\<lparr>wo_approvals := 2,
       wo_approver_roles := APPROVERS,
       wo_sensitivity := SENS_CRITICAL,
       wo_destructive := True,
       wo_expose := False,
       wo_confirmation_template := Some ''CONFIRM {employee_id}'',
       wo_write_selectors := [''document_id''],
       wo_always_effectful := True,
       wo_operator_live_available := False\<rparr>)
     ([text_param ''document_id'' True 128 (Some IDENTIFIER_PATTERN) [],
        REQUIRED_MOTIVATION])
     SNAP_DOCUMENT"

definition EMP_DELETE_001 :: function_spec where
  "EMP_DELETE_001 = write_spec ''EMP-DELETE-001'' ''Eliminazione definitiva dipendente'' ''ENABLE_EMPLOYEE_DELETE''
     [make_rule [SYSTEM_ADMIN] ''default'' [] []]
     (default_write_options\<lparr>wo_approvals := 2,
       wo_approver_roles := APPROVERS,
       wo_sensitivity := SENS_CRITICAL,
       wo_destructive := True,
       wo_expose := False,
       wo_confirmation_template := Some ''DELETE {employee_id}'',
       wo_deletes_resource := True\<rparr>)
     ([REQUIRED_MOTIVATION])
     SNAP_EMPLOYEE"

definition EMP_CONTRACT_003 :: function_spec where
  "EMP_CONTRACT_003 = write_spec ''EMP-CONTRACT-003'' ''Eliminazione contratto'' ''ENABLE_CONTRACT_DELETE''
     HR_WRITE
     (default_write_options\<lparr>wo_approvals := 2,
       wo_approver_roles := APPROVERS,
       wo_sensitivity := SENS_CRITICAL,
       wo_destructive := True,
       wo_expose := False,
       wo_confirmation_template := Some ''CONFIRM {employee_id}'',
       wo_write_selectors := [''contract_id''],
       wo_deletes_resource := True,
       wo_operator_live_available := False\<rparr>)
     ([text_param ''contract_id'' True 128 (Some IDENTIFIER_PATTERN) [],
        REQUIRED_MOTIVATION])
     SNAP_CONTRACT"

definition SPECS :: "function_spec list" where
  "SPECS = [
     EMP_READ_001, EMP_READ_002, EMP_SEARCH_001, EMP_FILTER_001,
     EMP_SORT_001, EMP_PAGE_001, EMP_CONTRACT_001, EMP_RBAC_001,
     EMP_TIME_001, EMP_MAT_001, EMP_BAL_001, EMP_PAY_001,
     EMP_PAY_002, EMP_NOTIF_001, EMP_DOC_001, EMP_ONBOARD_001,
     EMP_UPDATE_001, EMP_CREATE_001, EMP_CONTRACT_002, EMP_MAT_002,
     EMP_BAL_002, EMP_CONNECT_001, EMP_CONNECT_002, EMP_INVITE_001,
     EMP_INVITE_002, EMP_RBAC_002, EMP_STATUS_001, EMP_STATUS_002,
     EMP_NOTIF_002, EMP_DOC_002, EMP_DOC_004, EMP_DOC_005,
     EMP_EXPORT_001, EMP_DOC_003, EMP_DELETE_001, EMP_CONTRACT_003]"

lemmas SPEC_defs =
  EMP_READ_001_def EMP_READ_002_def EMP_SEARCH_001_def EMP_FILTER_001_def
  EMP_SORT_001_def EMP_PAGE_001_def EMP_CONTRACT_001_def EMP_RBAC_001_def
  EMP_TIME_001_def EMP_MAT_001_def EMP_BAL_001_def EMP_PAY_001_def
  EMP_PAY_002_def EMP_NOTIF_001_def EMP_DOC_001_def EMP_ONBOARD_001_def
  EMP_UPDATE_001_def EMP_CREATE_001_def EMP_CONTRACT_002_def EMP_MAT_002_def
  EMP_BAL_002_def EMP_CONNECT_001_def EMP_CONNECT_002_def EMP_INVITE_001_def
  EMP_INVITE_002_def EMP_RBAC_002_def EMP_STATUS_001_def EMP_STATUS_002_def
  EMP_NOTIF_002_def EMP_DOC_002_def EMP_DOC_004_def EMP_DOC_005_def
  EMP_EXPORT_001_def EMP_DOC_003_def EMP_DELETE_001_def EMP_CONTRACT_003_def

section \<open>Building the catalogue\<close>

text \<open>The regular expression \<^verbatim>\<open>^EMP-[A-Z]+-[0-9]{3}$\<close> under \<open>fullmatch\<close>.\<close>

definition function_id_pattern :: "string \<Rightarrow> bool" where
  "function_id_pattern s = (starts_with ''EMP-'' s \<and>
     (let r = drop 4 s; letters = takeWhile is_upper r; rest = dropWhile is_upper r
      in letters \<noteq> [] \<and> length rest = 4 \<and> hd rest = CHR ''-'' \<and> list_all is_digit (tl rest)))"

datatype catalog_error =
    InvalidFunctionId string
  | DuplicateFunctionId string
  | MissingKillSwitch string
  | InvalidApprovalCount string
  | MissingApproverRoles string
  | UnsafeDefaultState string
  | DuplicateWriteParameter string
  | MissingSchemaOrSnapshot string
  | OptionalMotivationOnDestructive string
  | WriteMetadataOnRead string
  | InvalidParameterGroup string
  | InvalidSelectorGroup string
  | InvalidFixedPreview string

text \<open>The checks of one specification, in the order the loop body makes them.\<close>

definition check_spec :: "(string \<times> function_spec) list \<Rightarrow> function_spec \<Rightarrow> catalog_error option" where
  "check_spec catalog spec = (let
       fid = fs_function_id spec;
       names = map wp_name (fs_write_parameters spec);
       required = map wp_name (filter wp_required (fs_write_parameters spec));
       fixed = map fst (fs_fixed_preview_after spec) in
     if \<not> function_id_pattern fid then Some (InvalidFunctionId fid)
     else if map_of catalog fid \<noteq> None then Some (DuplicateFunctionId fid)
     else if is_write spec \<and> ''ENABLE_WRITE_ACTIONS'' \<notin> set (fs_feature_flags spec)
       then Some (MissingKillSwitch fid)
     else if fs_approvals_required spec \<notin> {0, 1, 2} then Some (InvalidApprovalCount fid)
     else if fs_approvals_required spec \<noteq> 0 \<and> fs_approver_roles spec = []
       then Some (MissingApproverRoles fid)
     else if fs_enabled_by_default spec = is_write spec then Some (UnsafeDefaultState fid)
     else if \<not> distinct names then Some (DuplicateWriteParameter fid)
     else if is_write spec \<and>
         (fs_write_parameters spec = [] \<or> fs_resource_snapshot spec = None)
       then Some (MissingSchemaOrSnapshot fid)
     else if is_write spec \<and> fs_destructive spec \<and> ''motivation'' \<notin> set required
       then Some (OptionalMotivationOnDestructive fid)
     else if \<not> is_write spec \<and>
         (fs_write_parameters spec \<noteq> [] \<or> fs_resource_snapshot spec \<noteq> None)
       then Some (WriteMetadataOnRead fid)
     else if \<not> set (fs_write_required_any spec) \<subseteq> set names then Some (InvalidParameterGroup fid)
     else if \<not> set (fs_write_selectors spec) \<subseteq> set names then Some (InvalidSelectorGroup fid)
     else if (\<exists>n\<in>set fixed. n \<notin> set names) \<and>
         (operational_parameter_names spec \<noteq> [] \<or>
          \<not> set fixed \<subseteq> {''account_state'', ''employee_state''})
       then Some (InvalidFixedPreview fid)
     else None)"

fun build_catalog_from ::
  "(string \<times> function_spec) list \<Rightarrow> function_spec list \<Rightarrow> catalog_error + (string \<times> function_spec) list" where
  "build_catalog_from catalog [] = Inr catalog"
| "build_catalog_from catalog (spec # specs) =
     (case check_spec catalog spec of
        Some e \<Rightarrow> Inl e
      | None \<Rightarrow> build_catalog_from (AList.update (fs_function_id spec) spec catalog) specs)"

definition build_catalog :: "function_spec list \<Rightarrow> catalog_error + (string \<times> function_spec) list" where
  "build_catalog specs = build_catalog_from [] specs"

text \<open>The module constant: what \<open>_build_catalog()\<close> returned at import.\<close>

definition FUNCTION_CATALOG :: "(string \<times> function_spec) list" where
  "FUNCTION_CATALOG = (case build_catalog SPECS of Inl _ \<Rightarrow> [] | Inr catalog \<Rightarrow> catalog)"

definition READ_FUNCTION_IDS :: "string list" where
  "READ_FUNCTION_IDS = map fst (filter (\<lambda>(k, v). \<not> is_write v) FUNCTION_CATALOG)"

definition WRITE_FUNCTION_IDS :: "string list" where
  "WRITE_FUNCTION_IDS = map fst (filter (\<lambda>(k, v). is_write v) FUNCTION_CATALOG)"

definition get_function_spec :: "string \<Rightarrow> function_spec option" where
  "get_function_spec function_id = map_of FUNCTION_CATALOG function_id"

section \<open>What the catalogue is\<close>

lemma check_spec_extend:
  "map_of catalog (fs_function_id s) = None \<Longrightarrow> check_spec catalog s = check_spec [] s"
  by (simp only: check_spec_def Let_def map_of.simps)

lemma update_new_key: "k \<notin> set (map fst al) \<Longrightarrow> AList.update k v al = al @ [(k, v)]"
  by (induction al) auto

lemma build_catalog_from_ok:
  assumes "list_all (\<lambda>s. check_spec [] s = None) specs" and "distinct (map fs_function_id specs)"
    and "set (map fs_function_id specs) \<inter> set (map fst catalog) = {}"
  shows "build_catalog_from catalog specs = Inr (catalog @ map (\<lambda>s. (fs_function_id s, s)) specs)"
  using assms
proof (induction specs arbitrary: catalog)
  case Nil
  then show ?case by simp
next
  case (Cons s specs)
  from Cons.prems have fresh: "fs_function_id s \<notin> set (map fst catalog)" by auto
  then have "map_of catalog (fs_function_id s) = None" by (simp add: map_of_eq_None_iff)
  from check_spec_extend [OF this] Cons.prems(1) have "check_spec catalog s = None" by simp
  moreover have "build_catalog_from (catalog @ [(fs_function_id s, s)]) specs =
      Inr ((catalog @ [(fs_function_id s, s)]) @ map (\<lambda>s. (fs_function_id s, s)) specs)"
    by (rule Cons.IH) (use Cons.prems in auto)
  ultimately show ?case by (simp add: update_new_key [OF fresh])
qed

lemma specs_checked: "list_all (\<lambda>s. check_spec [] s = None) SPECS"
  by code_simp

lemma specs_distinct: "distinct (map fs_function_id SPECS)"
  by code_simp

lemma build_catalog_specs: "build_catalog SPECS = Inr (map (\<lambda>s. (fs_function_id s, s)) SPECS)"
  using build_catalog_from_ok [OF specs_checked specs_distinct, of "[]"]
  by (simp add: build_catalog_def)

lemma FUNCTION_CATALOG_eq [code]: "FUNCTION_CATALOG = map (\<lambda>s. (fs_function_id s, s)) SPECS"
  by (simp add: FUNCTION_CATALOG_def build_catalog_specs)

lemma FUNCTION_CATALOG_keys: "map fst FUNCTION_CATALOG = map fs_function_id SPECS"
  by (simp add: FUNCTION_CATALOG_eq comp_def)

lemma get_function_spec_Some:
  "get_function_spec f = Some s \<longleftrightarrow> s \<in> set SPECS \<and> fs_function_id s = f"
proof -
  have "distinct (map fst FUNCTION_CATALOG)"
    by (simp only: FUNCTION_CATALOG_keys specs_distinct)
  then have "get_function_spec f = Some s \<longleftrightarrow> (f, s) \<in> set FUNCTION_CATALOG"
    by (simp add: get_function_spec_def map_of_eq_Some_iff)
  then show ?thesis by (auto simp: FUNCTION_CATALOG_eq)
qed

text \<open>A boolean check of all 36 specifications is a fact about every catalogued function.\<close>

lemma catalog_all: "list_all P SPECS \<Longrightarrow> get_function_spec f = Some s \<Longrightarrow> P s"
  by (auto simp: get_function_spec_Some list_all_iff)

lemma get_function_spec_member: "s \<in> set SPECS \<Longrightarrow> get_function_spec (fs_function_id s) = Some s"
  by (simp add: get_function_spec_Some)

lemma get_function_spec_id: "get_function_spec f = Some s \<Longrightarrow> fs_function_id s = f"
  by (simp add: get_function_spec_Some)

lemma write_kill_switch:
  "get_function_spec f = Some s \<Longrightarrow> is_write s \<Longrightarrow> ''ENABLE_WRITE_ACTIONS'' \<in> set (fs_feature_flags s)"
proof -
  assume f: "get_function_spec f = Some s" and w: "is_write s"
  have "list_all (\<lambda>s. is_write s \<longrightarrow> ''ENABLE_WRITE_ACTIONS'' \<in> set (fs_feature_flags s)) SPECS"
    by code_simp
  from catalog_all [OF this f] w show ?thesis by simp
qed

text \<open>
  The contract of a critical write: two approvals by approver roles only, a typed confirmation
  of the target, and a mandatory motivation.
\<close>

definition critical_contract :: "function_spec \<Rightarrow> bool" where
  "critical_contract s =
     (fs_destructive s \<longrightarrow>
        is_write s \<and> fs_sensitivity s = SENS_CRITICAL \<and> fs_approvals_required s = 2
        \<and> set (fs_approver_roles s) = {APPROVER, SYSTEM_ADMIN}
        \<and> fs_text_confirmation_template s \<noteq> None \<and> fs_confirmation_required s
        \<and> ''motivation'' \<in> set (map wp_name (filter wp_required (fs_write_parameters s))))"

lemma specs_critical: "list_all critical_contract SPECS"
  by code_simp

lemma spec_approvals_bound: "get_function_spec f = Some s \<Longrightarrow> fs_approvals_required s \<le> 2"
proof -
  assume f: "get_function_spec f = Some s"
  have "list_all (\<lambda>s. fs_approvals_required s \<le> 2) SPECS" by code_simp
  from catalog_all [OF this f] show ?thesis .
qed

section \<open>The promise\<close>

text \<open>C29: The catalogue. Building it from the 36 specifications of the source raises none of the
  errors of \<open>_build_catalog\<close>; reads and writes split it; every write is behind the kill switch; and
  every destructive function is a critical write that asks for an explicit target text, a motivation
  and two approvals by approvers or system administrators.\<close>

theorem catalog_contract:
  "build_catalog SPECS = Inr FUNCTION_CATALOG \<and> length FUNCTION_CATALOG = 36
   \<and> distinct (map fst FUNCTION_CATALOG)
   \<and> set READ_FUNCTION_IDS \<union> set WRITE_FUNCTION_IDS = set (map fst FUNCTION_CATALOG)
   \<and> set READ_FUNCTION_IDS \<inter> set WRITE_FUNCTION_IDS = {}
   \<and> list_all critical_contract SPECS
   \<and> (\<forall>f s. get_function_spec f = Some s \<and> is_write s \<longrightarrow>
        ''ENABLE_WRITE_ACTIONS'' \<in> set (fs_feature_flags s))"
proof (intro conjI)
  show "build_catalog SPECS = Inr FUNCTION_CATALOG"
    by (simp only: FUNCTION_CATALOG_eq build_catalog_specs)
  show "length FUNCTION_CATALOG = 36"
    by (simp add: FUNCTION_CATALOG_eq SPECS_def)
  show keys: "distinct (map fst FUNCTION_CATALOG)"
    by (simp only: FUNCTION_CATALOG_keys specs_distinct)
  show "set READ_FUNCTION_IDS \<union> set WRITE_FUNCTION_IDS = set (map fst FUNCTION_CATALOG)"
    by (auto simp: READ_FUNCTION_IDS_def WRITE_FUNCTION_IDS_def)
  show "set READ_FUNCTION_IDS \<inter> set WRITE_FUNCTION_IDS = {}"
  proof (rule ccontr)
    assume "set READ_FUNCTION_IDS \<inter> set WRITE_FUNCTION_IDS \<noteq> {}"
    then obtain i a b where a: "(i, a) \<in> set FUNCTION_CATALOG" "\<not> is_write a"
      and b: "(i, b) \<in> set FUNCTION_CATALOG" "is_write b"
      unfolding READ_FUNCTION_IDS_def WRITE_FUNCTION_IDS_def by auto
    from eq_key_imp_eq_value [OF keys a(1) b(1)] a b show False by simp
  qed
  show "list_all critical_contract SPECS" by (rule specs_critical)
  show "\<forall>f s. get_function_spec f = Some s \<and> is_write s \<longrightarrow>
      ''ENABLE_WRITE_ACTIONS'' \<in> set (fs_feature_flags s)"
    using write_kill_switch by blast
qed

theorem catalog_contract_witness:
  "''ENABLE_WRITE_ACTIONS'' \<in> set (fs_feature_flags EMP_STATUS_002)"
proof -
  have "EMP_STATUS_002 \<in> set SPECS" by (simp add: SPECS_def)
  moreover have "is_write EMP_STATUS_002" by code_simp
  ultimately show ?thesis
    using catalog_contract get_function_spec_member [of EMP_STATUS_002] by blast
qed

end
