(* ===== verification/ScalarValues.thy ===== *)
theory ScalarValues
  imports Prelude
begin

text \<open>
  Canonical scalars shared by every write path: \<open>canonical_decimal_text\<close> (\<^verbatim>\<open>dic/values.py\<close>) and
  the calendar dates behind \<open>date.fromisoformat(value.strip()).isoformat()\<close>. Both return a
  normal form that is its own normal form, which is what lets an approved write be validated
  again at execution.
\<close>

section \<open>Decimals\<close>

text \<open>\<open>str.isdigit\<close> on U+0000 to U+00FF also holds of the three superscript digits.\<close>

definition py_isdigit_char :: "char \<Rightarrow> bool" where
  "py_isdigit_char c = (is_digit c \<or> code_point c \<in> {178, 179, 185})"

definition py_isdigit :: "string \<Rightarrow> bool" where
  "py_isdigit s = (s \<noteq> [] \<and> list_all py_isdigit_char s)"

text \<open>\<open>s.partition(".")\<close>: the text before the first dot, whether there is one, the rest.\<close>

definition partition_dot :: "string \<Rightarrow> string \<times> bool \<times> string" where
  "partition_dot s = (takeWhile (\<lambda>c. c \<noteq> CHR ''.'') s,
     (case dropWhile (\<lambda>c. c \<noteq> CHR ''.'') s of
        [] \<Rightarrow> (False, [])
      | _ # r \<Rightarrow> (True, r)))"

definition rstrip_char :: "char \<Rightarrow> string \<Rightarrow> string" where
  "rstrip_char c s = rev (dropWhile (\<lambda>x. x = c) (rev s))"

text \<open>
  \<open>Decimal(text)\<close> accepts the decimal digits but not the superscripts (\<open>InvalidOperation\<close>), and
  \<open>format(number, "f")\<close> of a text that already has this shape gives the text back. \<open>None\<close> is
  the \<open>ValueError\<close> of every refusal.
\<close>

definition canonical_decimal_text :: "string \<Rightarrow> nat \<Rightarrow> nat \<Rightarrow> string option" where
  "canonical_decimal_text value max_integer_digits max_decimal_places = (let
       text = py_strip value;
       unsigned = (if starts_with ''-'' text then tl text else text);
       (integer, separator, fraction) = partition_dot unsigned in
     if text = [] \<or> starts_with ''+'' text
        \<or> \<not> py_isdigit integer
        \<or> (1 < length integer \<and> starts_with ''0'' integer)
        \<or> max_integer_digits < length integer
        \<or> (separator \<and> (\<not> py_isdigit fraction \<or> max_decimal_places < length fraction))
        \<or> (\<not> separator \<and> fraction \<noteq> [])
     then None
     else if \<not> (list_all is_digit integer \<and> list_all is_digit fraction) then None
     else (let canonical = (if CHR ''.'' \<in> set text
                            then rstrip_char (CHR ''.'') (rstrip_char (CHR ''0'') text) else text)
           in Some (if canonical \<in> {''-0'', []} then ''0'' else canonical)))"

section \<open>Dates\<close>

definition is_leap :: "nat \<Rightarrow> bool" where
  "is_leap y = (y mod 4 = 0 \<and> (y mod 100 \<noteq> 0 \<or> y mod 400 = 0))"

definition days_in_month :: "nat \<Rightarrow> nat \<Rightarrow> nat" where
  "days_in_month y m = (if m = 2 then (if is_leap y then 29 else 28)
     else if m \<in> {4, 6, 9, 11} then 30 else 31)"

definition valid_date :: "nat \<times> nat \<times> nat \<Rightarrow> bool" where
  "valid_date = (\<lambda>(y, m, d). 1 \<le> y \<and> y \<le> 9999 \<and> 1 \<le> m \<and> m \<le> 12 \<and> 1 \<le> d \<and> d \<le> days_in_month y m)"

definition days_before_year :: "nat \<Rightarrow> nat" where
  "days_before_year y = (let p = y - 1 in p * 365 + p div 4 - p div 100 + p div 400)"

fun month_of_day :: "nat \<Rightarrow> nat list \<Rightarrow> nat \<Rightarrow> (nat \<times> nat) option" where
  "month_of_day y [] n = None"
| "month_of_day y (m # ms) n =
     (if n \<le> days_in_month y m then Some (m, n) else month_of_day y ms (n - days_in_month y m))"

text \<open>The day with the given ordinal when it falls in year \<open>y\<close>, \<open>y - 1\<close> or \<open>y + 1\<close>.\<close>

definition date_of_ordinal :: "nat \<Rightarrow> nat \<Rightarrow> (nat \<times> nat \<times> nat) option" where
  "date_of_ordinal near n = (let
       y = (if n \<le> days_before_year near then near - 1
            else if n \<le> days_before_year (near + 1) then near else near + 1)
     in map_option (\<lambda>(m, d). (y, m, d))
          (month_of_day y [1, 2, 3, 4, 5, 6, 7, 8, 9, 10, 11, 12] (n - days_before_year y)))"

text \<open>\<open>weekday\<close> counts from Monday = 0.\<close>

definition iso_to_ymd :: "nat \<Rightarrow> nat \<Rightarrow> nat \<Rightarrow> (nat \<times> nat \<times> nat) option" where
  "iso_to_ymd y week day = (let
       first = days_before_year y + 1;
       weekday = (first + 6) mod 7;
       monday = (if 3 < weekday then first - weekday + 7 else first - weekday) in
     if y = 0 \<or> week = 0 \<or> 53 < week
        \<or> (week = 53 \<and> \<not> (weekday = 3 \<or> (weekday = 2 \<and> is_leap y)))
        \<or> day = 0 \<or> 7 < day then None
     else date_of_ordinal y (monday + (week - 1) * 7 + (day - 1)))"

definition digit_val :: "char \<Rightarrow> nat" where
  "digit_val c = code_point c - 48"

definition digits_val :: "string \<Rightarrow> nat" where
  "digits_val s = foldl (\<lambda>n c. n * 10 + digit_val c) 0 s"

text \<open>
  The forms \<open>date.fromisoformat\<close> accepts: \<^verbatim>\<open>YYYY-MM-DD\<close>, \<^verbatim>\<open>YYYYMMDD\<close>, \<^verbatim>\<open>YYYY-Www\<close>, \<^verbatim>\<open>YYYYWww\<close>,
  \<^verbatim>\<open>YYYY-Www-D\<close>, \<^verbatim>\<open>YYYYWwwD\<close>.
\<close>

definition parse_date :: "string \<Rightarrow> (nat \<times> nat \<times> nat) option" where
  "parse_date s = (let
       year = take 4 s;
       sep = (4 < length s \<and> s ! 4 = CHR ''-'');
       rest = drop (if sep then 5 else 4) s;
       result =
        (if length year \<noteq> 4 \<or> \<not> list_all is_digit year then None
         else if starts_with ''W'' rest then
          (let week = take 2 (tl rest); tail = drop 3 rest;
               day = (if tail = [] then Some 1
                      else if sep then
                        (if length tail = 2 \<and> hd tail = CHR ''-'' \<and> is_digit (tail ! 1)
                         then Some (digit_val (tail ! 1)) else None)
                      else if length tail = 1 \<and> is_digit (hd tail) then Some (digit_val (hd tail))
                      else None)
           in if length week \<noteq> 2 \<or> \<not> list_all is_digit week then None
              else case day of None \<Rightarrow> None
                   | Some d \<Rightarrow> iso_to_ymd (digits_val year) (digits_val week) d)
         else
          (let month = take 2 rest; tail = drop 2 rest;
               day = (if sep then (if starts_with ''-'' tail then tl tail else []) else tail)
           in if length month = 2 \<and> list_all is_digit month \<and> length day = 2 \<and> list_all is_digit day
              then Some (digits_val year, digits_val month, digits_val day) else None))
     in case result of None \<Rightarrow> None | Some d \<Rightarrow> if valid_date d then Some d else None)"

definition digit_char :: "nat \<Rightarrow> char" where
  "digit_char n = char_of (48 + n mod 10)"

definition isoformat :: "nat \<times> nat \<times> nat \<Rightarrow> string" where
  "isoformat = (\<lambda>(y, m, d).
     [digit_char (y div 1000), digit_char (y div 100), digit_char (y div 10), digit_char y,
      CHR ''-'', digit_char (m div 10), digit_char m, CHR ''-'', digit_char (d div 10), digit_char d])"

definition canonical_date_text :: "string \<Rightarrow> string option" where
  "canonical_date_text value = map_option isoformat (parse_date (py_strip value))"

section \<open>Normal forms\<close>

lemma code_point_digit_char: "code_point (digit_char n) = 48 + n mod 10"
proof -
  have "n mod 10 < 10" by simp
  then have "48 + n mod 10 < 256" by linarith
  then show ?thesis by (simp add: digit_char_def of_char_of)
qed

lemma is_digit_digit_char [simp]: "is_digit (digit_char n)"
proof -
  have "n mod 10 < 10" by simp
  then have "n mod 10 \<le> 9" by linarith
  then show ?thesis by (simp add: is_digit_def code_point_digit_char)
qed

lemma digit_val_digit_char [simp]: "digit_val (digit_char n) = n mod 10"
  by (simp add: digit_val_def code_point_digit_char)

lemma is_digit_not_space: "is_digit c \<Longrightarrow> \<not> is_space c"
  by (auto simp: is_digit_def is_space_def Let_def)

lemma digit_char_not_W: "digit_char n \<noteq> CHR ''W''"
proof
  assume "digit_char n = CHR ''W''"
  then have "code_point (digit_char n) = code_point (CHR ''W'')" by simp
  then have "48 + n mod 10 = 87" by (simp only: code_point_digit_char) simp
  moreover have "n mod 10 < 10" by simp
  ultimately show False by linarith
qed

lemma py_strip_ends:
  assumes "s \<noteq> []" and "\<not> is_space (hd s)" and "\<not> is_space (last s)"
  shows "py_strip s = s"
proof -
  from assms(1,2) have l: "py_lstrip s = s" by (cases s) (simp_all add: py_lstrip_def)
  from assms(1) obtain t where t: "rev s = last s # t"
    by (metis append_butlast_last_id rev.simps(2) rev_rev_ident)
  have "dropWhile is_space (last s # t) = last s # t" using assms(3) by simp
  then have "dropWhile is_space (rev s) = rev s" by (simp only: t)
  then have "py_rstrip s = s" by (simp add: py_rstrip_def)
  with l show ?thesis by (simp add: py_strip_def)
qed

lemma py_strip_isoformat [simp]: "py_strip (isoformat d) = isoformat d"
  by (cases d) (simp add: isoformat_def py_strip_ends is_digit_not_space)

lemma div_ten_step: "y div (10 * k) * 10 + y div k mod 10 = y div (k::nat)"
  using div_mult_mod_eq [of "y div k" 10] by (simp add: div_mult2_eq [symmetric] mult.commute)

lemma four_digits:
  assumes "y \<le> 9999"
  shows "((y div 1000 mod 10 * 10 + y div 100 mod 10) * 10 + y div 10 mod 10) * 10 + y mod 10 = (y::nat)"
proof -
  from assms have "y div 1000 < 10" by (simp add: less_mult_imp_div_less)
  then have a: "y div 1000 mod 10 = y div 1000" by simp
  from div_ten_step [of y 100] have b: "y div 1000 * 10 + y div 100 mod 10 = y div 100" by simp
  from div_ten_step [of y 10] have c: "y div 100 * 10 + y div 10 mod 10 = y div 10" by simp
  show ?thesis by (simp only: a b c div_mult_mod_eq)
qed

lemma two_digits:
  assumes "m \<le> 99"
  shows "m div 10 mod 10 * 10 + m mod 10 = (m::nat)"
proof -
  from assms have "m div 10 < 10" by (simp add: less_mult_imp_div_less)
  then have "m div 10 mod 10 = m div 10" by simp
  then show ?thesis by (simp only: div_mult_mod_eq)
qed

lemma days_in_month_le: "days_in_month y m \<le> 31"
  by (simp add: days_in_month_def)

lemma parse_isoformat:
  assumes "valid_date d"
  shows "parse_date (isoformat d) = Some d"
proof -
  obtain y m dd where d: "d = (y, m, dd)" by (cases d)
  from assms d have y: "y \<le> 9999" and m: "m \<le> 99" and dd: "dd \<le> 99"
    using days_in_month_le [of y m] by (auto simp: valid_date_def)
  have vals: "digits_val [digit_char (y div 1000), digit_char (y div 100), digit_char (y div 10), digit_char y] = y"
      "digits_val [digit_char (m div 10), digit_char m] = m"
      "digits_val [digit_char (dd div 10), digit_char dd] = dd"
    using four_digits [OF y] two_digits [OF m] two_digits [OF dd] by (simp_all add: digits_val_def)
  show ?thesis
    using assms unfolding d
    by (simp add: parse_date_def isoformat_def starts_with_def digit_char_not_W vals)
qed

lemma parse_date_valid: "parse_date s = Some d \<Longrightarrow> valid_date d"
  by (auto simp: parse_date_def Let_def split: option.splits if_splits)

lemma canonical_date_idem: "canonical_date_text s = Some t \<Longrightarrow> canonical_date_text t = Some t"
  by (auto simp: canonical_date_text_def parse_isoformat dest: parse_date_valid)

section \<open>The normal form of a decimal\<close>

definition decimal_text :: "bool \<Rightarrow> string \<Rightarrow> string \<Rightarrow> string" where
  "decimal_text neg integer fraction =
     (if neg then ''-'' else []) @ integer @ (if fraction = [] then [] else CHR ''.'' # fraction)"

definition decimal_shape :: "nat \<Rightarrow> nat \<Rightarrow> string \<Rightarrow> string \<Rightarrow> bool" where
  "decimal_shape mi mf integer fraction =
     (integer \<noteq> [] \<and> list_all is_digit integer \<and> list_all is_digit fraction
      \<and> (1 < length integer \<longrightarrow> \<not> starts_with ''0'' integer)
      \<and> length integer \<le> mi \<and> length fraction \<le> mf)"

definition canonical_decimal :: "nat \<Rightarrow> nat \<Rightarrow> string \<Rightarrow> bool" where
  "canonical_decimal mi mf c = (\<exists>neg integer fraction. c = decimal_text neg integer fraction
     \<and> decimal_shape mi mf integer fraction
     \<and> (fraction = [] \<or> last fraction \<noteq> CHR ''0'')
     \<and> \<not> (neg \<and> integer = ''0'' \<and> fraction = []))"

lemma is_digit_neq: "is_digit c \<Longrightarrow> c \<noteq> CHR ''.'' \<and> c \<noteq> CHR ''-'' \<and> c \<noteq> CHR ''+''"
  by (auto simp: is_digit_def)

lemma digits_no_dot: "list_all is_digit s \<Longrightarrow> CHR ''.'' \<notin> set s"
  using is_digit_neq by (auto simp: list_all_iff)

lemma partition_dot_digits:
  "list_all is_digit s \<Longrightarrow> partition_dot s = (s, False, [])"
  "list_all is_digit s \<Longrightarrow> partition_dot (s @ CHR ''.'' # r) = (s, True, r)"
  by (induction s) (auto simp: partition_dot_def dest: is_digit_neq)

lemma partition_dot_decomp:
  "partition_dot s = (a, sep, b) \<Longrightarrow> s = a @ (if sep then CHR ''.'' # b else b) \<and> (\<not> sep \<longrightarrow> b = [])"
proof -
  assume p: "partition_dot s = (a, sep, b)"
  have "s = takeWhile (\<lambda>c. c \<noteq> CHR ''.'') s @ dropWhile (\<lambda>c. c \<noteq> CHR ''.'') s" by simp
  with p show ?thesis
    by (cases "dropWhile (\<lambda>c. c \<noteq> CHR ''.'') s")
      (auto simp: partition_dot_def dest: dropWhile_head)
qed

lemma rstrip_char_stop: "d \<noteq> c \<Longrightarrow> rstrip_char c (xs @ d # ys) = xs @ d # rstrip_char c ys"
  by (induction ys rule: rev_induct) (auto simp: rstrip_char_def)

lemma rstrip_char_last: "s \<noteq> [] \<Longrightarrow> last s \<noteq> c \<Longrightarrow> rstrip_char c s = s"
  using rstrip_char_stop [of "last s" c "butlast s" "[]"]
  by (simp add: append_butlast_last_id) (simp add: rstrip_char_def)

lemma rstrip_char_snoc: "rstrip_char c (s @ [c]) = rstrip_char c s"
  by (simp add: rstrip_char_def)

lemma rstrip_char_result: "rstrip_char c s = [] \<or> last (rstrip_char c s) \<noteq> c"
  by (metis (mono_tags, lifting) hd_dropWhile last_rev rev_is_Nil_conv rstrip_char_def)

lemma rstrip_char_subset: "set (rstrip_char c s) \<subseteq> set s"
  by (auto simp: rstrip_char_def dest: set_dropWhileD)

lemma length_rstrip_char: "length (rstrip_char c s) \<le> length s"
  using length_dropWhile_le [of "\<lambda>x. x = c" "rev s"] by (simp add: rstrip_char_def)

lemma strip_decimal_text:
  assumes "integer \<noteq> []" and "list_all is_digit integer" and "list_all is_digit fraction"
  shows "rstrip_char (CHR ''.'') (rstrip_char (CHR ''0'') (pre @ integer @ CHR ''.'' # fraction)) =
    pre @ integer @ (if rstrip_char (CHR ''0'') fraction = [] then []
                     else CHR ''.'' # rstrip_char (CHR ''0'') fraction)"
proof -
  let ?f = "rstrip_char (CHR ''0'') fraction"
  have zero: "rstrip_char (CHR ''0'') ((pre @ integer) @ CHR ''.'' # fraction) = (pre @ integer) @ CHR ''.'' # ?f"
    by (rule rstrip_char_stop) simp
  show ?thesis
  proof (cases "?f = []")
    case True
    have "last (pre @ integer) \<noteq> CHR ''.''"
      using assms(1,2) is_digit_neq by (metis last_append last_in_set list_all_iff)
    then have "rstrip_char (CHR ''.'') (pre @ integer) = pre @ integer"
      using assms(1) by (intro rstrip_char_last) simp_all
    with zero True show ?thesis
      using rstrip_char_snoc [of "CHR ''.''" "pre @ integer"] by simp
  next
    case False
    then have "last ?f \<in> set fraction" using rstrip_char_subset by (metis last_in_set subsetD)
    then have "last ?f \<noteq> CHR ''.''" using assms(3) is_digit_neq by (metis list_all_iff)
    with False have "rstrip_char (CHR ''.'') ((pre @ integer) @ CHR ''.'' # ?f) = (pre @ integer) @ CHR ''.'' # ?f"
      by (intro rstrip_char_last) simp_all
    with zero False show ?thesis by simp
  qed
qed

lemma canonical_decimal_result:
  assumes "canonical_decimal_text v mi mf = Some c"
  shows "canonical_decimal mi mf c"
proof -
  let ?t = "py_strip v"
  let ?pre = "if starts_with ''-'' ?t then ''-'' else []"
  obtain integer sep fraction where
    p: "partition_dot (if starts_with ''-'' ?t then tl ?t else ?t) = (integer, sep, fraction)"
    by (cases "partition_dot (if starts_with ''-'' ?t then tl ?t else ?t)") auto
  have shape: "decimal_shape mi mf integer fraction" and nosep: "\<not> sep \<longrightarrow> fraction = []"
    and int: "integer \<noteq> []" "list_all is_digit integer" "list_all is_digit fraction"
    and c: "c = (let canonical = (if CHR ''.'' \<in> set ?t
              then rstrip_char (CHR ''.'') (rstrip_char (CHR ''0'') ?t) else ?t)
            in if canonical \<in> {''-0'', []} then ''0'' else canonical)"
    using assms p
    by (auto simp: canonical_decimal_text_def Let_def py_isdigit_def decimal_shape_def split: if_splits)
  from partition_dot_decomp [OF p]
  have "(if starts_with ''-'' ?t then tl ?t else ?t) = integer @ (if sep then CHR ''.'' # fraction else [])"
    by auto
  then have t: "?t = ?pre @ integer @ (if sep then CHR ''.'' # fraction else [])"
    by (cases ?t) (auto simp: starts_with_def split: if_splits)
  let ?f = "rstrip_char (CHR ''0'') fraction"
  have dot: "CHR ''.'' \<in> set ?t \<longleftrightarrow> sep"
    by (subst t) (use digits_no_dot [OF int(2)] in auto)
  have canon: "(if CHR ''.'' \<in> set ?t then rstrip_char (CHR ''.'') (rstrip_char (CHR ''0'') ?t) else ?t)
      = decimal_text (starts_with ''-'' ?t) integer ?f"
  proof (cases sep)
    case True
    with t have "?t = ?pre @ integer @ CHR ''.'' # fraction" by simp
    with True dot strip_decimal_text [OF int, of ?pre] show ?thesis
      by (simp add: decimal_text_def)
  next
    case False
    with nosep have "?f = []" by (simp add: rstrip_char_def)
    with False dot t show ?thesis by (simp add: decimal_text_def)
  qed
  have digits: "list_all is_digit ?f" "length ?f \<le> mf"
    using int(3) rstrip_char_subset [of "CHR ''0''" fraction] shape length_rstrip_char [of "CHR ''0''" fraction]
    by (auto simp: list_all_iff decimal_shape_def)
  with shape have shape': "decimal_shape mi mf integer ?f" by (simp add: decimal_shape_def)
  show ?thesis
  proof (cases "decimal_text (starts_with ''-'' ?t) integer ?f \<in> {''-0'', []}")
    case True
    with c canon have "c = decimal_text False ''0'' []" by (simp add: decimal_text_def Let_def)
    moreover have "decimal_shape mi mf ''0'' []"
      using shape int(1) by (cases integer) (auto simp: decimal_shape_def is_digit_def starts_with_def)
    ultimately show ?thesis unfolding canonical_decimal_def by blast
  next
    case False
    with c canon have "c = decimal_text (starts_with ''-'' ?t) integer ?f" by (simp add: Let_def)
    moreover have "\<not> (starts_with ''-'' ?t \<and> integer = ''0'' \<and> ?f = [])"
      using False by (auto simp: decimal_text_def)
    ultimately show ?thesis
      using shape' rstrip_char_result [of "CHR ''0''" fraction] unfolding canonical_decimal_def by blast
  qed
qed

lemma decimal_text_ends:
  assumes "integer \<noteq> []" and "list_all is_digit integer" and "list_all is_digit fraction"
  shows "py_strip (decimal_text neg integer fraction) = decimal_text neg integer fraction"
proof (rule py_strip_ends)
  show "decimal_text neg integer fraction \<noteq> []" using assms(1) by (simp add: decimal_text_def)
  have "is_digit (hd integer)" using assms(1,2) by (cases integer) simp_all
  then show "\<not> is_space (hd (decimal_text neg integer fraction))"
    using assms(1) is_digit_not_space [of "hd integer"]
    by (cases neg) (simp_all add: decimal_text_def, simp add: is_space_def)
  have "is_digit (last (decimal_text neg integer fraction))"
    using assms last_in_set [of integer] last_in_set [of fraction]
    by (auto simp: decimal_text_def list_all_iff)
  then show "\<not> is_space (last (decimal_text neg integer fraction))" by (rule is_digit_not_space)
qed

lemma canonical_decimal_fixed:
  assumes "canonical_decimal mi mf c"
  shows "canonical_decimal_text c mi mf = Some c"
proof -
  from assms obtain neg integer fraction where c: "c = decimal_text neg integer fraction"
    and shape: "decimal_shape mi mf integer fraction"
    and last: "fraction = [] \<or> last fraction \<noteq> CHR ''0''"
    and nz: "\<not> (neg \<and> integer = ''0'' \<and> fraction = [])"
    unfolding canonical_decimal_def by blast
  from shape have int: "integer \<noteq> []" "list_all is_digit integer" "list_all is_digit fraction"
    by (simp_all add: decimal_shape_def)
  then have hd: "is_digit (hd integer)" by (cases integer) simp_all
  have strip: "py_strip c = c" unfolding c by (rule decimal_text_ends [OF int])
  have sign: "starts_with ''-'' c = neg" "\<not> starts_with ''+'' c"
    using int(1) is_digit_neq [OF hd] unfolding c
    by (cases integer; auto simp: starts_with_def decimal_text_def)+
  have unsigned: "(if neg then tl c else c) = integer @ (if fraction = [] then [] else CHR ''.'' # fraction)"
    unfolding c by (simp add: decimal_text_def)
  have part: "partition_dot (if neg then tl c else c) = (integer, fraction \<noteq> [], fraction)"
    unfolding unsigned using partition_dot_digits [OF int(2)] by simp
  have isd: "py_isdigit integer" "fraction \<noteq> [] \<longrightarrow> py_isdigit fraction"
    using int by (auto simp: py_isdigit_def py_isdigit_char_def list_all_iff)
  have dot: "CHR ''.'' \<in> set c \<longleftrightarrow> fraction \<noteq> []"
    unfolding c using digits_no_dot [OF int(2)] by (auto simp: decimal_text_def)
  have "rstrip_char (CHR ''.'') (rstrip_char (CHR ''0'') c) = c" if "fraction \<noteq> []"
  proof -
    from last that have "rstrip_char (CHR ''0'') fraction = fraction"
      by (intro rstrip_char_last) simp_all
    with that strip_decimal_text [OF int, of "if neg then ''-'' else []"] show ?thesis
      by (simp add: c decimal_text_def)
  qed
  moreover have "integer \<noteq> ''-0''" using int(2) by (auto simp: is_digit_def)
  then have "c \<notin> {''-0'', []}"
    using nz int(1) unfolding c
    by (auto simp: decimal_text_def append_eq_Cons_conv split: if_splits)
  moreover have "c \<noteq> []" using int(1) by (simp add: c decimal_text_def)
  ultimately show ?thesis
    using shape int sign part isd dot
    by (auto simp: canonical_decimal_text_def strip Let_def decimal_shape_def)
qed

lemma canonical_decimal_idem:
  "canonical_decimal_text v mi mf = Some c \<Longrightarrow> canonical_decimal_text c mi mf = Some c"
  by (rule canonical_decimal_fixed [OF canonical_decimal_result])

end
