(* ===== verification/WriteParameters.thy ===== *)
theory WriteParameters
  imports PolicyCatalog ScalarValues
begin

text \<open>
  \<open>validate_write_parameters\<close> (\<^verbatim>\<open>policies/catalog.py\<close>): the only gate through which a write's
  inputs enter the approval workflow. The mapping is an untyped dict; every refusal of the
  source is a constructor of the error type; the names it carries are in mapping order, the source
  sorts them for its message.
\<close>

datatype write_param_error =
    NotAWrite
  | NamesMustBeStrings
  | UnsupportedParameters "string list"
  | MissingParameters "string list"
  | NullParameter string
  | MustBeText string
  | TooShort string
  | TooLong string
  | InvalidSyntax string
  | ChoiceNotAllowed string
  | MustBeIsoDate string
  | MustBeInteger string
  | BelowMinimum string
  | ExceedsMaximum string
  | MustBeBoolean string
  | MustBeCanonicalDecimal string
  | OneParameterRequired "string list"

text \<open>\<^verbatim>\<open>^[A-Za-z0-9][A-Za-z0-9._:-]{0,127}$\<close> and \<^verbatim>\<open>^[0-9a-f]{32}$\<close> under \<open>fullmatch\<close>.\<close>

fun pattern_matches :: "param_pattern \<Rightarrow> string \<Rightarrow> bool" where
  "pattern_matches IDENTIFIER_PATTERN s =
     (s \<noteq> [] \<and> is_alnum (hd s) \<and> length s \<le> 128
      \<and> list_all (\<lambda>c. is_alnum c \<or> c \<in> {CHR ''.'', CHR ''_'', CHR '':'', CHR ''-''}) (tl s))"
| "pattern_matches UPLOAD_ID_PATTERN s = (length s = 32 \<and> list_all is_hex_lower s)"

definition or_default :: "nat option \<Rightarrow> nat \<Rightarrow> nat" where
  "or_default n d = (case n of None \<Rightarrow> d | Some k \<Rightarrow> if k = 0 then d else k)"

definition validate_text :: "write_parameter_spec \<Rightarrow> string \<Rightarrow> write_param_error + py_value" where
  "validate_text p s = (let name = wp_name p; normalized = py_strip s in
     if (case wp_min_length p of None \<Rightarrow> False | Some n \<Rightarrow> length normalized < n)
       then Inl (TooShort name)
     else if (case wp_max_length p of None \<Rightarrow> False | Some n \<Rightarrow> n < length normalized)
       then Inl (TooLong name)
     else if (case wp_pattern p of None \<Rightarrow> False | Some r \<Rightarrow> \<not> pattern_matches r normalized)
       then Inl (InvalidSyntax name)
     else if wp_choices p \<noteq> [] \<and> normalized \<notin> set (wp_choices p)
       then Inl (ChoiceNotAllowed name)
     else Inr (PStr normalized))"

definition validate_integer :: "write_parameter_spec \<Rightarrow> int \<Rightarrow> write_param_error + py_value" where
  "validate_integer p n = (let name = wp_name p in
     if (case wp_min_value p of None \<Rightarrow> False | Some k \<Rightarrow> n < k) then Inl (BelowMinimum name)
     else if (case wp_max_value p of None \<Rightarrow> False | Some k \<Rightarrow> k < n) then Inl (ExceedsMaximum name)
     else Inr (PInt n))"

text \<open>One iteration of the loop: the branch of \<open>parameter.kind\<close>.\<close>

definition validate_value :: "write_parameter_spec \<Rightarrow> py_value \<Rightarrow> write_param_error + py_value" where
  "validate_value p v = (let name = wp_name p in
     if v = PNone then Inl (NullParameter name)
     else case wp_kind p of
       KIND_TEXT \<Rightarrow> (case v of PStr s \<Rightarrow> validate_text p s | _ \<Rightarrow> Inl (MustBeText name))
     | KIND_DATE \<Rightarrow> (case v of
           PStr s \<Rightarrow> (case canonical_date_text s of
               None \<Rightarrow> Inl (MustBeIsoDate name) | Some d \<Rightarrow> Inr (PStr d))
         | _ \<Rightarrow> Inl (MustBeIsoDate name))
     | KIND_INTEGER \<Rightarrow> (case v of PInt n \<Rightarrow> validate_integer p n | _ \<Rightarrow> Inl (MustBeInteger name))
     | KIND_BOOLEAN \<Rightarrow> (case v of PBool b \<Rightarrow> Inr (PBool b) | _ \<Rightarrow> Inl (MustBeBoolean name))
     | KIND_DECIMAL \<Rightarrow> (case v of
           PStr s \<Rightarrow> (case canonical_decimal_text s
               (or_default (wp_max_integer_digits p) 9) (or_default (wp_max_decimal_places p) 4) of
               None \<Rightarrow> Inl (MustBeCanonicalDecimal name) | Some d \<Rightarrow> Inr (PStr d))
         | _ \<Rightarrow> Inl (MustBeCanonicalDecimal name)))"

text \<open>\<open>{parameter.name: parameter for \<dots>}\<close>: a later duplicate would win.\<close>

definition expected_parameters :: "function_spec \<Rightarrow> string \<Rightarrow> write_parameter_spec option" where
  "expected_parameters spec = map_of (rev (map (\<lambda>p. (wp_name p, p)) (fs_write_parameters spec)))"

fun validate_items ::
  "function_spec \<Rightarrow> py_mapping \<Rightarrow> py_mapping \<Rightarrow> write_param_error + py_mapping" where
  "validate_items spec [] validated = Inr validated"
| "validate_items spec ((name, v) # rest) validated =
     (case expected_parameters spec name of
        None \<Rightarrow> Inl (UnsupportedParameters [name])
      | Some p \<Rightarrow> (case validate_value p v of
          Inl e \<Rightarrow> Inl e
        | Inr w \<Rightarrow> validate_items spec rest (AList.update name w validated)))"

fun string_keys :: "(py_value \<times> py_value) list \<Rightarrow> py_mapping option" where
  "string_keys [] = Some []"
| "string_keys ((k, v) # rest) = (case k of
     PStr s \<Rightarrow> map_option (\<lambda>m. (s, v) # m) (string_keys rest)
   | _ \<Rightarrow> None)"

definition validate_write_parameters ::
  "function_spec \<Rightarrow> (py_value \<times> py_value) list \<Rightarrow> write_param_error + py_mapping" where
  "validate_write_parameters spec parameters =
     (if \<not> is_write spec then Inl NotAWrite
      else case string_keys parameters of
        None \<Rightarrow> Inl NamesMustBeStrings
      | Some items \<Rightarrow> (let
            names = map fst items;
            unexpected = filter (\<lambda>n. expected_parameters spec n = None) names;
            missing = filter (\<lambda>n. n \<notin> set names)
              (map wp_name (filter wp_required (fs_write_parameters spec)))
          in if unexpected \<noteq> [] then Inl (UnsupportedParameters unexpected)
             else if missing \<noteq> [] then Inl (MissingParameters missing)
             else case validate_items spec items [] of
               Inl e \<Rightarrow> Inl e
             | Inr validated \<Rightarrow>
                 if fs_write_required_any spec \<noteq> []
                    \<and> set (fs_write_required_any spec) \<inter> set (map fst validated) = {}
                 then Inl (OneParameterRequired (fs_write_required_any spec))
                 else Inr validated))"

section \<open>What a validated value is\<close>

definition in_bounds :: "'a::linorder option \<Rightarrow> 'a option \<Rightarrow> 'a \<Rightarrow> bool" where
  "in_bounds lo hi x = ((case lo of None \<Rightarrow> True | Some k \<Rightarrow> k \<le> x) \<and>
     (case hi of None \<Rightarrow> True | Some k \<Rightarrow> x \<le> k))"

definition conforms :: "write_parameter_spec \<Rightarrow> py_value \<Rightarrow> bool" where
  "conforms p v = (case wp_kind p of
     KIND_TEXT \<Rightarrow> (\<exists>s. v = PStr s \<and> py_strip s = s
        \<and> in_bounds (wp_min_length p) (wp_max_length p) (length s)
        \<and> (\<forall>r. wp_pattern p = Some r \<longrightarrow> pattern_matches r s)
        \<and> (wp_choices p = [] \<or> s \<in> set (wp_choices p)))
   | KIND_DATE \<Rightarrow> (\<exists>d. v = PStr (isoformat d) \<and> valid_date d)
   | KIND_INTEGER \<Rightarrow> (\<exists>n. v = PInt n \<and> in_bounds (wp_min_value p) (wp_max_value p) n)
   | KIND_BOOLEAN \<Rightarrow> (\<exists>b. v = PBool b)
   | KIND_DECIMAL \<Rightarrow> (\<exists>s. v = PStr s \<and> canonical_decimal
        (or_default (wp_max_integer_digits p) 9) (or_default (wp_max_decimal_places p) 4) s))"

lemma validate_value_conforms: "validate_value p v = Inr w \<Longrightarrow> conforms p w"
  by (cases "wp_kind p")
    (auto simp: validate_value_def conforms_def validate_text_def validate_integer_def Let_def
      in_bounds_def canonical_date_text_def
      intro: canonical_decimal_result dest: parse_date_valid
      split: if_splits py_value.splits option.splits)

lemma conforms_validate_value: "conforms p w \<Longrightarrow> validate_value p w = Inr w"
  by (cases "wp_kind p")
    (auto simp: validate_value_def conforms_def validate_text_def validate_integer_def Let_def
      in_bounds_def canonical_date_text_def parse_isoformat canonical_decimal_fixed
      split: option.splits)

section \<open>What a validated mapping is\<close>

lemma validate_items_append:
  assumes "distinct (map fst validated @ map fst items)"
    and "validate_items spec items validated = Inr result"
  shows "\<exists>out. result = validated @ out \<and> map fst out = map fst items
    \<and> (\<forall>(name, w)\<in>set out. \<exists>p. expected_parameters spec name = Some p \<and> conforms p w)"
  using assms
proof (induction items arbitrary: validated)
  case Nil
  then show ?case by simp
next
  case (Cons item items)
  obtain name v where item: "item = (name, v)" by (cases item)
  from Cons.prems(2) item obtain p w where p: "expected_parameters spec name = Some p"
    and w: "validate_value p v = Inr w"
    and rest: "validate_items spec items (AList.update name w validated) = Inr result"
    by (auto split: option.splits sum.splits)
  from Cons.prems(1) item have "name \<notin> set (map fst validated)" by auto
  then have upd: "AList.update name w validated = validated @ [(name, w)]" by (rule update_new_key)
  have "distinct (map fst (validated @ [(name, w)]) @ map fst items)"
    using Cons.prems(1) item by auto
  from Cons.IH [OF this] rest obtain out where
    "result = (validated @ [(name, w)]) @ out" "map fst out = map fst items"
    "\<forall>(name, w)\<in>set out. \<exists>p. expected_parameters spec name = Some p \<and> conforms p w"
    unfolding upd by blast
  then show ?case
    using item p validate_value_conforms [OF w] by (intro exI [of _ "(name, w) # out"]) auto
qed

lemma validate_items_fixed:
  assumes "distinct (map fst validated @ map fst items)"
    and "\<forall>(name, w)\<in>set items. \<exists>p. expected_parameters spec name = Some p \<and> conforms p w"
  shows "validate_items spec items validated = Inr (validated @ items)"
  using assms
proof (induction items arbitrary: validated)
  case Nil
  then show ?case by simp
next
  case (Cons item items)
  obtain name w where item: "item = (name, w)" by (cases item)
  from Cons.prems(2) item obtain p where p: "expected_parameters spec name = Some p" "conforms p w"
    by auto
  from Cons.prems(1) item have "name \<notin> set (map fst validated)" by auto
  then have upd: "AList.update name w validated = validated @ [(name, w)]" by (rule update_new_key)
  have "validate_items spec items (validated @ [(name, w)]) = Inr ((validated @ [(name, w)]) @ items)"
    by (rule Cons.IH) (use Cons.prems item in auto)
  then show ?case by (simp add: item p conforms_validate_value upd)
qed

definition as_untyped :: "py_mapping \<Rightarrow> (py_value \<times> py_value) list" where
  "as_untyped m = map (\<lambda>(k, v). (PStr k, v)) m"

lemma string_keys_as_untyped [simp]: "string_keys (as_untyped m) = Some m"
  by (induction m) (auto simp: as_untyped_def)

lemma string_keys_untyped: "string_keys ps = Some items \<Longrightarrow> ps = as_untyped items"
  by (induction ps arbitrary: items rule: string_keys.induct)
    (auto simp: as_untyped_def split: py_value.splits)

lemma distinct_untyped: "distinct (map fst (as_untyped m)) = distinct (map fst m)"
proof -
  have "map fst (as_untyped m) = map PStr (map fst m)" by (auto simp: as_untyped_def)
  then show ?thesis by (simp add: distinct_map inj_on_def)
qed

text \<open>A mapping that meets the schema of a write.\<close>

definition schema_ok :: "function_spec \<Rightarrow> py_mapping \<Rightarrow> bool" where
  "schema_ok spec m \<longleftrightarrow>
     distinct (map fst m)
     \<and> (\<forall>(name, w)\<in>set m. \<exists>p. expected_parameters spec name = Some p \<and> conforms p w)
     \<and> (\<forall>p\<in>set (fs_write_parameters spec). wp_required p \<longrightarrow> wp_name p \<in> set (map fst m))
     \<and> (fs_write_required_any spec = []
         \<or> \<not> (set (fs_write_required_any spec) \<inter> set (map fst m) = {}))"

lemma validate_schema:
  assumes d: "distinct (map fst parameters)"
    and v: "validate_write_parameters spec parameters = Inr m"
  shows "schema_ok spec m"
proof -
  from v obtain items where items: "string_keys parameters = Some items"
    and missing: "filter (\<lambda>n. n \<notin> set (map fst items))
        (map wp_name (filter wp_required (fs_write_parameters spec))) = []"
    and loop: "validate_items spec items [] = Inr m"
    and req: "\<not> (fs_write_required_any spec \<noteq> []
        \<and> set (fs_write_required_any spec) \<inter> set (map fst m) = {})"
    by (simp add: validate_write_parameters_def Let_def split: if_splits option.splits sum.splits)
  have dist: "distinct (map fst items)"
    using d unfolding string_keys_untyped [OF items] distinct_untyped .
  with validate_items_append [OF _ loop] have keys: "map fst m = map fst items"
    and conf: "\<forall>(name, w)\<in>set m. \<exists>p. expected_parameters spec name = Some p \<and> conforms p w"
    by auto
  have "\<forall>p\<in>set (fs_write_parameters spec). wp_required p \<longrightarrow> wp_name p \<in> set (map fst items)"
    using missing by (auto simp: filter_empty_conv)
  with dist keys conf req show ?thesis by (auto simp: schema_ok_def)
qed

lemma schema_validate:
  assumes "is_write spec" and ok: "schema_ok spec m"
  shows "validate_write_parameters spec (as_untyped m) = Inr m"
proof -
  from ok have "validate_items spec m [] = Inr m"
    using validate_items_fixed [of "[]" m spec] by (simp add: schema_ok_def)
  moreover from ok have "filter (\<lambda>n. expected_parameters spec n = None) (map fst m) = []"
    by (auto simp: schema_ok_def filter_empty_conv)
  moreover from ok have "filter (\<lambda>n. n \<notin> set (map fst m))
      (map wp_name (filter wp_required (fs_write_parameters spec))) = []"
    by (auto simp: schema_ok_def filter_empty_conv)
  moreover from ok have "\<not> (fs_write_required_any spec \<noteq> []
      \<and> set (fs_write_required_any spec) \<inter> set (map fst m) = {})"
    by (auto simp: schema_ok_def)
  ultimately show ?thesis
    using assms(1) by (simp only: validate_write_parameters_def string_keys_as_untyped Let_def
        option.case sum.case simp_thms if_True if_False)
qed

lemma validate_is_write: "validate_write_parameters spec parameters = Inr m \<Longrightarrow> is_write spec"
  by (simp add: validate_write_parameters_def split: if_splits)

section \<open>The promise\<close>

text \<open>C30: Parameters of a write. What \<open>validate_write_parameters\<close> accepts meets the schema of the
  function (known distinct names, all required ones present, every value in its bounds and normal form),
  and is accepted unchanged when it is validated again.\<close>

theorem validated_parameters_stable:
  assumes "distinct (map fst parameters)" and "validate_write_parameters spec parameters = Inr m"
  shows "schema_ok spec m \<and> validate_write_parameters spec (as_untyped m) = Inr m"
  using schema_validate [OF validate_is_write validate_schema] validate_schema assms by blast

theorem validated_parameters_stable_witness:
  "schema_ok EMP_STATUS_002 [(''motivation'', PStr ''end of leave'')]"
proof -
  have "validate_write_parameters EMP_STATUS_002 [(PStr ''motivation'', PStr '' end of leave '')]
      = Inr [(''motivation'', PStr ''end of leave'')]" by code_simp
  from validated_parameters_stable [OF _ this] show ?thesis by simp
qed

end
