(* ===== verification/FeatureFlags.thy ===== *)
theory FeatureFlags
  imports Prelude
begin

text \<open>
  Fail-closed feature flags (\<^verbatim>\<open>policies/feature_flags.py\<close>). \<open>RuntimeFeatureFlags\<close> is a record of
  the two dictionaries; the lock only serialises the calls, each of which is one step here.
  The locale \<open>feature_flag_store\<close> is the contract the policy layer relies on: what is enabled
  is permitted by the deployment baseline, and no runtime operation changes the baseline.
\<close>

definition DEFAULT_FEATURE_FLAGS :: "(string \<times> bool) list" where
  "DEFAULT_FEATURE_FLAGS = [
     (''ENABLE_READ_ACTIONS'', True),
     (''ENABLE_DIC_RECONNECT'', False),
     (''ENABLE_WRITE_ACTIONS'', False),
     (''ENABLE_LIVE_WRITE_TESTS'', False),
     (''ENABLE_EMPLOYEE_CREATE'', False),
     (''ENABLE_EMPLOYEE_UPDATE'', False),
     (''ENABLE_SENSITIVE_PROFILE_UPDATE'', False),
     (''ENABLE_CONTRACT_WRITE'', False),
     (''ENABLE_CONTRACT_DELETE'', False),
     (''ENABLE_MATURATION_WRITE'', False),
     (''ENABLE_BALANCE_CORRECTION'', False),
     (''ENABLE_INVITE_ACTIONS'', False),
     (''ENABLE_ACCOUNT_CONNECT'', False),
     (''ENABLE_ACCOUNT_DISCONNECT'', False),
     (''ENABLE_RBAC_WRITE'', False),
     (''ENABLE_STATUS_CHANGE'', False),
     (''ENABLE_NOTIFICATION_STATE_CHANGE'', False),
     (''ENABLE_DOCUMENT_UPLOAD'', False),
     (''ENABLE_DOCUMENT_DOWNLOAD'', False),
     (''ENABLE_DOCUMENT_UPDATE'', False),
     (''ENABLE_DOCUMENT_DELETE'', False),
     (''ENABLE_EXPORT'', False),
     (''ENABLE_EMPLOYEE_DELETE'', False)]"

record runtime_flags =
  rf_baseline :: "(string \<times> bool) list"
  rf_runtime :: "(string \<times> bool) list"

definition new_runtime_flags ::
  "(string \<times> bool) list option \<Rightarrow> (string \<times> bool) list option \<Rightarrow> runtime_flags" where
  "new_runtime_flags baseline overrides =
     \<lparr>rf_baseline = (case baseline of None \<Rightarrow> DEFAULT_FEATURE_FLAGS | Some b \<Rightarrow> b),
      rf_runtime = (case overrides of None \<Rightarrow> [] | Some r \<Rightarrow> r)\<rparr>"

definition dict_get :: "(string \<times> 'v) list \<Rightarrow> string \<Rightarrow> 'v \<Rightarrow> 'v" where
  "dict_get d k dflt = (case map_of d k of None \<Rightarrow> dflt | Some v \<Rightarrow> v)"

definition flag_enabled :: "runtime_flags \<Rightarrow> string \<Rightarrow> bool" where
  "flag_enabled f name =
     (let baseline = dict_get (rf_baseline f) name False;
          runtime = dict_get (rf_runtime f) name True
      in baseline \<and> runtime)"

datatype flag_error = UnknownFlag string

definition set_runtime :: "string \<Rightarrow> bool \<Rightarrow> (runtime_flags, flag_error, unit) sx" where
  "set_runtime name enabled = (\<lambda>f.
     if map_of (rf_baseline f) name = None then (Inl (UnknownFlag name), f)
     else (Inr (), f\<lparr>rf_runtime := AList.update name enabled (rf_runtime f)\<rparr>))"

definition clear_runtime :: "string \<Rightarrow> (runtime_flags, flag_error, unit) sx" where
  "clear_runtime name = (\<lambda>f. (Inr (), f\<lparr>rf_runtime := AList.delete name (rf_runtime f)\<rparr>))"

definition snapshot :: "runtime_flags \<Rightarrow> (string \<times> bool) list" where
  "snapshot f = map (\<lambda>(name, _). (name, flag_enabled f name)) (rf_baseline f)"

datatype flag_op = SetRuntime string bool | ClearRuntime string

fun flag_step :: "flag_op \<Rightarrow> runtime_flags \<Rightarrow> runtime_flags" where
  "flag_step (SetRuntime name enabled) f = snd (set_runtime name enabled f)"
| "flag_step (ClearRuntime name) f = snd (clear_runtime name f)"

definition flag_baseline :: "runtime_flags \<Rightarrow> string \<Rightarrow> bool" where
  "flag_baseline f name = dict_get (rf_baseline f) name False"

section \<open>The contract\<close>

locale feature_flag_store =
  fixes enabled :: "'f \<Rightarrow> string \<Rightarrow> bool"
    and permitted :: "'f \<Rightarrow> string \<Rightarrow> bool"
    and step :: "'op \<Rightarrow> 'f \<Rightarrow> 'f"
  assumes enabled_permitted: "enabled f name \<Longrightarrow> permitted f name"
    and step_permitted: "permitted (step op f) name = permitted f name"
begin

lemma run_permitted: "permitted (fold step ops f) name = permitted f name"
  by (induction ops arbitrary: f) (simp_all add: step_permitted)

lemma never_enabled: "\<not> permitted f name \<Longrightarrow> \<not> enabled (fold step ops f) name"
  using enabled_permitted run_permitted by blast

end

lemma set_runtime_baseline [simp]: "rf_baseline (snd (set_runtime name b f)) = rf_baseline f"
  by (simp add: set_runtime_def)

lemma clear_runtime_baseline [simp]: "rf_baseline (snd (clear_runtime name f)) = rf_baseline f"
  by (simp add: clear_runtime_def)

lemma flag_step_baseline: "rf_baseline (flag_step op f) = rf_baseline f"
  by (cases op) simp_all

interpretation flags: feature_flag_store flag_enabled flag_baseline flag_step
  by unfold_locales (simp_all add: flag_enabled_def flag_baseline_def Let_def flag_step_baseline)

section \<open>The operations\<close>

lemma set_runtime_enabled:
  assumes "map_of (rf_baseline f) name \<noteq> None"
  shows "flag_enabled (snd (set_runtime name b f)) n =
    (if n = name then flag_baseline f name \<and> b else flag_enabled f n)"
  using assms
  by (auto simp: set_runtime_def flag_enabled_def flag_baseline_def dict_get_def Let_def
      split: option.splits)

lemma set_runtime_unknown:
  "map_of (rf_baseline f) name = None \<Longrightarrow> set_runtime name b f = (Inl (UnknownFlag name), f)"
  by (simp add: set_runtime_def)

lemma clear_runtime_enabled:
  "flag_enabled (snd (clear_runtime name f)) n =
    (if n = name then flag_baseline f name else flag_enabled f n)"
  by (auto simp: clear_runtime_def flag_enabled_def flag_baseline_def dict_get_def Let_def
      AList.delete_conv')

lemma snapshot_enabled:
  "map_of (rf_baseline f) name \<noteq> None \<Longrightarrow> map_of (snapshot f) name = Some (flag_enabled f name)"
  unfolding snapshot_def by (rule map_of_map_key)

end
