(* ===== verification/VersionedStore.thy ===== *)
theory VersionedStore
  imports Prelude
begin

text \<open>
  The contract of the repositories behind the approval workflow and the upload quarantine
  (the \<open>Protocol\<close> classes \<open>ApprovalRepository\<close> and \<open>UploadRepository\<close>): records with a version,
  replaced by compare-and-set on it, and keys that at most one owner claims. What a repository
  keeps of a record is \<open>stored\<close>: the record itself in memory, the record without its file name in
  the upload table. The in-memory repositories and the table interpret the locales; what is proved
  here holds of all of them.
\<close>

datatype store_error =
    DuplicateRecord
  | DuplicateIdempotencyKey
  | RecordMissing string
  | ConcurrentStoreUpdate
  | VersionNotIncremented
  | ConstraintViolated
  | ExecutionNotClaimed

datatype 'a store_op = InsertRec 'a | ReplaceRec 'a int | ClaimKey string string

type_synonym ('s, 'a) store_insert = "'a \<Rightarrow> ('s, store_error, unit) sx"
type_synonym ('s, 'a) store_replace = "'a \<Rightarrow> int \<Rightarrow> ('s, store_error, unit) sx"
type_synonym 's store_claim = "string \<Rightarrow> string \<Rightarrow> 's \<Rightarrow> bool \<times> 's"

fun store_step ::
  "('s, 'a) store_insert \<Rightarrow> ('s, 'a) store_replace \<Rightarrow> 's store_claim \<Rightarrow> 'a store_op \<Rightarrow> 's \<Rightarrow> 's" where
  "store_step ins rep claim (InsertRec r) s = snd (ins r s)"
| "store_step ins rep claim (ReplaceRec r v) s = snd (rep r v s)"
| "store_step ins rep claim (ClaimKey k owner) s = snd (claim k owner s)"

locale versioned_store =
  fixes lookup :: "'s \<Rightarrow> string \<Rightarrow> 'a option"
    and ins :: "('s, 'a) store_insert"
    and rep :: "('s, 'a) store_replace"
    and rec_id :: "'a \<Rightarrow> string"
    and rec_version :: "'a \<Rightarrow> int"
    and stored :: "'a \<Rightarrow> 'a"
  assumes stored_version: "rec_version (stored r) = rec_version r"
    and ins_ok: "ins r s = (Inr (), s') \<Longrightarrow>
      lookup s (rec_id r) = None \<and> lookup s' = (lookup s)(rec_id r \<mapsto> stored r)"
    and ins_err: "ins r s = (Inl e, s') \<Longrightarrow> s' = s"
    and rep_ok: "rep r v s = (Inr (), s') \<Longrightarrow>
      (\<forall>old. lookup s (rec_id r) = Some old \<longrightarrow> rec_version old = v) \<and> rec_version r = v + 1
      \<and> lookup s' = (lookup s)(rec_id r \<mapsto> stored r)"
    and rep_err: "rep r v s = (Inl e, s') \<Longrightarrow> s' = s"
begin

lemma ins_keeps: "lookup s k = Some a \<Longrightarrow> lookup (snd (ins r s)) k = Some a"
proof (cases "ins r s")
  case (Pair x s')
  assume a: "lookup s k = Some a"
  show ?thesis
  proof (cases x)
    case (Inl e)
    with Pair a show ?thesis using ins_err [of r s e s'] by simp
  next
    case (Inr u)
    with Pair a show ?thesis using ins_ok [of r s s'] by auto
  qed
qed

lemma rep_lookup: "lookup s k = Some a \<Longrightarrow>
    \<exists>b. lookup (snd (rep r v s)) k = Some b \<and> (b = a \<or> rec_version b = rec_version a + 1)"
proof (cases "rep r v s")
  case (Pair x s')
  assume a: "lookup s k = Some a"
  show ?thesis
  proof (cases x)
    case (Inl e)
    with Pair a show ?thesis using rep_err [of r v s e s'] by simp
  next
    case (Inr u)
    with Pair a show ?thesis using rep_ok [of r v s s'] stored_version [of r] by auto
  qed
qed

end

locale claiming_store = versioned_store lookup ins rep rec_id rec_version stored
  for lookup :: "'s \<Rightarrow> string \<Rightarrow> 'a option"
    and ins :: "('s, 'a) store_insert"
    and rep :: "('s, 'a) store_replace"
    and rec_id :: "'a \<Rightarrow> string"
    and rec_version :: "'a \<Rightarrow> int"
    and stored :: "'a \<Rightarrow> 'a" +
  fixes claims :: "'s \<Rightarrow> string \<Rightarrow> string option"
    and claim :: "'s store_claim"
  assumes claim_granted: "claim k owner s = (True, s') \<Longrightarrow>
      (claims s k = None \<or> claims s k = Some owner) \<and> claims s' = (claims s)(k \<mapsto> owner)"
    and claim_refused: "claim k owner s = (False, s') \<Longrightarrow> s' = s"
    and claim_lookup: "lookup (snd (claim k owner s)) = lookup s"
    and ins_claims: "claims (snd (ins r s)) = claims s"
    and rep_claims: "claims (snd (rep r v s)) = claims s"
begin

lemma step_lookup: "lookup s k = Some a \<Longrightarrow>
    \<exists>b. lookup (store_step ins rep claim op s) k = Some b \<and> rec_version a \<le> rec_version b"
  using rep_lookup [of s k a] ins_keeps [of s k a] claim_lookup
  by (cases op) (force simp: order.order_iff_strict)+

lemma run_version:
  "lookup s k = Some a \<Longrightarrow>
    \<exists>b. lookup (fold (store_step ins rep claim) ops s) k = Some b \<and> rec_version a \<le> rec_version b"
proof (induction ops arbitrary: s a)
  case Nil
  then show ?case by simp
next
  case (Cons op ops)
  from step_lookup [OF Cons.prems, of op] obtain b where
    "lookup (store_step ins rep claim op s) k = Some b" "rec_version a \<le> rec_version b" by blast
  with Cons.IH show ?case by (fastforce intro: order_trans)
qed

text \<open>No lost update: of two replacements of a record that expect one version, only one takes.\<close>

lemma single_winner:
  assumes "rep r v s = (Inr (), s')" and "rec_id r' = rec_id r"
  shows "fst (rep r' v (fold (store_step ins rep claim) ops s')) \<noteq> Inr ()"
proof
  assume won: "fst (rep r' v (fold (store_step ins rep claim) ops s')) = Inr ()"
  let ?t = "fold (store_step ins rep claim) ops s'"
  from rep_ok [OF assms(1)] have "lookup s' (rec_id r) = Some (stored r)" "rec_version (stored r) = v + 1"
    using stored_version [of r] by auto
  with run_version obtain b where "lookup ?t (rec_id r) = Some b" "v + 1 \<le> rec_version b" by metis
  moreover from won obtain t' where "rep r' v ?t = (Inr (), t')" by (metis prod.collapse)
  ultimately show False using rep_ok [of r' v ?t t'] assms(2) by auto
qed

lemma step_claims:
  "claims s k = Some owner \<Longrightarrow> claims (store_step ins rep claim op s) k = Some owner"
proof (cases op)
  case (ClaimKey k' owner')
  assume s: "claims s k = Some owner"
  show ?thesis
  proof (cases "claim k' owner' s")
    case (Pair b s')
    with ClaimKey s claim_granted [of k' owner' s s'] claim_refused [of k' owner' s s']
    show ?thesis by (cases b) auto
  qed
qed (simp_all add: ins_claims rep_claims)

lemma run_claims:
  "claims s k = Some owner \<Longrightarrow> claims (fold (store_step ins rep claim) ops s) k = Some owner"
  by (induction ops arbitrary: s) (simp_all add: step_claims)

text \<open>One key, one owner: after a claim is granted no one else is ever granted it.\<close>

lemma single_owner:
  assumes "claim k owner s = (True, s')" and "owner' \<noteq> owner"
  shows "\<not> fst (claim k owner' (fold (store_step ins rep claim) ops s'))"
proof
  let ?t = "fold (store_step ins rep claim) ops s'"
  assume "fst (claim k owner' ?t)"
  then obtain t' where "claim k owner' ?t = (True, t')" by (metis prod.collapse)
  moreover from claim_granted [OF assms(1)] have "claims s' k = Some owner" by auto
  then have "claims ?t k = Some owner" by (rule run_claims)
  ultimately show False using claim_granted [of k owner' ?t t'] assms(2) by auto
qed

end

end
