(* ===== verification/ApprovalStore.thy ===== *)
theory ApprovalStore
  imports VersionedStore
begin

text \<open>
  The approval records (\<^verbatim>\<open>approvals/models.py\<close>) and the in-memory repository
  (\<^verbatim>\<open>InMemoryApprovalRepository\<close> in \<^verbatim>\<open>approvals/storage.py\<close>). Each method holds the repository
  lock for its whole body, so it is one step; the three dicts keep insertion order.
\<close>

datatype action_status =
    PENDING
  | PARTIALLY_APPROVED
  | APPROVED
  | EXECUTING
  | SUCCEEDED
  | FAILED
  | REJECTED
  | EXPIRED
  | STALE
  | UNKNOWN_REQUIRES_RECONCILIATION
  | RECONCILED_NOT_APPLIED

definition TERMINAL_STATUSES :: "action_status list" where
  "TERMINAL_STATUSES =
     [SUCCEEDED, FAILED, REJECTED, EXPIRED, STALE, RECONCILED_NOT_APPLIED]"

record approval_record =
  ar_approver_id :: string
  ar_approved_at :: int

record pending_action =
  pa_action_id :: string
  pa_correlation_id :: string
  pa_function_id :: string
  pa_requester_id :: string
  pa_guild_id :: string
  pa_channel_id :: string
  pa_target_employee_id :: "string option"
  pa_encrypted_parameters :: bytes
  pa_redacted_diff :: py_mapping
  pa_motivation :: "string option"
  pa_state_fingerprint :: string
  pa_status :: action_status
  pa_created_at :: int
  pa_expires_at :: int
  pa_approvals_required :: nat
  pa_approvals :: "approval_record list"
  pa_confirmation_salt :: bytes
  pa_confirmation_digest :: bytes
  pa_confirmation_consumed_at :: "int option"
  pa_idempotency_key :: string
  pa_execution_result :: "string option"
  pa_postcondition_result :: "string option"
  pa_rejection_reason :: "string option"
  pa_rejected_by :: "string option"
  pa_rejected_at :: "int option"
  pa_version :: int

definition confirmed :: "pending_action \<Rightarrow> bool" where
  "confirmed a = (pa_confirmation_consumed_at a \<noteq> None)"

definition approved_by :: "pending_action \<Rightarrow> string list" where
  "approved_by a = map ar_approver_id (pa_approvals a)"

record prepared_action =
  pr_action :: pending_action
  pr_confirmation_code :: string
  pr_required_text_confirmation :: "string option"

record approval_mem =
  am_actions :: "(string \<times> pending_action) list"
  am_idempotency :: "(string \<times> string) list"
  am_pending_idempotency :: "(string \<times> string) list"

definition empty_approval_mem :: approval_mem where
  "empty_approval_mem = \<lparr>am_actions = [], am_idempotency = [], am_pending_idempotency = []\<rparr>"

definition repo_insert :: "(approval_mem, pending_action) store_insert" where
  "repo_insert action s =
     (if map_of (am_actions s) (pa_action_id action) \<noteq> None then (Inl DuplicateRecord, s)
      else if map_of (am_pending_idempotency s) (pa_idempotency_key action) \<noteq> None
        then (Inl DuplicateIdempotencyKey, s)
      else (Inr (), s\<lparr>am_actions := AList.update (pa_action_id action) action (am_actions s),
              am_pending_idempotency := AList.update (pa_idempotency_key action)
                (pa_action_id action) (am_pending_idempotency s)\<rparr>))"

definition repo_get :: "approval_mem \<Rightarrow> string \<Rightarrow> pending_action option" where
  "repo_get s action_id = map_of (am_actions s) action_id"

definition repo_replace :: "(approval_mem, pending_action) store_replace" where
  "repo_replace action expected_version s =
     (case map_of (am_actions s) (pa_action_id action) of
        None \<Rightarrow> (Inl (RecordMissing (pa_action_id action)), s)
      | Some current \<Rightarrow>
          if pa_version current \<noteq> expected_version then (Inl ConcurrentStoreUpdate, s)
          else if pa_version action \<noteq> expected_version + 1 then (Inl VersionNotIncremented, s)
          else (Inr (), s\<lparr>am_actions :=
                  AList.update (pa_action_id action) action (am_actions s)\<rparr>))"

definition repo_claim :: "approval_mem store_claim" where
  "repo_claim key action_id s =
     (if map_of (am_idempotency s) key \<noteq> None then (False, s)
      else (True, s\<lparr>am_idempotency := AList.update key action_id (am_idempotency s)\<rparr>))"

definition repo_claims :: "approval_mem \<Rightarrow> string \<Rightarrow> string option" where
  "repo_claims s key = map_of (am_idempotency s) key"

definition repo_list :: "approval_mem \<Rightarrow> pending_action list" where
  "repo_list s = map snd (am_actions s)"

section \<open>The contract\<close>

interpretation approval_store: claiming_store repo_get repo_insert repo_replace pa_action_id pa_version
  "\<lambda>a. a" repo_claims repo_claim
proof unfold_locales
  fix r :: pending_action
  show "pa_version r = pa_version r" by (rule refl)
next
  fix r s s'
  assume "repo_insert r s = (Inr (), s')"
  then show "repo_get s (pa_action_id r) = None \<and> repo_get s' = (repo_get s)(pa_action_id r \<mapsto> r)"
    by (auto simp: repo_insert_def repo_get_def fun_eq_iff split: if_splits)
next
  fix r s e s'
  assume "repo_insert r s = (Inl e, s')"
  then show "s' = s" by (auto simp: repo_insert_def split: if_splits)
next
  fix r v s s'
  assume "repo_replace r v s = (Inr (), s')"
  then show "(\<forall>old. repo_get s (pa_action_id r) = Some old \<longrightarrow> pa_version old = v)
      \<and> pa_version r = v + 1 \<and> repo_get s' = (repo_get s)(pa_action_id r \<mapsto> r)"
    by (auto simp: repo_replace_def repo_get_def fun_eq_iff split: if_splits option.splits)
next
  fix r v s e s'
  assume "repo_replace r v s = (Inl e, s')"
  then show "s' = s" by (auto simp: repo_replace_def split: if_splits option.splits)
next
  fix k owner s s'
  assume "repo_claim k owner s = (True, s')"
  then show "(repo_claims s k = None \<or> repo_claims s k = Some owner)
      \<and> repo_claims s' = (repo_claims s)(k \<mapsto> owner)"
    by (auto simp: repo_claim_def repo_claims_def fun_eq_iff split: if_splits)
next
  fix k owner s s'
  assume "repo_claim k owner s = (False, s')"
  then show "s' = s"
    by (auto simp: repo_claim_def split: if_splits)
next
  fix k owner s
  show "repo_get (snd (repo_claim k owner s)) = repo_get s"
    by (simp add: repo_claim_def repo_get_def fun_eq_iff)
next
  fix r :: pending_action and s
  show "repo_claims (snd (repo_insert r s)) = repo_claims s"
    by (simp add: repo_insert_def repo_claims_def fun_eq_iff)
next
  fix r :: pending_action and v s
  show "repo_claims (snd (repo_replace r v s)) = repo_claims s"
    by (simp add: repo_replace_def repo_claims_def fun_eq_iff split: option.splits)
qed

lemma repo_replace_ok: "repo_replace a v s = (Inr (), s') \<Longrightarrow>
    (\<exists>old. repo_get s (pa_action_id a) = Some old \<and> pa_version old = v)
    \<and> pa_version a = v + 1 \<and> repo_get s' = (repo_get s)(pa_action_id a \<mapsto> a)"
  using approval_store.rep_ok [of a v s s']
  by (auto simp: repo_replace_def repo_get_def split: option.splits if_splits)

text \<open>The successful branches, as the state they leave.\<close>

lemma repo_insert_Inr: "repo_insert a s = (Inr (), s') \<longleftrightarrow>
    map_of (am_actions s) (pa_action_id a) = None
    \<and> map_of (am_pending_idempotency s) (pa_idempotency_key a) = None
    \<and> s' = s\<lparr>am_actions := AList.update (pa_action_id a) a (am_actions s),
        am_pending_idempotency := AList.update (pa_idempotency_key a) (pa_action_id a)
          (am_pending_idempotency s)\<rparr>"
  by (auto simp: repo_insert_def)

lemma repo_replace_Inr: "repo_replace a v s = (Inr (), s') \<longleftrightarrow>
    (\<exists>old. map_of (am_actions s) (pa_action_id a) = Some old \<and> pa_version old = v)
    \<and> pa_version a = v + 1
    \<and> s' = s\<lparr>am_actions := AList.update (pa_action_id a) a (am_actions s)\<rparr>"
  by (auto simp: repo_replace_def split: option.splits)

lemma repo_claim_True: "repo_claim k i s = (True, s') \<longleftrightarrow>
    map_of (am_idempotency s) k = None
    \<and> s' = s\<lparr>am_idempotency := AList.update k i (am_idempotency s)\<rparr>"
  by (auto simp: repo_claim_def)

end
