(* ===== verification/Confirmation.thy ===== *)
theory Confirmation
  imports Prelude
begin

text \<open>
  One-time confirmation codes (\<^verbatim>\<open>approvals/confirmation.py\<close>). The random draws of \<open>secrets\<close> are
  arguments and HMAC-SHA256 is a function argument \<open>hmac key payload\<close>; what is relied on of it
  is a hypothesis of the theorems that need one.
\<close>

definition ascii_uppercase :: string where
  "ascii_uppercase = ''ABCDEFGHIJKLMNOPQRSTUVWXYZ''"

definition ALPHABET :: string where
  "ALPHABET = py_replace ''O'' [] (py_replace ''I'' [] ascii_uppercase) @ ''23456789''"

record confirmation_material =
  cm_code :: string
  cm_salt :: bytes
  cm_digest :: bytes

record confirmation_hasher =
  ch_key :: bytes
  ch_code_length :: nat

datatype confirmation_error =
    KeyTooShort
  | CodeTooShort
  | NonAsciiCode

definition new_hasher :: "bytes \<Rightarrow> nat \<Rightarrow> confirmation_error + confirmation_hasher" where
  "new_hasher key code_length =
     (if length key < 32 then Inl KeyTooShort
      else if code_length < 8 then Inl CodeTooShort
      else Inr \<lparr>ch_key = key, ch_code_length = code_length\<rparr>)"

definition digest_payload :: "string \<Rightarrow> bytes \<Rightarrow> string \<Rightarrow> bytes" where
  "digest_payload action_id salt code =
     utf8 action_id @ [char_of (0 :: nat)] @ salt @ [char_of (0 :: nat)] @ code"

text \<open>\<open>code.encode("ascii")\<close> raises \<open>UnicodeEncodeError\<close> on any other character.\<close>

definition confirmation_digest ::
  "(bytes \<Rightarrow> bytes \<Rightarrow> bytes) \<Rightarrow> confirmation_hasher \<Rightarrow> string \<Rightarrow> bytes \<Rightarrow> string
     \<Rightarrow> confirmation_error + bytes" where
  "confirmation_digest hmac hasher action_id salt code =
     (if is_ascii code then Inr (hmac (ch_key hasher) (digest_payload action_id salt code))
      else Inl NonAsciiCode)"

text \<open>\<open>secrets.choice\<close> of the alphabet: the draw as an index.\<close>

definition choose_code :: "confirmation_hasher \<Rightarrow> (nat \<Rightarrow> nat) \<Rightarrow> string" where
  "choose_code hasher draw =
     map (\<lambda>i. ALPHABET ! (draw i mod length ALPHABET)) [0..<ch_code_length hasher]"

definition create_confirmation ::
  "(bytes \<Rightarrow> bytes \<Rightarrow> bytes) \<Rightarrow> confirmation_hasher \<Rightarrow> (nat \<Rightarrow> nat) \<Rightarrow> bytes \<Rightarrow> string
     \<Rightarrow> confirmation_error + confirmation_material" where
  "create_confirmation hmac hasher draw salt action_id = (let code = choose_code hasher draw in
     case confirmation_digest hmac hasher action_id salt code of
       Inl e \<Rightarrow> Inl e
     | Inr d \<Rightarrow> Inr \<lparr>cm_code = code, cm_salt = salt, cm_digest = d\<rparr>)"

definition normalize_code :: "string \<Rightarrow> string" where
  "normalize_code candidate = drop_spaces (py_upper (py_strip candidate))"

definition verify_confirmation ::
  "(bytes \<Rightarrow> bytes \<Rightarrow> bytes) \<Rightarrow> confirmation_hasher \<Rightarrow> string \<Rightarrow> bytes \<Rightarrow> bytes \<Rightarrow> string
     \<Rightarrow> confirmation_error + bool" where
  "verify_confirmation hmac hasher action_id salt expected candidate =
     (case confirmation_digest hmac hasher action_id salt (normalize_code candidate) of
        Inl e \<Rightarrow> Inl e
      | Inr actual \<Rightarrow> Inr (actual = expected))"

section \<open>Codes\<close>

lemma ALPHABET_eq: "ALPHABET = ''ABCDEFGHJKLMNPQRSTUVWXYZ23456789''"
  by code_simp

text \<open>Capital letters and digits, which normalisation leaves alone; the alphabet is a part of them.\<close>

definition code_char :: "char \<Rightarrow> bool" where
  "code_char c = (is_digit c \<or> is_upper c)"

lemma ALPHABET_code_char: "list_all code_char ALPHABET"
  by code_simp

lemma choose_code_alphabet: "set (choose_code hasher draw) \<subseteq> set ALPHABET"
proof -
  have "0 < length ALPHABET" by (simp add: ALPHABET_eq)
  then have "ALPHABET ! (n mod length ALPHABET) \<in> set ALPHABET" for n by (intro nth_mem mod_less_divisor)
  then show ?thesis by (auto simp: choose_code_def)
qed

lemma choose_code_chars: "list_all code_char (choose_code hasher draw)"
  using ALPHABET_code_char choose_code_alphabet [of hasher draw] by (auto simp: list_all_iff)

lemma choose_code_length [simp]: "length (choose_code hasher draw) = ch_code_length hasher"
  by (simp add: choose_code_def)

lemma code_char_upper: "code_char c \<Longrightarrow> upper_char c = [c]"
  by (auto simp: code_char_def is_digit_def is_upper_def upper_char_def Let_def)

lemma code_char_ascii: "code_char c \<Longrightarrow> code_point c < (128 :: nat) \<and> \<not> is_space c"
  by (auto simp: code_char_def is_digit_def is_upper_def is_space_def Let_def)

lemma upper_code: "list_all code_char s \<Longrightarrow> py_upper s = s"
  by (induction s) (simp_all add: py_upper_def code_char_upper)

lemma drop_spaces_code: "list_all code_char s \<Longrightarrow> drop_spaces s = s"
  by (induction s) (simp_all add: drop_spaces_def code_char_ascii)

lemma ascii_code: "list_all code_char s \<Longrightarrow> is_ascii s"
  by (induction s) (simp_all add: is_ascii_def code_char_ascii)

lemma dropWhile_code: "list_all code_char s \<Longrightarrow> dropWhile is_space s = s"
  by (cases s) (auto simp: code_char_ascii)

lemma strip_code: "list_all code_char s \<Longrightarrow> py_strip s = s"
proof -
  assume s: "list_all code_char s"
  then have "list_all code_char (rev s)" by (simp add: list_all_iff)
  with s show ?thesis
    by (simp add: py_strip_def py_lstrip_def py_rstrip_def dropWhile_code)
qed

lemma normalize_choose_code: "normalize_code (choose_code hasher draw) = choose_code hasher draw"
  using choose_code_chars [of hasher draw]
  by (simp add: normalize_code_def strip_code upper_code drop_spaces_code)

lemma create_confirmation_Inr:
  "create_confirmation hmac hasher draw salt action_id =
     Inr \<lparr>cm_code = choose_code hasher draw, cm_salt = salt,
       cm_digest = hmac (ch_key hasher) (digest_payload action_id salt (choose_code hasher draw))\<rparr>"
  using ascii_code [OF choose_code_chars]
  by (simp add: create_confirmation_def confirmation_digest_def Let_def)

lemma digest_payload_inj [simp]:
  "digest_payload action_id salt c = digest_payload action_id salt c' \<longleftrightarrow> c = c'"
  by (simp add: digest_payload_def)

lemma verify_confirmation_True:
  "verify_confirmation hmac hasher action_id salt
      (hmac (ch_key hasher) (digest_payload action_id salt code)) candidate = Inr True \<longleftrightarrow>
    is_ascii (normalize_code candidate) \<and>
    hmac (ch_key hasher) (digest_payload action_id salt (normalize_code candidate))
      = hmac (ch_key hasher) (digest_payload action_id salt code)"
  by (simp add: verify_confirmation_def confirmation_digest_def)

section \<open>The promise\<close>

text \<open>C31: Confirmation codes. A code the hasher issued has the configured length over the letters and digits
  other than I, O, 0 and 1, and a candidate is accepted exactly when, stripped, upper-cased and with its spaces removed, it is the
  issued code, unless HMAC collides on the two payloads.\<close>

theorem issued_code_verifies:
  assumes "create_confirmation hmac hasher draw salt action_id = Inr m"
    and "hmac (ch_key hasher) (digest_payload action_id salt (normalize_code candidate))
           = hmac (ch_key hasher) (digest_payload action_id salt (cm_code m))
         \<Longrightarrow> digest_payload action_id salt (normalize_code candidate)
           = digest_payload action_id salt (cm_code m)"
  shows "length (cm_code m) = ch_code_length hasher \<and> set (cm_code m) \<subseteq> set ''ABCDEFGHJKLMNPQRSTUVWXYZ23456789''
    \<and> (verify_confirmation hmac hasher action_id (cm_salt m) (cm_digest m) candidate = Inr True
         \<longleftrightarrow> normalize_code candidate = cm_code m)"
proof -
  from assms(1) have m: "cm_code m = choose_code hasher draw" "cm_salt m = salt"
    "cm_digest m = hmac (ch_key hasher) (digest_payload action_id salt (cm_code m))"
    by (auto simp: create_confirmation_Inr)
  have chars: "list_all code_char (cm_code m)" using choose_code_chars by (simp add: m(1))
  have "verify_confirmation hmac hasher action_id (cm_salt m) (cm_digest m) candidate = Inr True
      \<longleftrightarrow> normalize_code candidate = cm_code m"
    unfolding m(2,3) verify_confirmation_True
    using assms(2) ascii_code [OF chars] by auto
  moreover have "set (cm_code m) \<subseteq> set ''ABCDEFGHJKLMNPQRSTUVWXYZ23456789''"
    using choose_code_alphabet unfolding m(1) ALPHABET_eq .
  moreover have "length (cm_code m) = ch_code_length hasher" by (simp add: m(1))
  ultimately show ?thesis by blast
qed

theorem issued_code_verifies_witness:
  "verify_confirmation (\<lambda>key payload. payload) \<lparr>ch_key = replicate 32 CHR ''k'', ch_code_length = 8\<rparr>
     ''a'' ''salt'' (digest_payload ''a'' ''salt'' ''ABCDEFGH'') '' abcd-efgh'' \<noteq> Inr True"
proof -
  let ?h = "\<lparr>ch_key = replicate 32 CHR ''k'', ch_code_length = 8\<rparr>"
  have code: "choose_code ?h (\<lambda>i. i) = ''ABCDEFGH''" by code_simp
  have "normalize_code '' abcd-efgh'' = ''ABCD-EFGH''" by code_simp
  then show ?thesis
    using issued_code_verifies [of "\<lambda>key payload. payload" ?h "\<lambda>i. i" "''salt''" "''a''" _ "'' abcd-efgh''"]
    by (simp add: create_confirmation_Inr code)
qed

end
