(* ===== verification/ApprovalService.thy ===== *)
theory ApprovalService
  imports ApprovalStore Confirmation Sanitization PolicyCatalog
begin

text \<open>
  The approval workflow (\<^verbatim>\<open>approvals/service.py\<close>) over the in-memory repository. Every method
  that changes an action holds \<open>_mutation_lock\<close> for its whole body, so it is one step of the
  store; \<open>prepare\<close> touches the store only through the repository's \<open>insert\<close>. What a call reads from outside (the kill
  switch, the clock, the identifiers and random draws, HMAC) is its \<open>approval_env\<close>.
\<close>

datatype approval_error =
    WriteDisabledError
  | ActionNotFoundError
  | InvalidStateError string
  | AuthorizationError string
  | ExpiredActionError
  | InvalidConfirmationError string
  | DuplicateExecutionError string
  | StaleTargetError
  | ApprovalValueError string
  | NormalizationError input_error
  | ConfirmationFault confirmation_error
  | StoreFault store_error

record approval_service =
  as_hasher :: confirmation_hasher
  as_default_ttl :: int

record approval_env =
  ae_writes_enabled :: bool
  ae_clock :: py_datetime
  ae_hmac :: "bytes \<Rightarrow> bytes \<Rightarrow> bytes"
  ae_uuid :: string
  ae_draw :: "nat \<Rightarrow> nat"
  ae_salt :: bytes
  ae_token :: string

definition new_approval_service ::
  "confirmation_hasher \<Rightarrow> int \<Rightarrow> approval_error + approval_service" where
  "new_approval_service hasher default_ttl =
     (if default_ttl \<le> 0 then Inl (ApprovalValueError ''approval TTL must be positive'')
      else Inr \<lparr>as_hasher = hasher, as_default_ttl = default_ttl\<rparr>)"

type_synonym 'a approval_op = "(approval_mem, approval_error, 'a) sx"

text \<open>\<open>if cond: raise e\<close> in front of the rest of a body.\<close>

definition guard :: "bool \<Rightarrow> approval_error \<Rightarrow> 'a approval_op \<Rightarrow> 'a approval_op" where
  "guard b e m = (if b then sx_raise e else m)"

definition require_writes_enabled :: "approval_env \<Rightarrow> 'a approval_op \<Rightarrow> 'a approval_op" where
  "require_writes_enabled env m = guard (\<not> ae_writes_enabled env) WriteDisabledError m"

definition approval_now :: "approval_env \<Rightarrow> approval_error + int" where
  "approval_now env = require_aware
     (ApprovalValueError ''approval clock must return a timezone-aware datetime'') (ae_clock env)"

definition with_now :: "approval_env \<Rightarrow> (int \<Rightarrow> 'a approval_op) \<Rightarrow> 'a approval_op" where
  "with_now env k = (case approval_now env of Inl e \<Rightarrow> sx_raise e | Inr now \<Rightarrow> k now)"

definition get_action :: "string \<Rightarrow> (pending_action \<Rightarrow> 'a approval_op) \<Rightarrow> 'a approval_op" where
  "get_action action_id k = (\<lambda>s. case repo_get s action_id of
     None \<Rightarrow> (Inl ActionNotFoundError, s)
   | Some a \<Rightarrow> k a s)"

text \<open>\<open>await self._repository.replace(updated, expected_version=\<dots>)\<close>, then \<open>return updated\<close>.\<close>

definition save_action :: "pending_action \<Rightarrow> int \<Rightarrow> pending_action approval_op" where
  "save_action updated expected_version = (\<lambda>s.
     case repo_replace updated expected_version s of
       (Inl e, s') \<Rightarrow> (Inl (StoreFault e), s')
     | (Inr _, s') \<Rightarrow> (Inr updated, s'))"

definition ACTIVE_STATUSES :: "action_status list" where
  "ACTIVE_STATUSES = [PENDING, PARTIALLY_APPROVED, APPROVED]"

definition status_value :: "action_status \<Rightarrow> string" where
  "status_value st = (case st of
     PENDING \<Rightarrow> ''PENDING'' | PARTIALLY_APPROVED \<Rightarrow> ''PARTIALLY_APPROVED''
   | APPROVED \<Rightarrow> ''APPROVED'' | EXECUTING \<Rightarrow> ''EXECUTING'' | SUCCEEDED \<Rightarrow> ''SUCCEEDED''
   | FAILED \<Rightarrow> ''FAILED'' | REJECTED \<Rightarrow> ''REJECTED'' | EXPIRED \<Rightarrow> ''EXPIRED'' | STALE \<Rightarrow> ''STALE''
   | UNKNOWN_REQUIRES_RECONCILIATION \<Rightarrow> ''UNKNOWN_REQUIRES_RECONCILIATION''
   | RECONCILED_NOT_APPLIED \<Rightarrow> ''RECONCILED_NOT_APPLIED'')"

definition expire_action :: "pending_action \<Rightarrow> pending_action" where
  "expire_action a = a\<lparr>pa_status := EXPIRED, pa_version := pa_version a + 1\<rparr>"

definition require_active ::
  "pending_action \<Rightarrow> int \<Rightarrow> 'a approval_op \<Rightarrow> 'a approval_op" where
  "require_active a now m =
     (if pa_expires_at a \<le> now \<and> pa_status a \<in> set ACTIVE_STATUSES
        then sx_bind (save_action (expire_action a) (pa_version a))
               (\<lambda>_. sx_raise ExpiredActionError)
      else guard (pa_status a \<notin> set ACTIVE_STATUSES)
             (InvalidStateError (''action is not active: '' @ status_value (pa_status a))) m)"

text \<open>The three lines every guarded method starts with: load, read the clock, require active.\<close>

definition with_active ::
  "approval_env \<Rightarrow> string \<Rightarrow> (pending_action \<Rightarrow> int \<Rightarrow> 'a approval_op) \<Rightarrow> 'a approval_op" where
  "with_active env action_id k =
     get_action action_id (\<lambda>a. with_now env (\<lambda>now. require_active a now (k a now)))"

definition with_function_spec ::
  "pending_action \<Rightarrow> (function_spec \<Rightarrow> 'a approval_op) \<Rightarrow> 'a approval_op" where
  "with_function_spec a k = (case get_function_spec (pa_function_id a) of
     None \<Rightarrow> sx_raise (InvalidStateError ''pending action references an unknown write function'')
   | Some spec \<Rightarrow> guard (\<not> is_write spec)
       (InvalidStateError ''pending action references an unknown write function'') (k spec))"

text \<open>\<open>template.format(employee_id=\<dots>)\<close>: the templates have that one placeholder.\<close>

definition format_template :: "string \<Rightarrow> string option \<Rightarrow> string" where
  "format_template t target = py_replace ''{employee_id}''
     (case target of None \<Rightarrow> ''None'' | Some e \<Rightarrow> e) t"

definition confirmation_text :: "function_spec \<Rightarrow> string option \<Rightarrow> string option" where
  "confirmation_text spec target = (case fs_text_confirmation_template spec of
     None \<Rightarrow> None
   | Some t \<Rightarrow> if t = [] then None else Some (format_template t target))"

section \<open>prepare\<close>

record prepare_request =
  rq_function_id :: string
  rq_correlation_id :: string
  rq_requester_id :: string
  rq_guild_id :: string
  rq_channel_id :: string
  rq_target_employee_id :: "string option"
  rq_encrypted_parameters :: bytes
  rq_redacted_diff :: py_mapping
  rq_state_fingerprint :: string
  rq_motivation :: "string option"
  rq_ttl :: "int option"
  rq_idempotency_key :: "string option"

definition absent :: "string option \<Rightarrow> bool" where
  "absent v = (case v of None \<Rightarrow> True | Some s \<Rightarrow> s = [])"

definition clean_motivation :: "string option \<Rightarrow> input_error + string option" where
  "clean_motivation m = (case m of None \<Rightarrow> Inr None
     | Some t \<Rightarrow> if t = [] then Inr None else
         (case normalize_text t 500 True of Inl e \<Rightarrow> Inl e | Inr c \<Rightarrow> Inr (Some c)))"

definition effective_ttl :: "approval_service \<Rightarrow> int option \<Rightarrow> int" where
  "effective_ttl svc ttl = (case ttl of None \<Rightarrow> as_default_ttl svc
     | Some t \<Rightarrow> if t = 0 then as_default_ttl svc else t)"

definition effective_key :: "approval_env \<Rightarrow> string option \<Rightarrow> string" where
  "effective_key env k = (case k of None \<Rightarrow> ae_token env
     | Some t \<Rightarrow> if t = [] then ae_token env else t)"

definition new_action ::
  "prepare_request \<Rightarrow> approval_env \<Rightarrow> function_spec \<Rightarrow> string option \<Rightarrow> int \<Rightarrow> int
     \<Rightarrow> confirmation_material \<Rightarrow> string \<Rightarrow> pending_action" where
  "new_action rq env spec motivation now ttl material key =
     \<lparr>pa_action_id = ae_uuid env, pa_correlation_id = rq_correlation_id rq,
      pa_function_id = rq_function_id rq, pa_requester_id = rq_requester_id rq,
      pa_guild_id = rq_guild_id rq, pa_channel_id = rq_channel_id rq,
      pa_target_employee_id = rq_target_employee_id rq,
      pa_encrypted_parameters = rq_encrypted_parameters rq,
      pa_redacted_diff = rq_redacted_diff rq, pa_motivation = motivation,
      pa_state_fingerprint = rq_state_fingerprint rq, pa_status = PENDING,
      pa_created_at = now, pa_expires_at = now + ttl,
      pa_approvals_required = fs_approvals_required spec, pa_approvals = [],
      pa_confirmation_salt = cm_salt material, pa_confirmation_digest = cm_digest material,
      pa_confirmation_consumed_at = None, pa_idempotency_key = key,
      pa_execution_result = None, pa_postcondition_result = None, pa_rejection_reason = None,
      pa_rejected_by = None, pa_rejected_at = None, pa_version = 1\<rparr>"

definition prepare_action :: "approval_service \<Rightarrow> approval_env \<Rightarrow> prepare_request
    \<Rightarrow> prepared_action approval_op" where
  "prepare_action svc env rq = require_writes_enabled env
     (case get_function_spec (rq_function_id rq) of
        None \<Rightarrow> sx_raise (ApprovalValueError ''pending actions require a known write Function ID'')
      | Some spec \<Rightarrow>
     guard (\<not> is_write spec)
       (ApprovalValueError ''pending actions require a known write Function ID'') (
     guard (fs_requires_target spec \<and> absent (rq_target_employee_id rq))
       (ApprovalValueError ''target employee ID is required'') (
     guard (rq_correlation_id rq = [] \<or> rq_requester_id rq = [] \<or> rq_guild_id rq = []
         \<or> rq_channel_id rq = [] \<or> rq_state_fingerprint rq = [])
       (ApprovalValueError ''pending action context cannot be empty'') (
     case clean_motivation (rq_motivation rq) of
       Inl e \<Rightarrow> sx_raise (NormalizationError e)
     | Inr motivation \<Rightarrow>
     guard (fs_destructive spec \<and> absent motivation)
       (ApprovalValueError ''critical actions require a motivation'') (
     guard (rq_encrypted_parameters rq = [])
       (ApprovalValueError ''encrypted pending parameters cannot be empty'') (
     guard (effective_ttl svc (rq_ttl rq) \<le> 0)
       (ApprovalValueError ''approval TTL must be positive'') (
     with_now env (\<lambda>now.
     case create_confirmation (ae_hmac env) (as_hasher svc) (ae_draw env) (ae_salt env)
         (ae_uuid env) of
       Inl e \<Rightarrow> sx_raise (ConfirmationFault e)
     | Inr material \<Rightarrow> (let key = effective_key env (rq_idempotency_key rq) in
     guard (\<not> (16 \<le> length key \<and> length key \<le> 200))
       (ApprovalValueError ''idempotency key must contain 16..200 characters'') (
     let action = new_action rq env spec motivation now (effective_ttl svc (rq_ttl rq)) material key
     in (\<lambda>s. case repo_insert action s of
         (Inl e, s') \<Rightarrow> (Inl (StoreFault e), s')
       | (Inr _, s') \<Rightarrow> (Inr \<lparr>pr_action = action, pr_confirmation_code = cm_code material,
            pr_required_text_confirmation = confirmation_text spec (rq_target_employee_id rq)\<rparr>,
            s'))))))))))))"

section \<open>confirm, approve, reject\<close>

definition confirmed_action :: "pending_action \<Rightarrow> int \<Rightarrow> pending_action" where
  "confirmed_action a now = a\<lparr>pa_confirmation_consumed_at := Some now,
     pa_status := (if pa_approvals_required a = 0 then APPROVED else PENDING),
     pa_version := pa_version a + 1\<rparr>"

definition confirm_action :: "approval_service \<Rightarrow> approval_env \<Rightarrow> string \<Rightarrow> string \<Rightarrow> string
    \<Rightarrow> string option \<Rightarrow> pending_action approval_op" where
  "confirm_action svc env action_id requester_id confirmation_code text_confirmation =
     require_writes_enabled env (with_active env action_id (\<lambda>a now.
     guard (requester_id \<noteq> pa_requester_id a)
       (AuthorizationError ''only the requester can consume the confirmation code'') (
     guard (confirmed a)
       (InvalidConfirmationError ''confirmation code was already consumed'') (
     case verify_confirmation (ae_hmac env) (as_hasher svc) (pa_action_id a)
         (pa_confirmation_salt a) (pa_confirmation_digest a) confirmation_code of
       Inl e \<Rightarrow> sx_raise (ConfirmationFault e)
     | Inr matches \<Rightarrow>
     guard (\<not> matches) (InvalidConfirmationError ''invalid confirmation code'') (
     with_function_spec a (\<lambda>spec.
     guard (case confirmation_text spec (pa_target_employee_id a) of
              None \<Rightarrow> False | Some expected \<Rightarrow> text_confirmation \<noteq> Some expected)
       (InvalidConfirmationError ''explicit target confirmation does not match'')
     (save_action (confirmed_action a now) (pa_version a))))))))"

definition approved_action :: "pending_action \<Rightarrow> string \<Rightarrow> int \<Rightarrow> pending_action" where
  "approved_action a approver_id now = (let
       approvals = pa_approvals a @ [\<lparr>ar_approver_id = approver_id, ar_approved_at = now\<rparr>]
     in a\<lparr>pa_approvals := approvals,
       pa_status := (if pa_approvals_required a \<le> length approvals then APPROVED
                     else PARTIALLY_APPROVED),
       pa_version := pa_version a + 1\<rparr>)"

definition with_roles ::
  "string list \<Rightarrow> (logical_role list \<Rightarrow> 'a approval_op) \<Rightarrow> 'a approval_op" where
  "with_roles vals k = (case normalize_roles vals of
     None \<Rightarrow> sx_raise (AuthorizationError ''unknown logical approver role'')
   | Some roles \<Rightarrow> k roles)"

definition eligible :: "function_spec \<Rightarrow> logical_role list \<Rightarrow> bool" where
  "eligible spec roles = list_ex (\<lambda>r. r \<in> set roles) (fs_approver_roles spec)"

definition approve_action :: "approval_env \<Rightarrow> string \<Rightarrow> string \<Rightarrow> string list
    \<Rightarrow> pending_action approval_op" where
  "approve_action env action_id approver_id approver_roles =
     require_writes_enabled env (with_active env action_id (\<lambda>a now.
     guard (\<not> confirmed a) (InvalidStateError ''requester confirmation is required first'') (
     guard (pa_approvals_required a = 0)
       (InvalidStateError ''this action does not require an approver'') (
     guard (pa_status a = APPROVED) (InvalidStateError ''action is already fully approved'') (
     guard (approver_id = pa_requester_id a)
       (AuthorizationError ''requester cannot approve their own action'') (
     guard (approver_id \<in> set (approved_by a)) (AuthorizationError ''approver already recorded'') (
     with_function_spec a (\<lambda>spec.
     with_roles approver_roles (\<lambda>roles.
     guard (\<not> eligible spec roles)
       (AuthorizationError ''actor does not have an eligible approver role'')
     (save_action (approved_action a approver_id now) (pa_version a)))))))))))"

definition rejected_action :: "pending_action \<Rightarrow> string \<Rightarrow> string \<Rightarrow> int \<Rightarrow> pending_action" where
  "rejected_action a actor_id reason now = a\<lparr>pa_status := REJECTED,
     pa_rejection_reason := Some reason, pa_rejected_by := Some actor_id,
     pa_rejected_at := Some now, pa_version := pa_version a + 1\<rparr>"

definition reject_action :: "approval_env \<Rightarrow> string \<Rightarrow> string \<Rightarrow> string list \<Rightarrow> string
    \<Rightarrow> pending_action approval_op" where
  "reject_action env action_id actor_id actor_roles reason =
     with_active env action_id (\<lambda>a now.
     with_function_spec a (\<lambda>spec.
     with_roles actor_roles (\<lambda>roles.
     guard (actor_id \<in> set (approved_by a))
       (InvalidStateError ''a recorded approval cannot be changed to rejection'') (
     guard (actor_id \<noteq> pa_requester_id a \<and> \<not> eligible spec roles)
       (AuthorizationError ''actor cannot reject this action'') (
     case normalize_text reason 500 True of
       Inl e \<Rightarrow> sx_raise (NormalizationError e)
     | Inr cleaned_reason \<Rightarrow>
     guard (cleaned_reason = [])
       (ApprovalValueError ''rejection reason must contain 1..500 characters'')
     (save_action (rejected_action a actor_id cleaned_reason now) (pa_version a)))))))"

section \<open>Execution\<close>

definition CLAIMED_STATUSES :: "action_status list" where
  "CLAIMED_STATUSES =
     [EXECUTING, SUCCEEDED, UNKNOWN_REQUIRES_RECONCILIATION, RECONCILED_NOT_APPLIED]"

definition with_status :: "pending_action \<Rightarrow> action_status \<Rightarrow> pending_action" where
  "with_status a st = a\<lparr>pa_status := st, pa_version := pa_version a + 1\<rparr>"

text \<open>Claim the key, then record the start of the execution.\<close>

definition claim_execution :: "pending_action \<Rightarrow> pending_action approval_op" where
  "claim_execution a = (\<lambda>s. case repo_claim (pa_idempotency_key a) (pa_action_id a) s of
     (False, s') \<Rightarrow> (Inl (DuplicateExecutionError ''idempotency key was already claimed''), s')
   | (True, s') \<Rightarrow> save_action (with_status a EXECUTING) (pa_version a) s')"

definition begin_execution ::
  "approval_env \<Rightarrow> string \<Rightarrow> string \<Rightarrow> pending_action approval_op" where
  "begin_execution env action_id current_state_fingerprint =
     require_writes_enabled env (get_action action_id (\<lambda>a.
     guard (pa_status a \<in> set CLAIMED_STATUSES)
       (DuplicateExecutionError ''action execution was already claimed'') (
     with_now env (\<lambda>now. require_active a now (
     guard (pa_status a \<noteq> APPROVED) (InvalidStateError ''action is not fully approved'') (
     if current_state_fingerprint \<noteq> pa_state_fingerprint a
       then sx_bind (save_action (with_status a STALE) (pa_version a))
              (\<lambda>_. sx_raise StaleTargetError)
     else claim_execution a))))))"

definition completed_action :: "pending_action \<Rightarrow> string \<Rightarrow> string \<Rightarrow> bool \<Rightarrow> pending_action" where
  "completed_action a execution_result postcondition_result verified =
     a\<lparr>pa_status := (if verified then SUCCEEDED else UNKNOWN_REQUIRES_RECONCILIATION),
       pa_execution_result := Some execution_result,
       pa_postcondition_result := Some postcondition_result,
       pa_version := pa_version a + 1\<rparr>"

definition complete_success ::
  "string \<Rightarrow> string \<Rightarrow> string \<Rightarrow> bool \<Rightarrow> pending_action approval_op" where
  "complete_success action_id execution_result postcondition_result postcondition_verified =
     get_action action_id (\<lambda>a.
     guard (pa_status a \<noteq> EXECUTING) (InvalidStateError ''only an executing action can complete'')
     (save_action (completed_action a execution_result postcondition_result postcondition_verified)
        (pa_version a)))"

definition failed_action :: "pending_action \<Rightarrow> string \<Rightarrow> bool \<Rightarrow> pending_action" where
  "failed_action a result outcome_uncertain =
     a\<lparr>pa_status := (if outcome_uncertain then UNKNOWN_REQUIRES_RECONCILIATION else FAILED),
       pa_execution_result := Some result, pa_version := pa_version a + 1\<rparr>"

definition complete_failure :: "string \<Rightarrow> string \<Rightarrow> bool \<Rightarrow> pending_action approval_op" where
  "complete_failure action_id result outcome_uncertain =
     get_action action_id (\<lambda>a.
     guard (pa_status a \<noteq> EXECUTING) (InvalidStateError ''only an executing action can fail'')
     (save_action (failed_action a result outcome_uncertain) (pa_version a)))"

definition reconciled_action :: "pending_action \<Rightarrow> bool \<Rightarrow> string \<Rightarrow> pending_action" where
  "reconciled_action a postcondition_met result =
     a\<lparr>pa_status := (if postcondition_met then SUCCEEDED else RECONCILED_NOT_APPLIED),
       pa_postcondition_result := Some result, pa_version := pa_version a + 1\<rparr>"

definition reconcile_action :: "string \<Rightarrow> bool \<Rightarrow> string \<Rightarrow> pending_action approval_op" where
  "reconcile_action action_id postcondition_met result =
     get_action action_id (\<lambda>a.
     guard (pa_status a \<noteq> UNKNOWN_REQUIRES_RECONCILIATION)
       (InvalidStateError ''only an uncertain action can be reconciled'')
     (save_action (reconciled_action a postcondition_met result) (pa_version a)))"

section \<open>expire\_pending\<close>

text \<open>The loop over the snapshot \<open>list_actions\<close> returned; a failing replacement ends it.\<close>

fun expire_loop :: "int \<Rightarrow> pending_action list \<Rightarrow> nat \<Rightarrow> nat approval_op" where
  "expire_loop now [] count = sx_return count"
| "expire_loop now (a # actions) count =
     (if pa_status a \<in> set ACTIVE_STATUSES \<and> pa_expires_at a \<le> now
      then sx_bind (save_action (expire_action a) (pa_version a))
             (\<lambda>_. expire_loop now actions (count + 1))
      else expire_loop now actions count)"

definition expire_pending :: "approval_env \<Rightarrow> nat approval_op" where
  "expire_pending env =
     with_now env (\<lambda>now s. expire_loop now (repo_list s) 0 s)"

section \<open>Successful runs\<close>

text \<open>Each combinator, run to a result: what must have held, and what ran next.\<close>

lemma guard_Inr: "guard b e m s = (Inr y, s') \<longleftrightarrow> \<not> b \<and> m s = (Inr y, s')"
  by (simp add: guard_def sx_raise_def)

lemma writes_Inr: "require_writes_enabled env m s = (Inr y, s') \<longleftrightarrow>
    ae_writes_enabled env \<and> m s = (Inr y, s')"
  by (simp add: require_writes_enabled_def guard_Inr)

lemma approval_now_Inr: "approval_now env = Inr now \<longleftrightarrow> ae_clock env = Aware now"
  by (cases "ae_clock env") (simp_all add: approval_now_def)

lemma with_now_Inr: "with_now env k s = (Inr y, s') \<longleftrightarrow>
    (\<exists>now. ae_clock env = Aware now \<and> k now s = (Inr y, s'))"
  by (cases "ae_clock env") (simp_all add: with_now_def approval_now_def sx_raise_def)

lemma get_action_Inr: "get_action i k s = (Inr y, s') \<longleftrightarrow>
    (\<exists>a. repo_get s i = Some a \<and> k a s = (Inr y, s'))"
  by (auto simp: get_action_def split: option.splits)

lemma require_active_Inr: "require_active a now m s = (Inr y, s') \<longleftrightarrow>
    pa_status a \<in> set ACTIVE_STATUSES \<and> now < pa_expires_at a \<and> m s = (Inr y, s')"
  by (auto simp: require_active_def guard_Inr sx_bind_Inr sx_raise_def not_le)

lemma with_active_Inr: "with_active env i k s = (Inr y, s') \<longleftrightarrow>
    (\<exists>a now. repo_get s i = Some a \<and> ae_clock env = Aware now
       \<and> pa_status a \<in> set ACTIVE_STATUSES \<and> now < pa_expires_at a \<and> k a now s = (Inr y, s'))"
  by (auto simp: with_active_def get_action_Inr with_now_Inr require_active_Inr)

lemma with_function_spec_Inr: "with_function_spec a k s = (Inr y, s') \<longleftrightarrow>
    (\<exists>spec. get_function_spec (pa_function_id a) = Some spec \<and> is_write spec \<and> k spec s = (Inr y, s'))"
  by (auto simp: with_function_spec_def guard_Inr sx_raise_def split: option.splits)

lemma with_roles_Inr: "with_roles vals k s = (Inr y, s') \<longleftrightarrow>
    (\<exists>roles. normalize_roles vals = Some roles \<and> k roles s = (Inr y, s'))"
  by (auto simp: with_roles_def sx_raise_def split: option.splits)

lemma save_action_Inr: "save_action b v s = (Inr y, s') \<longleftrightarrow>
    y = b \<and> repo_replace b v s = (Inr (), s')"
  by (auto simp: save_action_def split: prod.splits sum.splits)

lemma claim_execution_Inr: "claim_execution a s = (Inr y, s') \<longleftrightarrow>
    (\<exists>t. repo_claim (pa_idempotency_key a) (pa_action_id a) s = (True, t)
       \<and> save_action (with_status a EXECUTING) (pa_version a) t = (Inr y, s'))"
  by (auto simp: claim_execution_def split: prod.splits bool.splits)

lemma sx_raise_Inr: "\<not> sx_raise e s = (Inr y, s')"
  by (simp add: sx_raise_def)

lemmas op_Inr = guard_Inr writes_Inr with_now_Inr get_action_Inr require_active_Inr with_active_Inr
  with_function_spec_Inr with_roles_Inr save_action_Inr claim_execution_Inr sx_raise_Inr

lemma prepare_action_Inr:
  assumes "prepare_action svc env rq s = (Inr p, s')"
  shows "\<exists>spec motivation now material.
      ae_writes_enabled env \<and> get_function_spec (rq_function_id rq) = Some spec \<and> is_write spec
    \<and> (fs_requires_target spec \<longrightarrow> \<not> absent (rq_target_employee_id rq))
    \<and> rq_correlation_id rq \<noteq> [] \<and> rq_requester_id rq \<noteq> [] \<and> rq_guild_id rq \<noteq> []
    \<and> rq_channel_id rq \<noteq> [] \<and> rq_state_fingerprint rq \<noteq> []
    \<and> clean_motivation (rq_motivation rq) = Inr motivation
    \<and> (fs_destructive spec \<longrightarrow> \<not> absent motivation) \<and> rq_encrypted_parameters rq \<noteq> []
    \<and> 0 < effective_ttl svc (rq_ttl rq) \<and> ae_clock env = Aware now
    \<and> create_confirmation (ae_hmac env) (as_hasher svc) (ae_draw env) (ae_salt env) (ae_uuid env)
        = Inr material
    \<and> 16 \<le> length (effective_key env (rq_idempotency_key rq))
    \<and> length (effective_key env (rq_idempotency_key rq)) \<le> 200
    \<and> pr_action p = new_action rq env spec motivation now (effective_ttl svc (rq_ttl rq)) material
        (effective_key env (rq_idempotency_key rq))
    \<and> pr_confirmation_code p = cm_code material
    \<and> pr_required_text_confirmation p = confirmation_text spec (rq_target_employee_id rq)
    \<and> repo_insert (pr_action p) s = (Inr (), s')"
proof -
  from assms obtain spec where "ae_writes_enabled env"
    and spec: "get_function_spec (rq_function_id rq) = Some spec"
    by (auto simp: prepare_action_def op_Inr split: option.splits)
  moreover from assms spec obtain motivation
    where m: "clean_motivation (rq_motivation rq) = Inr motivation"
    by (auto simp: prepare_action_def op_Inr split: sum.splits)
  moreover from assms spec m obtain now where "ae_clock env = Aware now"
    by (auto simp: prepare_action_def op_Inr)
  ultimately show ?thesis
    using assms
    by (auto simp: prepare_action_def op_Inr create_confirmation_Inr Let_def not_le
        split: prod.splits sum.splits)
qed

text \<open>Bodies that leave the store on an error.\<close>

definition keeps_on_error :: "'a approval_op \<Rightarrow> approval_mem \<Rightarrow> bool" where
  "keeps_on_error m s = (\<forall>e. fst (m s) = Inl e \<longrightarrow> snd (m s) = s)"

lemma keeps_raise [simp]: "keeps_on_error (sx_raise e) s"
  by (simp add: keeps_on_error_def sx_raise_def)

lemma keeps_guard: "keeps_on_error m s \<Longrightarrow> keeps_on_error (guard b e m) s"
  by (simp add: guard_def)

lemma keeps_now: "(\<And>now. keeps_on_error (k now) s) \<Longrightarrow> keeps_on_error (with_now env k) s"
  by (simp add: with_now_def split: sum.splits)

lemma prepare_action_keeps: "keeps_on_error (prepare_action svc env rq) s"
proof -
  have ins: "keeps_on_error (\<lambda>s. case repo_insert action s of
         (Inl e, s') \<Rightarrow> (Inl (StoreFault e), s')
       | (Inr _, s') \<Rightarrow> (Inr p, s')) s" for action and p :: prepared_action
    by (simp add: keeps_on_error_def repo_insert_def)
  show ?thesis
    unfolding prepare_action_def require_writes_enabled_def Let_def
    by (simp add: keeps_guard keeps_now ins split: option.splits sum.splits)
qed

end
