(* ===== verification/ApprovalMachine.thy ===== *)
theory ApprovalMachine
  imports ApprovalService
begin

text \<open>
  The approval workflow as a state machine: its events, the moves one action can make, and the
  four shapes of a change of the store. Every operation of \<open>ApprovalService\<close> is a sequence of
  such changes, so an invariant is proved once, over the shapes.
\<close>

datatype approval_event =
    Prepare approval_env prepare_request
  | Confirm approval_env string string string "string option"
  | Approve approval_env string string "string list"
  | Reject approval_env string string "string list" string
  | BeginExecution approval_env string string
  | CompleteSuccess string string string bool
  | CompleteFailure string string bool
  | Reconcile string bool string
  | ExpirePending approval_env

definition outcome :: "('e + 'a) \<times> 's \<Rightarrow> ('e + unit) \<times> 's" where
  "outcome r = (case r of (Inl e, s) \<Rightarrow> (Inl e, s) | (Inr _, s) \<Rightarrow> (Inr (), s))"

fun approval_exec :: "approval_service \<Rightarrow> approval_event \<Rightarrow> unit approval_op" where
  "approval_exec svc (Prepare env rq) s = outcome (prepare_action svc env rq s)"
| "approval_exec svc (Confirm env i who code text) s =
     outcome (confirm_action svc env i who code text s)"
| "approval_exec svc (Approve env i who roles) s = outcome (approve_action env i who roles s)"
| "approval_exec svc (Reject env i who roles reason) s =
     outcome (reject_action env i who roles reason s)"
| "approval_exec svc (BeginExecution env i fingerprint) s =
     outcome (begin_execution env i fingerprint s)"
| "approval_exec svc (CompleteSuccess i result post verified) s =
     outcome (complete_success i result post verified s)"
| "approval_exec svc (CompleteFailure i result uncertain) s =
     outcome (complete_failure i result uncertain s)"
| "approval_exec svc (Reconcile i met result) s = outcome (reconcile_action i met result s)"
| "approval_exec svc (ExpirePending env) s = outcome (expire_pending env s)"

definition approval_step :: "approval_service \<Rightarrow> approval_event \<Rightarrow> approval_mem \<Rightarrow> approval_mem" where
  "approval_step svc ev s = snd (approval_exec svc ev s)"

inductive reachable :: "approval_service \<Rightarrow> approval_mem \<Rightarrow> bool" for svc where
  reachable_empty: "reachable svc empty_approval_mem"
| reachable_step: "reachable svc s \<Longrightarrow> reachable svc (approval_step svc ev s)"

section \<open>Moves of one action\<close>

inductive action_move :: "pending_action \<Rightarrow> pending_action \<Rightarrow> bool" where
  move_expire: "pa_status a \<in> set ACTIVE_STATUSES \<Longrightarrow> pa_expires_at a \<le> now \<Longrightarrow>
     action_move a (expire_action a)"
| move_confirm: "pa_status a \<in> set ACTIVE_STATUSES \<Longrightarrow> now < pa_expires_at a \<Longrightarrow> \<not> confirmed a \<Longrightarrow>
     action_move a (confirmed_action a now)"
| move_approve: "pa_status a \<in> set ACTIVE_STATUSES \<Longrightarrow> now < pa_expires_at a \<Longrightarrow> confirmed a \<Longrightarrow>
     pa_approvals_required a \<noteq> 0 \<Longrightarrow> pa_status a \<noteq> APPROVED \<Longrightarrow> who \<noteq> pa_requester_id a \<Longrightarrow>
     who \<notin> set (approved_by a) \<Longrightarrow> action_move a (approved_action a who now)"
| move_reject: "pa_status a \<in> set ACTIVE_STATUSES \<Longrightarrow> who \<notin> set (approved_by a) \<Longrightarrow> reason \<noteq> [] \<Longrightarrow>
     action_move a (rejected_action a who reason now)"
| move_stale: "pa_status a = APPROVED \<Longrightarrow> action_move a (with_status a STALE)"
| move_complete: "pa_status a = EXECUTING \<Longrightarrow> action_move a (completed_action a r p v)"
| move_fail: "pa_status a = EXECUTING \<Longrightarrow> action_move a (failed_action a r u)"
| move_reconcile: "pa_status a = UNKNOWN_REQUIRES_RECONCILIATION \<Longrightarrow>
     action_move a (reconciled_action a m r)"

definition fresh_action :: "pending_action \<Rightarrow> bool" where
  "fresh_action a = (pa_status a = PENDING \<and> pa_approvals a = [] \<and> \<not> confirmed a \<and> pa_version a = 1
     \<and> pa_created_at a < pa_expires_at a \<and> pa_rejected_by a = None \<and> pa_rejected_at a = None
     \<and> (\<exists>spec. get_function_spec (pa_function_id a) = Some spec \<and> is_write spec
         \<and> pa_approvals_required a = fs_approvals_required spec
         \<and> (fs_requires_target spec \<longrightarrow> \<not> absent (pa_target_employee_id a))
         \<and> (fs_destructive spec \<longrightarrow> \<not> absent (pa_motivation a)))
     \<and> pa_requester_id a \<noteq> [] \<and> pa_encrypted_parameters a \<noteq> []
     \<and> 16 \<le> length (pa_idempotency_key a) \<and> length (pa_idempotency_key a) \<le> 200)"

section \<open>Shapes of a change of the store\<close>

inductive store_change :: "approval_mem \<Rightarrow> approval_mem \<Rightarrow> bool" where
  change_insert: "fresh_action a \<Longrightarrow> repo_insert a s = (Inr (), s') \<Longrightarrow> store_change s s'"
| change_move: "repo_get s (pa_action_id a) = Some a \<Longrightarrow> action_move a b \<Longrightarrow>
     repo_replace b (pa_version a) s = (Inr (), s') \<Longrightarrow> store_change s s'"
| change_execute: "repo_get s (pa_action_id a) = Some a \<Longrightarrow> pa_status a = APPROVED \<Longrightarrow>
     now < pa_expires_at a \<Longrightarrow>
     repo_claim (pa_idempotency_key a) (pa_action_id a) s = (True, t) \<Longrightarrow>
     repo_replace (with_status a EXECUTING) (pa_version a) t = (Inr (), s') \<Longrightarrow> store_change s s'"

abbreviation store_changes :: "approval_mem \<Rightarrow> approval_mem \<Rightarrow> bool" where
  "store_changes \<equiv> store_change\<^sup>*\<^sup>*"

text \<open>Every record sits under its own identifier, once.\<close>

definition keyed :: "approval_mem \<Rightarrow> bool" where
  "keyed s = (distinct (map fst (am_actions s))
     \<and> (\<forall>i a. repo_get s i = Some a \<longrightarrow> pa_action_id a = i))"

lemmas move_defs = expire_action_def confirmed_action_def approved_action_def rejected_action_def
  with_status_def completed_action_def failed_action_def reconciled_action_def Let_def

text \<open>What no move changes.\<close>

lemma action_move_frame:
  assumes "action_move a b"
  shows "pa_action_id b = pa_action_id a \<and> pa_version b = pa_version a + 1
    \<and> pa_idempotency_key b = pa_idempotency_key a \<and> pa_function_id b = pa_function_id a
    \<and> pa_requester_id b = pa_requester_id a \<and> pa_approvals_required b = pa_approvals_required a
    \<and> pa_expires_at b = pa_expires_at a \<and> pa_created_at b = pa_created_at a
    \<and> pa_encrypted_parameters b = pa_encrypted_parameters a
    \<and> pa_target_employee_id b = pa_target_employee_id a \<and> pa_motivation b = pa_motivation a
    \<and> pa_state_fingerprint b = pa_state_fingerprint a"
  using assms by cases (simp_all add: move_defs)

lemma keyed_update:
  assumes "keyed s" and "am_actions s' = AList.update (pa_action_id a) a (am_actions s)"
  shows "keyed s'"
  using assms by (simp add: keyed_def repo_get_def distinct_update)

lemma store_change_keyed: "store_change s s' \<Longrightarrow> keyed s \<Longrightarrow> keyed s'"
  by (induction rule: store_change.induct)
    (auto simp: repo_insert_Inr repo_replace_Inr repo_claim_True intro: keyed_update)

lemma store_changes_keyed: "store_changes s s' \<Longrightarrow> keyed s \<Longrightarrow> keyed s'"
  by (induction rule: rtranclp_induct) (auto intro: store_change_keyed)

section \<open>Every operation is a sequence of such changes\<close>

text \<open>
  \<open>cas_safe m s\<close>: run from \<open>s\<close>, the body changes the store in one of the shapes and its
  compare-and-set does not fail.
\<close>

definition cas_safe :: "'a approval_op \<Rightarrow> approval_mem \<Rightarrow> bool" where
  "cas_safe m s = (store_changes s (snd (m s)) \<and> (\<forall>e. fst (m s) \<noteq> Inl (StoreFault e)))"

lemma move_replaces:
  assumes "repo_get s (pa_action_id a) = Some a" and "action_move a b"
  shows "\<exists>s'. repo_replace b (pa_version a) s = (Inr (), s') \<and> store_change s s'"
proof -
  note frame = action_move_frame [OF assms(2)]
  have "\<exists>s'. repo_replace b (pa_version a) s = (Inr (), s')"
    using assms(1) frame by (auto simp: repo_replace_Inr repo_get_def)
  then show ?thesis using change_move [OF assms] by blast
qed

lemma save_move:
  assumes "repo_get s (pa_action_id a) = Some a" and "action_move a b"
  shows "\<exists>s'. save_action b (pa_version a) s = (Inr b, s') \<and> store_change s s'"
  using move_replaces [OF assms] by (auto simp: save_action_def)

lemma cas_safe_save:
  assumes "repo_get s (pa_action_id a) = Some a" and "action_move a b"
  shows "cas_safe (save_action b (pa_version a)) s"
  using save_move [OF assms] by (auto simp: cas_safe_def)

lemma cas_safe_save_raise:
  assumes "repo_get s (pa_action_id a) = Some a" and "action_move a b" and "\<forall>f. e \<noteq> StoreFault f"
  shows "cas_safe (sx_bind (save_action b (pa_version a)) (\<lambda>_. sx_raise e)) s"
  using save_move [OF assms(1,2)] assms(3) by (auto simp: cas_safe_def sx_bind_def sx_raise_def)

lemma cas_safe_raise [simp]: "cas_safe (sx_raise e) s \<longleftrightarrow> (\<forall>f. e \<noteq> StoreFault f)"
  by (auto simp: cas_safe_def sx_raise_def)

lemma cas_safe_guard [simp]:
  "cas_safe (guard b e m) s \<longleftrightarrow> (if b then \<forall>f. e \<noteq> StoreFault f else cas_safe m s)"
  by (simp add: guard_def)

lemma cas_safe_writes [simp]:
  "cas_safe (require_writes_enabled env m) s \<longleftrightarrow> (ae_writes_enabled env \<longrightarrow> cas_safe m s)"
  by (simp add: require_writes_enabled_def)

lemma approval_now_not_fault: "approval_now env = Inl e \<Longrightarrow> e \<noteq> StoreFault f"
  by (cases "ae_clock env") (auto simp: approval_now_def)

lemma cas_safe_now: "(\<And>now. cas_safe (k now) s) \<Longrightarrow> cas_safe (with_now env k) s"
  using approval_now_not_fault by (auto simp: with_now_def split: sum.splits)

lemma cas_safe_get:
  "keyed s \<Longrightarrow> (\<And>a. repo_get s (pa_action_id a) = Some a \<Longrightarrow> pa_action_id a = i \<Longrightarrow> cas_safe (k a) s) \<Longrightarrow>
    cas_safe (get_action i k) s"
  by (auto simp: cas_safe_def get_action_def keyed_def split: option.splits)

lemma cas_safe_active:
  assumes "repo_get s (pa_action_id a) = Some a"
    and "pa_status a \<in> set ACTIVE_STATUSES \<Longrightarrow> now < pa_expires_at a \<Longrightarrow> cas_safe m s"
  shows "cas_safe (require_active a now m) s"
  using assms by (auto simp: require_active_def not_le intro!: cas_safe_save_raise move_expire)

lemma cas_safe_with_active:
  assumes "keyed s"
    and "\<And>a now. repo_get s (pa_action_id a) = Some a \<Longrightarrow> pa_action_id a = i \<Longrightarrow> pa_status a \<in> set ACTIVE_STATUSES \<Longrightarrow>
        now < pa_expires_at a \<Longrightarrow> cas_safe (k a now) s"
  shows "cas_safe (with_active env i k) s"
  unfolding with_active_def
  by (intro cas_safe_get cas_safe_now cas_safe_active assms)

lemma cas_safe_spec:
  "(\<And>spec. get_function_spec (pa_function_id a) = Some spec \<Longrightarrow> is_write spec \<Longrightarrow> cas_safe (k spec) s) \<Longrightarrow>
    cas_safe (with_function_spec a k) s"
  by (auto simp: with_function_spec_def split: option.splits)

lemma cas_safe_roles:
  "(\<And>roles. cas_safe (k roles) s) \<Longrightarrow> cas_safe (with_roles vals k) s"
  by (auto simp: with_roles_def split: option.splits)

lemmas cas_safe_intros = cas_safe_with_active cas_safe_get cas_safe_now cas_safe_active
  cas_safe_spec cas_safe_roles cas_safe_save cas_safe_save_raise

lemma confirm_cas_safe: "keyed s \<Longrightarrow> cas_safe (confirm_action svc env i who code text) s"
  unfolding confirm_action_def
  by (auto intro!: cas_safe_intros move_confirm split: sum.splits)

lemma approve_cas_safe: "keyed s \<Longrightarrow> cas_safe (approve_action env i who roles) s"
  unfolding approve_action_def by (auto intro!: cas_safe_intros move_approve)

lemma reject_cas_safe: "keyed s \<Longrightarrow> cas_safe (reject_action env i who roles reason) s"
  unfolding reject_action_def by (auto intro!: cas_safe_intros move_reject split: sum.splits)

lemma complete_success_cas_safe: "keyed s \<Longrightarrow> cas_safe (complete_success i r p v) s"
  unfolding complete_success_def by (auto intro!: cas_safe_intros move_complete)

lemma complete_failure_cas_safe: "keyed s \<Longrightarrow> cas_safe (complete_failure i r u) s"
  unfolding complete_failure_def by (auto intro!: cas_safe_intros move_fail)

lemma reconcile_cas_safe: "keyed s \<Longrightarrow> cas_safe (reconcile_action i m r) s"
  unfolding reconcile_action_def by (auto intro!: cas_safe_intros move_reconcile)

lemma execute_saves:
  assumes a: "repo_get s (pa_action_id a) = Some a" and "pa_status a = APPROVED"
    and "now < pa_expires_at a"
    and claim: "repo_claim (pa_idempotency_key a) (pa_action_id a) s = (True, t)"
  shows "\<exists>s'. save_action (with_status a EXECUTING) (pa_version a) t
      = (Inr (with_status a EXECUTING), s') \<and> store_change s s'"
proof -
  from claim a have "repo_get t (pa_action_id a) = Some a"
    by (auto simp: repo_claim_True repo_get_def)
  then have "\<exists>s'. repo_replace (with_status a EXECUTING) (pa_version a) t = (Inr (), s')"
    by (auto simp: repo_replace_Inr repo_get_def with_status_def)
  then show ?thesis using change_execute [OF assms] by (auto simp: save_action_def)
qed

lemma claim_execution_cas_safe:
  assumes "repo_get s (pa_action_id a) = Some a" "pa_status a = APPROVED" "now < pa_expires_at a"
  shows "cas_safe (claim_execution a) s"
proof (cases "repo_claim (pa_idempotency_key a) (pa_action_id a) s")
  case (Pair b t)
  show ?thesis
  proof (cases b)
    case True
    with Pair execute_saves [OF assms, of t] show ?thesis
      by (auto simp: cas_safe_def claim_execution_def)
  next
    case False
    with Pair approval_store.claim_refused [of _ _ s t] show ?thesis
      by (auto simp: cas_safe_def claim_execution_def)
  qed
qed

lemma begin_execution_cas_safe: "keyed s \<Longrightarrow> cas_safe (begin_execution env i fingerprint) s"
  unfolding begin_execution_def
  by (auto intro!: cas_safe_intros move_stale) (blast intro: claim_execution_cas_safe)

lemma expire_loop_cas_safe:
  assumes "\<forall>a\<in>set actions. repo_get s (pa_action_id a) = Some a"
    and "distinct (map pa_action_id actions)"
  shows "cas_safe (expire_loop now actions n) s"
  using assms
proof (induction actions arbitrary: s n)
  case Nil
  then show ?case by (simp add: cas_safe_def sx_return_def)
next
  case (Cons a actions)
  show ?case
  proof (cases "pa_status a \<in> set ACTIVE_STATUSES \<and> pa_expires_at a \<le> now")
    case True
    with Cons.prems have "repo_get s (pa_action_id a) = Some a" "action_move a (expire_action a)"
      by (auto intro: move_expire)
    from save_move [OF this] obtain t where
      t: "save_action (expire_action a) (pa_version a) s = (Inr (expire_action a), t)" "store_change s t"
      by blast
    then have "repo_replace (expire_action a) (pa_version a) s = (Inr (), t)"
      by (auto simp: save_action_def split: prod.splits sum.splits)
    then have "repo_get t = (repo_get s)(pa_action_id a \<mapsto> expire_action a)"
      using repo_replace_ok by (fastforce simp: expire_action_def)
    then have others: "\<forall>b\<in>set actions. repo_get t (pa_action_id b) = Some b"
      using Cons.prems by (metis distinct.simps(2) fun_upd_apply image_eqI list.set_intros(2) list.set_map
          list.simps(9))
    from Cons.prems(2) have "distinct (map pa_action_id actions)" by simp
    from Cons.IH [OF others this] have "cas_safe (expire_loop now actions (n + 1)) t" .
    with True t show ?thesis
      by (auto simp: cas_safe_def sx_bind_def intro: converse_rtranclp_into_rtranclp)
  next
    case False
    with Cons show ?thesis by (auto simp: cas_safe_def)
  qed
qed

lemma keyed_list:
  assumes "keyed s"
  shows "\<forall>a\<in>set (repo_list s). repo_get s (pa_action_id a) = Some a"
    and "distinct (map pa_action_id (repo_list s))"
proof -
  have pair: "repo_get s i = Some a \<and> pa_action_id a = i" if "(i, a) \<in> set (am_actions s)" for i a
    using assms that unfolding keyed_def repo_get_def by (metis map_of_eq_Some_iff)
  show "\<forall>a\<in>set (repo_list s). repo_get s (pa_action_id a) = Some a"
    using pair by (auto simp: repo_list_def)
  have "map pa_action_id (repo_list s) = map fst (am_actions s)"
    using pair by (auto simp: repo_list_def)
  with assms show "distinct (map pa_action_id (repo_list s))" by (simp add: keyed_def)
qed

lemma expire_pending_cas_safe: "keyed s \<Longrightarrow> cas_safe (expire_pending env) s"
proof -
  assume "keyed s"
  from expire_loop_cas_safe [OF keyed_list [OF this]]
  have "cas_safe (\<lambda>s. expire_loop now (repo_list s) 0 s) s" for now by (simp add: cas_safe_def)
  then show ?thesis unfolding expire_pending_def by (rule cas_safe_now)
qed

text \<open>\<open>prepare\<close> inserts a fresh action or leaves the store.\<close>

lemma prepare_Inr:
  assumes "prepare_action svc env rq s = (Inr p, s')"
  shows "fresh_action (pr_action p) \<and> repo_insert (pr_action p) s = (Inr (), s')"
proof -
  have pos: "0 < t \<Longrightarrow> now < now + t" for now t :: int by simp
  have fresh: "fresh_action (new_action rq env spec m now t material key)"
    if "get_function_spec (rq_function_id rq) = Some spec" "is_write spec"
      "fs_requires_target spec \<longrightarrow> \<not> absent (rq_target_employee_id rq)"
      "fs_destructive spec \<longrightarrow> \<not> absent m" "0 < t" "rq_requester_id rq \<noteq> []"
      "rq_encrypted_parameters rq \<noteq> []" "16 \<le> length key" "length key \<le> 200"
    for spec m now t material key
    using that by (simp add: fresh_action_def new_action_def confirmed_def)
  from prepare_action_Inr [OF assms] show ?thesis by (metis fresh)
qed

lemma prepare_Inl: "prepare_action svc env rq s = (Inl e, s') \<Longrightarrow> s' = s"
  using prepare_action_keeps [of svc env rq s] by (simp add: keeps_on_error_def)

lemma outcome_snd [simp]: "snd (outcome r) = snd r"
  by (auto simp: outcome_def split: prod.splits sum.splits)

lemma exec_changes: "keyed s \<Longrightarrow> store_changes s (approval_step svc ev s)"
proof (cases ev)
  case (Prepare env rq)
  show ?thesis
  proof (cases "prepare_action svc env rq s")
    case (Pair x s')
    show ?thesis
    proof (cases x)
      case (Inl e)
      with Pair prepare_Inl [of svc env rq s e s'] Prepare show ?thesis
        by (simp add: approval_step_def)
    next
      case (Inr p)
      with Pair prepare_Inr [of svc env rq s p s'] Prepare show ?thesis
        by (auto simp: approval_step_def intro: change_insert)
    qed
  qed
qed (auto simp: approval_step_def intro: confirm_cas_safe [unfolded cas_safe_def, THEN conjunct1]
    approve_cas_safe [unfolded cas_safe_def, THEN conjunct1]
    reject_cas_safe [unfolded cas_safe_def, THEN conjunct1]
    begin_execution_cas_safe [unfolded cas_safe_def, THEN conjunct1]
    complete_success_cas_safe [unfolded cas_safe_def, THEN conjunct1]
    complete_failure_cas_safe [unfolded cas_safe_def, THEN conjunct1]
    reconcile_cas_safe [unfolded cas_safe_def, THEN conjunct1]
    expire_pending_cas_safe [unfolded cas_safe_def, THEN conjunct1])

end
