(* ===== verification/ApprovalInvariant.thy ===== *)
theory ApprovalInvariant
  imports ApprovalMachine
begin

text \<open>
  What holds of every reachable state of the approval workflow: each action is well formed for
  its status, idempotency keys belong to one action, and a key is claimed exactly by the action
  whose execution began.
\<close>

definition EXECUTED_STATUSES :: "action_status list" where
  "EXECUTED_STATUSES =
     [EXECUTING, SUCCEEDED, FAILED, UNKNOWN_REQUIRES_RECONCILIATION, RECONCILED_NOT_APPLIED]"

definition executed :: "pending_action \<Rightarrow> bool" where
  "executed a = (pa_status a \<in> set EXECUTED_STATUSES)"

text \<open>Confirmed by the requester and approved by as many others as the record asks for, which is what the
  catalogue asks for by \<open>spec_ok\<close> below.\<close>

definition authorized :: "pending_action \<Rightarrow> bool" where
  "authorized a = (confirmed a \<and> length (pa_approvals a) = pa_approvals_required a
     \<and> distinct (approved_by a) \<and> pa_requester_id a \<notin> set (approved_by a))"

definition status_ok :: "pending_action \<Rightarrow> bool" where
  "status_ok a = (case pa_status a of
     PENDING \<Rightarrow> pa_approvals a = [] \<and> (confirmed a \<longrightarrow> pa_approvals_required a \<noteq> 0)
   | PARTIALLY_APPROVED \<Rightarrow> confirmed a \<and> length (pa_approvals a) < pa_approvals_required a
   | REJECTED \<Rightarrow> (\<exists>who. pa_rejected_by a = Some who \<and> who \<notin> set (approved_by a))
   | EXPIRED \<Rightarrow> True
   | _ \<Rightarrow> authorized a)"

definition spec_ok :: "pending_action \<Rightarrow> bool" where
  "spec_ok a = (\<exists>spec. get_function_spec (pa_function_id a) = Some spec \<and> is_write spec
     \<and> pa_approvals_required a = fs_approvals_required spec
     \<and> (fs_requires_target spec \<longrightarrow> \<not> absent (pa_target_employee_id a))
     \<and> (fs_destructive spec \<longrightarrow> \<not> absent (pa_motivation a)))"

definition action_ok :: "pending_action \<Rightarrow> bool" where
  "action_ok a = (spec_ok a \<and> distinct (approved_by a) \<and> pa_requester_id a \<notin> set (approved_by a)
     \<and> length (pa_approvals a) \<le> pa_approvals_required a \<and> (pa_approvals a \<noteq> [] \<longrightarrow> confirmed a)
     \<and> pa_created_at a < pa_expires_at a \<and> status_ok a)"

definition approval_inv :: "approval_mem \<Rightarrow> bool" where
  "approval_inv s = (keyed s
     \<and> (\<forall>i a. repo_get s i = Some a \<longrightarrow> action_ok a
          \<and> map_of (am_pending_idempotency s) (pa_idempotency_key a) = Some i
          \<and> (executed a \<longrightarrow> repo_claims s (pa_idempotency_key a) = Some i))
     \<and> (\<forall>k i. repo_claims s k = Some i \<longrightarrow>
          (\<exists>a. repo_get s i = Some a \<and> pa_idempotency_key a = k \<and> executed a)))"

lemmas executed_defs = executed_def EXECUTED_STATUSES_def ACTIVE_STATUSES_def

lemma move_spec_ok: "action_move a b \<Longrightarrow> spec_ok a \<Longrightarrow> spec_ok b"
  by (frule action_move_frame) (simp add: spec_ok_def)

lemma confirmed_moves [simp]:
  "confirmed (expire_action a) = confirmed a" "confirmed (with_status a st) = confirmed a"
  "confirmed (confirmed_action a now)" "confirmed (approved_action a who now) = confirmed a"
  "confirmed (rejected_action a who r now) = confirmed a"
  "confirmed (completed_action a r p v) = confirmed a"
  "confirmed (failed_action a r u) = confirmed a" "confirmed (reconciled_action a m r) = confirmed a"
  by (simp_all add: confirmed_def move_defs)

lemma approvals_moves [simp]:
  "pa_approvals (expire_action a) = pa_approvals a" "pa_approvals (with_status a st) = pa_approvals a"
  "pa_approvals (confirmed_action a now) = pa_approvals a"
  "pa_approvals (approved_action a who now) =
     pa_approvals a @ [\<lparr>ar_approver_id = who, ar_approved_at = now\<rparr>]"
  "pa_approvals (rejected_action a who r now) = pa_approvals a"
  "pa_approvals (completed_action a r p v) = pa_approvals a"
  "pa_approvals (failed_action a r u) = pa_approvals a"
  "pa_approvals (reconciled_action a m r) = pa_approvals a"
  by (simp_all add: move_defs)

lemma approved_by_moves [simp]:
  "approved_by (expire_action a) = approved_by a" "approved_by (with_status a st) = approved_by a"
  "approved_by (confirmed_action a now) = approved_by a"
  "approved_by (approved_action a who now) = approved_by a @ [who]"
  "approved_by (rejected_action a who r now) = approved_by a"
  "approved_by (completed_action a r p v) = approved_by a"
  "approved_by (failed_action a r u) = approved_by a"
  "approved_by (reconciled_action a m r) = approved_by a"
  by (simp_all add: approved_by_def)

lemma status_moves [simp]:
  "pa_status (expire_action a) = EXPIRED" "pa_status (with_status a st) = st"
  "pa_status (confirmed_action a now) = (if pa_approvals_required a = 0 then APPROVED else PENDING)"
  "pa_status (approved_action a who now) =
     (if pa_approvals_required a \<le> Suc (length (pa_approvals a)) then APPROVED
      else PARTIALLY_APPROVED)"
  "pa_status (rejected_action a who r now) = REJECTED"
  "pa_rejected_by (rejected_action a who r now) = Some who"
  "pa_status (completed_action a r p v) = (if v then SUCCEEDED else UNKNOWN_REQUIRES_RECONCILIATION)"
  "pa_status (failed_action a r u) = (if u then UNKNOWN_REQUIRES_RECONCILIATION else FAILED)"
  "pa_status (reconciled_action a m r) = (if m then SUCCEEDED else RECONCILED_NOT_APPLIED)"
  by (simp_all add: move_defs)

lemma move_executed: "action_move a b \<Longrightarrow> executed b = executed a"
  by (cases rule: action_move.cases) (auto simp: executed_defs split: if_splits)

lemma status_ok_authorized:
  "action_ok a \<Longrightarrow> pa_status a \<in> {APPROVED, EXECUTING, UNKNOWN_REQUIRES_RECONCILIATION} \<Longrightarrow> authorized a"
  by (auto simp: action_ok_def status_ok_def)

lemma move_status_ok:
  assumes "action_move a b" and ok: "action_ok a"
  shows "status_ok b \<and> distinct (approved_by b) \<and> pa_requester_id b \<notin> set (approved_by b)
    \<and> length (pa_approvals b) \<le> pa_approvals_required b \<and> (pa_approvals b \<noteq> [] \<longrightarrow> confirmed b)"
proof -
  note f = action_move_frame [OF assms(1)]
  from ok have d: "distinct (approved_by a)" "pa_requester_id a \<notin> set (approved_by a)"
    "length (pa_approvals a) \<le> pa_approvals_required a" "pa_approvals a \<noteq> [] \<longrightarrow> confirmed a"
    and st: "status_ok a" by (simp_all add: action_ok_def)
  from assms(1) show ?thesis
  proof cases
    case (move_expire now)
    with f d show ?thesis by (auto simp: status_ok_def)
  next
    case (move_confirm now)
    with f d st show ?thesis
      by (auto simp: status_ok_def authorized_def ACTIVE_STATUSES_def)
  next
    case (move_approve now who)
    with f d st show ?thesis
      by (auto simp: status_ok_def authorized_def ACTIVE_STATUSES_def)
  next
    case (move_reject who reason now)
    with f d st show ?thesis
      by (auto simp: status_ok_def)
  next
    case move_stale
    with f d status_ok_authorized [OF ok] show ?thesis
      by (auto simp: status_ok_def authorized_def)
  next
    case (move_complete r p v)
    with f d status_ok_authorized [OF ok] show ?thesis
      by (auto simp: status_ok_def authorized_def)
  next
    case (move_fail r u)
    with f d status_ok_authorized [OF ok] show ?thesis
      by (auto simp: status_ok_def authorized_def)
  next
    case (move_reconcile m r)
    with f d status_ok_authorized [OF ok] show ?thesis
      by (auto simp: status_ok_def authorized_def)
  qed
qed

lemma move_action_ok: "action_move a b \<Longrightarrow> action_ok a \<Longrightarrow> action_ok b"
  using move_status_ok [of a b] move_spec_ok [of a b] action_move_frame [of a b]
  by (simp add: action_ok_def)

lemma fresh_action_ok: "fresh_action a \<Longrightarrow> action_ok a \<and> \<not> executed a"
  by (auto simp: fresh_action_def action_ok_def spec_ok_def status_ok_def approved_by_def executed_defs)

lemma execute_action_ok: "action_ok a \<Longrightarrow> pa_status a = APPROVED \<Longrightarrow> action_ok (with_status a EXECUTING)"
  by (auto simp: action_ok_def status_ok_def authorized_def spec_ok_def approved_by_def with_status_def
      confirmed_def)

section \<open>Preservation\<close>

lemma inv_keyed: "approval_inv s \<Longrightarrow> keyed s"
  unfolding approval_inv_def by blast

lemma inv_action: "approval_inv s \<Longrightarrow> repo_get s i = Some a \<Longrightarrow> action_ok a
    \<and> pa_action_id a = i \<and> map_of (am_pending_idempotency s) (pa_idempotency_key a) = Some i"
  unfolding approval_inv_def keyed_def by blast

lemma inv_executed_claim:
  "approval_inv s \<Longrightarrow> repo_get s i = Some a \<Longrightarrow> executed a \<Longrightarrow>
    repo_claims s (pa_idempotency_key a) = Some i"
  unfolding approval_inv_def by blast

lemma inv_claim: "approval_inv s \<Longrightarrow> repo_claims s k = Some i \<Longrightarrow>
    \<exists>a. repo_get s i = Some a \<and> pa_idempotency_key a = k \<and> executed a"
  unfolding approval_inv_def by blast

lemma approval_inv_empty: "approval_inv empty_approval_mem"
  by (simp add: approval_inv_def keyed_def repo_get_def repo_claims_def empty_approval_mem_def)

lemma inv_insert:
  assumes inv: "approval_inv s" and fresh: "fresh_action a" and ins: "repo_insert a s = (Inr (), s')"
  shows "approval_inv s'"
proof -
  note a = fresh_action_ok [OF fresh]
  from approval_store.ins_ok [OF ins] have get: "repo_get s (pa_action_id a) = None"
    "repo_get s' = (repo_get s)(pa_action_id a \<mapsto> a)" by auto
  from ins have claims: "repo_claims s' = repo_claims s"
    and pend: "map_of (am_pending_idempotency s) (pa_idempotency_key a) = None"
      "map_of (am_pending_idempotency s') =
         (map_of (am_pending_idempotency s))(pa_idempotency_key a \<mapsto> pa_action_id a)"
    by (auto simp: repo_insert_Inr repo_claims_def fun_eq_iff)
  have "keyed s'" using store_change_keyed [OF change_insert [OF fresh ins]] inv
    by (simp add: approval_inv_def)
  moreover have "action_ok b \<and> map_of (am_pending_idempotency s') (pa_idempotency_key b) = Some i
      \<and> (executed b \<longrightarrow> repo_claims s' (pa_idempotency_key b) = Some i)"
    if "repo_get s' i = Some b" for i b
  proof (cases "i = pa_action_id a")
    case True
    with that get a pend show ?thesis by simp
  next
    case False
    with that get have "repo_get s i = Some b" by simp
    with inv have "action_ok b \<and> map_of (am_pending_idempotency s) (pa_idempotency_key b) = Some i
      \<and> (executed b \<longrightarrow> repo_claims s (pa_idempotency_key b) = Some i)" by (simp add: approval_inv_def)
    with pend claims show ?thesis by auto
  qed
  moreover have "\<exists>b. repo_get s' i = Some b \<and> pa_idempotency_key b = k \<and> executed b"
    if "repo_claims s' k = Some i" for k i
  proof -
    from that claims have "repo_claims s k = Some i" by simp
    from inv_claim [OF inv this] obtain b
      where "repo_get s i = Some b" "pa_idempotency_key b = k" "executed b" by blast
    with get show ?thesis by auto
  qed
  ultimately show ?thesis by (simp add: approval_inv_def)
qed

text \<open>A replacement that keeps the key and is executed exactly when it claims its key.\<close>

lemma inv_update:
  assumes inv: "approval_inv s" and a: "repo_get s (pa_action_id a) = Some a" and ok: "action_ok b"
    and same: "pa_action_id b = pa_action_id a" "pa_idempotency_key b = pa_idempotency_key a"
    and get: "repo_get s' = (repo_get s)(pa_action_id b \<mapsto> b)"
    and pend: "am_pending_idempotency s' = am_pending_idempotency s" and key: "keyed s'"
    and claims: "repo_claims s' = (repo_claims s)(pa_idempotency_key a :=
      (if executed b then Some (pa_action_id a) else repo_claims s (pa_idempotency_key a)))"
    and exec: "executed a \<Longrightarrow> executed b"
  shows "approval_inv s'"
proof -
  from inv a have pend_a: "map_of (am_pending_idempotency s) (pa_idempotency_key a) = Some (pa_action_id a)"
    by (simp add: approval_inv_def)
  have "action_ok c \<and> map_of (am_pending_idempotency s') (pa_idempotency_key c) = Some i
      \<and> (executed c \<longrightarrow> repo_claims s' (pa_idempotency_key c) = Some i)"
    if "repo_get s' i = Some c" for i c
  proof (cases "i = pa_action_id a")
    case True
    with that get same pend pend_a ok claims show ?thesis by auto
  next
    case False
    with that get same have "repo_get s i = Some c" by simp
    with inv have "action_ok c \<and> map_of (am_pending_idempotency s) (pa_idempotency_key c) = Some i
      \<and> (executed c \<longrightarrow> repo_claims s (pa_idempotency_key c) = Some i)" by (simp add: approval_inv_def)
    with pend pend_a claims False show ?thesis by auto
  qed
  moreover have "\<exists>c. repo_get s' i = Some c \<and> pa_idempotency_key c = k \<and> executed c"
    if ki: "repo_claims s' k = Some i" for k i
  proof (cases "k = pa_idempotency_key a \<and> executed b")
    case True
    with ki claims have "i = pa_action_id a" by simp
    with True get same show ?thesis by auto
  next
    case False
    with ki claims have "repo_claims s k = Some i" by (auto split: if_splits)
    from inv_claim [OF inv this] obtain c
      where c: "repo_get s i = Some c" "pa_idempotency_key c = k" "executed c" by blast
    show ?thesis
    proof (cases "i = pa_action_id a")
      case True
      with c a exec get same show ?thesis by auto
    next
      case False
      with c get same show ?thesis by auto
    qed
  qed
  ultimately show ?thesis using key by (simp add: approval_inv_def)
qed

lemma store_change_inv:
  assumes "store_change s s'" and inv: "approval_inv s"
  shows "approval_inv s'"
  using assms(1)
proof cases
  case (change_insert a)
  then show ?thesis using inv inv_insert by blast
next
  case (change_move a b)
  note frame = action_move_frame [OF change_move(2)]
  have "action_ok a" using inv change_move(1) by (simp add: approval_inv_def)
  then have ok: "action_ok b" using move_action_ok [OF change_move(2)] by blast
  have key: "keyed s'" using store_change_keyed assms inv by (auto simp: approval_inv_def)
  have claims: "repo_claims s' = repo_claims s"
    using approval_store.rep_claims [of b "pa_version a" s] change_move(3) by simp
  have exec: "executed b = executed a" by (rule move_executed [OF change_move(2)])
  show ?thesis
  proof (rule inv_update [OF inv change_move(1) ok])
    show "repo_get s' = (repo_get s)(pa_action_id b \<mapsto> b)"
      using repo_replace_ok [OF change_move(3)] by blast
    show "am_pending_idempotency s' = am_pending_idempotency s"
      using change_move(3) by (auto simp: repo_replace_Inr)
    show "repo_claims s' = (repo_claims s)(pa_idempotency_key a :=
        (if executed b then Some (pa_action_id a) else repo_claims s (pa_idempotency_key a)))"
      using claims exec inv_executed_claim [OF inv change_move(1)] by auto
  qed (use frame key exec in auto)
next
  case (change_execute a now t)
  let ?b = "with_status a EXECUTING"
  have same: "pa_action_id ?b = pa_action_id a" "pa_idempotency_key ?b = pa_idempotency_key a"
    by (simp_all add: with_status_def)
  have "action_ok a" using inv change_execute(1) by (simp add: approval_inv_def)
  then have ok: "action_ok ?b" using execute_action_ok change_execute(2) by blast
  have key: "keyed s'" using store_change_keyed assms inv by (auto simp: approval_inv_def)
  have get_t: "repo_get t = repo_get s"
    using approval_store.claim_lookup [of "pa_idempotency_key a" "pa_action_id a" s] change_execute(4) by simp
  have claims_t: "repo_claims t = (repo_claims s)(pa_idempotency_key a \<mapsto> pa_action_id a)"
    using approval_store.claim_granted [OF change_execute(4)] by blast
  show ?thesis
  proof (rule inv_update [OF inv change_execute(1) ok same])
    show "repo_get s' = (repo_get s)(pa_action_id ?b \<mapsto> ?b)"
      using repo_replace_ok [OF change_execute(5)] get_t by simp
    show "am_pending_idempotency s' = am_pending_idempotency s"
      using change_execute(4,5) by (auto simp: repo_replace_Inr repo_claim_True)
    show "repo_claims s' = (repo_claims s)(pa_idempotency_key a :=
        (if executed ?b then Some (pa_action_id a) else repo_claims s (pa_idempotency_key a)))"
      using approval_store.rep_claims [of ?b "pa_version a" t] change_execute(5) claims_t
      by (auto simp: executed_defs)
    show "executed ?b" by (simp add: executed_defs)
  qed (rule key)
qed

lemma store_changes_inv: "store_changes s s' \<Longrightarrow> approval_inv s \<Longrightarrow> approval_inv s'"
  by (induction rule: rtranclp_induct) (auto intro: store_change_inv)

lemma step_inv: "approval_inv s \<Longrightarrow> approval_inv (approval_step svc ev s)"
  by (rule store_changes_inv [OF exec_changes [OF inv_keyed]])

lemma reachable_inv: "reachable svc s \<Longrightarrow> approval_inv s"
  by (induction rule: reachable.induct) (auto intro: approval_inv_empty step_inv)

end
