(* ===== verification/ApprovalProperties.thy ===== *)
theory ApprovalProperties
  imports ApprovalInvariant
begin

text \<open>
  The promises of the approval workflow over whole histories: separation of duty, at most one
  execution per action and per idempotency key, absorbing terminal states, the kill switch, the
  life cycle as an abstract machine, and the exact conditions under which a call succeeds.
\<close>

abbreviation approval_run :: "approval_service \<Rightarrow> approval_event list \<Rightarrow> approval_mem \<Rightarrow> approval_mem" where
  "approval_run svc \<equiv> fold (approval_step svc)"

lemma run_inv: "approval_inv s \<Longrightarrow> approval_inv (approval_run svc evs s)"
  by (induction evs arbitrary: s) (simp_all add: step_inv)

lemma run_reachable: "reachable svc s \<Longrightarrow> reachable svc (approval_run svc evs s)"
  by (induction evs arbitrary: s) (simp_all add: reachable_step)

section \<open>What happens to one action\<close>

text \<open>The abstract life cycle: the statuses an action can go to next.\<close>

fun life_next :: "action_status \<Rightarrow> action_status list" where
  "life_next PENDING = [PENDING, PARTIALLY_APPROVED, APPROVED, REJECTED, EXPIRED]"
| "life_next PARTIALLY_APPROVED = [PARTIALLY_APPROVED, APPROVED, REJECTED, EXPIRED]"
| "life_next APPROVED = [EXECUTING, STALE, REJECTED, EXPIRED]"
| "life_next EXECUTING = [SUCCEEDED, FAILED, UNKNOWN_REQUIRES_RECONCILIATION]"
| "life_next UNKNOWN_REQUIRES_RECONCILIATION = [SUCCEEDED, RECONCILED_NOT_APPLIED]"
| "life_next _ = []"

definition life :: "action_status \<Rightarrow> action_status \<Rightarrow> bool" where
  "life st st' = (st' \<in> set (life_next st))"

definition action_evolves :: "pending_action \<Rightarrow> pending_action \<Rightarrow> bool" where
  "action_evolves a b = (action_move a b \<or> (pa_status a = APPROVED \<and> b = with_status a EXECUTING))"

lemma evolves_life:
  assumes "action_ok a" and "action_evolves a b"
  shows "life (pa_status a) (pa_status b)"
proof -
  from assms(1) have st: "status_ok a" by (simp add: action_ok_def)
  show ?thesis
    using assms(2) unfolding action_evolves_def
  proof
    assume "action_move a b"
    then show ?thesis
      using st
      by cases (auto simp: life_def ACTIVE_STATUSES_def status_ok_def authorized_def)
  qed (auto simp: life_def)
qed

lemma evolves_frame:
  assumes "action_evolves a b"
  shows "pa_action_id b = pa_action_id a \<and> pa_version b = pa_version a + 1
    \<and> pa_idempotency_key b = pa_idempotency_key a \<and> pa_function_id b = pa_function_id a
    \<and> pa_requester_id b = pa_requester_id a \<and> pa_encrypted_parameters b = pa_encrypted_parameters a
    \<and> pa_target_employee_id b = pa_target_employee_id a
    \<and> pa_state_fingerprint b = pa_state_fingerprint a \<and> pa_expires_at b = pa_expires_at a"
  using assms action_move_frame [of a b] by (auto simp: action_evolves_def with_status_def)

lemma evolves_confirmed: "action_evolves a b \<Longrightarrow> confirmed a \<Longrightarrow> confirmed b"
  by (auto simp: action_evolves_def elim: action_move.cases)

lemma change_get:
  assumes "store_change s s'" and "keyed s" and a: "repo_get s i = Some a"
  shows "\<exists>b. repo_get s' i = Some b \<and> (b = a \<or> action_evolves a b)"
  using assms(1)
proof cases
  case (change_insert c)
  then show ?thesis using approval_store.ins_keeps [OF a, of c] by simp
next
  case (change_move c b)
  then show ?thesis
    using a repo_replace_ok [OF change_move(3)] action_move_frame [OF change_move(2)]
    by (auto simp: action_evolves_def)
next
  case (change_execute c now t)
  have "repo_get t = repo_get s"
    using approval_store.claim_lookup [of "pa_idempotency_key c" "pa_action_id c" s] change_execute(4) by simp
  then show ?thesis
    using a change_execute repo_replace_ok [OF change_execute(5)]
    by (auto simp: action_evolves_def with_status_def)
qed

lemma change_claims: "store_change s s' \<Longrightarrow> repo_claims s k = Some i \<Longrightarrow> repo_claims s' k = Some i"
  by (cases rule: store_change.cases)
    (auto simp: repo_insert_Inr repo_replace_Inr repo_claim_True repo_claims_def)

lemma changes_get:
  assumes "store_changes s s'" and "approval_inv s" and "repo_get s i = Some a"
  shows "\<exists>b. repo_get s' i = Some b \<and> action_evolves\<^sup>*\<^sup>* a b"
  using assms
proof (induction rule: rtranclp_induct)
  case (step t u)
  then obtain b where "repo_get t i = Some b" "action_evolves\<^sup>*\<^sup>* a b" by blast
  moreover have "keyed t" using step store_changes_inv inv_keyed by blast
  ultimately show ?case using change_get [OF step.hyps(2)] by (metis rtranclp.rtrancl_into_rtrancl)
qed auto

lemma changes_claims:
  "store_changes s s' \<Longrightarrow> repo_claims s k = Some i \<Longrightarrow> repo_claims s' k = Some i"
  by (induction rule: rtranclp_induct) (auto intro: change_claims)

lemma step_get:
  assumes "approval_inv s" and "repo_get s i = Some a"
  shows "\<exists>b. repo_get (approval_step svc ev s) i = Some b \<and> action_evolves\<^sup>*\<^sup>* a b"
  using changes_get [OF exec_changes [OF inv_keyed] assms] assms(1) by blast

lemma run_get:
  assumes "approval_inv s" and "repo_get s i = Some a"
  shows "\<exists>b. repo_get (approval_run svc evs s) i = Some b \<and> action_evolves\<^sup>*\<^sup>* a b"
  using assms
proof (induction evs arbitrary: s a)
  case (Cons ev evs)
  from step_get [OF Cons.prems, of svc ev] obtain b where
    b: "repo_get (approval_step svc ev s) i = Some b" "action_evolves\<^sup>*\<^sup>* a b" by blast
  from Cons.IH [OF step_inv [OF Cons.prems(1)] b(1)] b(2) show ?case
    by (auto intro: rtranclp_trans)
qed auto

lemma evolves_ok: "action_evolves a b \<Longrightarrow> action_ok a \<Longrightarrow> action_ok b"
  using move_action_ok execute_action_ok by (auto simp: action_evolves_def)

lemma evolves_star:
  assumes "action_evolves\<^sup>*\<^sup>* a b" and "action_ok a"
  shows "action_ok b \<and> life\<^sup>*\<^sup>* (pa_status a) (pa_status b) \<and> pa_version a \<le> pa_version b
    \<and> pa_idempotency_key b = pa_idempotency_key a \<and> pa_function_id b = pa_function_id a
    \<and> pa_requester_id b = pa_requester_id a \<and> pa_encrypted_parameters b = pa_encrypted_parameters a
    \<and> pa_target_employee_id b = pa_target_employee_id a
    \<and> pa_state_fingerprint b = pa_state_fingerprint a \<and> pa_expires_at b = pa_expires_at a
    \<and> (confirmed a \<longrightarrow> confirmed b)"
  using assms
proof (induction rule: rtranclp_induct)
  case (step b c)
  then show ?case
    using evolves_frame [OF step.hyps(2)] evolves_life [of b c] evolves_ok [of b c]
      evolves_confirmed [of b c] by (auto intro: rtranclp.rtrancl_into_rtrancl)
qed auto

lemma terminal_no_evolution: "pa_status a \<in> set TERMINAL_STATUSES \<Longrightarrow> \<not> action_evolves a b"
  by (auto simp: action_evolves_def TERMINAL_STATUSES_def ACTIVE_STATUSES_def elim!: action_move.cases)

lemma terminal_star:
  "action_evolves\<^sup>*\<^sup>* a b \<Longrightarrow> pa_status a \<in> set TERMINAL_STATUSES \<Longrightarrow> b = a"
  by (induction rule: converse_rtranclp_induct) (auto dest: terminal_no_evolution)

section \<open>Executions\<close>

text \<open>The successful \<open>begin_execution\<close> calls of a history, as action and idempotency key.\<close>

fun execution_log :: "approval_service \<Rightarrow> approval_event list \<Rightarrow> approval_mem \<Rightarrow> (string \<times> string) list" where
  "execution_log svc [] s = []"
| "execution_log svc (ev # evs) s =
     (case ev of
        BeginExecution env i fingerprint \<Rightarrow>
          (case begin_execution env i fingerprint s of
             (Inr b, _) \<Rightarrow> [(i, pa_idempotency_key b)] | (Inl _, _) \<Rightarrow> [])
      | _ \<Rightarrow> []) @ execution_log svc evs (approval_step svc ev s)"

lemma log_step:
  "(\<exists>env i fp b s'. ev = BeginExecution env i fp \<and> begin_execution env i fp s = (Inr b, s')
      \<and> execution_log svc (ev # evs) s
          = (i, pa_idempotency_key b) # execution_log svc evs (approval_step svc ev s))
    \<or> execution_log svc (ev # evs) s = execution_log svc evs (approval_step svc ev s)"
proof (cases ev)
  case (BeginExecution env i fp)
  then show ?thesis
    by (cases "begin_execution env i fp s"; cases "fst (begin_execution env i fp s)") auto
qed simp_all

lemma begin_execution_Inr: "begin_execution env i fingerprint s = (Inr b, s') \<longleftrightarrow>
    ae_writes_enabled env \<and> (\<exists>a now t. repo_get s i = Some a \<and> ae_clock env = Aware now
      \<and> pa_status a = APPROVED \<and> now < pa_expires_at a \<and> fingerprint = pa_state_fingerprint a
      \<and> repo_claim (pa_idempotency_key a) (pa_action_id a) s = (True, t)
      \<and> save_action (with_status a EXECUTING) (pa_version a) t = (Inr b, s'))"
  by (auto simp: begin_execution_def op_Inr sx_bind_Inr CLAIMED_STATUSES_def ACTIVE_STATUSES_def
      split: if_splits)

lemma begin_execution_claims:
  assumes inv: "approval_inv s" and b: "begin_execution env i fingerprint s = (Inr b, s')"
  shows "repo_claims s (pa_idempotency_key b) = None \<and> repo_claims s' (pa_idempotency_key b) = Some i
    \<and> (\<exists>a. repo_get s i = Some a \<and> \<not> executed a \<and> pa_idempotency_key a = pa_idempotency_key b)"
proof -
  from b obtain a t where a: "repo_get s i = Some a" "pa_status a = APPROVED"
    and claim: "repo_claim (pa_idempotency_key a) (pa_action_id a) s = (True, t)"
    and save: "save_action (with_status a EXECUTING) (pa_version a) t = (Inr b, s')"
    by (auto simp: begin_execution_Inr)
  from save have "b = with_status a EXECUTING" by (simp add: save_action_Inr)
  then have key: "pa_idempotency_key b = pa_idempotency_key a" by (simp add: with_status_def)
  have id: "pa_action_id a = i" using inv_action [OF inv a(1)] by simp
  from save have "repo_claims s' = repo_claims t"
    using approval_store.rep_claims [of "with_status a EXECUTING" "pa_version a" t]
    by (simp add: save_action_Inr)
  with claim key id a show ?thesis
    by (auto simp: repo_claim_True repo_claims_def executed_defs)
qed

lemma log_avoids_claimed:
  assumes "approval_inv s" and "repo_claims s k = Some i"
  shows "i \<notin> fst ` set (execution_log svc evs s) \<and> k \<notin> snd ` set (execution_log svc evs s)"
  using assms
proof (induction evs arbitrary: s)
  case (Cons ev evs)
  let ?t = "approval_step svc ev s"
  have "repo_claims ?t k = Some i"
    using changes_claims [OF exec_changes [OF inv_keyed [OF Cons.prems(1)]] Cons.prems(2)] .
  from Cons.IH [OF step_inv [OF Cons.prems(1)] this]
  have rest: "i \<notin> fst ` set (execution_log svc evs ?t) \<and> k \<notin> snd ` set (execution_log svc evs ?t)" .
  from inv_claim [OF Cons.prems] obtain c where c: "repo_get s i = Some c" "executed c" by blast
  have none: "j \<noteq> i \<and> pa_idempotency_key b \<noteq> k"
    if "begin_execution env j fingerprint s = (Inr b, s')" for env j fingerprint b s'
    using begin_execution_claims [OF Cons.prems(1) that] c Cons.prems(2) by auto
  from log_step [of ev s svc evs] show ?case
  proof (elim disjE exE conjE)
    fix env j fp b s'
    assume "begin_execution env j fp s = (Inr b, s')"
      and log: "execution_log svc (ev # evs) s = (j, pa_idempotency_key b) # execution_log svc evs ?t"
    with none have "j \<noteq> i \<and> pa_idempotency_key b \<noteq> k" by blast
    with rest show ?thesis unfolding log by auto
  qed (use rest in \<open>simp del: execution_log.simps\<close>)
qed simp

lemma log_distinct:
  "approval_inv s \<Longrightarrow>
    distinct (map fst (execution_log svc evs s)) \<and> distinct (map snd (execution_log svc evs s))"
proof (induction evs arbitrary: s)
  case (Cons ev evs)
  let ?t = "approval_step svc ev s"
  note rest = Cons.IH [OF step_inv [OF Cons.prems], of svc ev]
  from log_step [of ev s svc evs] show ?case
  proof
    assume "\<exists>env i fp b s'. ev = BeginExecution env i fp \<and> begin_execution env i fp s = (Inr b, s')
      \<and> execution_log svc (ev # evs) s = (i, pa_idempotency_key b) # execution_log svc evs ?t"
    then obtain env i fp b s' where ev: "ev = BeginExecution env i fp"
      and b: "begin_execution env i fp s = (Inr b, s')"
      and log: "execution_log svc (ev # evs) s = (i, pa_idempotency_key b) # execution_log svc evs ?t"
      by blast
    from ev b have "?t = s'" by (simp add: approval_step_def)
    then have "repo_claims ?t (pa_idempotency_key b) = Some i"
      using begin_execution_claims [OF Cons.prems b] by simp
    with rest log log_avoids_claimed [OF step_inv [OF Cons.prems] this] show ?thesis
      by (simp del: execution_log.simps)
  qed (use rest in \<open>simp del: execution_log.simps\<close>)
qed simp

section \<open>A concrete history\<close>

text \<open>
  One action from \<open>prepare\<close> to \<open>begin_execution\<close>, step by step: the inputs the properties are
  applied to. The function is \<open>EMP-STATUS-002\<close>, which asks for one approval.
\<close>

abbreviation demo_id :: string where
  "demo_id \<equiv> ''00000000-0000-4000-8000-000000000001''"

definition demo_service :: approval_service where
  "demo_service = \<lparr>as_hasher = \<lparr>ch_key = replicate 32 CHR ''k'', ch_code_length = 8\<rparr>,
     as_default_ttl = 600\<rparr>"

definition demo_env :: "int \<Rightarrow> approval_env" where
  "demo_env now = \<lparr>ae_writes_enabled = True, ae_clock = Aware now, ae_hmac = (\<lambda>key payload. payload),
     ae_uuid = demo_id, ae_draw = (\<lambda>i. i), ae_salt = ''salt'',
     ae_token = ''a-token-of-some-length''\<rparr>"

definition demo_request :: prepare_request where
  "demo_request = \<lparr>rq_function_id = ''EMP-STATUS-002'', rq_correlation_id = ''corr-0001'',
     rq_requester_id = ''alice'', rq_guild_id = ''g'', rq_channel_id = ''ch'',
     rq_target_employee_id = Some ''E1'', rq_encrypted_parameters = ''blob'', rq_redacted_diff = [],
     rq_state_fingerprint = ''fp'', rq_motivation = None, rq_ttl = None, rq_idempotency_key = None\<rparr>"

definition demo_material :: confirmation_material where
  "demo_material = \<lparr>cm_code = ''ABCDEFGH'', cm_salt = ''salt'',
     cm_digest = digest_payload demo_id ''salt'' ''ABCDEFGH''\<rparr>"

definition demo_pending :: pending_action where
  "demo_pending = new_action demo_request (demo_env 0) EMP_STATUS_002 None 0 600 demo_material
     ''a-token-of-some-length''"

definition demo_confirmed :: pending_action where
  "demo_confirmed = confirmed_action demo_pending 1"

definition demo_approved :: pending_action where
  "demo_approved = approved_action demo_confirmed ''bob'' 2"

definition demo_executing :: pending_action where
  "demo_executing = with_status demo_approved EXECUTING"

definition demo_store :: "pending_action \<Rightarrow> (string \<times> string) list \<Rightarrow> approval_mem" where
  "demo_store a claimed = \<lparr>am_actions = [(demo_id, a)], am_idempotency = claimed,
     am_pending_idempotency = [(''a-token-of-some-length'', demo_id)]\<rparr>"

definition demo_prepare :: approval_event where
  "demo_prepare = Prepare (demo_env 0) demo_request"

definition demo_confirm :: approval_event where
  "demo_confirm = Confirm (demo_env 1) demo_id ''alice'' ''abcd efgh'' None"

definition demo_approve :: approval_event where
  "demo_approve = Approve (demo_env 2) demo_id ''bob'' [''APPROVER'']"

definition demo_begin :: approval_event where
  "demo_begin = BeginExecution (demo_env 3) demo_id ''fp''"

lemma status_002 [simp]: "get_function_spec ''EMP-STATUS-002'' = Some EMP_STATUS_002"
proof -
  have "EMP_STATUS_002 \<in> set SPECS" by (simp add: SPECS_def)
  moreover have "fs_function_id EMP_STATUS_002 = ''EMP-STATUS-002''"
    by (simp add: EMP_STATUS_002_def write_spec_def)
  ultimately show ?thesis using get_function_spec_member by metis
qed

lemma status_002_fields [simp]:
  "is_write EMP_STATUS_002" "fs_requires_target EMP_STATUS_002" "\<not> fs_destructive EMP_STATUS_002"
  "fs_approvals_required EMP_STATUS_002 = 1" "fs_text_confirmation_template EMP_STATUS_002 = None"
  by code_simp+

lemma demo_code: "normalize_code ''abcd efgh'' = ''ABCDEFGH''"
  by code_simp

lemma demo_choose: "choose_code (as_hasher demo_service) (\<lambda>i. i) = ''ABCDEFGH''"
  by code_simp

lemma demo_roles: "\<exists>roles. normalize_roles [''APPROVER''] = Some roles \<and> eligible EMP_STATUS_002 roles"
proof -
  have "map_option (eligible EMP_STATUS_002) (normalize_roles [''APPROVER'']) = Some True"
    by code_simp
  then show ?thesis by (cases "normalize_roles [''APPROVER'']") auto
qed

lemma demo_env_simps [simp]:
  "ae_writes_enabled (demo_env now)" "ae_clock (demo_env now) = Aware now"
  "ae_hmac (demo_env now) = (\<lambda>key payload. payload)"
  by (simp_all add: demo_env_def)

lemma demo_pending_simps [simp]:
  "pa_action_id demo_pending = demo_id" "pa_status demo_pending = PENDING"
  "pa_requester_id demo_pending = ''alice''" "pa_version demo_pending = 1"
  "pa_approvals_required demo_pending = 1" "pa_approvals demo_pending = []"
  "pa_function_id demo_pending = ''EMP-STATUS-002''" "\<not> confirmed demo_pending"
  "pa_expires_at demo_pending = 600" "pa_state_fingerprint demo_pending = ''fp''"
  "pa_confirmation_salt demo_pending = ''salt''"
  "pa_confirmation_digest demo_pending = digest_payload demo_id ''salt'' ''ABCDEFGH''"
  "pa_idempotency_key demo_pending = ''a-token-of-some-length''"
  "pa_target_employee_id demo_pending = Some ''E1''"
  by (simp_all add: demo_pending_def new_action_def demo_request_def demo_env_def demo_material_def
      confirmed_def)

lemma demo_later_simps [simp]:
  "pa_action_id demo_confirmed = demo_id" "pa_status demo_confirmed = PENDING"
  "pa_requester_id demo_confirmed = ''alice''" "pa_version demo_confirmed = 2"
  "pa_approvals_required demo_confirmed = 1" "pa_approvals demo_confirmed = []"
  "pa_function_id demo_confirmed = ''EMP-STATUS-002''" "confirmed demo_confirmed"
  "pa_expires_at demo_confirmed = 600" "approved_by demo_confirmed = []"
  "pa_action_id demo_approved = demo_id" "pa_status demo_approved = APPROVED"
  "pa_version demo_approved = 3" "pa_expires_at demo_approved = 600"
  "pa_state_fingerprint demo_approved = ''fp''" "confirmed demo_approved"
  "approved_by demo_approved = [''bob'']" "pa_requester_id demo_approved = ''alice''"
  "pa_idempotency_key demo_approved = ''a-token-of-some-length''"
  "pa_idempotency_key demo_executing = ''a-token-of-some-length''"
  "pa_action_id demo_executing = demo_id" "pa_status demo_executing = EXECUTING"
  "pa_version demo_executing = 4" "executed demo_executing" "approved_by demo_executing = [''bob'']"
  "pa_requester_id demo_executing = ''alice''"
  by (simp_all add: demo_confirmed_def demo_approved_def demo_executing_def confirmed_action_def
      approved_action_def with_status_def Let_def confirmed_def approved_by_def executed_defs)

lemma demo_store_simps [simp]:
  "repo_get (demo_store a c) demo_id = Some a"
  "pa_action_id b = demo_id \<Longrightarrow> pa_version a = v \<Longrightarrow> pa_version b = v + 1 \<Longrightarrow>
     save_action b v (demo_store a c) = (Inr b, demo_store b c)"
  by (simp_all add: demo_store_def repo_get_def save_action_def repo_replace_def)

lemma demo_prepare_step:
  "approval_step demo_service demo_prepare empty_approval_mem = demo_store demo_pending []"
proof -
  have "create_confirmation (ae_hmac (demo_env 0)) (as_hasher demo_service) (ae_draw (demo_env 0))
      (ae_salt (demo_env 0)) (ae_uuid (demo_env 0)) = Inr demo_material"
    by (simp add: create_confirmation_Inr demo_env_def demo_choose demo_material_def)
  moreover have "new_action demo_request (demo_env 0) EMP_STATUS_002 None 0 600 demo_material
      ''a-token-of-some-length'' = demo_pending" by (simp add: demo_pending_def)
  moreover have "rq_function_id demo_request = ''EMP-STATUS-002''"
    "rq_target_employee_id demo_request = Some ''E1''" "rq_motivation demo_request = None"
    "rq_encrypted_parameters demo_request = ''blob''" "rq_correlation_id demo_request = ''corr-0001''"
    "rq_requester_id demo_request = ''alice''" "rq_guild_id demo_request = ''g''"
    "rq_channel_id demo_request = ''ch''" "rq_state_fingerprint demo_request = ''fp''"
    "effective_ttl demo_service (rq_ttl demo_request) = 600"
    "effective_key (demo_env 0) (rq_idempotency_key demo_request) = ''a-token-of-some-length''"
    by (simp_all add: demo_request_def effective_ttl_def demo_service_def effective_key_def demo_env_def)
  ultimately show ?thesis
    by (simp add: approval_step_def demo_prepare_def prepare_action_def require_writes_enabled_def
        guard_def absent_def clean_motivation_def with_now_def approval_now_def Let_def
        repo_insert_def empty_approval_mem_def demo_store_def)
qed

lemma demo_confirm_run: "confirm_action demo_service (demo_env 1) demo_id ''alice'' ''abcd efgh'' None
    (demo_store demo_pending []) = (Inr demo_confirmed, demo_store demo_confirmed [])"
  by (simp add: confirm_action_def require_writes_enabled_def guard_def with_active_def get_action_def
      with_now_def approval_now_def require_active_def ACTIVE_STATUSES_def verify_confirmation_def
      confirmation_digest_def demo_code with_function_spec_def confirmation_text_def
      demo_confirmed_def [symmetric]) (simp add: is_ascii_def)

lemma demo_approve_run: "approve_action (demo_env 2) demo_id ''bob'' [''APPROVER'']
    (demo_store demo_confirmed []) = (Inr demo_approved, demo_store demo_approved [])"
  using demo_roles
  by (auto simp: approve_action_def require_writes_enabled_def guard_def with_active_def get_action_def
      with_now_def approval_now_def require_active_def ACTIVE_STATUSES_def with_function_spec_def
      with_roles_def demo_approved_def [symmetric])

lemma demo_begin_run: "begin_execution (demo_env 3) demo_id ''fp'' (demo_store demo_approved [])
    = (Inr demo_executing, demo_store demo_executing [(''a-token-of-some-length'', demo_id)])"
proof -
  have "repo_claim ''a-token-of-some-length'' demo_id (demo_store demo_approved [])
      = (True, demo_store demo_approved [(''a-token-of-some-length'', demo_id)])"
    by (simp add: repo_claim_def demo_store_def)
  then show ?thesis
    by (simp add: begin_execution_def require_writes_enabled_def guard_def get_action_def
        CLAIMED_STATUSES_def with_now_def approval_now_def require_active_def ACTIVE_STATUSES_def
        claim_execution_def demo_executing_def [symmetric])
qed

lemmas demo_runs = demo_confirm_run demo_approve_run demo_begin_run

lemma demo_run:
  "approval_run demo_service [demo_prepare, demo_confirm, demo_approve] empty_approval_mem
     = demo_store demo_approved []"
  "approval_run demo_service [demo_prepare, demo_confirm, demo_approve, demo_begin] empty_approval_mem
     = demo_store demo_executing [(''a-token-of-some-length'', demo_id)]"
  by (simp_all add: demo_prepare_step)
    (simp_all add: approval_step_def demo_confirm_def demo_approve_def demo_begin_def demo_runs)

lemma demo_reachable:
  "reachable demo_service (demo_store demo_pending [])"
  "reachable demo_service (demo_store demo_approved [])"
  "reachable demo_service (demo_store demo_executing [(''a-token-of-some-length'', demo_id)])"
  using run_reachable [OF reachable_empty, of demo_service "[demo_prepare]"]
    run_reachable [OF reachable_empty, of demo_service "[demo_prepare, demo_confirm, demo_approve]"]
    run_reachable [OF reachable_empty,
      of demo_service "[demo_prepare, demo_confirm, demo_approve, demo_begin]"]
  unfolding demo_run by (simp_all add: demo_prepare_step)

section \<open>Progress\<close>

lemma inv_save:
  assumes "repo_get s (pa_action_id a) = Some a" and "pa_action_id b = pa_action_id a"
    and "pa_version b = pa_version a + 1"
  shows "\<exists>s'. save_action b (pa_version a) s = (Inr b, s')"
  using assms by (auto simp: save_action_Inr repo_replace_Inr repo_get_def)

lemma unclaimed:
  assumes inv: "approval_inv s" and a: "repo_get s i = Some a" and "\<not> executed a"
  shows "repo_claims s (pa_idempotency_key a) = None"
proof (rule ccontr)
  assume "repo_claims s (pa_idempotency_key a) \<noteq> None"
  then obtain j where "repo_claims s (pa_idempotency_key a) = Some j" by auto
  from inv_claim [OF inv this] obtain b where
    b: "repo_get s j = Some b" "pa_idempotency_key b = pa_idempotency_key a" "executed b" by blast
  from inv_action [OF inv a] inv_action [OF inv b(1)] b(2) have "j = i" by simp
  with a b assms(3) show False by simp
qed

lemma begin_execution_progress:
  assumes inv: "approval_inv s" and a: "repo_get s i = Some a" and "ae_writes_enabled env"
    and "ae_clock env = Aware now" "pa_status a = APPROVED" "now < pa_expires_at a"
    and "fingerprint = pa_state_fingerprint a"
  shows "\<exists>s'. begin_execution env i fingerprint s = (Inr (with_status a EXECUTING), s')"
proof -
  from inv_action [OF inv a] have id: "pa_action_id a = i" by simp
  have "repo_claims s (pa_idempotency_key a) = None"
    using unclaimed [OF inv a] assms(5) by (simp add: executed_defs)
  then obtain t where t: "repo_claim (pa_idempotency_key a) (pa_action_id a) s = (True, t)"
    by (auto simp: repo_claim_def repo_claims_def)
  with a id have "repo_get t (pa_action_id a) = Some a" by (auto simp: repo_claim_True repo_get_def)
  from inv_save [OF this, of "with_status a EXECUTING"] obtain s' where
    "save_action (with_status a EXECUTING) (pa_version a) t = (Inr (with_status a EXECUTING), s')"
    by (auto simp: with_status_def)
  with assms t show ?thesis unfolding begin_execution_Inr by blast
qed

lemma eligible_iff: "eligible spec roles \<longleftrightarrow> set (fs_approver_roles spec) \<inter> set roles \<noteq> {}"
  by (auto simp: eligible_def list_ex_iff)

lemma approve_action_Inr: "approve_action env i who roles s = (Inr b, s') \<longleftrightarrow>
    ae_writes_enabled env \<and> (\<exists>a now spec rs. repo_get s i = Some a \<and> ae_clock env = Aware now
      \<and> pa_status a \<in> {PENDING, PARTIALLY_APPROVED} \<and> now < pa_expires_at a \<and> confirmed a
      \<and> pa_approvals_required a \<noteq> 0 \<and> who \<noteq> pa_requester_id a \<and> who \<notin> set (approved_by a)
      \<and> get_function_spec (pa_function_id a) = Some spec \<and> is_write spec
      \<and> normalize_roles roles = Some rs \<and> set (fs_approver_roles spec) \<inter> set rs \<noteq> {}
      \<and> save_action (approved_action a who now) (pa_version a) s = (Inr b, s'))"
  unfolding approve_action_def op_Inr eligible_iff
  by (auto simp: ACTIVE_STATUSES_def)

lemma case_raise_Inr:
  "(case r of Inl e \<Rightarrow> sx_raise (f e) | Inr x \<Rightarrow> k x) s = (Inr y, s') \<longleftrightarrow>
     (\<exists>x. r = Inr x \<and> k x s = (Inr y, s'))"
  by (auto simp: sx_raise_def split: sum.splits)

lemma text_check:
  "(case expected of None \<Rightarrow> False | Some e \<Rightarrow> text \<noteq> Some e) \<longleftrightarrow>
     \<not> (\<forall>e. expected = Some e \<longrightarrow> text = Some e)"
  by (auto split: option.splits)

lemma confirm_action_Inr: "confirm_action svc env i who code text s = (Inr b, s') \<longleftrightarrow>
    ae_writes_enabled env \<and> (\<exists>a now spec. repo_get s i = Some a \<and> ae_clock env = Aware now
      \<and> pa_status a \<in> set ACTIVE_STATUSES \<and> now < pa_expires_at a \<and> who = pa_requester_id a
      \<and> \<not> confirmed a \<and> verify_confirmation (ae_hmac env) (as_hasher svc) (pa_action_id a)
           (pa_confirmation_salt a) (pa_confirmation_digest a) code = Inr True
      \<and> get_function_spec (pa_function_id a) = Some spec \<and> is_write spec
      \<and> (\<forall>expected. confirmation_text spec (pa_target_employee_id a) = Some expected
            \<longrightarrow> text = Some expected)
      \<and> save_action (confirmed_action a now) (pa_version a) s = (Inr b, s'))"
  unfolding confirm_action_def op_Inr case_raise_Inr text_check by auto

section \<open>Sweeping expired actions\<close>

definition expired_at :: "int \<Rightarrow> pending_action \<Rightarrow> bool" where
  "expired_at now a = (pa_status a \<in> set ACTIVE_STATUSES \<and> pa_expires_at a \<le> now)"

lemma expire_loop_result:
  assumes "\<forall>a\<in>set actions. repo_get s (pa_action_id a) = Some a"
    and "distinct (map pa_action_id actions)"
  shows "\<exists>s'. expire_loop now actions n s = (Inr (n + length (filter (expired_at now) actions)), s')
    \<and> (\<forall>i. repo_get s' i = (case repo_get s i of None \<Rightarrow> None | Some a \<Rightarrow>
         Some (if a \<in> set actions \<and> expired_at now a \<and> pa_action_id a = i then expire_action a else a)))"
  using assms
proof (induction actions arbitrary: s n)
  case Nil
  then show ?case by (auto simp: sx_return_def split: option.splits)
next
  case (Cons a actions)
  show ?case
  proof (cases "expired_at now a")
    case True
    with Cons.prems have a: "repo_get s (pa_action_id a) = Some a"
      and move: "action_move a (expire_action a)" by (auto simp: expired_at_def intro: move_expire)
    from save_move [OF this] obtain t where
      t: "save_action (expire_action a) (pa_version a) s = (Inr (expire_action a), t)" by blast
    then have get_t: "repo_get t = (repo_get s)(pa_action_id a \<mapsto> expire_action a)"
      using repo_replace_ok action_move_frame [OF move] by (fastforce simp: save_action_Inr)
    have others: "\<forall>b\<in>set actions. repo_get t (pa_action_id b) = Some b"
      using Cons.prems get_t by (metis distinct.simps(2) fun_upd_apply image_eqI list.set_intros(2)
          list.set_map list.simps(9))
    from Cons.prems(2) have "distinct (map pa_action_id actions)" by simp
    from Cons.IH [OF others this, of "n + 1"] obtain s' where
      s': "expire_loop now actions (n + 1) t
          = (Inr (n + 1 + length (filter (expired_at now) actions)), s')"
        "\<And>i. repo_get s' i = (case repo_get t i of None \<Rightarrow> None | Some b \<Rightarrow> Some
          (if b \<in> set actions \<and> expired_at now b \<and> pa_action_id b = i then expire_action b else b))"
      by blast
    have run: "expire_loop now (a # actions) n s
        = (Inr (n + length (filter (expired_at now) (a # actions))), s')"
      using True t s'(1) by (simp add: expired_at_def sx_bind_def)
    have "repo_get s' i = (case repo_get s i of None \<Rightarrow> None | Some b \<Rightarrow> Some (if b \<in> set (a # actions)
        \<and> expired_at now b \<and> pa_action_id b = i then expire_action b else b))" for i
    proof (cases "i = pa_action_id a")
      case i: True
      have "\<not> expired_at now (expire_action a)"
        by (simp add: expired_at_def ACTIVE_STATUSES_def)
      with i a get_t s'(2) [of i] True show ?thesis by simp
    next
      case False
      then show ?thesis
        using get_t s'(2) [of i] by (auto split: option.splits)
    qed
    with run show ?thesis by blast
  next
    case False
    from Cons.prems have "\<forall>b\<in>set actions. repo_get s (pa_action_id b) = Some b"
      and "distinct (map pa_action_id actions)" by simp_all
    note ih = Cons.IH [OF this, of n]
    have same: "b \<in> set (a # actions) \<and> expired_at now b \<and> q \<longleftrightarrow>
        b \<in> set actions \<and> expired_at now b \<and> q" for b q using False by auto
    have run: "expire_loop now (a # actions) n s = expire_loop now actions n s"
      "filter (expired_at now) (a # actions) = filter (expired_at now) actions"
      using False by (auto simp: expired_at_def)
    show ?thesis unfolding same run by (rule ih)
  qed
qed

section \<open>The kill switch\<close>

fun gated :: "approval_event \<Rightarrow> bool" where
  "gated (Prepare _ _) = True"
| "gated (Confirm _ _ _ _ _) = True"
| "gated (Approve _ _ _ _) = True"
| "gated (BeginExecution _ _ _) = True"
| "gated _ = False"

fun writes_off :: "approval_event \<Rightarrow> bool" where
  "writes_off (Prepare env _) = (\<not> ae_writes_enabled env)"
| "writes_off (Confirm env _ _ _ _) = (\<not> ae_writes_enabled env)"
| "writes_off (Approve env _ _ _) = (\<not> ae_writes_enabled env)"
| "writes_off (BeginExecution env _ _) = (\<not> ae_writes_enabled env)"
| "writes_off _ = True"

lemma gated_writes_off: "gated ev \<Longrightarrow> writes_off ev \<Longrightarrow> approval_exec svc ev t = (Inl WriteDisabledError, t)"
  by (cases ev) (simp_all add: outcome_def prepare_action_def confirm_action_def approve_action_def
      begin_execution_def require_writes_enabled_def guard_def sx_raise_def)

lemma kill_switch_log: "list_all writes_off evs \<Longrightarrow> execution_log svc evs s = []"
proof (induction evs arbitrary: s)
  case (Cons ev evs)
  then have "writes_off ev" "execution_log svc evs (approval_step svc ev s) = []" by simp_all
  with log_step [of ev s svc evs] show ?case by (auto simp: begin_execution_Inr)
qed simp

section \<open>The promises\<close>

text \<open>C5: Separation of duty. Whatever sequence of calls led to a state, an action that is fully
  approved, executing or was executed was confirmed by its requester, references a write function of the
  catalogue, and was approved by exactly as many different people as that function asks for, none
  of them the requester.\<close>

theorem executed_action_authorized:
  assumes "reachable svc s" and "repo_get s i = Some a"
    and "pa_status a = APPROVED \<or> executed a"
  shows "confirmed a \<and> pa_requester_id a \<notin> set (approved_by a) \<and> distinct (approved_by a)
    \<and> (\<exists>spec. get_function_spec (pa_function_id a) = Some spec \<and> is_write spec
         \<and> length (approved_by a) = fs_approvals_required spec)"
proof -
  from inv_action [OF reachable_inv [OF assms(1)] assms(2)] have ok: "action_ok a" by simp
  with assms(3) have "authorized a"
    by (auto simp: executed_defs action_ok_def status_ok_def)
  with ok show ?thesis
    by (auto simp: authorized_def action_ok_def spec_ok_def approved_by_def)
qed

theorem executed_action_authorized_witness:
  "confirmed demo_executing \<and> ''alice'' \<notin> set [''bob'']"
  using executed_action_authorized [OF demo_reachable(3) demo_store_simps(1)] by simp

text \<open>C4: At most one execution. In every history from the empty store, no action begins execution
  twice and no idempotency key is used by two executions.\<close>

theorem execution_at_most_once:
  "distinct (map fst (execution_log svc evs empty_approval_mem))
   \<and> distinct (map snd (execution_log svc evs empty_approval_mem))"
  by (rule log_distinct [OF approval_inv_empty])

text \<open>Terminal states are final. An action that succeeded, failed, was rejected, expired,
  went stale or was reconciled as not applied is the same record after any further calls.\<close>

theorem terminal_action_final:
  assumes "reachable svc s" and "repo_get s i = Some a" and "pa_status a \<in> set TERMINAL_STATUSES"
  shows "repo_get (approval_run svc evs s) i = Some a"
  using run_get [OF reachable_inv [OF assms(1)] assms(2)] terminal_star assms(3) by blast

theorem terminal_action_final_witness:
  "repo_get (approval_run demo_service [demo_confirm, demo_begin]
      (approval_step demo_service (ExpirePending (demo_env 600)) (demo_store demo_pending [])))
      demo_id = Some (expire_action demo_pending)"
proof (rule terminal_action_final [OF reachable_step [OF demo_reachable(1)]])
  show "repo_get (approval_step demo_service (ExpirePending (demo_env 600)) (demo_store demo_pending []))
      demo_id = Some (expire_action demo_pending)"
    by (simp add: approval_step_def expire_pending_def with_now_def approval_now_def repo_list_def
        demo_store_def ACTIVE_STATUSES_def sx_bind_def save_action_def repo_replace_def
        expire_action_def repo_get_def sx_return_def)
  show "pa_status (expire_action demo_pending) \<in> set TERMINAL_STATUSES"
    by (simp add: expire_action_def TERMINAL_STATUSES_def)
qed

text \<open>C8: Life cycle. Over any history an action stays in the store, its status follows a path of the
  abstract life cycle, its version never goes back, and what was previewed and approved (function,
  requester, target, parameters, state fingerprint, key, expiry) never changes.\<close>

theorem action_life_cycle:
  assumes "reachable svc s" and "repo_get s i = Some a"
  shows "\<exists>b. repo_get (approval_run svc evs s) i = Some b \<and> life\<^sup>*\<^sup>* (pa_status a) (pa_status b)
    \<and> pa_version a \<le> pa_version b \<and> pa_idempotency_key b = pa_idempotency_key a
    \<and> pa_function_id b = pa_function_id a \<and> pa_requester_id b = pa_requester_id a
    \<and> pa_encrypted_parameters b = pa_encrypted_parameters a
    \<and> pa_target_employee_id b = pa_target_employee_id a
    \<and> pa_state_fingerprint b = pa_state_fingerprint a \<and> pa_expires_at b = pa_expires_at a"
proof -
  note inv = reachable_inv [OF assms(1)]
  from run_get [OF inv assms(2)] obtain b
    where b: "repo_get (approval_run svc evs s) i = Some b" "action_evolves\<^sup>*\<^sup>* a b" by blast
  from evolves_star [OF b(2)] inv_action [OF inv assms(2)] b(1) show ?thesis by blast
qed

theorem action_life_cycle_witness:
  "\<exists>b. repo_get (approval_run demo_service [demo_begin] (demo_store demo_approved [])) demo_id = Some b
    \<and> life\<^sup>*\<^sup>* APPROVED (pa_status b)"
  using action_life_cycle [OF demo_reachable(2) demo_store_simps(1), of "[demo_begin]"] by auto

text \<open>C9: The compare-and-set of the workflow never fails. From a reachable state no call other
  than \<open>prepare\<close>, whose insertion can meet a duplicate, ends in an error of the repository.\<close>

theorem no_store_fault:
  assumes "reachable svc s" and "\<forall>env rq. ev \<noteq> Prepare env rq"
  shows "fst (approval_exec svc ev s) \<noteq> Inl (StoreFault e)"
proof -
  have out: "fst (outcome r) = Inl e' \<longleftrightarrow> fst r = Inl e'" for r :: "(approval_error + 'x) \<times> approval_mem" and e'
    by (auto simp: outcome_def split: prod.splits sum.splits)
  note safe = confirm_cas_safe approve_cas_safe reject_cas_safe begin_execution_cas_safe
    complete_success_cas_safe complete_failure_cas_safe reconcile_cas_safe expire_pending_cas_safe
  show ?thesis
    using assms(2) safe [OF inv_keyed [OF reachable_inv [OF assms(1)]]]
    by (cases ev) (auto simp: out cas_safe_def)
qed

theorem no_store_fault_witness:
  "fst (approval_exec demo_service demo_begin (demo_store demo_approved []))
    \<noteq> Inl (StoreFault ConcurrentStoreUpdate)"
  by (rule no_store_fault [OF demo_reachable(2)]) (simp add: demo_begin_def)

lemma begin_execution_facts:
  assumes "reachable svc s"
  shows "(\<exists>b s'. begin_execution env i fingerprint s = (Inr b, s')) \<longleftrightarrow>
      ae_writes_enabled env \<and> (\<exists>a now. repo_get s i = Some a \<and> ae_clock env = Aware now
        \<and> pa_status a = APPROVED \<and> now < pa_expires_at a \<and> fingerprint = pa_state_fingerprint a)"
    and "begin_execution env i fingerprint s = (Inr b, s') \<Longrightarrow>
      pa_status b = EXECUTING \<and> repo_get s' i = Some b
      \<and> repo_claims s' (pa_idempotency_key b) = Some i"
proof -
  note inv = reachable_inv [OF assms]
  show "(\<exists>b s'. begin_execution env i fingerprint s = (Inr b, s')) \<longleftrightarrow>
      ae_writes_enabled env \<and> (\<exists>a now. repo_get s i = Some a \<and> ae_clock env = Aware now
        \<and> pa_status a = APPROVED \<and> now < pa_expires_at a \<and> fingerprint = pa_state_fingerprint a)"
    (is "?L \<longleftrightarrow> ?R")
  proof
    assume ?L
    then show ?R unfolding begin_execution_Inr by blast
  next
    assume ?R
    then show ?L using begin_execution_progress [OF inv] by blast
  qed
  assume b: "begin_execution env i fingerprint s = (Inr b, s')"
  then obtain a t where a: "repo_get s i = Some a"
    and save: "save_action (with_status a EXECUTING) (pa_version a) t = (Inr b, s')"
    unfolding begin_execution_Inr by blast
  from save have "b = with_status a EXECUTING" by (simp add: save_action_Inr)
  moreover from this have "repo_get s' (pa_action_id b) = Some b"
    using save repo_replace_ok [of b "pa_version a" t s'] by (auto simp: save_action_Inr)
  moreover have "pa_action_id a = i" using inv_action [OF inv a] by simp
  ultimately show "pa_status b = EXECUTING \<and> repo_get s' i = Some b
      \<and> repo_claims s' (pa_idempotency_key b) = Some i"
    using begin_execution_claims [OF inv b] by (simp add: with_status_def)
qed

text \<open>C6: When an execution begins. From a reachable state \<open>begin_execution\<close> succeeds exactly when
  writes are enabled, the action is fully approved and not expired, and the target's state is the
  one that was previewed; the action is then executing and its key claimed.\<close>

theorem begin_execution_exact:
  assumes "reachable svc s"
  shows "((\<exists>b s'. begin_execution env i fingerprint s = (Inr b, s')) \<longleftrightarrow>
      ae_writes_enabled env \<and> (\<exists>a now. repo_get s i = Some a \<and> ae_clock env = Aware now
        \<and> pa_status a = APPROVED \<and> now < pa_expires_at a \<and> fingerprint = pa_state_fingerprint a))
    \<and> (\<forall>b s'. begin_execution env i fingerprint s = (Inr b, s') \<longrightarrow>
        pa_status b = EXECUTING \<and> repo_get s' i = Some b
        \<and> repo_claims s' (pa_idempotency_key b) = Some i)"
  using begin_execution_facts [OF assms] by blast

theorem begin_execution_exact_witness:
  "\<exists>b s'. begin_execution (demo_env 3) demo_id ''fp'' (demo_store demo_approved []) = (Inr b, s')"
  using begin_execution_exact [OF demo_reachable(2), of "demo_env 3" "demo_id" "''fp''"] by simp

text \<open>When an approval is recorded. From a reachable state \<open>approve\<close> succeeds exactly when writes
  are enabled and the action is confirmed, open, not expired and not yet fully approved, and the approver
  is neither the requester nor already recorded and holds, after closure of the roles, one of the
  approver roles the catalogue names for the function.\<close>

theorem approve_action_exact:
  assumes "reachable svc s"
  shows "(\<exists>b s'. approve_action env i who roles s = (Inr b, s')) \<longleftrightarrow>
      ae_writes_enabled env \<and> (\<exists>a now spec rs. repo_get s i = Some a \<and> ae_clock env = Aware now
        \<and> pa_status a \<in> {PENDING, PARTIALLY_APPROVED} \<and> now < pa_expires_at a \<and> confirmed a
        \<and> who \<noteq> pa_requester_id a \<and> who \<notin> set (approved_by a)
        \<and> get_function_spec (pa_function_id a) = Some spec
        \<and> normalize_roles roles = Some rs \<and> set (fs_approver_roles spec) \<inter> set rs \<noteq> {})"
    (is "?L \<longleftrightarrow> ?R")
proof
  assume ?L
  then show ?R unfolding approve_action_Inr by blast
next
  assume ?R
  then obtain a now spec rs where a: "repo_get s i = Some a" and
    facts: "ae_writes_enabled env" "ae_clock env = Aware now" "pa_status a \<in> {PENDING, PARTIALLY_APPROVED}"
      "now < pa_expires_at a" "confirmed a" "who \<noteq> pa_requester_id a" "who \<notin> set (approved_by a)"
      "get_function_spec (pa_function_id a) = Some spec" "normalize_roles roles = Some rs"
      "set (fs_approver_roles spec) \<inter> set rs \<noteq> {}" by blast
  from inv_action [OF reachable_inv [OF assms] a] have ok: "action_ok a" and id: "pa_action_id a = i"
    by simp_all
  from ok facts have "pa_approvals_required a \<noteq> 0" "is_write spec"
    by (auto simp: action_ok_def status_ok_def spec_ok_def)
  moreover from a id obtain s' where
    "save_action (approved_action a who now) (pa_version a) s = (Inr (approved_action a who now), s')"
    using inv_save [of s a "approved_action a who now"] by (auto simp: approved_action_def Let_def)
  ultimately show ?L unfolding approve_action_Inr using a facts by blast
qed

theorem approve_action_exact_witness:
  "\<not> (\<exists>b s'. approve_action (demo_env 3) demo_id ''carol'' [''APPROVER'']
      (demo_store demo_approved []) = (Inr b, s'))"
  unfolding approve_action_exact [OF demo_reachable(2)] by auto

lemma confirm_facts:
  assumes "reachable svc s" and "confirm_action svc env i who code text s = (Inr b, s')"
  shows "ae_writes_enabled env \<and> who = pa_requester_id b \<and> \<not> (\<exists>a. repo_get s i = Some a \<and> confirmed a)
      \<and> verify_confirmation (ae_hmac env) (as_hasher svc) i (pa_confirmation_salt b)
          (pa_confirmation_digest b) code = Inr True
      \<and> (\<forall>spec expected. get_function_spec (pa_function_id b) = Some spec \<longrightarrow>
          confirmation_text spec (pa_target_employee_id b) = Some expected \<longrightarrow> text = Some expected)"
    and "\<not> (\<exists>c t. confirm_action svc env' i who' code' text' (approval_run svc evs s') = (Inr c, t))"
proof -
  note inv = reachable_inv [OF assms(1)]
  from assms(2) obtain a now spec where a: "repo_get s i = Some a"
    and facts: "ae_writes_enabled env" "who = pa_requester_id a" "\<not> confirmed a"
      "verify_confirmation (ae_hmac env) (as_hasher svc) (pa_action_id a)
           (pa_confirmation_salt a) (pa_confirmation_digest a) code = Inr True"
      "get_function_spec (pa_function_id a) = Some spec"
      "\<forall>e. confirmation_text spec (pa_target_employee_id a) = Some e \<longrightarrow> text = Some e"
    and save: "save_action (confirmed_action a now) (pa_version a) s = (Inr b, s')"
    unfolding confirm_action_Inr by blast
  from save have b: "b = confirmed_action a now" by (simp add: save_action_Inr)
  from inv_action [OF inv a] have id: "pa_action_id a = i" by simp
  with b have same: "pa_requester_id b = pa_requester_id a" "pa_function_id b = pa_function_id a"
    "pa_confirmation_salt b = pa_confirmation_salt a" "pa_action_id b = i" "confirmed b"
    "pa_confirmation_digest b = pa_confirmation_digest a"
    "pa_target_employee_id b = pa_target_employee_id a"
    by (simp_all add: confirmed_action_def confirmed_def)
  with a id facts show "ae_writes_enabled env \<and> who = pa_requester_id b
      \<and> \<not> (\<exists>a. repo_get s i = Some a \<and> confirmed a)
      \<and> verify_confirmation (ae_hmac env) (as_hasher svc) i (pa_confirmation_salt b)
          (pa_confirmation_digest b) code = Inr True
      \<and> (\<forall>spec expected. get_function_spec (pa_function_id b) = Some spec \<longrightarrow>
          confirmation_text spec (pa_target_employee_id b) = Some expected \<longrightarrow> text = Some expected)"
    by auto
  have step: "s' = approval_step svc (Confirm env i who code text) s"
    using assms(2) by (simp add: approval_step_def)
  have get: "repo_get s' i = Some b"
    using save repo_replace_ok [of b "pa_version a" s s'] b same by (auto simp: save_action_Inr)
  have inv': "approval_inv s'" unfolding step by (rule step_inv [OF inv])
  from run_get [OF this get] obtain c where
    c: "repo_get (approval_run svc evs s') i = Some c" "action_evolves\<^sup>*\<^sup>* b c" by blast
  from inv_action [OF inv' get] evolves_star [OF c(2)] same have "confirmed c" by blast
  with c(1) show "\<not> (\<exists>d t. confirm_action svc env' i who' code' text' (approval_run svc evs s') = (Inr d, t))"
    unfolding confirm_action_Inr by auto
qed

text \<open>C7: The confirmation code is for the requester and works once. A successful \<open>confirm\<close> was made
  by the requester, before expiry, with a code that verifies and with the target's confirmation text
  where the function has one; and no later \<open>confirm\<close> of the action succeeds, whatever happens in between.\<close>

theorem confirmation_single_use:
  assumes "reachable svc s" and "confirm_action svc env i who code text s = (Inr b, s')"
  shows "ae_writes_enabled env \<and> who = pa_requester_id b \<and> \<not> (\<exists>a. repo_get s i = Some a \<and> confirmed a)
    \<and> verify_confirmation (ae_hmac env) (as_hasher svc) i (pa_confirmation_salt b)
        (pa_confirmation_digest b) code = Inr True
    \<and> (\<forall>spec expected. get_function_spec (pa_function_id b) = Some spec \<longrightarrow>
        confirmation_text spec (pa_target_employee_id b) = Some expected \<longrightarrow> text = Some expected)
    \<and> (\<forall>evs env' who' code' text'.
        \<not> (\<exists>c t. confirm_action svc env' i who' code' text' (approval_run svc evs s') = (Inr c, t)))"
  using confirm_facts [OF assms] by blast

theorem confirmation_single_use_witness:
  "\<not> (\<exists>c t. confirm_action demo_service (demo_env 2) demo_id ''alice'' ''ABCDEFGH'' None
      (approval_run demo_service [] (demo_store demo_confirmed [])) = (Inr c, t))"
  using confirmation_single_use [OF demo_reachable(1) demo_confirm_run] by blast

text \<open>The expiry sweep is complete. From a reachable state \<open>expire_pending\<close> with an aware clock
  succeeds, expires exactly the open actions whose time is up, leaves every other action as it was,
  and returns how many it expired.\<close>

theorem expire_pending_complete:
  assumes "reachable svc s" and "ae_clock env = Aware now"
  shows "\<exists>s'. expire_pending env s = (Inr (length (filter (expired_at now) (repo_list s))), s')
    \<and> (\<forall>i. repo_get s' i =
         map_option (\<lambda>a. if expired_at now a then expire_action a else a) (repo_get s i))"
proof -
  note inv = reachable_inv [OF assms(1)]
  note listed = keyed_list [OF inv_keyed [OF inv]]
  have run: "expire_pending env s = expire_loop now (repo_list s) 0 s"
    using assms(2) by (simp add: expire_pending_def with_now_def approval_now_def)
  have in_list: "a \<in> set (repo_list s) \<and> pa_action_id a = i" if "repo_get s i = Some a" for i a
    using that inv_action [OF inv that]
    by (auto simp: repo_get_def repo_list_def image_iff dest!: map_of_eq_Some_set intro: bexI [of _ "(i, a)"])
  from expire_loop_result [OF listed, of now 0] obtain s' where
    s': "expire_loop now (repo_list s) 0 s = (Inr (length (filter (expired_at now) (repo_list s))), s')"
      "\<And>i. repo_get s' i = (case repo_get s i of None \<Rightarrow> None | Some a \<Rightarrow> Some
        (if a \<in> set (repo_list s) \<and> expired_at now a \<and> pa_action_id a = i then expire_action a else a))"
    by auto
  have "repo_get s' i = map_option (\<lambda>a. if expired_at now a then expire_action a else a) (repo_get s i)" for i
    using s'(2) [of i] in_list [of i] by (cases "repo_get s i") auto
  with s'(1) run show ?thesis by (intro exI [of _ s']) simp
qed

theorem expire_pending_complete_witness:
  "\<exists>s'. expire_pending (demo_env 600) (demo_store demo_pending []) = (Inr 1, s')"
  using expire_pending_complete [OF demo_reachable(1), of "demo_env 600" 600]
  by (auto simp: repo_list_def demo_store_def expired_at_def ACTIVE_STATUSES_def)

text \<open>The kill switch. While writes are disabled, every call that prepares, confirms, approves or
  begins the execution of an action fails and leaves the store as it was; a history of such calls
  and of the ungated ones begins no execution.\<close>

theorem kill_switch_holds:
  assumes "list_all writes_off evs"
  shows "execution_log svc evs s = []
    \<and> (\<forall>ev\<in>set evs. gated ev \<longrightarrow> (\<forall>t. approval_exec svc ev t = (Inl WriteDisabledError, t)))"
  using gated_writes_off kill_switch_log assms by (auto simp: list_all_iff)

theorem kill_switch_holds_witness:
  "approval_exec demo_service
     (BeginExecution ((demo_env 3)\<lparr>ae_writes_enabled := False\<rparr>) demo_id ''fp'') (demo_store demo_approved [])
     = (Inl WriteDisabledError, demo_store demo_approved [])"
  using kill_switch_holds [of "[BeginExecution ((demo_env 3)\<lparr>ae_writes_enabled := False\<rparr>) demo_id ''fp'']"]
  by simp

end
