(* ===== verification/Json.thy ===== *)
theory Json
  imports Prelude "HOL-Library.List_Lexorder" "HOL-Library.Char_ord"
begin

text \<open>
  Canonical JSON text, as \<open>json.dumps\<close> writes it with \<open>ensure_ascii=False\<close>, \<open>sort_keys=True\<close> and
  the separators \<open>,\<close> and \<open>:\<close>. The audit chain authenticates this text, so what counts is that it
  determines the value: two values with one text are equal up to the order of object members.
  A float is its \<open>repr\<close>.
\<close>

datatype json =
    JNull
  | JBool bool
  | JInt int
  | JFloat string
  | JStr string
  | JList "json list"
  | JObj "(string \<times> json) list"

section \<open>Writing\<close>

definition decimal_digit :: "nat \<Rightarrow> char" where
  "decimal_digit n = char_of (48 + n mod 10)"

fun nat_text :: "nat \<Rightarrow> string" where
  "nat_text n = (if n < 10 then [decimal_digit n] else nat_text (n div 10) @ [decimal_digit n])"

declare nat_text.simps [simp del]

definition int_text :: "int \<Rightarrow> string" where
  "int_text i = (if i < 0 then CHR ''-'' # nat_text (nat (- i)) else nat_text (nat i))"

abbreviation quote :: char where
  "quote \<equiv> CHR 0x22"

abbreviation backslash :: char where
  "backslash \<equiv> CHR 0x5C"

definition hex_digit :: "nat \<Rightarrow> char" where
  "hex_digit n = (if n < 10 then char_of (48 + n) else char_of (87 + n))"

definition json_escape_char :: "char \<Rightarrow> string" where
  "json_escape_char c = (let n = code_point c in
     if c = quote then [backslash, quote]
     else if c = backslash then [backslash, backslash]
     else if n = 10 then [backslash, CHR ''n'']
     else if n = 13 then [backslash, CHR ''r'']
     else if n = 9 then [backslash, CHR ''t'']
     else if n = 12 then [backslash, CHR ''f'']
     else if n = 8 then [backslash, CHR ''b'']
     else if n < 32 then [backslash, CHR ''u'', CHR ''0'', CHR ''0'', hex_digit (n div 16), hex_digit (n mod 16)]
     else [c])"

definition json_string :: "string \<Rightarrow> string" where
  "json_string s = quote # concat (map json_escape_char s) @ [quote]"

fun json_raw :: "json \<Rightarrow> string"
  and json_items :: "json list \<Rightarrow> string"
  and json_members :: "(string \<times> json) list \<Rightarrow> string" where
  "json_raw JNull = ''null''"
| "json_raw (JBool b) = (if b then ''true'' else ''false'')"
| "json_raw (JInt i) = int_text i"
| "json_raw (JFloat t) = t"
| "json_raw (JStr s) = json_string s"
| "json_raw (JList vs) = CHR ''['' # json_items vs @ '']''"
| "json_raw (JObj ms) = CHR ''{'' # json_members ms @ ''}''"
| "json_items [] = []"
| "json_items (v # vs) = json_raw v @ (if vs = [] then [] else CHR '','' # json_items vs)"
| "json_members [] = []"
| "json_members ((k, v) # ms) = json_string k @ CHR '':'' # json_raw v
     @ (if ms = [] then [] else CHR '','' # json_members ms)"

text \<open>\<open>sort_keys\<close>: the members of every object in the order of their keys.\<close>

fun json_canon :: "json \<Rightarrow> json" where
  "json_canon (JList vs) = JList (map json_canon vs)"
| "json_canon (JObj ms) = JObj (sort_key fst (map (\<lambda>(k, v). (k, json_canon v)) ms))"
| "json_canon v = v"

definition json_dumps :: "json \<Rightarrow> string" where
  "json_dumps v = json_raw (json_canon v)"

section \<open>The text of a value determines it\<close>

text \<open>What may follow a value inside a document.\<close>

definition delimited :: "string \<Rightarrow> bool" where
  "delimited r = (r = [] \<or> hd r \<in> {CHR '','', CHR '']'', CHR ''}''})"

definition number_char :: "char \<Rightarrow> bool" where
  "number_char c = (is_digit c \<or> c \<in> {CHR ''-'', CHR ''+'', CHR ''.'', CHR ''e''})"

text \<open>The \<open>repr\<close> of a finite float: number characters, one of them a point or an exponent.\<close>

definition float_text :: "string \<Rightarrow> bool" where
  "float_text t = (t \<noteq> [] \<and> list_all number_char t \<and> (CHR ''.'' \<in> set t \<or> CHR ''e'' \<in> set t))"

fun wf_json :: "json \<Rightarrow> bool" where
  "wf_json (JFloat t) = float_text t"
| "wf_json (JList vs) = list_all wf_json vs"
| "wf_json (JObj ms) = list_all (\<lambda>(k, v). wf_json v) ms"
| "wf_json _ = True"

lemma digit_is_digit: "is_digit (decimal_digit n)"
  by (simp add: is_digit_def decimal_digit_def)

lemma decimal_digit_inj: "decimal_digit m = decimal_digit n \<Longrightarrow> m mod 10 = n mod 10"
proof -
  assume "decimal_digit m = decimal_digit n"
  then have "of_char (decimal_digit m) = (of_char (decimal_digit n) :: nat)" by simp
  then show ?thesis by (simp add: decimal_digit_def)
qed

lemma nat_text_digits: "list_all is_digit (nat_text n)"
  by (induction n rule: nat_text.induct) (subst nat_text.simps, simp add: digit_is_digit)

lemma nat_text_nonempty: "nat_text n \<noteq> []"
  by (subst nat_text.simps) simp

lemma nat_text_length: "n < 10 \<longleftrightarrow> length (nat_text n) = 1"
proof (cases "n < 10")
  case False
  then show ?thesis
    using nat_text_nonempty [of "n div 10"] by (subst nat_text.simps) simp
qed (subst nat_text.simps, simp)

lemma nat_text_inj: "nat_text m = nat_text n \<Longrightarrow> m = n"
proof (induction m arbitrary: n rule: nat_text.induct)
  case (1 m)
  show ?case
  proof (cases "m < 10")
    case True
    with 1(2) have "n < 10" by (metis nat_text_length)
    with True 1(2) show ?thesis by (auto simp: nat_text.simps [of m] nat_text.simps [of n] dest: decimal_digit_inj)
  next
    case False
    with 1(2) have n: "\<not> n < 10" by (metis nat_text_length)
    with False 1(2) have "nat_text (m div 10) = nat_text (n div 10)" "decimal_digit m = decimal_digit n"
      by (simp_all add: nat_text.simps [of m] nat_text.simps [of n])
    with 1(1) [OF False] have "m div 10 = n div 10" "m mod 10 = n mod 10"
      by (auto dest: decimal_digit_inj)
    then show ?thesis by (metis div_mult_mod_eq)
  qed
qed

lemma digit_number_char: "is_digit c \<Longrightarrow> number_char c"
  by (simp add: number_char_def)

lemma int_text_number: "list_all number_char (int_text i) \<and> int_text i \<noteq> []
    \<and> CHR ''.'' \<notin> set (int_text i) \<and> CHR ''e'' \<notin> set (int_text i)"
  using nat_text_digits [of "nat i"] nat_text_digits [of "nat (- i)"] nat_text_nonempty [of "nat i"]
  by (auto simp: int_text_def list_all_iff number_char_def is_digit_def)

lemma minus_not_nat_text: "nat_text n \<noteq> CHR ''-'' # s"
proof
  assume "nat_text n = CHR ''-'' # s"
  with nat_text_digits [of n] show False by (simp add: is_digit_def)
qed

lemma int_text_inj: "int_text i = int_text j \<Longrightarrow> i = j"
  using minus_not_nat_text
  by (auto simp: int_text_def split: if_splits dest!: nat_text_inj) (metis minus_not_nat_text)

subsection \<open>Strings\<close>

text \<open>Reading one character back; the character after a backslash decides.\<close>

definition hex_val :: "char \<Rightarrow> nat" where
  "hex_val c = (if is_digit c then code_point c - 48 else code_point c - 87)"

fun json_unescape :: "string \<Rightarrow> char \<times> string" where
  "json_unescape (c # r) =
     (if c \<noteq> backslash then (c, r)
      else case r of
        d # r' \<Rightarrow>
          if d = CHR ''u'' then
            (case r' of _ # _ # h1 # h2 # r'' \<Rightarrow> (char_of (16 * hex_val h1 + hex_val h2), r'')
             | _ \<Rightarrow> (c, r))
          else (if d = CHR ''n'' then char_of (10 :: nat) else if d = CHR ''r'' then char_of (13 :: nat)
                else if d = CHR ''t'' then char_of (9 :: nat) else if d = CHR ''f'' then char_of (12 :: nat)
                else if d = CHR ''b'' then char_of (8 :: nat) else d, r')
      | [] \<Rightarrow> (c, r))"
| "json_unescape [] = (quote, [])"

lemma hex_val_digit: "n < 16 \<Longrightarrow> hex_val (hex_digit n) = n"
  by (auto simp: hex_val_def hex_digit_def is_digit_def)

lemma char_of_code_point: "of_char c = (n :: nat) \<Longrightarrow> char_of n = c"
  by auto

lemma json_unescape_escape: "json_unescape (json_escape_char c @ r) = (c, r)"
proof -
  consider "c = quote" | "c = backslash" | "c \<noteq> quote \<and> c \<noteq> backslash" by blast
  then show ?thesis
  proof cases
    case 3
    let ?n = "of_char c :: nat"
    have hex: "16 * hex_val (hex_digit (?n div 16)) + hex_val (hex_digit (?n mod 16)) = ?n" if "?n < 32"
      using that hex_val_digit [of "?n div 16"] hex_val_digit [of "?n mod 16"] by simp
    show ?thesis
      using 3 hex by (auto simp: json_escape_char_def Let_def char_of_code_point)
  qed (simp_all add: json_escape_char_def Let_def)
qed

lemma json_escape_char_head: "json_escape_char c \<noteq> [] \<and> hd (json_escape_char c) \<noteq> quote"
  by (simp add: json_escape_char_def Let_def)

lemma escape_text_prefix:
  "concat (map json_escape_char s) @ quote # r = concat (map json_escape_char t) @ quote # r'
    \<Longrightarrow> s = t \<and> r = r'"
proof (induction s arbitrary: t)
  case Nil
  show ?case
  proof (cases t)
    case (Cons d t')
    obtain x xs where "json_escape_char d = x # xs" "x \<noteq> quote"
      using json_escape_char_head [of d] by (cases "json_escape_char d") auto
    with Nil Cons show ?thesis by simp
  qed (use Nil in simp)
next
  case (Cons c s)
  show ?case
  proof (cases t)
    case Nil
    obtain x xs where "json_escape_char c = x # xs" "x \<noteq> quote"
      using json_escape_char_head [of c] by (cases "json_escape_char c") auto
    with Nil Cons.prems show ?thesis by simp
  next
    case t: (Cons d t')
    with Cons.prems have eq: "json_escape_char c @ (concat (map json_escape_char s) @ quote # r)
        = json_escape_char d @ (concat (map json_escape_char t') @ quote # r')" by simp
    from arg_cong [OF eq, of json_unescape] have "c = d"
      "concat (map json_escape_char s) @ quote # r = concat (map json_escape_char t') @ quote # r'"
      by (simp_all only: json_unescape_escape prod.inject)
    with Cons.IH t show ?thesis by blast
  qed
qed

lemma json_string_prefix: "json_string s @ r = json_string t @ r' \<Longrightarrow> s = t \<and> r = r'"
  using escape_text_prefix [of s r t r'] by (simp add: json_string_def)

subsection \<open>Values\<close>

text \<open>A number ends where its characters do.\<close>

lemma number_prefix:
  assumes "list_all number_char s" "list_all number_char t" "delimited r" "delimited r'"
    and "s @ r = t @ r'"
  shows "s = t \<and> r = r'"
proof -
  have stop: "takeWhile number_char (u @ q) = u" if "list_all number_char u" "delimited q" for u q
  proof -
    have "takeWhile number_char q = []"
      using that(2) by (cases q) (auto simp: delimited_def number_char_def is_digit_def)
    with that(1) show ?thesis by (simp add: takeWhile_append2 list_all_iff)
  qed
  have "s = t" using stop [OF assms(1,3)] stop [OF assms(2,4)] assms(5) by simp
  with assms(5) show ?thesis by simp
qed

definition number_value :: "json \<Rightarrow> bool" where
  "number_value v = (case v of JInt _ \<Rightarrow> True | JFloat _ \<Rightarrow> True | _ \<Rightarrow> False)"

text \<open>The first character of a value's text.\<close>

definition head_class :: "json \<Rightarrow> char \<Rightarrow> bool" where
  "head_class v c = (case v of
     JNull \<Rightarrow> c = CHR ''n'' | JBool b \<Rightarrow> c = (if b then CHR ''t'' else CHR ''f'')
   | JInt _ \<Rightarrow> number_char c | JFloat _ \<Rightarrow> number_char c
   | JStr _ \<Rightarrow> c = quote | JList _ \<Rightarrow> c = CHR ''['' | JObj _ \<Rightarrow> c = CHR ''{'')"

lemma json_raw_head: "wf_json v \<Longrightarrow> \<exists>c s. json_raw v = c # s \<and> head_class v c"
proof (cases v)
  case (JInt i)
  then show ?thesis using int_text_number [of i] by (cases "int_text i") (auto simp: head_class_def)
next
  case (JFloat t)
  assume "wf_json v"
  with JFloat show ?thesis by (cases t) (auto simp: head_class_def float_text_def)
qed (auto simp: head_class_def json_string_def)

lemma number_raw: "wf_json v \<Longrightarrow> number_value v \<Longrightarrow> list_all number_char (json_raw v)"
  using int_text_number by (cases v) (auto simp: number_value_def float_text_def)

lemma number_raw_inj:
  "wf_json v \<Longrightarrow> wf_json w \<Longrightarrow> number_value v \<Longrightarrow> number_value w \<Longrightarrow> json_raw v = json_raw w \<Longrightarrow> v = w"
  using int_text_number
  by (cases v; cases w) (auto simp: number_value_def float_text_def dest: int_text_inj)

text \<open>Texts that begin alike belong to values of one kind.\<close>

definition same_kind :: "json \<Rightarrow> json \<Rightarrow> bool" where
  "same_kind v w = (case v of
     JNull \<Rightarrow> w = JNull | JBool b \<Rightarrow> w = JBool b
   | JInt _ \<Rightarrow> number_value w | JFloat _ \<Rightarrow> number_value w
   | JStr _ \<Rightarrow> (\<exists>s. w = JStr s) | JList _ \<Rightarrow> (\<exists>vs. w = JList vs) | JObj _ \<Rightarrow> (\<exists>ms. w = JObj ms))"

lemma head_class_kind: "head_class v c \<Longrightarrow> head_class w c \<Longrightarrow> same_kind v w"
  by (cases v; cases w)
    (auto simp: head_class_def same_kind_def number_value_def number_char_def is_digit_def split: if_splits)

lemma same_kind_text:
  assumes "wf_json v" "wf_json w" "json_raw v @ r = json_raw w @ r'"
  shows "same_kind v w"
  using json_raw_head [OF assms(1)] json_raw_head [OF assms(2)] assms(3) head_class_kind by fastforce

lemma number_text_prefix:
  assumes "number_value v" "wf_json v" "wf_json w" "delimited r" "delimited r'"
    and eq: "json_raw v @ r = json_raw w @ r'"
  shows "v = w \<and> r = r'"
proof -
  from same_kind_text [OF assms(2,3) eq] assms(1) have w: "number_value w"
    by (cases v) (simp_all add: same_kind_def number_value_def)
  from number_prefix [OF number_raw number_raw assms(4,5) eq] assms w have "json_raw v = json_raw w" "r = r'"
    by blast+
  with number_raw_inj assms w show ?thesis by blast
qed

lemma json_raw_not_close:
  assumes "wf_json v"
  shows "json_raw v @ r \<noteq> CHR '']'' # s"
proof
  assume "json_raw v @ r = CHR '']'' # s"
  then obtain c t where "json_raw v = c # t" "head_class v c" "c = CHR '']''"
    using json_raw_head [OF assms] by auto
  then show False by (cases v) (auto simp: head_class_def number_char_def is_digit_def split: if_splits)
qed

lemma json_string_not_close: "json_string k @ r \<noteq> CHR ''}'' # s"
  by (simp add: json_string_def)

lemma delimited_simps [simp]:
  "delimited (CHR '','' # r)" "delimited (CHR '']'' # r)" "delimited (CHR ''}'' # r)" "delimited []"
  by (simp_all add: delimited_def)

definition after_items :: "json list \<Rightarrow> string \<Rightarrow> string" where
  "after_items vs r = (if vs = [] then CHR '']'' # r else CHR '','' # json_items vs @ CHR '']'' # r)"

definition after_members :: "(string \<times> json) list \<Rightarrow> string \<Rightarrow> string" where
  "after_members ms r = (if ms = [] then CHR ''}'' # r else CHR '','' # json_members ms @ CHR ''}'' # r)"

lemma after_delimited [simp]: "delimited (after_items vs r)" "delimited (after_members ms r)"
  by (simp_all add: after_items_def after_members_def)

lemma items_Cons: "json_items (v # vs) @ CHR '']'' # r = json_raw v @ after_items vs r"
  by (simp add: after_items_def)

lemma members_Cons: "json_members ((k, v) # ms) @ CHR ''}'' # r
    = json_string k @ CHR '':'' # json_raw v @ after_members ms r"
  by (simp add: after_members_def)

lemma json_text_prefix:
  "wf_json v \<Longrightarrow> wf_json w \<Longrightarrow> delimited r \<Longrightarrow> delimited r' \<Longrightarrow> json_raw v @ r = json_raw w @ r'
     \<Longrightarrow> v = w \<and> r = r'"
  "list_all wf_json vs \<Longrightarrow> list_all wf_json ws \<Longrightarrow>
     json_items vs @ CHR '']'' # r = json_items ws @ CHR '']'' # r' \<Longrightarrow> vs = ws \<and> r = r'"
  "list_all (\<lambda>(k, v). wf_json v) ms \<Longrightarrow> list_all (\<lambda>(k, v). wf_json v) ns \<Longrightarrow>
     json_members ms @ CHR ''}'' # r = json_members ns @ CHR ''}'' # r' \<Longrightarrow> ms = ns \<and> r = r'"
proof (induction v and vs and ms arbitrary: w r r' and ws r r' and ns r r'
    rule: json_raw_json_items_json_members.induct)
  case 1
  from same_kind_text [OF 1(1,2,5)] have w: "w = JNull" by (simp add: same_kind_def)
  from 1(5) show ?case unfolding w by simp
next
  case (2 b)
  from same_kind_text [OF 2(1,2,5)] have w: "w = JBool b" by (simp add: same_kind_def)
  from 2(5) show ?case unfolding w by simp
next
  case (3 i)
  show ?case by (rule number_text_prefix [OF _ 3]) (simp add: number_value_def)
next
  case (4 t)
  show ?case by (rule number_text_prefix [OF _ 4]) (simp add: number_value_def)
next
  case (5 s)
  then obtain t where w: "w = JStr t"
    using same_kind_text [of "JStr s" w] by (auto simp: same_kind_def)
  from 5(5) have "json_string s @ r = json_string t @ r'" by (simp only: w json_raw.simps)
  from json_string_prefix [OF this] w show ?case by simp
next
  case (6 vs)
  from same_kind_text [OF 6(2,3,6)] obtain ws where w: "w = JList ws" by (auto simp: same_kind_def)
  from 6(2,3) w have wf: "list_all wf_json vs" "list_all wf_json ws" by simp_all
  from 6(6) w have "json_items vs @ CHR '']'' # r = json_items ws @ CHR '']'' # r'" by simp
  from 6(1) [OF wf this] w show ?case by simp
next
  case (7 ms)
  from same_kind_text [OF 7(2,3,6)] obtain ns where w: "w = JObj ns" by (auto simp: same_kind_def)
  from 7(2,3) w have wf: "list_all (\<lambda>(k, v). wf_json v) ms" "list_all (\<lambda>(k, v). wf_json v) ns"
    by simp_all
  from 7(6) w have "json_members ms @ CHR ''}'' # r = json_members ns @ CHR ''}'' # r'" by simp
  from 7(1) [OF wf this] w show ?case by simp
next
  case 8
  show ?case
  proof (cases ws)
    case (Cons w ws')
    with 8(2) have "wf_json w" by simp
    from json_raw_not_close [OF this, of "after_items ws' r'" r] 8(3) [symmetric] show ?thesis
      unfolding Cons items_Cons by simp
  qed (use 8 in simp)
next
  case (9 v vs)
  show ?case
  proof (cases ws)
    case Nil
    from 9(3) have "wf_json v" by simp
    from json_raw_not_close [OF this, of "after_items vs r" r'] 9(5) show ?thesis
      unfolding Nil items_Cons by simp
  next
    case (Cons w ws')
    from 9(3-5) Cons have wf: "wf_json v" "wf_json w" "list_all wf_json vs" "list_all wf_json ws'"
      and eq: "json_raw v @ after_items vs r = json_raw w @ after_items ws' r'"
      by (simp_all only: items_Cons list.pred_inject)
    from 9(1) [OF wf(1,2) _ _ eq] have "v = w" "after_items vs r = after_items ws' r'" by simp_all
    moreover from this(2) have "(vs = []) = (ws' = [])" by (simp add: after_items_def split: if_splits)
    ultimately show ?thesis
      using 9(2) [OF _ wf(3,4), of r r'] Cons by (auto simp: after_items_def split: if_splits)
  qed
next
  case 10
  show ?case
  proof (cases ns)
    case (Cons n ns')
    obtain k w where n: "n = (k, w)" by (cases n)
    from json_string_not_close [of k "CHR '':'' # json_raw w @ after_members ns' r'" r] 10(3) [symmetric]
    show ?thesis unfolding Cons n members_Cons by simp
  qed (use 10 in simp)
next
  case (11 k v ms)
  show ?case
  proof (cases ns)
    case Nil
    from json_string_not_close [of k "CHR '':'' # json_raw v @ after_members ms r" r'] 11(5)
    show ?thesis unfolding Nil members_Cons by simp
  next
    case (Cons n ns')
    obtain l w where n: "n = (l, w)" by (cases n)
    from 11(3,4) Cons n have wf: "wf_json v" "wf_json w" "list_all (\<lambda>(k, v). wf_json v) ms"
      "list_all (\<lambda>(k, v). wf_json v) ns'" by simp_all
    from 11(5) Cons n have "json_string k @ CHR '':'' # json_raw v @ after_members ms r
        = json_string l @ CHR '':'' # json_raw w @ after_members ns' r'" by (simp only: members_Cons)
    from json_string_prefix [OF this] have k: "k = l"
      and eq: "json_raw v @ after_members ms r = json_raw w @ after_members ns' r'" by simp_all
    from 11(1) [OF wf(1,2) _ _ eq] have "v = w" "after_members ms r = after_members ns' r'" by simp_all
    moreover from this(2) have "(ms = []) = (ns' = [])" by (simp add: after_members_def split: if_splits)
    ultimately show ?thesis
      using 11(2) [OF _ wf(3,4), of r r'] Cons n k by (auto simp: after_members_def split: if_splits)
  qed
qed

section \<open>Canonical text\<close>

lemma wf_json_canon: "wf_json v \<Longrightarrow> wf_json (json_canon v)"
  by (induction v rule: json_canon.induct) (auto simp: list_all_iff)

lemma json_dumps_inj:
  assumes "wf_json v" "wf_json w" "json_dumps v = json_dumps w"
  shows "json_canon v = json_canon w"
  using json_text_prefix(1) [OF wf_json_canon [OF assms(1)] wf_json_canon [OF assms(2)], of "[]" "[]"]
    assms(3) by (simp add: json_dumps_def)

section \<open>UTF-8\<close>

fun utf8_read :: "bytes \<Rightarrow> char \<times> bytes" where
  "utf8_read (a # r) = (if code_point a < (128 :: nat) then (a, r)
     else case r of b # r' \<Rightarrow> (char_of ((code_point a - 192) * 64 + (code_point b - 128) :: nat), r')
       | [] \<Rightarrow> (a, r))"
| "utf8_read [] = (CHR 0x00, [])"

lemma code_point_bound: "code_point c < (256 :: nat)"
  by simp

lemma utf8_read_char: "utf8_read (utf8_char c @ r) = (c, r)"
proof (cases "code_point c < (128 :: nat)")
  case False
  have n: "code_point c < (256 :: nat)" by (rule code_point_bound)
  let ?n = "of_char c :: nat"
  from n have "?n div 64 < 4" by (simp add: less_mult_imp_div_less)
  then have "192 + ?n div 64 < 256" "128 + ?n mod 64 < 256" by simp_all
  moreover have "?n div 64 * 64 + ?n mod 64 = ?n" by simp
  ultimately show ?thesis using False by (simp add: utf8_char_def Let_def)
qed (simp add: utf8_char_def Let_def)

lemma utf8_inj: "utf8 s = utf8 t \<Longrightarrow> s = t"
proof (induction s arbitrary: t)
  case Nil
  then show ?case by (cases t) (auto simp: utf8_def utf8_char_def Let_def split: if_splits)
next
  case (Cons c s)
  then obtain d t' where t: "t = d # t'"
    by (cases t) (auto simp: utf8_def utf8_char_def Let_def split: if_splits)
  with Cons.prems have "utf8_char c @ utf8 s = utf8_char d @ utf8 t'" by (simp add: utf8_def)
  from arg_cong [OF this, of utf8_read] have "c = d" "utf8 s = utf8 t'"
    by (simp_all only: utf8_read_char prod.inject)
  with Cons.IH t show ?case by blast
qed

end
