(* ===== verification/DicService.thy ===== *)
theory DicService
  imports DicModels WriteParameters FeatureFlags ApprovalProperties Json
begin

text \<open>
  The boundary between an approved action and the adapter that carries it out (\<open>DicService\<close> of
  \<^verbatim>\<open>services/dic_service.py\<close>, its writes; its paginated reads are in \<open>EmployeePages\<close>). SHA-256, as
  hexadecimal text, and the \<open>repr\<close> of a container are arguments.
\<close>

record dic_service =
  ds_flags :: runtime_flags
  ds_capabilities :: "string list"
  ds_sha256_hex :: "bytes \<Rightarrow> string"
  ds_repr :: "py_value \<Rightarrow> string"

section \<open>Parameters\<close>

text \<open>\<open>", ".join(names)\<close>\<close>

fun join_comma :: "string list \<Rightarrow> string" where
  "join_comma [] = []"
| "join_comma [s] = s"
| "join_comma (s # t # ss) = s @ '', '' @ join_comma (t # ss)"

text \<open>\<open>_SECRET_KEY\<close>: one of the words anywhere, in any case.\<close>

definition SECRET_WORDS :: "string list" where
  "SECRET_WORDS = [''password'', ''passwd'', ''token'', ''secret'', ''cookie'', ''apikey'', ''api_key'',
     ''api-key'', ''totp'']"

definition credential_like :: "string \<Rightarrow> bool" where
  "credential_like key = list_ex (\<lambda>w. contains_text w (py_lower key)) SECRET_WORDS"

text \<open>What pydantic's \<open>JsonValue\<close> takes.\<close>

fun json_value :: "py_value \<Rightarrow> bool" where
  "json_value (PList vs) = list_all json_value vs"
| "json_value (PDict ms) = list_all (\<lambda>(k, v). (case k of PStr s \<Rightarrow> True | _ \<Rightarrow> False) \<and> json_value v) ms"
| "json_value (PBytes b) = False"
| "json_value PObject = False"
| "json_value v = True"

definition validated_json :: "py_mapping \<Rightarrow> dic_error + py_mapping" where
  "validated_json parameters = (let forbidden = sort (filter credential_like (map fst parameters)) in
     if forbidden \<noteq> []
     then Inl (DicValidationError (''credential-like parameters are forbidden: '' @ join_comma forbidden))
     else if \<not> list_all (\<lambda>(k, v). json_value v) parameters
     then Inl (DicValidationError ''write parameters must be JSON-compatible'')
     else Inr parameters)"

definition DOCUMENT_EXECUTION_ONLY_PARAMETERS :: "string list" where
  "DOCUMENT_EXECUTION_ONLY_PARAMETERS =
     [''safe_local_path'', ''safe_local_sha256'', ''safe_local_size'', ''detected_mime'']"

definition document_capability_ok :: "py_mapping \<Rightarrow> bool" where
  "document_capability_ok ps =
     ((case map_of ps ''safe_local_path'' of Some (PStr path) \<Rightarrow> path \<noteq> [] | _ \<Rightarrow> False)
      \<and> (case map_of ps ''safe_local_sha256'' of Some (PStr digest) \<Rightarrow> sha256_text digest | _ \<Rightarrow> False)
      \<and> (case map_of ps ''safe_local_size'' of Some (PInt n) \<Rightarrow> 0 \<le> n | _ \<Rightarrow> False)
      \<and> (case map_of ps ''detected_mime'' of Some (PStr mime) \<Rightarrow> mime \<noteq> [] \<and> length mime \<le> 128
         | _ \<Rightarrow> False))"

text \<open>What the catalogue is asked to validate: \<open>upload_id\<close> was consumed, a sentinel stands for it.\<close>

definition catalog_candidate :: "string \<Rightarrow> function_spec \<Rightarrow> py_mapping \<Rightarrow> dic_error + py_mapping" where
  "catalog_candidate function_id spec ps =
     (if function_id = ''EMP-DOC-002''
      then let public_names = filter (\<lambda>n. n \<noteq> ''upload_id'') (operational_parameter_names spec) in
        if \<not> set (map fst ps) \<subseteq> set (public_names @ DOCUMENT_EXECUTION_ONLY_PARAMETERS)
           \<or> \<not> set DOCUMENT_EXECUTION_ONLY_PARAMETERS \<subseteq> set (map fst ps)
           \<or> ''upload_id'' \<in> set (map fst ps)
        then Inl (DicValidationError ''document execution parameters violate the closed schema'')
        else if \<not> document_capability_ok ps
        then Inl (DicValidationError ''document execution capability is malformed'')
        else Inr (AList.update ''upload_id'' (PStr (replicate 32 CHR ''0''))
               (filter (\<lambda>(k, v). k \<in> set public_names) ps))
      else Inr ps)"

definition with_motivation :: "string option \<Rightarrow> py_mapping \<Rightarrow> py_mapping" where
  "with_motivation motivation ps =
     (case motivation of None \<Rightarrow> ps | Some m \<Rightarrow> AList.update ''motivation'' (PStr m) ps)"

text \<open>\<open>normalized.update\<close> with the capability of a document upload.\<close>

definition with_capability :: "py_mapping \<Rightarrow> py_mapping \<Rightarrow> py_mapping" where
  "with_capability ps normalized =
     fold (\<lambda>n. AList.update n (the (map_of ps n))) DOCUMENT_EXECUTION_ONLY_PARAMETERS normalized"

definition catalog_validated_parameters ::
  "pending_action \<Rightarrow> function_spec \<Rightarrow> py_mapping \<Rightarrow> dic_error + py_mapping" where
  "catalog_validated_parameters pending spec parameters =
     (case validated_json parameters of
        Inl e \<Rightarrow> Inl e
      | Inr ps \<Rightarrow>
          (case catalog_candidate (pa_function_id pending) spec ps of
             Inl e \<Rightarrow> Inl e
           | Inr candidate \<Rightarrow>
               (case validate_write_parameters spec
                   (as_untyped (with_motivation (pa_motivation pending) candidate)) of
                  Inl _ \<Rightarrow> Inl (DicValidationError ''write parameters violate the policy catalog'')
                | Inr normalized \<Rightarrow>
                    (let normalized = AList.delete ''upload_id'' (AList.delete ''motivation'' normalized);
                         normalized = (if pa_function_id pending = ''EMP-DOC-002''
                           then with_capability ps normalized else normalized)
                     in validated_json normalized))))"

section \<open>The prepared action\<close>

definition require_enabled :: "dic_service \<Rightarrow> string \<Rightarrow> dic_error option" where
  "require_enabled svc function_id =
     (case get_function_spec function_id of
        None \<Rightarrow> Some (DicValidationError ''a known write Function ID is required'')
      | Some spec \<Rightarrow>
          if \<not> is_write spec then Some (DicValidationError ''a known write Function ID is required'')
          else let
              disabled = filter (\<lambda>f. \<not> flag_enabled (ds_flags svc) f) (fs_feature_flags spec);
              missing = filter (\<lambda>c. c \<notin> set (ds_capabilities svc)) (fs_required_capabilities spec)
            in if disabled \<noteq> []
               then Some (DicWriteDisabledError
                 (''write disabled by feature flag(s): '' @ join_comma (sort disabled)))
               else if missing \<noteq> []
               then Some (DicWriteDisabledError
                 (''write disabled by unavailable capability: '' @ join_comma (sort missing)))
               else None)"

fun to_json :: "py_value \<Rightarrow> json option"
  and to_json_items :: "py_value list \<Rightarrow> json list option"
  and to_json_members :: "(py_value \<times> py_value) list \<Rightarrow> (string \<times> json) list option" where
  "to_json PNone = Some JNull"
| "to_json (PBool b) = Some (JBool b)"
| "to_json (PInt i) = Some (JInt i)"
| "to_json (PFloat (FiniteFloat t)) = Some (JFloat t)"
| "to_json (PFloat NonFiniteFloat) = None"
| "to_json (PStr s) = Some (JStr s)"
| "to_json (PBytes b) = None"
| "to_json PObject = None"
| "to_json (PList vs) = map_option JList (to_json_items vs)"
| "to_json (PDict ms) = map_option JObj (to_json_members ms)"
| "to_json_items [] = Some []"
| "to_json_items (v # vs) =
     (case to_json v of None \<Rightarrow> None | Some j \<Rightarrow> map_option (\<lambda>js. j # js) (to_json_items vs))"
| "to_json_members [] = Some []"
| "to_json_members ((k, v) # ms) =
     (case k of PStr s \<Rightarrow> (case to_json v of None \<Rightarrow> None
        | Some j \<Rightarrow> map_option (\<lambda>js. (s, j) # js) (to_json_members ms)) | _ \<Rightarrow> None)"

text \<open>The text whose digest is the fingerprint; a number that is not finite is a \<open>ValueError\<close>.\<close>

definition fingerprint_json :: "pending_action \<Rightarrow> py_mapping \<Rightarrow> json option" where
  "fingerprint_json pending ps =
     map_option (\<lambda>members. JObj
        [(''action_id'', JStr (pa_action_id pending)),
         (''correlation_id'', JStr (pa_correlation_id pending)),
         (''employee_id'', (case pa_target_employee_id pending of None \<Rightarrow> JNull | Some e \<Rightarrow> JStr e)),
         (''function_id'', JStr (pa_function_id pending)),
         (''idempotency_key'', JStr (pa_idempotency_key pending)),
         (''parameters'', JObj members)])
       (to_json_members (map (\<lambda>(k, v). (PStr k, v)) ps))"

definition dic_fingerprint :: "dic_service \<Rightarrow> pending_action \<Rightarrow> py_mapping \<Rightarrow> dic_error + string" where
  "dic_fingerprint svc pending ps =
     (case fingerprint_json pending ps of
        None \<Rightarrow> Inl (DicValueError ''Out of range float values are not JSON compliant'')
      | Some j \<Rightarrow> Inr (ds_sha256_hex svc (utf8 (json_dumps j))))"

text \<open>\<open>str(value)\<close>\<close>

fun py_str :: "(py_value \<Rightarrow> string) \<Rightarrow> py_value \<Rightarrow> string" where
  "py_str repr (PStr s) = s"
| "py_str repr (PInt i) = int_text i"
| "py_str repr (PBool b) = (if b then ''True'' else ''False'')"
| "py_str repr (PFloat (FiniteFloat t)) = t"
| "py_str repr v = repr v"

definition redacted_text :: "dic_service \<Rightarrow> py_value \<Rightarrow> string option" where
  "redacted_text svc v =
     (if v = PNone then None
      else let rendered = py_str (ds_repr svc) v in
        Some (if 512 < length rendered then take 509 rendered @ ''...'' else rendered))"

text \<open>\<open>value.get(name)\<close> of a dict.\<close>

definition dict_member :: "(py_value \<times> py_value) list \<Rightarrow> string \<Rightarrow> py_value" where
  "dict_member ms name = (case map_of ms (PStr name) of None \<Rightarrow> PNone | Some v \<Rightarrow> v)"

definition preview_of :: "dic_service \<Rightarrow> string \<Rightarrow> py_value \<Rightarrow> dic_error + preview_change" where
  "preview_of svc field value =
     (if credential_like field
      then new_preview_change (take 128 field) (Some ''[REDACTED]'') (Some ''[REDACTED]'')
      else let
          old = (case value of PDict ms \<Rightarrow> dict_member ms ''before'' | _ \<Rightarrow> PNone);
          new = (case value of PDict ms \<Rightarrow> dict_member ms ''after'' | _ \<Rightarrow> value)
        in new_preview_change (take 128 field) (redacted_text svc old) (redacted_text svc new))"

fun preview_loop :: "dic_service \<Rightarrow> py_mapping \<Rightarrow> dic_error + preview_change list" where
  "preview_loop svc [] = Inr []"
| "preview_loop svc ((field, value) # rest) =
     (case preview_of svc field value of
        Inl e \<Rightarrow> Inl e
      | Inr p \<Rightarrow> map_sum id (\<lambda>ps. p # ps) (preview_loop svc rest))"

definition dic_preview :: "dic_service \<Rightarrow> pending_action \<Rightarrow> dic_error + preview_change list" where
  "dic_preview svc pending = preview_loop svc (sort_key fst (pa_redacted_diff pending))"

text \<open>The guards before anything is validated, in source order.\<close>

definition execution_guard :: "dic_service \<Rightarrow> int \<Rightarrow> pending_action \<Rightarrow> bool \<Rightarrow> dic_error option" where
  "execution_guard svc now pending for_execution =
     (if for_execution
      then case require_enabled svc (pa_function_id pending) of
          Some e \<Rightarrow> Some e
        | None \<Rightarrow>
            if pa_status pending \<noteq> EXECUTING
            then Some (DicApprovalError ''action must be atomically claimed as EXECUTING first'')
            else if pa_expires_at pending \<le> now
            then Some (DicApprovalError ''approved action is expired'')
            else None
      else if pa_status pending \<notin> {EXECUTING, UNKNOWN_REQUIRES_RECONCILIATION}
      then Some (DicApprovalError ''action is not eligible for reconciliation'')
      else None)"

definition approval_guard :: "pending_action \<Rightarrow> dic_error option" where
  "approval_guard pending =
     (if \<not> confirmed pending
      then Some (DicApprovalError ''action confirmation has not been consumed'')
      else if length (remdups (approved_by pending)) < pa_approvals_required pending
      then Some (DicApprovalError ''action does not have enough distinct approvers'')
      else None)"

definition spec_guard :: "pending_action \<Rightarrow> dic_error + function_spec" where
  "spec_guard pending =
     (if pa_function_id pending \<notin> set FUNCTION_IDS
      then Inl (DicValidationError ''unknown DIC Function ID'')
      else case get_function_spec (pa_function_id pending) of
        None \<Rightarrow> Inl (DicValidationError ''unknown DIC Function ID'')
      | Some spec \<Rightarrow>
          if pa_approvals_required pending \<noteq> fs_approvals_required spec
          then Inl (DicInvalidPreparedActionError ''approval requirement differs from policy catalog'')
          else if fs_requires_target spec \<and> pa_target_employee_id pending = None
          then Inl (DicInvalidPreparedActionError ''approved action has no stable employee target'')
          else Inr spec)"

definition build_prepared ::
  "dic_service \<Rightarrow> int \<Rightarrow> pending_action \<Rightarrow> py_mapping \<Rightarrow> bool \<Rightarrow> dic_error + dic_action" where
  "build_prepared svc now pending parameters for_execution =
     (case execution_guard svc now pending for_execution of
        Some e \<Rightarrow> Inl e
      | None \<Rightarrow>
          (case approval_guard pending of
             Some e \<Rightarrow> Inl e
           | None \<Rightarrow>
               (case spec_guard pending of
                  Inl e \<Rightarrow> Inl e
                | Inr spec \<Rightarrow>
                    (case catalog_validated_parameters pending spec parameters of
                       Inl e \<Rightarrow> Inl e
                     | Inr validated \<Rightarrow>
                         (case dic_fingerprint svc pending validated of
                            Inl e \<Rightarrow> Inl e
                          | Inr fingerprint \<Rightarrow>
                              (case dic_preview svc pending of
                                 Inl e \<Rightarrow> Inl e
                               | Inr preview \<Rightarrow> new_dic_action
                                   \<lparr>da_action_id = pa_action_id pending,
                                    da_function_id = pa_function_id pending,
                                    da_employee_id = pa_target_employee_id pending,
                                    da_parameters = validated,
                                    da_idempotency_key = pa_idempotency_key pending,
                                    da_correlation_id = pa_correlation_id pending,
                                    da_request_fingerprint = fingerprint,
                                    da_preview = preview,
                                    da_required_approvals = pa_approvals_required pending,
                                    da_created_at = pa_created_at pending,
                                    da_expires_at = pa_expires_at pending\<rparr>))))))"

definition prepare_execution ::
  "dic_service \<Rightarrow> int \<Rightarrow> pending_action \<Rightarrow> py_mapping \<Rightarrow> dic_error + dic_action" where
  "prepare_execution svc now pending parameters = build_prepared svc now pending parameters True"

text \<open>\<open>execute\<close> and \<open>reconcile\<close>: the adapter is called at most once, with the prepared action.\<close>

definition dic_execute ::
  "dic_service \<Rightarrow> (dic_action \<Rightarrow> ('s, dic_error, execution_result) sx) \<Rightarrow> int \<Rightarrow> pending_action
    \<Rightarrow> py_mapping \<Rightarrow> ('s, dic_error, execution_result) sx" where
  "dic_execute svc execute_prepared now pending parameters =
     sx_bind (sx_lift (prepare_execution svc now pending parameters)) execute_prepared"

definition dic_reconcile ::
  "dic_service \<Rightarrow> (dic_action \<Rightarrow> ('s, dic_error, reconciliation_result) sx) \<Rightarrow> int \<Rightarrow> pending_action
    \<Rightarrow> py_mapping \<Rightarrow> ('s, dic_error, reconciliation_result) sx" where
  "dic_reconcile svc reconcile now pending parameters =
     sx_bind (sx_lift (build_prepared svc now pending parameters False)) reconcile"

section \<open>What a prepared action is made of\<close>

lemma sort_eq_Nil [simp]: "sort xs = [] \<longleftrightarrow> xs = []"
  by (metis length_0_conv length_sort)

lemma validated_json_Inr: "validated_json ps = Inr r \<longleftrightarrow> r = ps
    \<and> (\<forall>k\<in>set (map fst ps). \<not> credential_like k) \<and> list_all (\<lambda>(k, v). json_value v) ps"
  by (auto simp: validated_json_def Let_def filter_empty_conv)

lemma build_prepared_Inr:
  assumes "build_prepared svc now pending parameters for_execution = Inr a"
  obtains spec validated fingerprint preview where
    "execution_guard svc now pending for_execution = None" "approval_guard pending = None"
    "spec_guard pending = Inr spec" "catalog_validated_parameters pending spec parameters = Inr validated"
    "dic_fingerprint svc pending validated = Inr fingerprint"
    "new_dic_action \<lparr>da_action_id = pa_action_id pending, da_function_id = pa_function_id pending,
       da_employee_id = pa_target_employee_id pending, da_parameters = validated,
       da_idempotency_key = pa_idempotency_key pending, da_correlation_id = pa_correlation_id pending,
       da_request_fingerprint = fingerprint, da_preview = preview,
       da_required_approvals = pa_approvals_required pending, da_created_at = pa_created_at pending,
       da_expires_at = pa_expires_at pending\<rparr> = Inr a"
  using assms unfolding build_prepared_def by (auto split: option.splits sum.splits)

lemma new_dic_action_Inr:
  "new_dic_action a = Inr b \<Longrightarrow> b = a\<lparr>da_action_id := model_trim (da_action_id a),
      da_employee_id := map_option model_trim (da_employee_id a),
      da_idempotency_key := model_trim (da_idempotency_key a),
      da_correlation_id := model_trim (da_correlation_id a),
      da_request_fingerprint := model_trim (da_request_fingerprint a)\<rparr>
    \<and> sha256_text (da_request_fingerprint b)"
  by (auto simp: new_dic_action_def Let_def split: if_splits option.splits)

lemma spec_guard_Inr: "spec_guard pending = Inr spec \<longleftrightarrow> pa_function_id pending \<in> set FUNCTION_IDS
    \<and> get_function_spec (pa_function_id pending) = Some spec
    \<and> pa_approvals_required pending = fs_approvals_required spec
    \<and> (fs_requires_target spec \<longrightarrow> pa_target_employee_id pending \<noteq> None)"
  by (auto simp: spec_guard_def split: if_splits option.splits)

lemma approval_guard_None: "approval_guard pending = None \<longleftrightarrow>
    confirmed pending \<and> pa_approvals_required pending \<le> card (set (approved_by pending))"
  by (auto simp: approval_guard_def length_remdups_card_conv)

lemma require_enabled_None: "require_enabled svc f = None \<longleftrightarrow>
    (\<exists>spec. get_function_spec f = Some spec \<and> is_write spec
      \<and> (\<forall>flag\<in>set (fs_feature_flags spec). flag_enabled (ds_flags svc) flag)
      \<and> set (fs_required_capabilities spec) \<subseteq> set (ds_capabilities svc))"
  by (auto simp: require_enabled_def Let_def filter_empty_conv split: option.splits if_splits)

lemma execution_guard_None: "execution_guard svc now pending True = None \<longleftrightarrow>
    require_enabled svc (pa_function_id pending) = None \<and> pa_status pending = EXECUTING
      \<and> now < pa_expires_at pending"
  by (auto simp: execution_guard_def split: option.splits)

text \<open>What may reach the adapter as a parameter of a function.\<close>

definition executable_parameter :: "function_spec \<Rightarrow> string \<Rightarrow> py_mapping \<Rightarrow> string \<Rightarrow> py_value \<Rightarrow> bool" where
  "executable_parameter spec function_id given k v \<longleftrightarrow>
     k \<noteq> ''motivation'' \<and> k \<noteq> ''upload_id'' \<and> \<not> credential_like k
     \<and> ((\<exists>p. expected_parameters spec k = Some p \<and> conforms p v)
        \<or> (function_id = ''EMP-DOC-002'' \<and> k \<in> set DOCUMENT_EXECUTION_ONLY_PARAMETERS
           \<and> map_of given k = Some v))"

lemma fold_update_member:
  "(k, v) \<in> set (fold (\<lambda>n. AList.update n (f n)) ns m) \<Longrightarrow> distinct (map fst m) \<Longrightarrow>
     (k \<in> set ns \<and> v = f k) \<or> (k, v) \<in> set m"
proof (induction ns arbitrary: m)
  case (Cons n ns)
  then have "(k \<in> set ns \<and> v = f k) \<or> (k, v) \<in> set (AList.update n (f n) m)"
    by (simp add: distinct_update)
  moreover have "(k, v) \<in> set m \<or> (k = n \<and> v = f n)" if "(k, v) \<in> set (AList.update n (f n) m)"
  proof -
    have "map_of (AList.update n (f n) m) k = Some v"
      using that distinct_map_fst_in_set [of "AList.update n (f n) m" k v] Cons.prems(2)
      by (simp only: distinct_update)
    then have "k = n \<and> v = f n \<or> map_of m k = Some v" by (simp split: if_splits)
    then show ?thesis by (auto dest: map_of_SomeD)
  qed
  ultimately show ?case by auto
qed simp

lemma catalog_candidate_distinct:
  assumes "catalog_candidate f spec ps = Inr c" "distinct (map fst ps)"
  shows "distinct (map fst c) \<and> (f = ''EMP-DOC-002'' \<longrightarrow>
    set DOCUMENT_EXECUTION_ONLY_PARAMETERS \<subseteq> set (map fst ps))"
proof -
  have "distinct (map fst (filter P ps))" for P using assms(2) by (rule distinct_filter_keys)
  then show ?thesis
    using assms by (auto simp: catalog_candidate_def Let_def distinct_update split: if_splits)
qed

lemma catalog_validated_parameters_executable:
  assumes "catalog_validated_parameters pending spec parameters = Inr validated"
    "distinct (map fst parameters)" "(k, v) \<in> set validated"
  shows "executable_parameter spec (pa_function_id pending) parameters k v \<and> distinct (map fst validated)"
proof -
  obtain candidate normalized where c: "catalog_candidate (pa_function_id pending) spec parameters = Inr candidate"
    and n: "validate_write_parameters spec
        (as_untyped (with_motivation (pa_motivation pending) candidate)) = Inr normalized"
    and parameters: "validated_json parameters = Inr parameters"
    and r: "validated_json (if pa_function_id pending = ''EMP-DOC-002''
        then with_capability parameters (AList.delete ''upload_id'' (AList.delete ''motivation'' normalized))
        else AList.delete ''upload_id'' (AList.delete ''motivation'' normalized)) = Inr validated"
    using assms(1) unfolding catalog_validated_parameters_def Let_def
    by (auto simp: validated_json_Inr split: sum.splits)
  let ?public = "AList.delete ''upload_id'' (AList.delete ''motivation'' normalized)"
  have "distinct (map fst (as_untyped (with_motivation (pa_motivation pending) candidate)))"
    using catalog_candidate_distinct [OF c assms(2)]
    by (simp add: distinct_untyped with_motivation_def distinct_update split: option.split)
  then have schema: "schema_ok spec normalized" by (rule validate_schema [OF _ n])
  then have public: "distinct (map fst ?public)"
    by (simp add: schema_ok_def distinct_delete)
  have conforming: "k \<noteq> ''upload_id'' \<and> k \<noteq> ''motivation''
      \<and> (\<exists>p. expected_parameters spec k = Some p \<and> conforms p w)" if "(k, w) \<in> set ?public" for k w
    using that schema by (auto simp: schema_ok_def AList.delete_eq)
  have validated: "validated = (if pa_function_id pending = ''EMP-DOC-002''
      then with_capability parameters ?public else ?public)"
    and clean: "\<not> credential_like k"
    using r assms(3) by (auto simp: validated_json_Inr)
  have names: "k \<in> set DOCUMENT_EXECUTION_ONLY_PARAMETERS \<Longrightarrow> k \<noteq> ''upload_id'' \<and> k \<noteq> ''motivation''"
    by (auto simp: DOCUMENT_EXECUTION_ONLY_PARAMETERS_def)
  show ?thesis
  proof (cases "pa_function_id pending = ''EMP-DOC-002''")
    case False
    then show ?thesis
      using validated clean public conforming assms(3) by (auto simp: executable_parameter_def)
  next
    case True
    have given: "map_of parameters k = Some (the (map_of parameters k))"
      if "k \<in> set DOCUMENT_EXECUTION_ONLY_PARAMETERS" for k
    proof -
      have "k \<in> set (map fst parameters)" using catalog_candidate_distinct [OF c assms(2)] True that by blast
      then show ?thesis by (cases "map_of parameters k") (auto simp: map_of_eq_None_iff)
    qed
    have "(k \<in> set DOCUMENT_EXECUTION_ONLY_PARAMETERS \<and> v = the (map_of parameters k))
        \<or> (k, v) \<in> set ?public"
      using assms(3) True validated fold_update_member [OF _ public, of k v
          "\<lambda>n. the (map_of parameters n)" DOCUMENT_EXECUTION_ONLY_PARAMETERS]
      by (simp add: with_capability_def)
    moreover have "distinct (map fst validated)"
      using True validated public
      by (simp add: with_capability_def DOCUMENT_EXECUTION_ONLY_PARAMETERS_def distinct_update)
    ultimately show ?thesis
      using given names clean conforming True by (auto simp: executable_parameter_def)
  qed
qed

section \<open>The fingerprint\<close>

lemma model_trim_sha256: "sha256_text s \<Longrightarrow> model_trim s = s"
proof -
  assume "sha256_text s"
  then have "\<forall>c\<in>set s. \<not> trim_space c"
    by (auto simp: sha256_text_def list_all_iff is_hex_lower_def is_digit_def trim_space_def Let_def)
  then have "dropWhile trim_space s = s" "dropWhile trim_space (rev s) = rev s"
    by (simp_all add: dropWhile_eq_self_iff) (auto simp: last_in_set hd_rev split: if_splits)?
  then show ?thesis by (simp add: model_trim_def)
qed

text \<open>Parameters of an approved write are scalars, and so are the capabilities of an upload.\<close>

definition scalar :: "py_value \<Rightarrow> bool" where
  "scalar v = (case v of PStr s \<Rightarrow> True | PInt i \<Rightarrow> True | PBool b \<Rightarrow> True | _ \<Rightarrow> False)"

fun scalar_json :: "py_value \<Rightarrow> json" where
  "scalar_json (PStr s) = JStr s"
| "scalar_json (PInt i) = JInt i"
| "scalar_json (PBool b) = JBool b"
| "scalar_json v = JNull"

lemma scalar_json: "scalar v \<Longrightarrow> to_json v = Some (scalar_json v) \<and> wf_json (scalar_json v)
    \<and> json_canon (scalar_json v) = scalar_json v"
  by (cases v) (simp_all add: scalar_def)

lemma scalar_json_inj: "scalar v \<Longrightarrow> scalar w \<Longrightarrow> scalar_json v = scalar_json w \<Longrightarrow> v = w"
  by (cases v; cases w) (simp_all add: scalar_def)

lemma to_json_scalars:
  "\<forall>(k, v)\<in>set ps. scalar v \<Longrightarrow>
    to_json_members (map (\<lambda>(k, v). (PStr k, v)) ps) = Some (map (\<lambda>(k, v). (k, scalar_json v)) ps)"
  by (induction ps) (auto simp: scalar_json)

lemma conforms_scalar: "conforms p v \<Longrightarrow> scalar v"
  by (auto simp: conforms_def scalar_def split: write_parameter_kind.splits)

lemma canon_members:
  assumes "json_canon (JObj ms) = json_canon (JObj ns)" "distinct (map fst ms)" "distinct (map fst ns)"
  shows "map_option json_canon (map_of ms k) = map_option json_canon (map_of ns k)"
proof -
  let ?canon = "map (\<lambda>(k, v). (k, json_canon v))"
  have "set (sort_key fst (?canon ms)) = set (sort_key fst (?canon ns))" using assms(1) by simp
  then have sets: "set (?canon ms) = set (?canon ns)" by (simp only: set_sort)
  have keys: "map fst (?canon ms) = map fst ms" "map fst (?canon ns) = map fst ns"
    by (simp_all add: comp_def case_prod_beta)
  have "map_of (?canon ms) = map_of (?canon ns)"
    by (rule map_of_inject_set [THEN iffD2]) (simp_all only: keys assms(2,3) sets)
  then show ?thesis using map_of_map [of json_canon] by (metis comp_apply)
qed

lemma validated_scalar:
  assumes "catalog_validated_parameters pending spec parameters = Inr validated"
    "distinct (map fst parameters)"
  shows "\<forall>(k, v)\<in>set validated. scalar v"
proof safe
  fix k v assume kv: "(k, v) \<in> set validated"
  have ok: "executable_parameter spec (pa_function_id pending) parameters k v"
    using catalog_validated_parameters_executable [OF assms kv] by simp
  show "scalar v"
  proof (cases "\<exists>p. expected_parameters spec k = Some p \<and> conforms p v")
    case True
    then show ?thesis using conforms_scalar by blast
  next
    case False
    then have doc: "pa_function_id pending = ''EMP-DOC-002''" "map_of parameters k = Some v"
        "k \<in> set DOCUMENT_EXECUTION_ONLY_PARAMETERS"
      using ok by (auto simp: executable_parameter_def)
    have "document_capability_ok parameters"
      using assms(1) doc(1) unfolding catalog_validated_parameters_def catalog_candidate_def Let_def
      by (auto simp: validated_json_Inr split: sum.splits if_splits)
    then show ?thesis
      using doc by (auto simp: document_capability_ok_def DOCUMENT_EXECUTION_ONLY_PARAMETERS_def
          scalar_def split: py_value.splits)
  qed
qed

lemma scalars_inj:
  assumes "(\<lambda>(k, v). (k, scalar_json v)) ` set ps = (\<lambda>(k, v). (k, scalar_json v)) ` set qs"
    "\<forall>(k, v)\<in>set ps. scalar v" "\<forall>(k, v)\<in>set qs. scalar v"
  shows "set ps \<subseteq> set qs"
proof safe
  fix k v assume kv: "(k, v) \<in> set ps"
  then have "(k, scalar_json v) \<in> (\<lambda>(k, v). (k, scalar_json v)) ` set qs"
    unfolding assms(1) [symmetric] by force
  then obtain w where w: "(k, w) \<in> set qs" "scalar_json v = scalar_json w" by auto
  have "scalar v" "scalar w" using kv w(1) assms(2,3) by auto
  then have "v = w" using w(2) by (rule scalar_json_inj)
  with w(1) show "(k, v) \<in> set qs" by simp
qed

lemma fingerprint_text_binds:
  assumes texts: "fingerprint_json p1 v1 = Some j1" "fingerprint_json p2 v2 = Some j2"
      "json_dumps j1 = json_dumps j2"
    and scalars: "\<forall>(k, v)\<in>set v1. scalar v" "\<forall>(k, v)\<in>set v2. scalar v"
  shows "pa_action_id p1 = pa_action_id p2 \<and> pa_function_id p1 = pa_function_id p2
    \<and> pa_target_employee_id p1 = pa_target_employee_id p2
    \<and> pa_correlation_id p1 = pa_correlation_id p2 \<and> pa_idempotency_key p1 = pa_idempotency_key p2
    \<and> set v1 = set v2"
proof -
  define m1 where "m1 = map (\<lambda>(k, v). (k, scalar_json v)) v1"
  define m2 where "m2 = map (\<lambda>(k, v). (k, scalar_json v)) v2"
  let ?obj = "\<lambda>p m. [(''action_id'', JStr (pa_action_id p)), (''correlation_id'', JStr (pa_correlation_id p)),
         (''employee_id'', (case pa_target_employee_id p of None \<Rightarrow> JNull | Some e \<Rightarrow> JStr e)),
         (''function_id'', JStr (pa_function_id p)), (''idempotency_key'', JStr (pa_idempotency_key p)),
         (''parameters'', JObj m)]"
  have j: "j1 = JObj (?obj p1 m1)" "j2 = JObj (?obj p2 m2)"
    using texts(1,2) scalars by (simp_all add: fingerprint_json_def to_json_scalars m1_def m2_def)
  have canon: "json_canon (JObj m) = JObj (sort_key fst m)" if "m = map (\<lambda>(k, v). (k, scalar_json v)) v"
      "\<forall>(k, v)\<in>set v. scalar v" for m v
  proof -
    have "map (\<lambda>(k, v). (k, json_canon v)) m = m"
      unfolding that(1) by (rule map_idI) (use that(2) scalar_json in auto)
    then show ?thesis by simp
  qed
  have wf: "wf_json (JObj m1)" "wf_json (JObj m2)"
    using scalars scalar_json by (auto simp: m1_def m2_def list_all_iff)
  have "json_canon j1 = json_canon j2"
    by (rule json_dumps_inj [OF _ _ texts(3)]) (use wf in \<open>simp_all add: j split: option.split\<close>)
  then have member: "map_option json_canon (map_of (?obj p1 m1) k)
      = map_option json_canon (map_of (?obj p2 m2) k)" for k
    unfolding j by (rule canon_members) simp_all
  have same: "pa_action_id p1 = pa_action_id p2"
    using member [of "''action_id''"] by simp
  have "pa_correlation_id p1 = pa_correlation_id p2"
    using member [of "''correlation_id''"] by simp
  moreover have "pa_target_employee_id p1 = pa_target_employee_id p2"
    using member [of "''employee_id''"] by (simp split: option.splits)
  moreover have "pa_function_id p1 = pa_function_id p2"
    using member [of "''function_id''"] by simp
  moreover have "pa_idempotency_key p1 = pa_idempotency_key p2"
    using member [of "''idempotency_key''"] by simp
  moreover have parameters: "json_canon (JObj m1) = json_canon (JObj m2)"
    using member [of "''parameters''"] by (simp del: json_canon.simps(2))
  from parameters have "sort_key fst m1 = sort_key fst m2"
    using canon [OF m1_def scalars(1)] canon [OF m2_def scalars(2)] by simp
  then have "set (sort_key fst m1) = set (sort_key fst m2)" by (rule arg_cong)
  then have "(\<lambda>(k, v). (k, scalar_json v)) ` set v1 = (\<lambda>(k, v). (k, scalar_json v)) ` set v2"
    by (simp add: m1_def m2_def)
  then have "set v1 = set v2"
    using scalars_inj [OF _ scalars] scalars_inj [OF _ scalars(2,1)] by blast
  ultimately show ?thesis using same by simp
qed

lemma prepared_fingerprint:
  assumes "prepare_execution svc now pending parameters = Inr a" "distinct (map fst parameters)"
    "\<forall>text. sha256_text (ds_sha256_hex svc text)"
  shows "\<exists>j. fingerprint_json pending (da_parameters a) = Some j
    \<and> da_request_fingerprint a = ds_sha256_hex svc (utf8 (json_dumps j))
    \<and> (\<forall>(k, v)\<in>set (da_parameters a). scalar v)"
proof -
  obtain spec validated fingerprint preview where
    validated: "catalog_validated_parameters pending spec parameters = Inr validated"
    and fingerprint: "dic_fingerprint svc pending validated = Inr fingerprint"
    and a: "new_dic_action \<lparr>da_action_id = pa_action_id pending, da_function_id = pa_function_id pending,
       da_employee_id = pa_target_employee_id pending, da_parameters = validated,
       da_idempotency_key = pa_idempotency_key pending, da_correlation_id = pa_correlation_id pending,
       da_request_fingerprint = fingerprint, da_preview = preview,
       da_required_approvals = pa_approvals_required pending, da_created_at = pa_created_at pending,
       da_expires_at = pa_expires_at pending\<rparr> = Inr a"
    using assms(1) unfolding prepare_execution_def by (rule build_prepared_Inr)
  from fingerprint obtain j where j: "fingerprint_json pending validated = Some j"
      "fingerprint = ds_sha256_hex svc (utf8 (json_dumps j))"
    by (auto simp: dic_fingerprint_def split: option.splits)
  have "da_parameters a = validated" "da_request_fingerprint a = model_trim fingerprint"
    using new_dic_action_Inr [OF a] by simp_all
  moreover have "model_trim fingerprint = fingerprint"
    unfolding j(2) by (rule model_trim_sha256) (use assms(3) in blast)
  ultimately show ?thesis using j validated_scalar [OF validated assms(2)] by auto
qed

section \<open>Properties\<close>

text \<open>What reaches the adapter as a write. From any state of the approval workflow, an action is
  prepared for execution only while it is executing, unexpired, confirmed by its requester and
  approved by as many distinct other people as its catalogue function asks for, with its idempotency
  key claimed by it alone, with the write kill switch and every other flag of the function on and
  every capability present. The prepared action is for the approved function and target, and each of
  its parameters meets the catalogue's schema or is a value of the given upload capability; none is
  named like a credential.\<close>

theorem execution_needs_whole_approval:
  assumes "reachable asvc s" "repo_get s i = Some pending" "distinct (map fst parameters)"
    and "prepare_execution svc now pending parameters = Inr a"
  shows "\<exists>spec. get_function_spec (da_function_id a) = Some spec \<and> is_write spec
     \<and> pa_status pending = EXECUTING \<and> now < pa_expires_at pending \<and> confirmed pending
     \<and> distinct (approved_by pending) \<and> pa_requester_id pending \<notin> set (approved_by pending)
     \<and> length (approved_by pending) = fs_approvals_required spec
     \<and> repo_claims s (pa_idempotency_key pending) = Some i
     \<and> flag_enabled (ds_flags svc) ''ENABLE_WRITE_ACTIONS''
     \<and> (\<forall>f\<in>set (fs_feature_flags spec). flag_enabled (ds_flags svc) f)
     \<and> set (fs_required_capabilities spec) \<subseteq> set (ds_capabilities svc)
     \<and> da_action_id a = model_trim i \<and> da_function_id a = pa_function_id pending
     \<and> da_employee_id a = map_option model_trim (pa_target_employee_id pending)
     \<and> (\<forall>(k, v)\<in>set (da_parameters a).
          executable_parameter spec (da_function_id a) parameters k v)"
proof -
  note inv = reachable_inv [OF assms(1)]
  obtain spec validated fingerprint preview where
    guard: "execution_guard svc now pending True = None" "approval_guard pending = None"
    and spec: "spec_guard pending = Inr spec"
    and validated: "catalog_validated_parameters pending spec parameters = Inr validated"
    and a: "new_dic_action \<lparr>da_action_id = pa_action_id pending, da_function_id = pa_function_id pending,
       da_employee_id = pa_target_employee_id pending, da_parameters = validated,
       da_idempotency_key = pa_idempotency_key pending, da_correlation_id = pa_correlation_id pending,
       da_request_fingerprint = fingerprint, da_preview = preview,
       da_required_approvals = pa_approvals_required pending, da_created_at = pa_created_at pending,
       da_expires_at = pa_expires_at pending\<rparr> = Inr a"
    using assms(4) unfolding prepare_execution_def by (rule build_prepared_Inr)
  have known: "get_function_spec (pa_function_id pending) = Some spec" "is_write spec"
      "\<forall>f\<in>set (fs_feature_flags spec). flag_enabled (ds_flags svc) f"
      "set (fs_required_capabilities spec) \<subseteq> set (ds_capabilities svc)"
      "pa_status pending = EXECUTING" "now < pa_expires_at pending"
      "pa_approvals_required pending = fs_approvals_required spec"
    using guard(1) spec by (auto simp: execution_guard_None require_enabled_None spec_guard_Inr)
  have executing: "executed pending" using known(5) by (simp add: executed_defs)
  have "action_ok pending" "pa_action_id pending = i"
    using inv_action [OF inv assms(2)] by simp_all
  then have whole: "authorized pending" using known(5) by (simp add: action_ok_def status_ok_def)
  have fields: "da_action_id a = model_trim i" "da_function_id a = pa_function_id pending"
      "da_employee_id a = map_option model_trim (pa_target_employee_id pending)"
      "da_parameters a = validated"
    using new_dic_action_Inr [OF a] \<open>pa_action_id pending = i\<close> by simp_all
  have "\<forall>(k, v)\<in>set (da_parameters a).
      executable_parameter spec (da_function_id a) parameters k v"
    using catalog_validated_parameters_executable [OF validated assms(3)] fields by auto
  then show ?thesis
    using known fields whole inv_executed_claim [OF inv assms(2) executing]
      write_kill_switch [OF known(1,2)]
    by (auto simp: authorized_def approved_by_def)
qed

definition demo_dic_service :: dic_service where
  "demo_dic_service = \<lparr>ds_flags = \<lparr>rf_baseline = map (\<lambda>(f, b). (f, True)) DEFAULT_FEATURE_FLAGS,
     rf_runtime = []\<rparr>, ds_capabilities = [],
     ds_sha256_hex = (\<lambda>text. replicate 64 CHR ''a''), ds_repr = (\<lambda>v. [])\<rparr>"

lemma demo_prepared:
  "\<exists>a. prepare_execution demo_dic_service 5 demo_executing [] = Inr a \<and> da_employee_id a = Some ''E1''"
proof -
  have "map_sum id da_employee_id (prepare_execution demo_dic_service 5 demo_executing []) = Inr (Some ''E1'')"
    by code_simp
  then show ?thesis by (cases "prepare_execution demo_dic_service 5 demo_executing []") auto
qed

theorem execution_needs_whole_approval_witness:
  "\<exists>a. prepare_execution demo_dic_service 5 demo_executing [] = Inr a
     \<and> (\<exists>spec. get_function_spec (da_function_id a) = Some spec \<and> is_write spec
          \<and> length (approved_by demo_executing) = fs_approvals_required spec)"
proof -
  obtain a where a: "prepare_execution demo_dic_service 5 demo_executing [] = Inr a"
    using demo_prepared by blast
  show ?thesis
    using execution_needs_whole_approval [OF demo_reachable(3) demo_store_simps(1) _ a] a by auto
qed

text \<open>C13: The request fingerprint binds the action. Two actions prepared for execution with one
  fingerprint have the same approval action, function, target, correlation and idempotency key and the
  same parameters, barring a SHA-256 collision between their two canonical texts.\<close>

theorem fingerprint_binds_action:
  assumes "prepare_execution svc t1 p1 ps1 = Inr a1" "prepare_execution svc t2 p2 ps2 = Inr a2"
    and "distinct (map fst ps1)" "distinct (map fst ps2)"
    and "\<forall>text. sha256_text (ds_sha256_hex svc text)"
    and "\<forall>j1 j2. fingerprint_json p1 (da_parameters a1) = Some j1
        \<and> fingerprint_json p2 (da_parameters a2) = Some j2
        \<and> ds_sha256_hex svc (utf8 (json_dumps j1)) = ds_sha256_hex svc (utf8 (json_dumps j2))
      \<longrightarrow> json_dumps j1 = json_dumps j2"
    and "da_request_fingerprint a1 = da_request_fingerprint a2"
  shows "pa_action_id p1 = pa_action_id p2 \<and> pa_function_id p1 = pa_function_id p2
    \<and> pa_target_employee_id p1 = pa_target_employee_id p2
    \<and> pa_correlation_id p1 = pa_correlation_id p2 \<and> pa_idempotency_key p1 = pa_idempotency_key p2
    \<and> set (da_parameters a1) = set (da_parameters a2)"
proof -
  obtain j1 where j1: "fingerprint_json p1 (da_parameters a1) = Some j1"
      "da_request_fingerprint a1 = ds_sha256_hex svc (utf8 (json_dumps j1))"
      "\<forall>(k, v)\<in>set (da_parameters a1). scalar v"
    using prepared_fingerprint [OF assms(1,3,5)] by blast
  obtain j2 where j2: "fingerprint_json p2 (da_parameters a2) = Some j2"
      "da_request_fingerprint a2 = ds_sha256_hex svc (utf8 (json_dumps j2))"
      "\<forall>(k, v)\<in>set (da_parameters a2). scalar v"
    using prepared_fingerprint [OF assms(2,4,5)] by blast
  have "json_dumps j1 = json_dumps j2"
    by (rule assms(6) [rule_format, OF conjI [OF j1(1) conjI [OF j2(1)]]])
      (use assms(7) j1(2) j2(2) in simp)
  from fingerprint_text_binds [OF j1(1) j2(1) this j1(3) j2(3)] show ?thesis .
qed

theorem fingerprint_binds_action_witness:
  "\<exists>a. prepare_execution demo_dic_service 5 demo_executing [] = Inr a
     \<and> pa_action_id demo_executing = pa_action_id demo_executing
     \<and> set (da_parameters a) = set (da_parameters a)"
proof -
  obtain a where a: "prepare_execution demo_dic_service 5 demo_executing [] = Inr a"
    using demo_prepared by blast
  have hex: "\<forall>text. sha256_text (ds_sha256_hex demo_dic_service text)"
    by (simp add: demo_dic_service_def sha256_text_def list_all_iff is_hex_lower_def)
  have same: "\<forall>j1 j2. fingerprint_json demo_executing (da_parameters a) = Some j1
        \<and> fingerprint_json demo_executing (da_parameters a) = Some j2
        \<and> ds_sha256_hex demo_dic_service (utf8 (json_dumps j1))
          = ds_sha256_hex demo_dic_service (utf8 (json_dumps j2))
      \<longrightarrow> json_dumps j1 = json_dumps j2" by auto
  show ?thesis
    using fingerprint_binds_action [OF a a _ _ hex same refl] a by simp
qed

text \<open>Reconciliation reads the outcome of a dispatched write: no flag and no clock can stop it.\<close>

lemma reconciliation_ignores_switches:
  "ds_sha256_hex svc = ds_sha256_hex svc' \<Longrightarrow> ds_repr svc = ds_repr svc' \<Longrightarrow>
    build_prepared svc now pending parameters False = build_prepared svc' now' pending parameters False"
proof -
  assume same: "ds_sha256_hex svc = ds_sha256_hex svc'" "ds_repr svc = ds_repr svc'"
  have "redacted_text svc = redacted_text svc'" by (rule ext) (simp add: redacted_text_def same)
  then have "preview_of svc = preview_of svc'" by (intro ext) (simp add: preview_of_def)
  then have "preview_loop svc ps = preview_loop svc' ps" for ps
  proof (induction ps)
    case (Cons p ps)
    then show ?case by (cases p) (simp split: sum.split)
  qed simp
  then have "dic_preview svc = dic_preview svc'" by (intro ext) (simp add: dic_preview_def)
  moreover have "dic_fingerprint svc = dic_fingerprint svc'"
    by (intro ext) (simp add: dic_fingerprint_def same split: option.split)
  moreover have "execution_guard svc now pending False = execution_guard svc' now' pending False"
    by (simp add: execution_guard_def)
  ultimately show ?thesis by (simp only: build_prepared_def)
qed

end
