(* ===== verification/PolicyEngine.thy ===== *)
theory PolicyEngine
  imports PolicyCatalog FeatureFlags
begin

text \<open>
  The deterministic policy gate (\<^verbatim>\<open>policies/engine.py\<close>, \<^verbatim>\<open>policies/decisions.py\<close>): every guard of
  \<open>PolicyEngine.evaluate\<close> in source order, and \<open>visible_function_ids\<close> over the catalogue. The
  context's \<open>flags\<close> object is the function \<open>enabled\<close> it offers.
\<close>

datatype decision_code =
    ALLOWED
  | UNKNOWN_FUNCTION
  | INVALID_CONTEXT
  | GUILD_DENIED
  | CHANNEL_DENIED
  | TENANT_DENIED
  | ROLE_DENIED
  | FEATURE_DISABLED
  | SYSTEM_DEGRADED
  | TARGET_REQUIRED
  | TARGET_AMBIGUOUS
  | CAPABILITY_UNAVAILABLE
  | NOT_EXPOSED_TO_MODEL

record policy_decision =
  pd_allowed :: bool
  pd_code :: decision_code
  pd_function_id :: string
  pd_reason :: string

definition allow :: "string \<Rightarrow> policy_decision" where
  "allow function_id = \<lparr>pd_allowed = True, pd_code = ALLOWED, pd_function_id = function_id,
     pd_reason = ''policy checks passed''\<rparr>"

definition deny :: "string \<Rightarrow> decision_code \<Rightarrow> string \<Rightarrow> policy_decision" where
  "deny function_id code reason =
     \<lparr>pd_allowed = False, pd_code = code, pd_function_id = function_id, pd_reason = reason\<rparr>"

datatype policy_phase = EXPOSURE | PREPARE | EXECUTE

record policy_context =
  pc_function_id :: string
  pc_user_id :: string
  pc_guild_id :: string
  pc_channel_id :: string
  pc_allowed_guild_ids :: "string list"
  pc_allowed_channel_ids :: "string list"
  pc_roles :: "string list"
  pc_flags :: "string \<Rightarrow> bool"
  pc_current_tenant_id :: "string option"
  pc_allowed_tenant_ids :: "string list"
  pc_phase :: policy_phase
  pc_operation_scope :: string
  pc_entitlements :: "string list"
  pc_target_employee_id :: "string option"
  pc_target_ambiguous :: bool
  pc_sensitive_profile :: bool
  pc_system_state :: string
  pc_system_capabilities :: "string list"

text \<open>\<open>not context.target_employee_id\<close>: absent or empty.\<close>

definition falsy :: "string option \<Rightarrow> bool" where
  "falsy v = (case v of None \<Rightarrow> True | Some s \<Rightarrow> s = [])"

text \<open>The gates on the actor, the place and the system, before the specification's own gates.\<close>

definition context_denial :: "policy_context \<Rightarrow> (decision_code \<times> string) option" where
  "context_denial c =
     (if pc_user_id c = [] \<or> pc_guild_id c = [] \<or> pc_channel_id c = []
        then Some (INVALID_CONTEXT, ''missing actor context'')
      else if pc_guild_id c \<notin> set (pc_allowed_guild_ids c)
        then Some (GUILD_DENIED, ''guild is not allowlisted'')
      else if pc_channel_id c \<notin> set (pc_allowed_channel_ids c)
        then Some (CHANNEL_DENIED, ''channel is not allowlisted'')
      else if (case pc_current_tenant_id c of
                 None \<Rightarrow> True | Some t \<Rightarrow> t \<notin> set (pc_allowed_tenant_ids c))
        then Some (TENANT_DENIED, ''tenant is not verified'')
      else if pc_system_state c \<noteq> ''HEALTHY''
        then Some (SYSTEM_DEGRADED, ''system is not healthy'')
      else None)"

text \<open>The role gate: the expression chosen by the operation scope, over the closed roles.\<close>

definition role_denial :: "function_spec \<Rightarrow> policy_context \<Rightarrow> (decision_code \<times> string) option" where
  "role_denial spec c =
     (case normalize_roles (pc_roles c) of
        None \<Rightarrow> Some (ROLE_DENIED, ''unknown logical role'')
      | Some roles \<Rightarrow>
          (case spec_role_rule spec (pc_operation_scope c) of
             None \<Rightarrow> Some (ROLE_DENIED, ''logical role policy denied'')
           | Some rule \<Rightarrow>
               if role_rule_matches rule roles (set (pc_entitlements c)) then None
               else Some (ROLE_DENIED, ''logical role policy denied'')))"

definition target_denial :: "function_spec \<Rightarrow> policy_context \<Rightarrow> (decision_code \<times> string) option" where
  "target_denial spec c =
     (if pc_phase c \<noteq> EXPOSURE then
        (if fs_requires_target spec \<and> falsy (pc_target_employee_id c)
           then Some (TARGET_REQUIRED, ''employee ID is required'')
         else if is_write spec \<and> pc_target_ambiguous c
           then Some (TARGET_AMBIGUOUS, ''ambiguous write target'')
         else None)
      else None)"

definition spec_denial :: "function_spec \<Rightarrow> policy_context \<Rightarrow> (decision_code \<times> string) option" where
  "spec_denial spec c =
     (if pc_phase c = EXPOSURE \<and> \<not> fs_expose_to_model spec
        then Some (NOT_EXPOSED_TO_MODEL, ''critical function is not exposed to the model'')
      else case find (\<lambda>flag. \<not> pc_flags c flag) (fs_feature_flags spec) of
        Some flag \<Rightarrow> Some (FEATURE_DISABLED, ''required feature flag is disabled: '' @ flag)
      | None \<Rightarrow>
        if pc_sensitive_profile c \<and> \<not> pc_flags c ''ENABLE_SENSITIVE_PROFILE_UPDATE''
          then Some (FEATURE_DISABLED, ''sensitive profile updates are disabled'')
        else if \<not> set (fs_required_capabilities spec) \<subseteq> set (pc_system_capabilities c)
          then Some (CAPABILITY_UNAVAILABLE, ''required system capability is unavailable'')
        else case role_denial spec c of
          Some d \<Rightarrow> Some d
        | None \<Rightarrow> target_denial spec c)"

definition evaluate :: "policy_context \<Rightarrow> policy_decision" where
  "evaluate c = (let fid = pc_function_id c in
     case map_of FUNCTION_CATALOG fid of
       None \<Rightarrow> deny fid UNKNOWN_FUNCTION ''unknown Function ID''
     | Some spec \<Rightarrow>
         (case context_denial c of
            Some (code, reason) \<Rightarrow> deny fid code reason
          | None \<Rightarrow>
             (case spec_denial spec c of
                Some (code, reason) \<Rightarrow> deny fid code reason
              | None \<Rightarrow> allow fid)))"

text \<open>The context each catalogue entry is evaluated in: the fields not copied keep their defaults.\<close>

definition exposure_context :: "policy_context \<Rightarrow> string \<Rightarrow> policy_context" where
  "exposure_context c function_id =
     \<lparr>pc_function_id = function_id, pc_user_id = pc_user_id c, pc_guild_id = pc_guild_id c,
      pc_channel_id = pc_channel_id c, pc_allowed_guild_ids = pc_allowed_guild_ids c,
      pc_allowed_channel_ids = pc_allowed_channel_ids c, pc_roles = pc_roles c,
      pc_flags = pc_flags c, pc_current_tenant_id = pc_current_tenant_id c,
      pc_allowed_tenant_ids = pc_allowed_tenant_ids c, pc_phase = EXPOSURE,
      pc_operation_scope = ''exposure'', pc_entitlements = pc_entitlements c,
      pc_target_employee_id = None, pc_target_ambiguous = False, pc_sensitive_profile = False,
      pc_system_state = pc_system_state c, pc_system_capabilities = pc_system_capabilities c\<rparr>"

definition visible_function_ids :: "policy_context \<Rightarrow> string list" where
  "visible_function_ids c =
     filter (\<lambda>fid. pd_allowed (evaluate (exposure_context c fid))) (map fst FUNCTION_CATALOG)"

section \<open>When the gate opens\<close>

lemma decision_simps [simp]:
  "pd_allowed (allow f)" "\<not> pd_allowed (deny f code reason)"
  "pd_code (allow f) = ALLOWED" "pd_code (deny f code reason) = code"
  by (simp_all add: allow_def deny_def)

definition role_ok :: "function_spec \<Rightarrow> policy_context \<Rightarrow> bool" where
  "role_ok spec c = (\<exists>roles rule. normalize_roles (pc_roles c) = Some roles
     \<and> spec_role_rule spec (pc_operation_scope c) = Some rule
     \<and> role_rule_matches rule roles (set (pc_entitlements c)))"

lemma role_denial_None: "role_denial spec c = None \<longleftrightarrow> role_ok spec c"
  by (auto simp: role_denial_def role_ok_def split: option.splits if_splits)

definition context_ok :: "policy_context \<Rightarrow> bool" where
  "context_ok c = (pc_user_id c \<noteq> [] \<and> pc_guild_id c \<noteq> [] \<and> pc_channel_id c \<noteq> []
     \<and> pc_guild_id c \<in> set (pc_allowed_guild_ids c)
     \<and> pc_channel_id c \<in> set (pc_allowed_channel_ids c)
     \<and> (\<exists>t. pc_current_tenant_id c = Some t \<and> t \<in> set (pc_allowed_tenant_ids c))
     \<and> pc_system_state c = ''HEALTHY'')"

lemma context_denial_None: "context_denial c = None \<longleftrightarrow> context_ok c"
  by (auto simp: context_denial_def context_ok_def split: option.splits if_splits)

definition target_ok :: "function_spec \<Rightarrow> policy_context \<Rightarrow> bool" where
  "target_ok spec c = (pc_phase c = EXPOSURE
     \<or> ((fs_requires_target spec \<longrightarrow> (\<exists>t. pc_target_employee_id c = Some t \<and> t \<noteq> []))
        \<and> \<not> (is_write spec \<and> pc_target_ambiguous c)))"

lemma target_denial_None: "target_denial spec c = None \<longleftrightarrow> target_ok spec c"
  by (auto simp: target_denial_def target_ok_def falsy_def split: option.splits if_splits)

definition flags_ok :: "function_spec \<Rightarrow> policy_context \<Rightarrow> bool" where
  "flags_ok spec c = ((\<forall>flag\<in>set (fs_feature_flags spec). pc_flags c flag)
     \<and> (pc_sensitive_profile c \<longrightarrow> pc_flags c ''ENABLE_SENSITIVE_PROFILE_UPDATE''))"

lemma find_flag_None:
  "find (\<lambda>flag. \<not> p flag) flags = None \<longleftrightarrow> (\<forall>flag\<in>set flags. p flag)"
  by (auto simp: find_None_iff)

lemma spec_denial_None:
  "spec_denial spec c = None \<longleftrightarrow>
     (pc_phase c = EXPOSURE \<longrightarrow> fs_expose_to_model spec) \<and> flags_ok spec c
     \<and> set (fs_required_capabilities spec) \<subseteq> set (pc_system_capabilities c)
     \<and> role_ok spec c \<and> target_ok spec c"
  unfolding flags_ok_def role_denial_None [symmetric] target_denial_None [symmetric]
    find_flag_None [symmetric]
  by (auto simp: spec_denial_def split: if_splits option.splits)

lemma evaluate_allowed:
  "pd_allowed (evaluate c) \<longleftrightarrow> (\<exists>spec. get_function_spec (pc_function_id c) = Some spec
     \<and> context_ok c \<and> (pc_phase c = EXPOSURE \<longrightarrow> fs_expose_to_model spec) \<and> flags_ok spec c
     \<and> set (fs_required_capabilities spec) \<subseteq> set (pc_system_capabilities c)
     \<and> role_ok spec c \<and> target_ok spec c)"
  unfolding evaluate_def Let_def get_function_spec_def [symmetric]
  by (auto simp: context_denial_None [symmetric] spec_denial_None [symmetric]
      split: option.splits)

text \<open>\<open>ALLOWED\<close> is the code of exactly the allowing decisions.\<close>

lemma denial_code:
  "context_denial c \<noteq> Some (ALLOWED, r)" "role_denial spec c \<noteq> Some (ALLOWED, r)"
  "target_denial spec c \<noteq> Some (ALLOWED, r)"
  by (auto simp: context_denial_def role_denial_def target_denial_def split: option.splits if_splits)

lemma spec_denial_code: "spec_denial spec c \<noteq> Some (ALLOWED, r)"
  using denial_code by (auto simp: spec_denial_def split: option.splits if_splits)

lemma evaluate_code: "pd_code (evaluate c) = ALLOWED \<longleftrightarrow> pd_allowed (evaluate c)"
  using denial_code spec_denial_code
  by (auto simp: evaluate_def Let_def split: option.splits prod.splits)

lemma evaluate_write_needs_kill_switch:
  assumes "pd_allowed (evaluate c)" and "get_function_spec (pc_function_id c) = Some spec"
    and "is_write spec"
  shows "pc_flags c ''ENABLE_WRITE_ACTIONS''"
proof -
  from assms(1,2) have "flags_ok spec c" by (auto simp: evaluate_allowed)
  with write_kill_switch [OF assms(2,3)] show ?thesis by (auto simp: flags_ok_def)
qed

lemma visible_iff:
  "fid \<in> set (visible_function_ids c) \<longleftrightarrow>
     get_function_spec fid \<noteq> None \<and> pd_allowed (evaluate (exposure_context c fid))"
proof -
  have "fid \<in> set (map fst FUNCTION_CATALOG) \<longleftrightarrow> get_function_spec fid \<noteq> None"
    by (simp add: get_function_spec_def map_of_eq_None_iff)
  then show ?thesis by (auto simp: visible_function_ids_def)
qed

lemma exposure_context_simps [simp]:
  "pc_function_id (exposure_context c f) = f" "pc_phase (exposure_context c f) = EXPOSURE"
  "pc_flags (exposure_context c f) = pc_flags c" "context_ok (exposure_context c f) = context_ok c"
  by (simp_all add: exposure_context_def context_ok_def)

section \<open>The promises\<close>

text \<open>C11: The gate. A request is allowed exactly when its function is in the catalogue and every gate
  holds: actor and place, tenant, health, exposure, flags, capabilities, roles and target; and
  \<open>ALLOWED\<close> is the code of exactly the allowing decisions.\<close>

theorem evaluate_exact:
  "(pd_allowed (evaluate c) \<longleftrightarrow> (\<exists>spec. get_function_spec (pc_function_id c) = Some spec
      \<and> context_ok c \<and> (pc_phase c = EXPOSURE \<longrightarrow> fs_expose_to_model spec) \<and> flags_ok spec c
      \<and> set (fs_required_capabilities spec) \<subseteq> set (pc_system_capabilities c)
      \<and> role_ok spec c \<and> target_ok spec c))
   \<and> (pd_code (evaluate c) = ALLOWED \<longleftrightarrow> pd_allowed (evaluate c))"
  using evaluate_allowed evaluate_code by blast

definition demo_context :: "string \<Rightarrow> policy_phase \<Rightarrow> policy_context" where
  "demo_context fid phase = \<lparr>pc_function_id = fid, pc_user_id = ''u'', pc_guild_id = ''g'',
     pc_channel_id = ''c'', pc_allowed_guild_ids = [''g''], pc_allowed_channel_ids = [''c''],
     pc_roles = [''HR_READ''], pc_flags = (\<lambda>n. n = ''ENABLE_READ_ACTIONS''),
     pc_current_tenant_id = Some ''t'', pc_allowed_tenant_ids = [''t''], pc_phase = phase,
     pc_operation_scope = ''default'', pc_entitlements = [], pc_target_employee_id = None,
     pc_target_ambiguous = False, pc_sensitive_profile = False, pc_system_state = ''HEALTHY'',
     pc_system_capabilities = []\<rparr>"

text \<open>The gate is evaluated on an input: a search by a reader is allowed.\<close>

lemma demo_search_allowed: "pd_allowed (evaluate (demo_context ''EMP-SEARCH-001'' PREPARE))"
  by code_simp

theorem evaluate_exact_witness:
  "flags_ok EMP_SEARCH_001 (demo_context ''EMP-SEARCH-001'' PREPARE)"
  using evaluate_exact [of "demo_context ''EMP-SEARCH-001'' PREPARE"] demo_search_allowed
    get_function_spec_member [of EMP_SEARCH_001]
  by (auto simp: demo_context_def SPECS_def) (simp add: EMP_SEARCH_001_def read_spec_def flags_ok_def)

text \<open>C12: The deployment kill switch. If the deployment baseline does not enable
  \<open>ENABLE_WRITE_ACTIONS\<close>, then after any runtime flag changes no write function is allowed to
  anyone in any phase.\<close>

theorem baseline_blocks_writes:
  assumes "\<not> flag_baseline f ''ENABLE_WRITE_ACTIONS''"
    and "pc_flags c = flag_enabled (fold flag_step ops f)"
    and "get_function_spec (pc_function_id c) = Some spec" and "is_write spec"
  shows "\<not> pd_allowed (evaluate c)"
  using evaluate_write_needs_kill_switch [OF _ assms(3,4)] flags.never_enabled [OF assms(1)] assms(2)
  by auto

theorem baseline_blocks_writes_witness:
  "\<not> pd_allowed (evaluate ((demo_context ''EMP-STATUS-002'' EXECUTE)\<lparr>pc_flags :=
      flag_enabled (fold flag_step [SetRuntime ''ENABLE_WRITE_ACTIONS'' True] (new_runtime_flags None None))\<rparr>))"
proof (rule baseline_blocks_writes [where ops = "[SetRuntime ''ENABLE_WRITE_ACTIONS'' True]"
      and f = "new_runtime_flags None None" and spec = EMP_STATUS_002])
  show "\<not> flag_baseline (new_runtime_flags None None) ''ENABLE_WRITE_ACTIONS''" by code_simp
  show "get_function_spec (pc_function_id ((demo_context ''EMP-STATUS-002'' EXECUTE)\<lparr>pc_flags :=
      flag_enabled (fold flag_step [SetRuntime ''ENABLE_WRITE_ACTIONS'' True] (new_runtime_flags None None))\<rparr>))
    = Some EMP_STATUS_002"
    using get_function_spec_member [of EMP_STATUS_002]
    by (simp add: SPECS_def demo_context_def) (simp add: EMP_STATUS_002_def write_spec_def)
  show "is_write EMP_STATUS_002" by code_simp
qed simp

text \<open>What the model sees. The visible identifiers are distinct catalogue identifiers of functions
  that are exposed to the model and whose flags are all on; an actor whose context is refused sees nothing.\<close>

theorem visible_functions_exposed:
  "distinct (visible_function_ids c)
   \<and> (\<forall>fid\<in>set (visible_function_ids c). \<exists>spec. get_function_spec fid = Some spec
        \<and> fs_expose_to_model spec
        \<and> (\<forall>flag\<in>set (fs_feature_flags spec). pc_flags c flag))
   \<and> (\<not> context_ok c \<longrightarrow> visible_function_ids c = [])"
proof (intro conjI ballI impI)
  show "distinct (visible_function_ids c)"
    by (simp add: visible_function_ids_def FUNCTION_CATALOG_keys specs_distinct)
next
  fix fid
  assume "fid \<in> set (visible_function_ids c)"
  then have "pd_allowed (evaluate (exposure_context c fid))" by (simp add: visible_iff)
  then obtain spec where spec: "get_function_spec fid = Some spec" "fs_expose_to_model spec"
    "flags_ok spec (exposure_context c fid)" by (auto simp: evaluate_allowed)
  have "\<forall>flag\<in>set (fs_feature_flags spec). pc_flags c flag"
    using spec(3) unfolding flags_ok_def exposure_context_simps by blast
  then show "\<exists>spec. get_function_spec fid = Some spec \<and> fs_expose_to_model spec
        \<and> (\<forall>flag\<in>set (fs_feature_flags spec). pc_flags c flag)" using spec(1,2) by blast
next
  assume no: "\<not> context_ok c"
  have "fid \<notin> set (visible_function_ids c)" for fid
    using no unfolding visible_iff evaluate_allowed exposure_context_simps by blast
  then have "set (visible_function_ids c) = {}" by (intro equals0I) blast
  then show "visible_function_ids c = []" by simp
qed

theorem visible_functions_exposed_witness:
  "visible_function_ids ((demo_context ''EMP-SEARCH-001'' EXPOSURE)\<lparr>pc_system_state := ''DEGRADED''\<rparr>) = []"
  using visible_functions_exposed
    [of "(demo_context ''EMP-SEARCH-001'' EXPOSURE)\<lparr>pc_system_state := ''DEGRADED''\<rparr>"]
  by (simp add: context_ok_def)

end
