(* ===== verification/UploadStore.thy ===== *)
theory UploadStore
  imports VersionedStore "HOL-Library.List_Lexorder" "HOL-Library.Char_ord"
begin

text \<open>
  Upload metadata (\<^verbatim>\<open>files/models.py\<close>) and its two repositories (\<^verbatim>\<open>files/repository.py\<close>): the
  in-memory dicts and the SQL table with its row mapping. Each method holds the lock or a
  transaction for its whole body, so it is one step. \<open>sha\<close> is the hexadecimal SHA-256.
\<close>

datatype upload_status = UP_QUARANTINED | UP_CLEAN | UP_REJECTED | UP_PROCESSED | UP_DELETED

record upload_record =
  ur_upload_id :: string
  ur_original_filename :: string
  ur_opaque_name :: string
  ur_status :: upload_status
  ur_bucket :: "string option"
  ur_claimed_mime :: "string option"
  ur_detected_mime :: "string option"
  ur_size_bytes :: int
  ur_sha256 :: "string option"
  ur_antivirus_status :: "string option"
  ur_rejection_reason :: "string option"
  ur_created_at :: int
  ur_expires_at :: int
  ur_deleted_at :: "int option"
  ur_version :: int

text \<open>The status values and \<open>UploadStatus(value)\<close>.\<close>

fun upload_status_value :: "upload_status \<Rightarrow> string" where
  "upload_status_value UP_QUARANTINED = ''QUARANTINED''"
| "upload_status_value UP_CLEAN = ''CLEAN''"
| "upload_status_value UP_REJECTED = ''REJECTED''"
| "upload_status_value UP_PROCESSED = ''PROCESSED''"
| "upload_status_value UP_DELETED = ''DELETED''"

definition upload_status_of :: "string \<Rightarrow> upload_status option" where
  "upload_status_of v =
     (if v = ''QUARANTINED'' then Some UP_QUARANTINED
      else if v = ''CLEAN'' then Some UP_CLEAN
      else if v = ''REJECTED'' then Some UP_REJECTED
      else if v = ''PROCESSED'' then Some UP_PROCESSED
      else if v = ''DELETED'' then Some UP_DELETED
      else None)"

lemma upload_status_of_value [simp]: "upload_status_of (upload_status_value x) = Some x"
  by (cases x) (simp_all add: upload_status_of_def)

definition delivered_status :: "upload_status \<Rightarrow> bool" where
  "delivered_status x = (x = UP_CLEAN \<or> x = UP_PROCESSED)"

section \<open>The in-memory repository\<close>

record upload_mem =
  um_records :: "(string \<times> upload_record) list"
  um_digests :: "(string \<times> string) list"

definition empty_upload_mem :: upload_mem where
  "empty_upload_mem = \<lparr>um_records = [], um_digests = []\<rparr>"

definition upload_insert :: "(upload_mem, upload_record) store_insert" where
  "upload_insert r s =
     (if map_of (um_records s) (ur_upload_id r) \<noteq> None then (Inl DuplicateRecord, s)
      else (Inr (), s\<lparr>um_records := AList.update (ur_upload_id r) r (um_records s)\<rparr>))"

definition upload_get :: "upload_mem \<Rightarrow> string \<Rightarrow> upload_record option" where
  "upload_get s upload_id = map_of (um_records s) upload_id"

definition upload_replace :: "(upload_mem, upload_record) store_replace" where
  "upload_replace r expected_version s =
     (case map_of (um_records s) (ur_upload_id r) of
        None \<Rightarrow> (Inl (RecordMissing (ur_upload_id r)), s)
      | Some current \<Rightarrow>
          if ur_version current \<noteq> expected_version then (Inl ConcurrentStoreUpdate, s)
          else if ur_version r \<noteq> expected_version + 1 then (Inl VersionNotIncremented, s)
          else (Inr (), s\<lparr>um_records := AList.update (ur_upload_id r) r (um_records s)\<rparr>))"

definition upload_find_by_sha256 :: "upload_mem \<Rightarrow> string \<Rightarrow> upload_record option" where
  "upload_find_by_sha256 s digest =
     find (\<lambda>r. ur_sha256 r = Some digest \<and> delivered_status (ur_status r)) (map snd (um_records s))"

definition upload_claim_sha256 :: "upload_mem store_claim" where
  "upload_claim_sha256 digest upload_id s =
     (case map_of (um_digests s) digest of
        Some owner \<Rightarrow> (owner = upload_id, s)
      | None \<Rightarrow> (True, s\<lparr>um_digests := AList.update digest upload_id (um_digests s)\<rparr>))"

definition upload_digest_owner :: "upload_mem \<Rightarrow> string \<Rightarrow> string option" where
  "upload_digest_owner s digest = map_of (um_digests s) digest"

definition upload_list :: "upload_mem \<Rightarrow> upload_record list" where
  "upload_list s = map snd (um_records s)"

interpretation upload_store: claiming_store upload_get upload_insert upload_replace ur_upload_id
  ur_version "\<lambda>r. r" upload_digest_owner upload_claim_sha256
proof unfold_locales
  fix r :: upload_record
  show "ur_version r = ur_version r" by (rule refl)
next
  fix r s s'
  assume "upload_insert r s = (Inr (), s')"
  then show "upload_get s (ur_upload_id r) = None \<and> upload_get s' = (upload_get s)(ur_upload_id r \<mapsto> r)"
    by (auto simp: upload_insert_def upload_get_def fun_eq_iff split: if_splits)
next
  fix r e s s'
  assume "upload_insert r s = (Inl e, s')"
  then show "s' = s" by (auto simp: upload_insert_def split: if_splits)
next
  fix r v s s'
  assume "upload_replace r v s = (Inr (), s')"
  then show "(\<forall>old. upload_get s (ur_upload_id r) = Some old \<longrightarrow> ur_version old = v)
      \<and> ur_version r = v + 1 \<and> upload_get s' = (upload_get s)(ur_upload_id r \<mapsto> r)"
    by (auto simp: upload_replace_def upload_get_def fun_eq_iff split: if_splits option.splits)
next
  fix r v s e s'
  assume "upload_replace r v s = (Inl e, s')"
  then show "s' = s" by (auto simp: upload_replace_def split: if_splits option.splits)
next
  fix k owner s s'
  assume "upload_claim_sha256 k owner s = (True, s')"
  then show "(upload_digest_owner s k = None \<or> upload_digest_owner s k = Some owner)
      \<and> upload_digest_owner s' = (upload_digest_owner s)(k \<mapsto> owner)"
    by (auto simp: upload_claim_sha256_def upload_digest_owner_def fun_eq_iff split: option.splits)
next
  fix k owner s s'
  assume "upload_claim_sha256 k owner s = (False, s')"
  then show "s' = s" by (auto simp: upload_claim_sha256_def split: option.splits)
next
  fix k owner s
  show "upload_get (snd (upload_claim_sha256 k owner s)) = upload_get s"
    by (simp add: upload_claim_sha256_def upload_get_def fun_eq_iff split: option.splits)
next
  fix r s
  show "upload_digest_owner (snd (upload_insert r s)) = upload_digest_owner s"
    by (simp add: upload_insert_def upload_digest_owner_def fun_eq_iff)
next
  fix r v s
  show "upload_digest_owner (snd (upload_replace r v s)) = upload_digest_owner s"
    by (simp add: upload_replace_def upload_digest_owner_def fun_eq_iff split: option.splits)
qed

section \<open>The table\<close>

text \<open>\<open>Path(name).suffix\<close> of a name without separators.\<close>

definition path_suffix :: "string \<Rightarrow> string" where
  "path_suffix name = (let ext = takeWhile (\<lambda>c. c \<noteq> CHR ''.'') (rev name) in
     if CHR ''.'' \<in> set name \<and> ext \<noteq> [] \<and> length ext + 1 < length name
     then CHR ''.'' # rev ext else [])"

record upload_row =
  uw_upload_id :: string
  uw_correlation_id :: string
  uw_uploader_discord_id :: string
  uw_original_name_hash :: string
  uw_safe_name :: string
  uw_sha256 :: "string option"
  uw_size_bytes :: int
  uw_declared_mime :: "string option"
  uw_detected_mime :: "string option"
  uw_storage_path :: "string option"
  uw_bucket :: "string option"
  uw_status :: string
  uw_antivirus_result :: "string option"
  uw_rejection_reason :: "string option"
  uw_created_at :: "py_datetime option"
  uw_expires_at :: "py_datetime option"
  uw_deleted_at :: "py_datetime option"
  uw_version :: int

definition upload_safe_name :: "string \<Rightarrow> string" where
  "upload_safe_name name = (let extension = take 16 (py_lower (path_suffix name)) in
     if extension \<noteq> [] then ''[REDACTED]'' @ extension else ''[REDACTED]'')"

definition upload_row_values ::
  "(bytes \<Rightarrow> string) \<Rightarrow> column_driver \<Rightarrow> upload_record \<Rightarrow> upload_row" where
  "upload_row_values sha drv r =
     \<lparr>uw_upload_id = ur_upload_id r,
      uw_correlation_id = ''file:'' @ ur_upload_id r,
      uw_uploader_discord_id = ''AUDIT_ONLY'',
      uw_original_name_hash = sha (utf8 (ur_original_filename r)),
      uw_safe_name = upload_safe_name (ur_original_filename r),
      uw_sha256 = ur_sha256 r,
      uw_size_bytes = ur_size_bytes r,
      uw_declared_mime = ur_claimed_mime r,
      uw_detected_mime = ur_detected_mime r,
      uw_storage_path = map_option (\<lambda>b. b @ ''/'' @ ur_opaque_name r) (ur_bucket r),
      uw_bucket = ur_bucket r,
      uw_status = upload_status_value (ur_status r),
      uw_antivirus_result = ur_antivirus_status r,
      uw_rejection_reason = ur_rejection_reason r,
      uw_created_at = Some (column_time drv (ur_created_at r)),
      uw_expires_at = Some (column_time drv (ur_expires_at r)),
      uw_deleted_at = map_option (column_time drv) (ur_deleted_at r),
      uw_version = ur_version r\<rparr>"

text \<open>
  \<open>None\<close> is the \<open>ValueError\<close> of a row without its timestamps or with an unknown status; the columns
  and \<open>upload_to_domain_values\<close> exclude it for every row this repository writes.
\<close>

definition upload_to_domain :: "upload_row \<Rightarrow> upload_record option" where
  "upload_to_domain w =
     (case (as_utc (uw_created_at w), as_utc (uw_expires_at w)) of
        (Some created_at, Some expires_at) \<Rightarrow>
          (case upload_status_of (uw_status w) of
             None \<Rightarrow> None
           | Some status \<Rightarrow> Some
               \<lparr>ur_upload_id = uw_upload_id w,
                ur_original_filename = uw_safe_name w,
                ur_opaque_name = uw_upload_id w,
                ur_status = status,
                ur_bucket = uw_bucket w,
                ur_claimed_mime = uw_declared_mime w,
                ur_detected_mime = uw_detected_mime w,
                ur_size_bytes = uw_size_bytes w,
                ur_sha256 = uw_sha256 w,
                ur_antivirus_status = uw_antivirus_result w,
                ur_rejection_reason = uw_rejection_reason w,
                ur_created_at = created_at,
                ur_expires_at = expires_at,
                ur_deleted_at = as_utc (uw_deleted_at w),
                ur_version = uw_version w\<rparr>)
      | _ \<Rightarrow> None)"

text \<open>The table's check constraints.\<close>

definition upload_row_accepted :: "upload_row \<Rightarrow> bool" where
  "upload_row_accepted w = (0 \<le> uw_size_bytes w
     \<and> (case uw_sha256 w of None \<Rightarrow> True | Some d \<Rightarrow> length d = 64) \<and> 1 \<le> uw_version w)"

record upload_table =
  ut_rows :: "(string \<times> upload_row) list"
  ut_process_claims :: "(string \<times> string) list"

definition sql_upload_insert ::
  "(bytes \<Rightarrow> string) \<Rightarrow> column_driver \<Rightarrow> (upload_table, upload_record) store_insert" where
  "sql_upload_insert sha drv r s = (let row = upload_row_values sha drv r in
     if map_of (ut_rows s) (uw_upload_id row) \<noteq> None then (Inl DuplicateRecord, s)
     else if \<not> upload_row_accepted row then (Inl ConstraintViolated, s)
     else (Inr (), s\<lparr>ut_rows := AList.update (uw_upload_id row) row (ut_rows s)\<rparr>))"

definition sql_upload_get :: "upload_table \<Rightarrow> string \<Rightarrow> upload_record option" where
  "sql_upload_get s upload_id = Option.bind (map_of (ut_rows s) upload_id) upload_to_domain"

definition sql_upload_replace ::
  "(bytes \<Rightarrow> string) \<Rightarrow> column_driver \<Rightarrow> (upload_table, upload_record) store_replace" where
  "sql_upload_replace sha drv r expected_version s =
     (if ur_version r \<noteq> expected_version + 1 then (Inl VersionNotIncremented, s)
      else case map_of (ut_rows s) (ur_upload_id r) of
        None \<Rightarrow> (Inl ConcurrentStoreUpdate, s)
      | Some row \<Rightarrow>
          if uw_version row \<noteq> expected_version then (Inl ConcurrentStoreUpdate, s)
          else if \<not> upload_row_accepted (upload_row_values sha drv r) then (Inl ConstraintViolated, s)
          else (Inr (), s\<lparr>ut_rows :=
            AList.update (ur_upload_id r) (upload_row_values sha drv r) (ut_rows s)\<rparr>))"

text \<open>
  \<open>ORDER BY created_at\<close>: the instant of the column. Rows created at one instant keep the order of
  their insertion here; SQL leaves it open.
\<close>

definition row_instant :: "upload_row \<Rightarrow> int" where
  "row_instant w = (case as_utc (uw_created_at w) of None \<Rightarrow> 0 | Some t \<Rightarrow> t)"

definition sql_first_by_sha256 :: "upload_table \<Rightarrow> string \<Rightarrow> upload_row option" where
  "sql_first_by_sha256 s digest = find
     (\<lambda>w. uw_sha256 w = Some digest \<and> uw_status w \<in> {''CLEAN'', ''PROCESSED''})
     (sort_key row_instant (map snd (ut_rows s)))"

definition sql_upload_find_by_sha256 :: "upload_table \<Rightarrow> string \<Rightarrow> upload_record option" where
  "sql_upload_find_by_sha256 s digest = Option.bind (sql_first_by_sha256 s digest) upload_to_domain"

definition sql_upload_claim_sha256 :: "upload_table store_claim" where
  "sql_upload_claim_sha256 digest upload_id s =
     (case map_of (ut_process_claims s) digest of
        Some owner \<Rightarrow> (owner = upload_id, s)
      | None \<Rightarrow>
          if (case sql_first_by_sha256 s digest of
                Some existing \<Rightarrow> uw_upload_id existing \<noteq> upload_id
              | None \<Rightarrow> False)
          then (False, s)
          else (True, s\<lparr>ut_process_claims := AList.update digest upload_id (ut_process_claims s)\<rparr>))"

definition sql_digest_owner :: "upload_table \<Rightarrow> string \<Rightarrow> string option" where
  "sql_digest_owner s digest = map_of (ut_process_claims s) digest"

definition sql_upload_list :: "upload_table \<Rightarrow> upload_record option list" where
  "sql_upload_list s =
     map upload_to_domain (sort_key row_instant (sort_key uw_upload_id (map snd (ut_rows s))))"

text \<open>
  What the table keeps of a record: the file name is redacted to its extension and the opaque name
  is the upload identifier, which is what the service writes there anyway.
\<close>

definition upload_redacted :: "upload_record \<Rightarrow> upload_record" where
  "upload_redacted r = r\<lparr>ur_original_filename := upload_safe_name (ur_original_filename r),
     ur_opaque_name := ur_upload_id r\<rparr>"

lemma upload_to_domain_values: "upload_to_domain (upload_row_values sha drv r) = Some (upload_redacted r)"
  by (simp add: upload_to_domain_def upload_row_values_def upload_redacted_def)

lemma upload_row_values_key [simp]:
  "uw_upload_id (upload_row_values sha drv r) = ur_upload_id r"
  "uw_version (upload_row_values sha drv r) = ur_version r"
  by (simp_all add: upload_row_values_def)

lemma upload_redacted_key [simp]:
  "ur_upload_id (upload_redacted r) = ur_upload_id r" "ur_version (upload_redacted r) = ur_version r"
  by (simp_all add: upload_redacted_def)

lemma upload_to_domain_key:
  "upload_to_domain w = Some r \<Longrightarrow> ur_version r = uw_version w \<and> ur_upload_id r = uw_upload_id w"
  by (auto simp: upload_to_domain_def split: option.splits)

interpretation upload_table: claiming_store sql_upload_get "sql_upload_insert sha drv"
  "sql_upload_replace sha drv" ur_upload_id ur_version upload_redacted sql_digest_owner
  sql_upload_claim_sha256
  for sha drv
proof unfold_locales
  fix r
  show "ur_version (upload_redacted r) = ur_version r" by simp
next
  fix r s s'
  assume "sql_upload_insert sha drv r s = (Inr (), s')"
  then show "sql_upload_get s (ur_upload_id r) = None
      \<and> sql_upload_get s' = (sql_upload_get s)(ur_upload_id r \<mapsto> upload_redacted r)"
    by (auto simp: sql_upload_insert_def sql_upload_get_def fun_eq_iff Let_def upload_to_domain_values
        split: if_splits)
next
  fix r e s s'
  assume "sql_upload_insert sha drv r s = (Inl e, s')"
  then show "s' = s" by (auto simp: sql_upload_insert_def Let_def split: if_splits)
next
  fix r v s s'
  assume "sql_upload_replace sha drv r v s = (Inr (), s')"
  then show "(\<forall>old. sql_upload_get s (ur_upload_id r) = Some old \<longrightarrow> ur_version old = v)
      \<and> ur_version r = v + 1
      \<and> sql_upload_get s' = (sql_upload_get s)(ur_upload_id r \<mapsto> upload_redacted r)"
    by (auto simp: sql_upload_replace_def sql_upload_get_def fun_eq_iff upload_to_domain_values
        dest: upload_to_domain_key split: if_splits option.splits)
next
  fix r v s e s'
  assume "sql_upload_replace sha drv r v s = (Inl e, s')"
  then show "s' = s" by (auto simp: sql_upload_replace_def split: if_splits option.splits)
next
  fix k owner s s'
  assume "sql_upload_claim_sha256 k owner s = (True, s')"
  then show "(sql_digest_owner s k = None \<or> sql_digest_owner s k = Some owner)
      \<and> sql_digest_owner s' = (sql_digest_owner s)(k \<mapsto> owner)"
    by (auto simp: sql_upload_claim_sha256_def sql_digest_owner_def fun_eq_iff
        split: option.splits if_splits)
next
  fix k owner s s'
  assume "sql_upload_claim_sha256 k owner s = (False, s')"
  then show "s' = s" by (auto simp: sql_upload_claim_sha256_def split: option.splits if_splits)
next
  fix k owner s
  show "sql_upload_get (snd (sql_upload_claim_sha256 k owner s)) = sql_upload_get s"
    by (simp add: sql_upload_claim_sha256_def sql_upload_get_def fun_eq_iff split: option.splits)
next
  fix r s
  show "sql_digest_owner (snd (sql_upload_insert sha drv r s)) = sql_digest_owner s"
    by (simp add: sql_upload_insert_def sql_digest_owner_def fun_eq_iff Let_def)
next
  fix r v s
  show "sql_digest_owner (snd (sql_upload_replace sha drv r v s)) = sql_digest_owner s"
    by (simp add: sql_upload_replace_def sql_digest_owner_def fun_eq_iff split: option.splits)
qed

section \<open>The promise of both repositories\<close>

text \<open>No lost update, one owner. In the in-memory repository and in the upload table alike: of two
  replacements of a record that expect the same version only the first succeeds, whatever insertions,
  replacements and claims come between, and a digest granted to one upload is granted to no other.\<close>

theorem upload_updates_not_lost:
  "(\<forall>r r' v s s' ops. upload_replace r v s = (Inr (), s') \<and> ur_upload_id r' = ur_upload_id r \<longrightarrow>
      fst (upload_replace r' v (fold (store_step upload_insert upload_replace upload_claim_sha256) ops s'))
        \<noteq> Inr ())
   \<and> (\<forall>sha drv r r' v s s' ops.
      sql_upload_replace sha drv r v s = (Inr (), s') \<and> ur_upload_id r' = ur_upload_id r \<longrightarrow>
      fst (sql_upload_replace sha drv r' v (fold (store_step (sql_upload_insert sha drv)
        (sql_upload_replace sha drv) sql_upload_claim_sha256) ops s')) \<noteq> Inr ())
   \<and> (\<forall>d i j s s' ops. upload_claim_sha256 d i s = (True, s') \<and> j \<noteq> i \<longrightarrow>
      \<not> fst (upload_claim_sha256 d j
        (fold (store_step upload_insert upload_replace upload_claim_sha256) ops s')))
   \<and> (\<forall>sha drv d i j s s' ops. sql_upload_claim_sha256 d i s = (True, s') \<and> j \<noteq> i \<longrightarrow>
      \<not> fst (sql_upload_claim_sha256 d j (fold (store_step (sql_upload_insert sha drv)
        (sql_upload_replace sha drv) sql_upload_claim_sha256) ops s')))"
  by (intro conjI allI impI; elim conjE;
      rule upload_store.single_winner upload_table.single_winner
        upload_store.single_owner upload_table.single_owner; assumption)

definition demo_upload :: "int \<Rightarrow> upload_record" where
  "demo_upload version = \<lparr>ur_upload_id = ''u'', ur_original_filename = ''a.pdf'', ur_opaque_name = ''u'',
     ur_status = UP_CLEAN, ur_bucket = Some ''clean'', ur_claimed_mime = None, ur_detected_mime = None,
     ur_size_bytes = 1, ur_sha256 = None, ur_antivirus_status = None, ur_rejection_reason = None,
     ur_created_at = 0, ur_expires_at = 9, ur_deleted_at = None, ur_version = version\<rparr>"

theorem upload_updates_not_lost_witness:
  "fst (sql_upload_replace (\<lambda>b. ''h'') DropsZone (demo_upload 2) 1
     (snd (sql_upload_replace (\<lambda>b. ''h'') DropsZone (demo_upload 2) 1
       (snd (sql_upload_insert (\<lambda>b. ''h'') DropsZone (demo_upload 1)
         \<lparr>ut_rows = [], ut_process_claims = []\<rparr>))))) \<noteq> Inr ()"
proof -
  let ?s = "snd (sql_upload_insert (\<lambda>b. ''h'') DropsZone (demo_upload 1)
      \<lparr>ut_rows = [], ut_process_claims = []\<rparr>)"
  let ?r = "sql_upload_replace (\<lambda>b. ''h'') DropsZone (demo_upload 2) 1 ?s"
  have "fst ?r = Inr ()" by code_simp
  then have r: "?r = (Inr (), snd ?r)" by (metis prod.collapse)
  have "fst (sql_upload_replace (\<lambda>b. ''h'') DropsZone (demo_upload 2) 1
      (fold (store_step (sql_upload_insert (\<lambda>b. ''h'') DropsZone)
        (sql_upload_replace (\<lambda>b. ''h'') DropsZone) sql_upload_claim_sha256) [] (snd ?r))) \<noteq> Inr ()"
    by (rule upload_updates_not_lost [THEN conjunct2, THEN conjunct1, rule_format, OF conjI [OF r refl]])
  then show ?thesis by (simp only: fold_simps simp_thms)
qed

end
