(* ===== verification/Quarantine.thy ===== *)
theory Quarantine
  imports Sanitization UploadStore
begin

text \<open>
  What the upload service stands on: MIME rules and content detection (\<^verbatim>\<open>files/mime.py\<close>), the
  quarantine directory tree (\<^verbatim>\<open>files/quarantine.py\<close>) and the ClamAV client
  (\<^verbatim>\<open>files/antivirus.py\<close>). The file system is the entry under each bucket and name: a regular file
  with its content and whether its mode keeps others out, a symbolic link with the name it resolves
  to inside its own bucket (\<open>None\<close> when it leaves the bucket), or a directory; \<open>fs_linked\<close> says which
  bucket directories were replaced by links. python-magic, the digest and the ClamAV server are
  arguments.
\<close>

datatype file_error =
    ValueErr
  | SizeLimitExceeded int string
  | ResolutionErr string
  | TypeErr
  | OSErr
  | KeyErr string
  | RuntimeErr
  | OtherErr

text \<open>The two classes the code derives from \<open>ValueError\<close> are caught with it.\<close>

fun is_value_error :: "file_error \<Rightarrow> bool" where
  "is_value_error ValueErr = True"
| "is_value_error (SizeLimitExceeded n d) = True"
| "is_value_error (ResolutionErr m) = True"
| "is_value_error e = False"

section \<open>MIME types\<close>

definition MIME_EXTENSIONS :: "(string \<times> string list) list" where
  "MIME_EXTENSIONS =
     [(''application/pdf'', [''.pdf'']),
      (''image/jpeg'', [''.jpg'', ''.jpeg'']),
      (''image/png'', [''.png''])]"

definition mime_aliases :: "(string \<times> string) list" where
  "mime_aliases =
     [(''image/jpg'', ''image/jpeg''),
      (''application/x-pdf'', ''application/pdf'')]"

definition canonical_mime_text :: "string \<Rightarrow> string" where
  "canonical_mime_text v =
     (let normalized = py_lower (py_strip (takeWhile (\<lambda>c. c \<noteq> CHR '';'') v)) in
      case map_of mime_aliases normalized of Some m \<Rightarrow> m | None \<Rightarrow> normalized)"

definition canonical_mime :: "string option \<Rightarrow> string option" where
  "canonical_mime v = map_option canonical_mime_text v"

definition extension_matches_mime :: "string \<Rightarrow> string \<Rightarrow> bool" where
  "extension_matches_mime filename mime_type =
     (let allowed = (case map_of MIME_EXTENSIONS (canonical_mime_text mime_type) of
        Some xs \<Rightarrow> xs | None \<Rightarrow> []) in
      py_lower (path_suffix filename) \<in> set allowed)"

text \<open>
  \<open>ContentMimeDetector.detect\<close>: \<open>magic\<close> is the answer of python-magic, absent when it is switched
  off or cannot be imported.
\<close>

definition signature_mime :: "bytes \<Rightarrow> string" where
  "signature_mime content = (let header = take 16 content in
     if starts_with ''%PDF-'' header then ''application/pdf''
     else if starts_with [CHR 0xFF, CHR 0xD8, CHR 0xFF] header then ''image/jpeg''
     else if starts_with [CHR 0x89, CHR ''P'', CHR ''N'', CHR ''G'', CHR 0x0D, CHR 0x0A, CHR 0x1A,
                          CHR 0x0A] header then ''image/png''
     else ''application/octet-stream'')"

definition detect_mime ::
  "(bytes \<Rightarrow> file_error + string) option \<Rightarrow> bytes \<Rightarrow> file_error + string" where
  "detect_mime magic content =
     (case magic of
        None \<Rightarrow> Inr (signature_mime content)
      | Some from_file \<Rightarrow>
          (case from_file content of
             Inl e \<Rightarrow> if e = OSErr \<or> is_value_error e then Inr (signature_mime content) else Inl e
           | Inr m \<Rightarrow> (let detected = canonical_mime_text m in
               if detected \<noteq> [] \<and> detected \<noteq> ''application/octet-stream'' then Inr detected
               else Inr (signature_mime content))))"

section \<open>The quarantine tree\<close>

datatype fs_entry = RegularFile bytes bool | SymbolicLink "string option" | DirectoryEntry

record upload_fs =
  fs_linked :: "string \<Rightarrow> bool"
  fs_entries :: "(string \<times> string) \<Rightarrow> fs_entry option"

definition UPLOAD_BUCKETS :: "string list" where
  "UPLOAD_BUCKETS = [''quarantine'', ''clean'', ''rejected'', ''processed'']"

definition empty_upload_fs :: upload_fs where
  "empty_upload_fs = \<lparr>fs_linked = (\<lambda>_. False), fs_entries = (\<lambda>_. None)\<rparr>"

definition hex_syntax :: "nat \<Rightarrow> string \<Rightarrow> bool" where
  "hex_syntax n s = (length s = n \<and> list_all is_hex_lower s)"

definition upload_id_syntax :: "string \<Rightarrow> bool" where
  "upload_id_syntax = hex_syntax 32"

definition sha256_syntax :: "string \<Rightarrow> bool" where
  "sha256_syntax = hex_syntax 64"

definition path_for :: "upload_fs \<Rightarrow> string \<Rightarrow> string \<Rightarrow> file_error + (string \<times> string)" where
  "path_for fs bucket upload_id =
     (if bucket \<notin> set UPLOAD_BUCKETS then Inl ValueErr
      else if \<not> upload_id_syntax upload_id then Inl ValueErr
      else case fs_entries fs (bucket, upload_id) of
        Some (SymbolicLink None) \<Rightarrow> Inl ValueErr
      | Some (SymbolicLink (Some target)) \<Rightarrow> Inr (bucket, target)
      | _ \<Rightarrow> Inr (bucket, upload_id))"

text \<open>
  The chunks of an attachment as the iterator hands them over; a fault of the iterator or of the
  disk at a chunk is a \<open>ChunkFault\<close>.
\<close>

datatype upload_chunk = Chunk bytes | NotBytes | ChunkFault file_error

text \<open>\<open>write\<close>'s loop over \<open>_write_chunk\<close>: the outcome and what the file holds.\<close>

fun write_chunks ::
  "(bytes \<Rightarrow> string) \<Rightarrow> int \<Rightarrow> bytes \<Rightarrow> upload_chunk list \<Rightarrow> (file_error + unit) \<times> bytes" where
  "write_chunks sha maximum content [] = (Inr (), content)"
| "write_chunks sha maximum content (NotBytes # cs) = (Inl TypeErr, content)"
| "write_chunks sha maximum content (ChunkFault e # cs) = (Inl e, content)"
| "write_chunks sha maximum content (Chunk c # cs) =
     (let size = int (length content); new_size = size + int (length c) in
      if maximum < new_size
      then (Inl (SizeLimitExceeded new_size (sha (content @ c))),
            content @ take (nat (max 0 (maximum + 1 - size))) c)
      else write_chunks sha maximum (content @ c) cs)"

definition fs_put :: "string \<times> string \<Rightarrow> fs_entry option \<Rightarrow> upload_fs \<Rightarrow> upload_fs" where
  "fs_put p e fs = fs\<lparr>fs_entries := (fs_entries fs)(p := e)\<rparr>"

text \<open>The faults the operating system may answer a call with.\<close>

record disk_faults =
  df_open :: bool
  df_sync :: bool
  df_move :: bool
  df_read :: bool

definition quarantine_write ::
  "(bytes \<Rightarrow> string) \<Rightarrow> disk_faults \<Rightarrow> string \<Rightarrow> upload_chunk list \<Rightarrow> int
    \<Rightarrow> (upload_fs, file_error, int \<times> string) sx" where
  "quarantine_write sha df upload_id chunks max_bytes fs =
     (case path_for fs ''quarantine'' upload_id of
        Inl e \<Rightarrow> (Inl e, fs)
      | Inr path \<Rightarrow>
          if df_open df \<or> fs_entries fs path \<noteq> None then (Inl OSErr, fs)
          else case write_chunks sha max_bytes [] chunks of
            (Inr _, content) \<Rightarrow>
              if df_sync df then (Inl OSErr, fs_put path None fs)
              else (Inr (int (length content), sha content),
                    fs_put path (Some (RegularFile content True)) fs)
          | (Inl (SizeLimitExceeded n d), content) \<Rightarrow>
              (Inl (SizeLimitExceeded n d), fs_put path (Some (RegularFile content True)) fs)
          | (Inl e, content) \<Rightarrow> (Inl e, fs_put path None fs))"

fun restrict_mode :: "fs_entry \<Rightarrow> fs_entry" where
  "restrict_mode (RegularFile content restricted) = RegularFile content True"
| "restrict_mode e = e"

definition quarantine_move ::
  "disk_faults \<Rightarrow> string \<Rightarrow> string \<Rightarrow> string \<Rightarrow> (upload_fs, file_error, string \<times> string) sx" where
  "quarantine_move df upload_id source destination fs =
     (case path_for fs source upload_id of
        Inl e \<Rightarrow> (Inl e, fs)
      | Inr source_path \<Rightarrow>
          (case path_for fs destination upload_id of
             Inl e \<Rightarrow> (Inl e, fs)
           | Inr destination_path \<Rightarrow>
               if fs_entries fs destination_path \<noteq> None then (Inl OSErr, fs)
               else case fs_entries fs source_path of
                 None \<Rightarrow> (Inl OSErr, fs)
               | Some e \<Rightarrow>
                   if df_move df then (Inl OSErr, fs)
                   else (Inr destination_path,
                     fs_put destination_path (Some (restrict_mode e)) (fs_put source_path None fs))))"

definition quarantine_delete ::
  "string \<Rightarrow> string \<Rightarrow> (upload_fs, file_error, unit) sx" where
  "quarantine_delete bucket upload_id fs =
     (case path_for fs bucket upload_id of
        Inl e \<Rightarrow> (Inl e, fs)
      | Inr path \<Rightarrow>
          (case fs_entries fs path of
             Some DirectoryEntry \<Rightarrow> (Inl OSErr, fs)
           | _ \<Rightarrow> (Inr (), fs_put path None fs)))"

definition quarantine_exists :: "upload_fs \<Rightarrow> string \<Rightarrow> string \<Rightarrow> file_error + bool" where
  "quarantine_exists fs bucket upload_id =
     (case path_for fs bucket upload_id of
        Inl e \<Rightarrow> Inl e
      | Inr path \<Rightarrow>
          Inr (case fs_entries fs path of Some (RegularFile c m) \<Rightarrow> True | _ \<Rightarrow> False))"

definition open_read :: "upload_fs \<Rightarrow> string \<times> string \<Rightarrow> file_error + bytes" where
  "open_read fs path =
     (case fs_entries fs path of Some (RegularFile content m) \<Rightarrow> Inr content | _ \<Rightarrow> Inl OSErr)"

end
