(* ===== verification/Antivirus.thy ===== *)
theory Antivirus
  imports Quarantine
begin

text \<open>
  The ClamAV client (\<^verbatim>\<open>files/antivirus.py\<close>): where it connects, the INSTREAM request it sends, the
  bounded reading of the answer and its verdict. The server is an argument: what connecting raises
  or, for the bytes sent, the pieces the socket delivers.
\<close>

datatype av_verdict = AV_CLEAN | AV_INFECTED | AV_ERROR | AV_UNAVAILABLE

fun av_value :: "av_verdict \<Rightarrow> string" where
  "av_value AV_CLEAN = ''CLEAN''"
| "av_value AV_INFECTED = ''INFECTED''"
| "av_value AV_ERROR = ''ERROR''"
| "av_value AV_UNAVAILABLE = ''UNAVAILABLE''"

datatype clam_target = UnixSocket string | TcpSocket string nat

text \<open>
  \<open>rpartition(":")\<close> and the port: \<open>isdigit\<close> also accepts the three superscripts below U+0100, which
  \<open>int\<close> then refuses with a \<open>ValueError\<close>.
\<close>

definition is_py_digit :: "char \<Rightarrow> bool" where
  "is_py_digit c = (is_digit c \<or> code_point c \<in> {178, 179, 185 :: nat})"

definition decimal_nat :: "string \<Rightarrow> nat" where
  "decimal_nat s = fold (\<lambda>c n. 10 * n + (code_point c - 48)) s 0"

definition clam_endpoint :: "string \<Rightarrow> file_error + clam_target" where
  "clam_endpoint endpoint =
     (if starts_with ''/'' endpoint then Inr (UnixSocket endpoint)
      else let raw_port = rev (takeWhile (\<lambda>c. c \<noteq> CHR '':'') (rev endpoint));
               host = take (length endpoint - length raw_port - 1) endpoint in
        if CHR '':'' \<notin> set endpoint \<or> host = [] \<or> raw_port = [] \<or> \<not> list_all is_py_digit raw_port
        then Inl OSErr
        else if \<not> list_all is_digit raw_port then Inl ValueErr
        else Inr (TcpSocket host (decimal_nat raw_port)))"

text \<open>\<open>struct.pack("!I", n)\<close> and the reads of 64 KiB.\<close>

definition pack_u32 :: "nat \<Rightarrow> bytes" where
  "pack_u32 n = [char_of (n div 16777216 mod 256), char_of (n div 65536 mod 256),
                 char_of (n div 256 mod 256), char_of (n mod 256)]"

function frames :: "nat \<Rightarrow> bytes \<Rightarrow> bytes" where
  "frames k content =
     (if content = [] \<or> k = 0 then pack_u32 0
      else pack_u32 (length (take k content)) @ take k content @ frames k (drop k content))"
  by pat_completeness auto
termination by (relation "measure (\<lambda>(k, content). length content)") auto

declare frames.simps [simp del]

definition instream_request :: "bytes \<Rightarrow> bytes" where
  "instream_request content = ''zINSTREAM'' @ [CHR 0x00] @ frames 65536 content"

text \<open>\<open>_receive_response\<close>: at most 8192 bytes, up to a NUL or a line end. A piece longer than the
  requested count stays in the socket for the next \<open>recv\<close>.\<close>

function receive_response :: "nat \<Rightarrow> bytes list \<Rightarrow> bytes" where
  "receive_response taken arrivals =
     (case arrivals of
        [] \<Rightarrow> []
      | a # rest \<Rightarrow>
          if 8192 \<le> taken \<or> a = [] then []
          else let n = min 4096 (8192 - taken); chunk = take n a; left = drop n a in
            chunk @ (if CHR 0x00 \<in> set chunk \<or> CHR 0x0A \<in> set chunk then []
                     else receive_response (taken + length chunk)
                            (if left = [] then rest else left # rest)))"
  by pat_completeness auto
termination
  by (relation "measure (\<lambda>(taken, arrivals). 8192 - taken)")
    (auto simp: min_def intro!: diff_less_mono2 split: if_splits)

declare receive_response.simps [simp del]

text \<open>
  Decoding with replacement: a byte outside ASCII decodes to characters that no accepted answer
  contains and whose capitals form none, so one stands for all of them. \<open>strip("\x00\r\n")\<close>.
\<close>

definition answer_text :: "bytes \<Rightarrow> string" where
  "answer_text b = (let
     framing = (\<lambda>c. c \<in> {CHR 0x00, CHR 0x0D, CHR 0x0A});
     text = map (\<lambda>c. if code_point c < (128 :: nat) then c else CHR 0x3F) b
     in rev (dropWhile framing (rev (dropWhile framing text))))"

definition clam_verdict :: "string \<Rightarrow> av_verdict" where
  "clam_verdict response = (let upper = py_upper response in
     if ends_with '' OK'' upper \<or> ends_with ('' OK'' @ [CHR 0x00]) upper then AV_CLEAN
     else if contains_text '' FOUND'' upper then AV_INFECTED
     else AV_ERROR)"

definition clam_scan ::
  "(clam_target \<Rightarrow> file_error + (bytes \<Rightarrow> file_error + bytes list)) \<Rightarrow> string option
    \<Rightarrow> file_error + bytes \<Rightarrow> file_error + av_verdict" where
  "clam_scan dial endpoint file =
     (let address = (case endpoint of None \<Rightarrow> [] | Some e \<Rightarrow> py_strip e) in
      if address = [] then Inr AV_UNAVAILABLE
      else let answer =
        (case clam_endpoint address of Inl e \<Rightarrow> Inl e
         | Inr target \<Rightarrow> (case dial target of Inl e \<Rightarrow> Inl e
         | Inr server \<Rightarrow> (case file of Inl e \<Rightarrow> Inl e
         | Inr content \<Rightarrow> (case server (instream_request content) of Inl e \<Rightarrow> Inl e
         | Inr arrivals \<Rightarrow> Inr (answer_text (receive_response 0 arrivals))))))
      in case answer of
        Inl e \<Rightarrow> if e = OSErr then Inr AV_UNAVAILABLE else Inl e
      | Inr response \<Rightarrow> Inr (clam_verdict response))"

section \<open>What a server reads\<close>

definition unpack_u32 :: "bytes \<Rightarrow> nat" where
  "unpack_u32 b = fold (\<lambda>c n. 256 * n + code_point c) b 0"

text \<open>The documented INSTREAM format read back: sized pieces up to one of size zero.\<close>

function read_frames :: "bytes \<Rightarrow> bytes option" where
  "read_frames b =
     (if length b < 4 then None
      else let n = unpack_u32 (take 4 b); body = drop 4 b in
        if n = 0 then Some []
        else if length body < n then None
        else map_option (\<lambda>rest. take n body @ rest) (read_frames (drop n body)))"
  by pat_completeness auto
termination by (relation "measure length") auto

declare read_frames.simps [simp del]

definition read_instream :: "bytes \<Rightarrow> bytes option" where
  "read_instream b = (if starts_with (''zINSTREAM'' @ [CHR 0x00]) b then read_frames (drop 10 b) else None)"

lemma pack_u32_length [simp]: "length (pack_u32 n) = 4"
  by (simp add: pack_u32_def)

lemma unpack_pack_u32 [simp]:
  assumes "n < 4294967296"
  shows "unpack_u32 (pack_u32 n) = n"
proof -
  have div: "n div 256 div 256 = n div 65536" "n div 65536 div 256 = n div 16777216"
    by (simp_all add: div_mult2_eq [symmetric])
  have "n = 256 * (n div 256) + n mod 256"
    "n div 256 = 256 * (n div 256 div 256) + n div 256 mod 256"
    "n div 65536 = 256 * (n div 65536 div 256) + n div 65536 mod 256"
    by (simp_all only: mult_div_mod_eq)
  then have "n = 16777216 * (n div 16777216) + 65536 * (n div 65536 mod 256)
      + 256 * (n div 256 mod 256) + n mod 256"
    unfolding div by linarith
  with assms show ?thesis by (simp add: unpack_u32_def pack_u32_def)
qed

lemma read_frames_piece:
  assumes "0 < length c" "length c < 4294967296"
  shows "read_frames (pack_u32 (length c) @ c @ rest) = map_option (\<lambda>r. c @ r) (read_frames rest)"
  using assms by (subst read_frames.simps) (simp add: Let_def)

lemma read_frames_frames:
  assumes "0 < k" "k < 4294967296"
  shows "read_frames (frames k content) = Some content"
  using assms
proof (induction k content rule: frames.induct)
  case (1 k content)
  show ?case
  proof (cases "content = []")
    case True
    then show ?thesis by (simp add: frames.simps [of k "[]"] read_frames.simps)
  next
    case False
    with 1 have "read_frames (frames k (drop k content)) = Some (drop k content)" by blast
    moreover have "0 < length (take k content)" "length (take k content) < 4294967296"
      using False 1 by simp_all
    ultimately have "read_frames (pack_u32 (length (take k content)) @ take k content @ frames k (drop k content))
      = Some content"
      by (subst read_frames_piece) simp_all
    moreover have "frames k content
      = pack_u32 (length (take k content)) @ take k content @ frames k (drop k content)"
      using False 1(2) by (subst frames.simps) simp
    ultimately show ?thesis by (simp only:)
  qed
qed

lemma receive_response_bounded: "length (receive_response taken arrivals) \<le> 8192 - taken"
proof (induction taken arrivals rule: receive_response.induct)
  case (1 taken arrivals)
  show ?case
  proof (cases arrivals)
    case Nil
    then show ?thesis by (simp add: receive_response.simps)
  next
    case (Cons a rest)
    let ?n = "min 4096 (8192 - taken)"
    show ?thesis
    proof (cases "8192 \<le> taken \<or> a = []")
      case True
      with Cons show ?thesis by (simp add: receive_response.simps)
    next
      case False
      show ?thesis
      proof (cases "CHR 0x00 \<in> set (take ?n a) \<or> CHR 0x0A \<in> set (take ?n a)")
        case True
        with Cons False show ?thesis by (subst receive_response.simps) (simp add: Let_def)
      next
        case no_end: False
        let ?left = "if drop ?n a = [] then rest else drop ?n a # rest"
        have "length (receive_response (taken + length (take ?n a)) ?left)
          \<le> 8192 - (taken + length (take ?n a))"
          using "1" [of a rest ?n "take ?n a" "drop ?n a"] Cons False no_end by simp
        moreover have "length (take ?n a) \<le> 8192 - taken" by simp
        moreover have "x \<le> 8192 - (taken + y) \<Longrightarrow> y \<le> 8192 - taken \<Longrightarrow> y + x \<le> 8192 - taken"
          for x y :: nat by linarith
        ultimately have "length (take ?n a @ receive_response (taken + length (take ?n a)) ?left)
          \<le> 8192 - taken" by (simp only: length_append)
        moreover have "receive_response taken arrivals
          = take ?n a @ receive_response (taken + length (take ?n a)) ?left"
          by (subst receive_response.simps) (simp only: Cons list.case Let_def False no_end if_False)
        ultimately show ?thesis by (simp only:)
      qed
    qed
  qed
qed

text \<open>The scan request carries the file. Read as the INSTREAM format, the bytes the client
  sends for a file are that file, whatever its length; the client reads at most 8192 bytes of the
  answer, whatever the server sends.\<close>

theorem instream_carries_file:
  "read_instream (instream_request content) = Some content
   \<and> length (receive_response 0 arrivals) \<le> 8192"
  using read_frames_frames [of 65536 content] receive_response_bounded [of 0 arrivals]
  by (simp add: read_instream_def instream_request_def starts_with_def)

end
