(* ===== verification/Uploads.thy ===== *)
theory Uploads
  imports Antivirus
begin

text \<open>
  The upload service (\<^verbatim>\<open>files/service.py\<close>) over the in-memory repository and the quarantine tree,
  and the retention job (\<^verbatim>\<open>files/retention.py\<close>). One call of the service is one step; the delivery
  lock makes that true of deliveries, and two ingestions share neither a record nor a file. What a
  call reads from outside is its \<open>file_env\<close>: the new identifier, the clock, the answers of the
  detector and the scanner on the stored content, the faults of the disk.
\<close>

record file_config =
  fc_max_bytes :: int
  fc_retention :: int
  fc_allowed_mime_types :: "string list"
  fc_clamav_required :: bool
  fc_sha256 :: "bytes \<Rightarrow> string"

record file_env =
  fe_upload_id :: string
  fe_now :: py_datetime
  fe_detect :: "file_error + bytes \<Rightarrow> file_error + string"
  fe_scan :: "file_error + bytes \<Rightarrow> file_error + av_verdict"
  fe_disk :: disk_faults

type_synonym upload_event = "string \<times> py_mapping"

record file_state =
  fl_repo :: upload_mem
  fl_fs :: upload_fs
  fl_events :: "upload_event list"

definition file_service_init :: "file_config \<Rightarrow> file_error + file_state" where
  "file_service_init cfg =
     (if fc_max_bytes cfg \<le> 0 \<or> fc_retention cfg \<le> 0 then Inl ValueErr
      else Inr \<lparr>fl_repo = empty_upload_mem, fl_fs = empty_upload_fs, fl_events = []\<rparr>)"

definition allowed_mime :: "file_config \<Rightarrow> string option \<Rightarrow> bool" where
  "allowed_mime cfg m =
     (case m of None \<Rightarrow> False | Some x \<Rightarrow> x \<in> set (map canonical_mime_text (fc_allowed_mime_types cfg)))"

text \<open>The exceptions of the repository, by their Python class.\<close>

fun store_exception :: "store_error \<Rightarrow> file_error" where
  "store_exception (RecordMissing k) = KeyErr k"
| "store_exception ConcurrentStoreUpdate = RuntimeErr"
| "store_exception ConstraintViolated = OtherErr"
| "store_exception DuplicateRecord = ValueErr"
| "store_exception DuplicateIdempotencyKey = ValueErr"
| "store_exception VersionNotIncremented = ValueErr"

definition on_repo :: "(upload_mem, store_error, 'a) sx \<Rightarrow> (file_state, file_error, 'a) sx" where
  "on_repo = sx_zoom fl_repo (\<lambda>m s. s\<lparr>fl_repo := m\<rparr>) store_exception"

definition on_fs :: "(upload_fs, file_error, 'a) sx \<Rightarrow> (file_state, file_error, 'a) sx" where
  "on_fs = sx_zoom fl_fs (\<lambda>f s. s\<lparr>fl_fs := f\<rparr>) (\<lambda>e. e)"

definition optional_text :: "string option \<Rightarrow> py_value" where
  "optional_text v = (case v of None \<Rightarrow> PNone | Some t \<Rightarrow> PStr t)"

definition upload_event_of :: "upload_record \<Rightarrow> py_mapping" where
  "upload_event_of r =
     [(''upload_id'', PStr (ur_upload_id r)),
      (''status'', PStr (upload_status_value (ur_status r))),
      (''size_bytes'', PInt (ur_size_bytes r)),
      (''detected_mime'', optional_text (ur_detected_mime r)),
      (''reason'', optional_text (ur_rejection_reason r))]"

definition emit_event :: "string \<Rightarrow> py_mapping \<Rightarrow> (file_state, file_error, unit) sx" where
  "emit_event name metadata = sx_modify (\<lambda>s. s\<lparr>fl_events := fl_events s @ [(name, metadata)]\<rparr>)"

definition emit_upload :: "string \<Rightarrow> upload_record \<Rightarrow> (file_state, file_error, unit) sx" where
  "emit_upload name r = emit_event name (upload_event_of r)"

definition update_upload ::
  "upload_record \<Rightarrow> (upload_record \<Rightarrow> upload_record) \<Rightarrow> (file_state, file_error, upload_record) sx" where
  "update_upload r changes = (let updated = (changes r)\<lparr>ur_version := ur_version r + 1\<rparr> in
     sx_bind (on_repo (upload_replace updated (ur_version r))) (\<lambda>_. sx_return updated))"

definition reject_upload ::
  "file_env \<Rightarrow> upload_record \<Rightarrow> string \<Rightarrow> (file_state, file_error, upload_record) sx" where
  "reject_upload env r reason =
     sx_bind
       (\<lambda>s. (if ur_bucket r = Some ''quarantine''
             then quarantine_exists (fl_fs s) ''quarantine'' (ur_upload_id r) else Inr False, s))
       (\<lambda>present. sx_bind
         (if present
          then sx_bind (on_fs (quarantine_move (fe_disk env) (ur_upload_id r) ''quarantine'' ''rejected''))
                 (\<lambda>_. sx_return (Some ''rejected''))
          else sx_return None)
         (\<lambda>bucket. sx_bind
           (update_upload r (\<lambda>x. x\<lparr>ur_status := UP_REJECTED, ur_bucket := bucket,
              ur_rejection_reason := Some reason\<rparr>))
           (\<lambda>rejected. sx_bind (emit_upload ''FILE_REJECTED'' rejected) (\<lambda>_. sx_return rejected))))"

definition record_early_rejection ::
  "file_config \<Rightarrow> string \<Rightarrow> string \<Rightarrow> string option \<Rightarrow> int \<Rightarrow> string
    \<Rightarrow> (file_state, file_error, upload_record) sx" where
  "record_early_rejection cfg upload_id filename claimed now reason = (let r =
     \<lparr>ur_upload_id = upload_id, ur_original_filename = filename, ur_opaque_name = upload_id,
      ur_status = UP_REJECTED, ur_bucket = None, ur_claimed_mime = canonical_mime claimed,
      ur_detected_mime = None, ur_size_bytes = 0, ur_sha256 = None, ur_antivirus_status = None,
      ur_rejection_reason = Some reason, ur_created_at = now, ur_expires_at = now + fc_retention cfg,
      ur_deleted_at = None, ur_version = 1\<rparr> in
     sx_bind (on_repo (upload_insert r)) (\<lambda>_.
     sx_bind (emit_upload ''FILE_REJECTED'' r) (\<lambda>_. sx_return r)))"

section \<open>Ingestion\<close>

definition new_upload ::
  "file_config \<Rightarrow> string \<Rightarrow> string \<Rightarrow> string option \<Rightarrow> int \<Rightarrow> upload_record" where
  "new_upload cfg upload_id filename claimed now =
     \<lparr>ur_upload_id = upload_id, ur_original_filename = filename, ur_opaque_name = upload_id,
      ur_status = UP_QUARANTINED, ur_bucket = Some ''quarantine'',
      ur_claimed_mime = canonical_mime claimed, ur_detected_mime = None, ur_size_bytes = 0,
      ur_sha256 = None, ur_antivirus_status = None, ur_rejection_reason = None,
      ur_created_at = now, ur_expires_at = now + fc_retention cfg, ur_deleted_at = None,
      ur_version = 1\<rparr>"

text \<open>The last stage: the digest is claimed, the file becomes clean.\<close>

definition release_upload ::
  "file_env \<Rightarrow> string \<Rightarrow> upload_record \<Rightarrow> (file_state, file_error, upload_record) sx" where
  "release_upload env digest r =
     sx_bind (on_repo (\<lambda>m. case upload_claim_sha256 digest (ur_upload_id r) m of (b, m') \<Rightarrow> (Inr b, m')))
       (\<lambda>claimed. if \<not> claimed then reject_upload env r ''DUPLICATE_FILE'' else
     sx_bind (on_fs (quarantine_move (fe_disk env) (ur_upload_id r) ''quarantine'' ''clean'')) (\<lambda>_.
     sx_bind (update_upload r (\<lambda>x. x\<lparr>ur_status := UP_CLEAN, ur_bucket := Some ''clean''\<rparr>)) (\<lambda>clean.
     sx_bind (emit_upload ''FILE_CLEAN'' clean) (\<lambda>_. sx_return clean))))"

text \<open>The antivirus stage; every exception of the scanner is an unavailable scanner.\<close>

definition scan_upload ::
  "file_config \<Rightarrow> file_env \<Rightarrow> string \<Rightarrow> file_error + bytes \<Rightarrow> upload_record
    \<Rightarrow> (file_state, file_error, upload_record) sx" where
  "scan_upload cfg env digest content r =
     (case fe_scan env content of
        Inl e \<Rightarrow>
          sx_bind (update_upload r (\<lambda>x. x\<lparr>ur_antivirus_status := Some (av_value AV_ERROR)\<rparr>))
            (\<lambda>x. reject_upload env x ''ANTIVIRUS_UNAVAILABLE'')
      | Inr verdict \<Rightarrow>
          sx_bind (update_upload r (\<lambda>x. x\<lparr>ur_antivirus_status := Some (av_value verdict)\<rparr>))
            (\<lambda>x. if verdict = AV_INFECTED then reject_upload env x ''ANTIVIRUS_INFECTED''
              else if verdict \<in> {AV_ERROR, AV_UNAVAILABLE} \<and> fc_clamav_required cfg
                then reject_upload env x ''ANTIVIRUS_UNAVAILABLE''
              else release_upload env digest x))"

text \<open>The MIME stage, from the detector on.\<close>

definition inspect_upload ::
  "file_config \<Rightarrow> file_env \<Rightarrow> string \<Rightarrow> string \<Rightarrow> upload_record
    \<Rightarrow> (file_state, file_error, upload_record) sx" where
  "inspect_upload cfg env filename digest r = (\<lambda>s.
     (case path_for (fl_fs s) ''quarantine'' (ur_upload_id r) of
        Inl e \<Rightarrow> (Inl e, s)
      | Inr path \<Rightarrow> (let content = open_read (fl_fs s) path in
          (case fe_detect env content of
             Inl e \<Rightarrow> reject_upload env r ''MIME_DETECTION_FAILED''
           | Inr mime \<Rightarrow> (let detected = canonical_mime (Some mime) in
               sx_bind (update_upload r (\<lambda>x. x\<lparr>ur_detected_mime := detected\<rparr>))
                 (\<lambda>x. if \<not> allowed_mime cfg detected then reject_upload env x ''MIME_NOT_ALLOWED''
                   else if ur_claimed_mime x \<noteq> None \<and> ur_claimed_mime x \<noteq> detected
                     then reject_upload env x ''MIME_MISMATCH''
                   else if \<not> extension_matches_mime filename (the detected)
                     then reject_upload env x ''EXTENSION_MISMATCH''
                   else scan_upload cfg env digest content x))) s)))"

definition ingest ::
  "file_config \<Rightarrow> file_env \<Rightarrow> string \<Rightarrow> string option \<Rightarrow> upload_chunk list
    \<Rightarrow> (file_state, file_error, upload_record) sx" where
  "ingest cfg env original_filename claimed chunks =
     (case require_aware ValueErr (fe_now env) of
        Inl e \<Rightarrow> sx_raise e
      | Inr now \<Rightarrow>
     (case sanitize_filename_metadata original_filename of
        Inl e \<Rightarrow> record_early_rejection cfg (fe_upload_id env) ''[UNSAFE_FILENAME]'' claimed now
                   ''PATH_TRAVERSAL''
      | Inr filename \<Rightarrow> (let r = new_upload cfg (fe_upload_id env) filename claimed now in
          sx_bind (on_repo (upload_insert r)) (\<lambda>_.
          sx_bind (emit_upload ''FILE_QUARANTINED'' r) (\<lambda>_.
          sx_bind (sx_try (on_fs (quarantine_write (fc_sha256 cfg) (fe_disk env) (fe_upload_id env) chunks
                     (fc_max_bytes cfg)))) (\<lambda>stored.
            case stored of
              Inl (SizeLimitExceeded n d) \<Rightarrow>
                sx_bind (update_upload r (\<lambda>x. x\<lparr>ur_size_bytes := n, ur_sha256 := Some d\<rparr>))
                  (\<lambda>x. reject_upload env x ''SIZE_LIMIT_EXCEEDED'')
            | Inl e \<Rightarrow>
                if e = OSErr \<or> e = TypeErr \<or> is_value_error e
                then reject_upload env r ''QUARANTINE_WRITE_FAILED'' else sx_raise e
            | Inr (stored_size, digest) \<Rightarrow>
                if stored_size = 0 then
                  sx_bind (update_upload r (\<lambda>x. x\<lparr>ur_sha256 := Some digest\<rparr>))
                    (\<lambda>x. reject_upload env x ''EMPTY_FILE'')
                else sx_bind (update_upload r (\<lambda>x. x\<lparr>ur_size_bytes := stored_size, ur_sha256 := Some digest\<rparr>))
                  (inspect_upload cfg env filename digest)))))))"

section \<open>Delivery\<close>

record resolved_upload =
  ru_upload_id :: string
  ru_path :: "string \<times> string"
  ru_sha256 :: string
  ru_size_bytes :: int
  ru_detected_mime :: string

definition get_upload :: "string \<Rightarrow> (file_state, file_error, upload_record) sx" where
  "get_upload upload_id = (\<lambda>s.
     (case upload_get (fl_repo s) upload_id of
        None \<Rightarrow> (Inl (KeyErr upload_id), s) | Some r \<Rightarrow> (Inr r, s)))"

text \<open>The clock is read in the middle of the conditions, and a naive one is refused there.\<close>

definition clean_record :: "file_config \<Rightarrow> file_env \<Rightarrow> string \<Rightarrow> (file_state, file_error, upload_record) sx" where
  "clean_record cfg env upload_id = (\<lambda>s.
     (if \<not> upload_id_syntax upload_id then Inl (ResolutionErr ''invalid upload identifier'')
      else case upload_get (fl_repo s) upload_id of
        None \<Rightarrow> Inl (ResolutionErr ''upload is unavailable'')
      | Some r \<Rightarrow>
          if ur_upload_id r \<noteq> upload_id \<or> ur_opaque_name r \<noteq> upload_id \<or> ur_status r \<noteq> UP_CLEAN
             \<or> ur_bucket r \<noteq> Some ''clean'' \<or> ur_deleted_at r \<noteq> None
          then Inl (ResolutionErr ''upload is not eligible for delivery'')
          else case require_aware ValueErr (fe_now env) of
            Inl e \<Rightarrow> Inl e
          | Inr now \<Rightarrow>
              if ur_expires_at r \<le> now \<or> ur_antivirus_status r \<noteq> Some (av_value AV_CLEAN)
                 \<or> \<not> allowed_mime cfg (ur_detected_mime r) \<or> ur_size_bytes r \<le> 0
                 \<or> (case ur_sha256 r of None \<Rightarrow> True | Some d \<Rightarrow> \<not> sha256_syntax d)
              then Inl (ResolutionErr ''upload is not eligible for delivery'')
              else Inr r, s))"

definition verify_stored_record ::
  "file_config \<Rightarrow> file_env \<Rightarrow> upload_fs \<Rightarrow> upload_record \<Rightarrow> string \<Rightarrow> bool \<Rightarrow> file_error + resolved_upload" where
  "verify_stored_record cfg env fs r bucket require_clean_status =
     (if require_clean_status \<and> ur_status r \<noteq> UP_CLEAN
        then Inl (ResolutionErr ''upload state changed before delivery'')
      else if ur_bucket r \<noteq> Some bucket
          \<or> ur_status r \<noteq> (if bucket = ''clean'' then UP_CLEAN else UP_PROCESSED)
        then Inl (ResolutionErr ''upload metadata and storage bucket disagree'')
      else if fs_linked fs bucket
        then Inl (ResolutionErr ''upload storage contains a symbolic link'')
      else case fs_entries fs (bucket, ur_upload_id r) of
        None \<Rightarrow> Inl (ResolutionErr ''upload file is unavailable'')
      | Some (SymbolicLink t) \<Rightarrow> Inl (ResolutionErr ''upload storage contains a symbolic link'')
      | Some e \<Rightarrow>
          if df_open (fe_disk env) then Inl (ResolutionErr ''upload file cannot be opened safely'')
          else (case e of
            RegularFile content restricted \<Rightarrow>
              if \<not> restricted then Inl (ResolutionErr ''upload file permissions are too broad'')
              else if df_read (fe_disk env) then Inl (ResolutionErr ''upload file could not be verified'')
              else if int (length content) \<noteq> ur_size_bytes r
                  \<or> Some (fc_sha256 cfg content) \<noteq> ur_sha256 r
                then Inl (ResolutionErr ''upload integrity verification failed'')
              else (case ur_detected_mime r of
                None \<Rightarrow> Inl (ResolutionErr ''upload MIME metadata is unavailable'')
              | Some mime \<Rightarrow> Inr
                  \<lparr>ru_upload_id = ur_upload_id r, ru_path = (bucket, ur_upload_id r),
                   ru_sha256 = the (ur_sha256 r), ru_size_bytes = ur_size_bytes r,
                   ru_detected_mime = mime\<rparr>)
          | _ \<Rightarrow> Inl (ResolutionErr ''upload storage entry is not a regular file'')))"

definition verify_upload ::
  "file_config \<Rightarrow> file_env \<Rightarrow> upload_record \<Rightarrow> string \<Rightarrow> bool
    \<Rightarrow> (file_state, file_error, resolved_upload) sx" where
  "verify_upload cfg env r bucket require_clean_status =
     (\<lambda>s. (verify_stored_record cfg env (fl_fs s) r bucket require_clean_status, s))"

definition resolve_clean_upload ::
  "file_config \<Rightarrow> file_env \<Rightarrow> string \<Rightarrow> (file_state, file_error, resolved_upload) sx" where
  "resolve_clean_upload cfg env upload_id =
     sx_bind (clean_record cfg env upload_id) (\<lambda>r. verify_upload cfg env r ''clean'' True)"

definition claim_clean_upload ::
  "file_config \<Rightarrow> file_env \<Rightarrow> string \<Rightarrow> (file_state, file_error, resolved_upload) sx" where
  "claim_clean_upload cfg env upload_id =
     sx_bind (clean_record cfg env upload_id) (\<lambda>r.
     sx_bind (verify_upload cfg env r ''clean'' True) (\<lambda>_.
     sx_bind (sx_try (on_fs (quarantine_move (fe_disk env) upload_id ''clean'' ''processed''))) (\<lambda>moved.
       case moved of
         Inl e \<Rightarrow> sx_raise (if e = OSErr \<or> is_value_error e
                     then ResolutionErr ''clean upload could not be claimed'' else e)
       | Inr _ \<Rightarrow>
     sx_bind (sx_try (update_upload r (\<lambda>x. x\<lparr>ur_status := UP_PROCESSED, ur_bucket := Some ''processed''\<rparr>)))
       (\<lambda>saved. case saved of
         Inl e \<Rightarrow> sx_raise (ResolutionErr ''upload claim metadata update failed closed'')
       | Inr updated \<Rightarrow>
     sx_bind (verify_upload cfg env updated ''processed'' False) (\<lambda>resolved.
     sx_bind (emit_upload ''FILE_PROCESSED'' updated) (\<lambda>_. sx_return resolved))))))"

definition mark_processed ::
  "file_config \<Rightarrow> file_env \<Rightarrow> string \<Rightarrow> (file_state, file_error, upload_record) sx" where
  "mark_processed cfg env upload_id =
     sx_bind (claim_clean_upload cfg env upload_id) (\<lambda>_. get_upload upload_id)"

section \<open>Retention\<close>

definition purged_record :: "int \<Rightarrow> upload_record \<Rightarrow> upload_record" where
  "purged_record current r = r\<lparr>ur_status := UP_DELETED, ur_bucket := None,
     ur_deleted_at := Some current, ur_version := ur_version r + 1\<rparr>"

fun purge_loop :: "int \<Rightarrow> upload_record list \<Rightarrow> (file_state, file_error, string list) sx" where
  "purge_loop current [] = sx_return []"
| "purge_loop current (r # rs) =
     (if ur_status r = UP_DELETED \<or> current < ur_expires_at r then purge_loop current rs
      else
        sx_bind (case ur_bucket r of
            None \<Rightarrow> sx_return ()
          | Some bucket \<Rightarrow> on_fs (quarantine_delete bucket (ur_upload_id r))) (\<lambda>_.
        sx_bind (on_repo (upload_replace (purged_record current r) (ur_version r))) (\<lambda>_.
        sx_bind (emit_event ''FILE_RETENTION_DELETED''
            [(''upload_id'', PStr (ur_upload_id r)), (''status'', PStr ''DELETED'')]) (\<lambda>_.
        sx_bind (purge_loop current rs) (\<lambda>purged. sx_return (ur_upload_id r # purged))))))"

text \<open>\<open>now\<close> may be absent; the system clock then answers, in UTC.\<close>

definition purge_expired :: "int \<Rightarrow> py_datetime option \<Rightarrow> (file_state, file_error, string list) sx" where
  "purge_expired system_now now =
     (case require_aware ValueErr (case now of None \<Rightarrow> Aware system_now | Some t \<Rightarrow> t) of
        Inl e \<Rightarrow> sx_raise e
      | Inr current \<Rightarrow> (\<lambda>s. purge_loop current (upload_list (fl_repo s)) s))"

end
