(* ===== verification/DiscordGate.thy ===== *)
theory DiscordGate
  imports Prelude
begin

text \<open>
  The transport gate (\<^verbatim>\<open>discord/checks.py\<close>): who may use the bot, from where, and with which logical
  roles and entitlements. Sets of identifiers are lists; a mapping of roles has each name once.
\<close>

datatype access_denial =
    DM_NOT_ALLOWED
  | GUILD_NOT_ALLOWED
  | CHANNEL_NOT_ALLOWED
  | THREAD_NOT_ALLOWED
  | BOT_NOT_ALLOWED
  | WEBHOOK_NOT_ALLOWED
  | ROLE_NOT_ALLOWED

record discord_actor =
  ac_user_id :: int
  ac_guild_id :: int
  ac_channel_id :: int
  ac_logical_roles :: "string list"
  ac_discord_role_ids :: "int list"
  ac_entitlements :: "string list"

type_synonym role_mapping = "(string \<times> int list) list"

record discord_gate =
  dg_guild_id :: int
  dg_channel_id :: int
  dg_allow_dms :: bool
  dg_dm_allowed_role_ids :: "int list"
  dg_mention_channel_ids :: "int list"
  dg_role_mapping :: role_mapping
  dg_entitlement_mapping :: role_mapping

definition new_discord_gate :: "int \<Rightarrow> int \<Rightarrow> role_mapping \<Rightarrow> role_mapping option \<Rightarrow> bool \<Rightarrow> int list
    \<Rightarrow> int list \<Rightarrow> string + discord_gate" where
  "new_discord_gate guild_id channel_id roles entitlements allow_dms dm_allowed_role_ids mention_channel_ids =
     (if guild_id \<le> 0 \<or> channel_id \<le> 0 then Inl ''guild_id and channel_id must be positive''
      else if allow_dms \<and> dm_allowed_role_ids = []
      then Inl ''DM mode requires an explicit allowed-role list''
      else Inr \<lparr>dg_guild_id = guild_id, dg_channel_id = channel_id, dg_allow_dms = allow_dms,
        dg_dm_allowed_role_ids = dm_allowed_role_ids, dg_mention_channel_ids = mention_channel_ids,
        dg_role_mapping = roles,
        dg_entitlement_mapping = (case entitlements of None \<Rightarrow> [] | Some m \<Rightarrow> m)\<rparr>)"

record access_request =
  aq_user_id :: int
  aq_guild_id :: "int option"
  aq_channel_id :: "int option"
  aq_role_ids :: "int list"
  aq_is_thread :: bool
  aq_is_bot :: bool
  aq_is_webhook :: bool
  aq_allow_mention_channel :: bool

text \<open>The names whose configured identifiers meet the ones the member holds.\<close>

definition granted :: "role_mapping \<Rightarrow> int list \<Rightarrow> string list" where
  "granted mapping role_ids =
     map fst (filter (\<lambda>(name, configured). list_ex (\<lambda>i. i \<in> set role_ids) configured) mapping)"

definition actor_at :: "discord_gate \<Rightarrow> int \<Rightarrow> int \<Rightarrow> int \<Rightarrow> int list \<Rightarrow> access_denial + discord_actor" where
  "actor_at gate user_id guild_id channel_id role_ids =
     (if granted (dg_role_mapping gate) role_ids = [] then Inl ROLE_NOT_ALLOWED
      else Inr \<lparr>ac_user_id = user_id, ac_guild_id = guild_id, ac_channel_id = channel_id,
        ac_logical_roles = granted (dg_role_mapping gate) role_ids, ac_discord_role_ids = remdups role_ids,
        ac_entitlements = granted (dg_entitlement_mapping gate) role_ids\<rparr>)"

definition gate_authorize :: "discord_gate \<Rightarrow> access_request \<Rightarrow> access_denial + discord_actor" where
  "gate_authorize gate rq =
     (if aq_is_bot rq then Inl BOT_NOT_ALLOWED
      else if aq_is_webhook rq then Inl WEBHOOK_NOT_ALLOWED
      else case (aq_guild_id rq, aq_channel_id rq) of
        (Some guild_id, Some channel_id) \<Rightarrow>
          if guild_id \<noteq> dg_guild_id gate then Inl GUILD_NOT_ALLOWED
          else if aq_is_thread rq then Inl THREAD_NOT_ALLOWED
          else if channel_id \<noteq> dg_channel_id gate
            \<and> \<not> (aq_allow_mention_channel rq \<and> channel_id \<in> set (dg_mention_channel_ids gate))
          then Inl CHANNEL_NOT_ALLOWED
          else actor_at gate (aq_user_id rq) guild_id channel_id (aq_role_ids rq)
      | _ \<Rightarrow> Inl DM_NOT_ALLOWED)"

definition gate_authorize_dm :: "discord_gate \<Rightarrow> int \<Rightarrow> int \<Rightarrow> int list \<Rightarrow> bool \<Rightarrow> access_denial + discord_actor" where
  "gate_authorize_dm gate user_id verified_guild_id role_ids is_bot =
     (if is_bot then Inl BOT_NOT_ALLOWED
      else if \<not> dg_allow_dms gate then Inl DM_NOT_ALLOWED
      else if verified_guild_id \<noteq> dg_guild_id gate then Inl GUILD_NOT_ALLOWED
      else if \<not> list_ex (\<lambda>i. i \<in> set (dg_dm_allowed_role_ids gate)) role_ids then Inl ROLE_NOT_ALLOWED
      else actor_at gate user_id (dg_guild_id gate) (dg_channel_id gate) role_ids)"

section \<open>Who gets through\<close>

lemma meets: "list_ex (\<lambda>i. i \<in> set ids) configured \<longleftrightarrow> set configured \<inter> set ids \<noteq> {}"
  by (auto simp: list_ex_iff)

lemma granted_iff: "name \<in> set (granted mapping ids)
    \<longleftrightarrow> (\<exists>configured. (name, configured) \<in> set mapping \<and> set configured \<inter> set ids \<noteq> {})"
  unfolding granted_def meets by (auto simp: image_iff Bex_def)

lemma granted_Nil: "granted mapping ids = []
    \<longleftrightarrow> (\<forall>(name, configured)\<in>set mapping. set configured \<inter> set ids = {})"
  by (auto simp: granted_def filter_empty_conv list_ex_iff)

lemma actor_at_Inr: "actor_at gate user guild channel ids = Inr a \<longleftrightarrow>
    granted (dg_role_mapping gate) ids \<noteq> []
    \<and> a = \<lparr>ac_user_id = user, ac_guild_id = guild, ac_channel_id = channel,
        ac_logical_roles = granted (dg_role_mapping gate) ids, ac_discord_role_ids = remdups ids,
        ac_entitlements = granted (dg_entitlement_mapping gate) ids\<rparr>"
  by (auto simp: actor_at_def)

text \<open>More roles never take a logical role away.\<close>

lemma granted_mono: "set ids \<subseteq> set ids' \<Longrightarrow> set (granted mapping ids) \<subseteq> set (granted mapping ids')"
  by (auto simp: granted_iff) (metis disjoint_iff subset_iff)

text \<open>The gate is exact. A member gets through a message exactly when they are no bot and no webhook, write
  in the configured guild, not in a thread, in the configured channel or, for a mention, in an allowed
  one, and hold an identifier of a mapped role; through a private message exactly when those are enabled
  and they hold an identifier of the private list and of a mapped role. They act with exactly the roles
  and entitlements mapped from the identifiers they hold, and a private message acts in the configured channel.\<close>

theorem gate_exact:
  "(gate_authorize gate rq = Inr a \<longleftrightarrow> \<not> aq_is_bot rq \<and> \<not> aq_is_webhook rq \<and> \<not> aq_is_thread rq
      \<and> aq_guild_id rq = Some (dg_guild_id gate)
      \<and> (\<exists>channel. aq_channel_id rq = Some channel
          \<and> (channel = dg_channel_id gate
              \<or> aq_allow_mention_channel rq \<and> channel \<in> set (dg_mention_channel_ids gate))
          \<and> actor_at gate (aq_user_id rq) (dg_guild_id gate) channel (aq_role_ids rq) = Inr a))
   \<and> (gate_authorize_dm gate user guild ids bot = Inr b \<longleftrightarrow> \<not> bot \<and> dg_allow_dms gate
      \<and> guild = dg_guild_id gate \<and> set (dg_dm_allowed_role_ids gate) \<inter> set ids \<noteq> {}
      \<and> actor_at gate user (dg_guild_id gate) (dg_channel_id gate) ids = Inr b)
   \<and> (actor_at gate user guild channel ids = Inr c \<longrightarrow>
      ac_user_id c = user \<and> ac_guild_id c = guild \<and> ac_channel_id c = channel
      \<and> ac_logical_roles c \<noteq> [] \<and> set (ac_discord_role_ids c) = set ids
      \<and> (\<forall>name. name \<in> set (ac_logical_roles c) \<longleftrightarrow> (\<exists>configured.
           (name, configured) \<in> set (dg_role_mapping gate) \<and> set configured \<inter> set ids \<noteq> {}))
      \<and> (\<forall>name. name \<in> set (ac_entitlements c) \<longleftrightarrow> (\<exists>configured.
           (name, configured) \<in> set (dg_entitlement_mapping gate) \<and> set configured \<inter> set ids \<noteq> {})))"
proof (intro conjI impI)
  show "gate_authorize gate rq = Inr a \<longleftrightarrow> \<not> aq_is_bot rq \<and> \<not> aq_is_webhook rq \<and> \<not> aq_is_thread rq
      \<and> aq_guild_id rq = Some (dg_guild_id gate)
      \<and> (\<exists>channel. aq_channel_id rq = Some channel
          \<and> (channel = dg_channel_id gate
              \<or> aq_allow_mention_channel rq \<and> channel \<in> set (dg_mention_channel_ids gate))
          \<and> actor_at gate (aq_user_id rq) (dg_guild_id gate) channel (aq_role_ids rq) = Inr a)"
    by (auto simp: gate_authorize_def split: option.splits)
  show "gate_authorize_dm gate user guild ids bot = Inr b \<longleftrightarrow> \<not> bot \<and> dg_allow_dms gate
      \<and> guild = dg_guild_id gate \<and> set (dg_dm_allowed_role_ids gate) \<inter> set ids \<noteq> {}
      \<and> actor_at gate user (dg_guild_id gate) (dg_channel_id gate) ids = Inr b"
    by (auto simp: gate_authorize_dm_def list_ex_iff)
qed (auto simp: actor_at_Inr granted_iff)

definition demo_gate :: discord_gate where
  "demo_gate = \<lparr>dg_guild_id = 10, dg_channel_id = 20, dg_allow_dms = False, dg_dm_allowed_role_ids = [],
     dg_mention_channel_ids = [30], dg_role_mapping = [(''HR_READ'', [1, 2]), (''HR_WRITE'', [3])],
     dg_entitlement_mapping = [(''balances:read'', [2])]\<rparr>"

definition demo_access :: access_request where
  "demo_access = \<lparr>aq_user_id = 7, aq_guild_id = Some 10, aq_channel_id = Some 30, aq_role_ids = [2, 9],
     aq_is_thread = False, aq_is_bot = False, aq_is_webhook = False, aq_allow_mention_channel = True\<rparr>"

theorem gate_exact_witness:
  "\<exists>a. gate_authorize demo_gate demo_access = Inr a \<and> ac_logical_roles a = [''HR_READ'']
     \<and> ac_entitlements a = [''balances:read'']"
  using gate_exact [of demo_gate demo_access]
  by (simp add: demo_gate_def demo_access_def actor_at_Inr granted_def)

end
