(* ===== verification/WriteExecution.thy ===== *)
theory WriteExecution
  imports DicService PolicyEngine Uploads DiscordGate
begin

text \<open>
  From a full approval to the recorded outcome of a write (\<^verbatim>\<open>application.py\<close>: \<open>approve\<close>,
  \<open>_execute_approved\<close>, \<open>_execute_write_critical_section\<close>, \<open>_persist_uncertain_and_reconcile\<close> and
  what they call). It joins the approval workflow, the policy engine, the upload service and the
  service boundary of the adapter.

  A call is given what it reads from outside: the decrypted payload, the current roles of the
  requester, the fingerprint of the target's state, what the adapter answers. The section runs under a
  global lock, so two of them do not overlap, but any other call of the approval service may run
  between two of its steps; and any step may fail, with or without its effect, or be cancelled, which
  \<open>except Exception\<close> does not catch. The log of dispatches is what the adapter was asked to execute.
\<close>

section \<open>The state and what a call reads\<close>

datatype write_error =
    WApproval approval_error
  | WDic dic_error
  | WAmbiguous
  | WApplication string
  | WParameters write_param_error
  | WPolicyDenied policy_decision
  | WFile file_error
  | WFault string
  | WCancelled

datatype write_stage =
    RegisterStage | BeginStage | ClaimFileStage | PreparationFailedStage | SuccessStage | FailedStage
  | UncertainStage | ReconciledStage | AuditStage

record app_config =
  ap_approvals :: approval_service
  ap_dic :: dic_service
  ap_flags :: runtime_flags
  ap_allowed_guild_ids :: "string list"
  ap_allowed_channel_ids :: "string list"
  ap_current_tenant_id :: string
  ap_allowed_tenant_ids :: "string list"
  ap_capabilities :: "string list"
  ap_files :: "file_config option"
  ap_path_text :: "string \<times> string \<Rightarrow> string"

text \<open>
  What other tasks may call meanwhile: the commands of the other users. The calls that carry out an
  action are made in the section only, under its lock.
\<close>

datatype user_call =
    CallPrepare approval_env prepare_request
  | CallConfirm approval_env string string string "string option"
  | CallApprove approval_env string string "string list"
  | CallReject approval_env string string "string list" string
  | CallExpire approval_env

fun user_event :: "user_call \<Rightarrow> approval_event" where
  "user_event (CallPrepare env rq) = Prepare env rq"
| "user_event (CallConfirm env i who code text) = Confirm env i who code text"
| "user_event (CallApprove env i who roles) = Approve env i who roles"
| "user_event (CallReject env i who roles reason) = Reject env i who roles reason"
| "user_event (CallExpire env) = ExpirePending env"

record write_env =
  we_decrypt :: "bytes \<Rightarrow> write_error + py_value"
  we_requester :: "(pending_action \<Rightarrow> write_error + discord_actor) option"
  we_fingerprint :: "write_error + string"
  we_begin :: approval_env
  we_file_env :: file_env
  we_now :: int
  we_export :: "write_error + string"
  we_approval :: approval_env
  we_execute :: "dic_action \<Rightarrow> write_error + execution_result"
  we_result_text :: "execution_result \<Rightarrow> string"
  we_reconcile :: "dic_action \<Rightarrow> write_error + reconciliation_result"
  we_faults :: "write_stage \<Rightarrow> (bool \<times> write_error) option"
  we_meanwhile :: "write_stage \<Rightarrow> user_call list"

text \<open>One call of the adapter's \<open>execute_prepared\<close>: the claimed action, what was sent, what came back.\<close>

record dispatch =
  di_action_id :: string
  di_idempotency_key :: string
  di_action :: dic_action
  di_outcome :: "write_error + execution_result"

record app_state =
  app_approvals :: approval_mem
  app_files :: file_state
  app_dispatched :: "dispatch list"

type_synonym 'a app_op = "(app_state, write_error, 'a) sx"

definition on_approvals :: "'a approval_op \<Rightarrow> 'a app_op" where
  "on_approvals m = sx_zoom app_approvals (\<lambda>t s. s\<lparr>app_approvals := t\<rparr>) WApproval m"

definition on_files :: "(file_state, file_error, 'a) sx \<Rightarrow> 'a app_op" where
  "on_files m = sx_zoom app_files (\<lambda>t s. s\<lparr>app_files := t\<rparr>)
     (\<lambda>e. case e of ResolutionErr m \<Rightarrow> WApplication ''approved upload is no longer eligible for delivery''
        | _ \<Rightarrow> WFile e) m"

text \<open>The calls that other tasks make before a step.\<close>

definition meanwhile :: "app_config \<Rightarrow> user_call list \<Rightarrow> app_state \<Rightarrow> app_state" where
  "meanwhile cfg calls s = s\<lparr>app_approvals :=
     fold (approval_step (ap_approvals cfg)) (map user_event calls) (app_approvals s)\<rparr>"

definition stage_op :: "app_config \<Rightarrow> write_env \<Rightarrow> write_stage \<Rightarrow> 'a app_op \<Rightarrow> 'a app_op" where
  "stage_op cfg env stage m s =
     (let s1 = meanwhile cfg (we_meanwhile env stage) s in
      case we_faults env stage of
        None \<Rightarrow> m s1
      | Some (applied, e) \<Rightarrow> (Inl e, if applied then snd (m s1) else s1))"

text \<open>\<open>try: m except Exception as e: h\<close>\<close>

definition catch_exception :: "'a app_op \<Rightarrow> (write_error \<Rightarrow> 'a app_op) \<Rightarrow> 'a app_op" where
  "catch_exception m h = sx_bind (sx_try m) (\<lambda>r. case r of
     Inr x \<Rightarrow> sx_return x
   | Inl e \<Rightarrow> if e = WCancelled then sx_raise e else h e)"

section \<open>The critical section\<close>

text \<open>The one-use capability of an upload, resolved only after the action is claimed.\<close>

definition execution_parameters ::
  "app_config \<Rightarrow> write_env \<Rightarrow> string \<Rightarrow> py_mapping \<Rightarrow> py_mapping app_op" where
  "execution_parameters cfg env function_id parameters =
     (if function_id \<noteq> ''EMP-DOC-002'' then sx_return parameters
      else case ap_files cfg of
        None \<Rightarrow> sx_raise (WApplication ''file delivery boundary is unavailable'')
      | Some files \<Rightarrow>
          (case map_of parameters ''upload_id'' of
             Some (PStr upload_id) \<Rightarrow>
               sx_bind (stage_op cfg env ClaimFileStage
                 (on_files (claim_clean_upload files (we_file_env env) upload_id))) (\<lambda>resolved.
               sx_return (fold (\<lambda>(k, v). AList.update k v)
                 [(''safe_local_path'', PStr (ap_path_text cfg (ru_path resolved))),
                  (''safe_local_sha256'', PStr (ru_sha256 resolved)),
                  (''safe_local_size'', PInt (ru_size_bytes resolved)),
                  (''detected_mime'', PStr (ru_detected_mime resolved))]
                 (AList.delete ''upload_id'' parameters)))
           | _ \<Rightarrow> sx_raise (WApplication ''approved upload identifier is invalid'')))"

text \<open>The call of the adapter: the one place where a write leaves the program.\<close>

definition dispatch_write :: "write_env \<Rightarrow> pending_action \<Rightarrow> dic_action \<Rightarrow> execution_result app_op" where
  "dispatch_write env executing act s = (we_execute env act,
     s\<lparr>app_dispatched := app_dispatched s @ [\<lparr>di_action_id = pa_action_id executing,
        di_idempotency_key = pa_idempotency_key executing, di_action = act,
        di_outcome = we_execute env act\<rparr>]\<rparr>)"

definition service_execute ::
  "app_config \<Rightarrow> write_env \<Rightarrow> pending_action \<Rightarrow> py_mapping \<Rightarrow> execution_result app_op" where
  "service_execute cfg env executing parameters =
     sx_bind (sx_lift (map_error WDic
       (prepare_execution (ap_dic cfg) (we_now env) executing parameters)))
     (dispatch_write env executing)"

definition service_reconcile ::
  "app_config \<Rightarrow> write_env \<Rightarrow> pending_action \<Rightarrow> py_mapping \<Rightarrow> reconciliation_result app_op" where
  "service_reconcile cfg env pending parameters =
     sx_bind (sx_lift (map_error WDic
       (build_prepared (ap_dic cfg) (we_now env) pending parameters False)))
     (\<lambda>act. sx_lift (we_reconcile env act))"

definition persist_uncertain_and_reconcile ::
  "app_config \<Rightarrow> write_env \<Rightarrow> string \<Rightarrow> py_mapping \<Rightarrow> string \<Rightarrow> pending_action app_op" where
  "persist_uncertain_and_reconcile cfg env action_id parameters result =
     sx_bind (stage_op cfg env UncertainStage
       (on_approvals (complete_failure action_id result True))) (\<lambda>uncertain.
     sx_bind (sx_try (service_reconcile cfg env uncertain parameters)) (\<lambda>r. case r of
       Inl e \<Rightarrow> if e = WCancelled then sx_raise e else sx_return uncertain
     | Inr reconciliation \<Rightarrow>
         if rr_state reconciliation \<noteq> REC_CONFIRMED_APPLIED then sx_return uncertain
         else catch_exception (stage_op cfg env ReconciledStage
             (on_approvals (reconcile_action action_id True (rr_detail reconciliation))))
           (\<lambda>_. sx_return uncertain)))"

datatype attempt_result = Exported pending_action | Written execution_result

text \<open>The body of the \<open>try\<close>: an export is generated and completed, anything else is dispatched.\<close>

definition attempt_write ::
  "app_config \<Rightarrow> write_env \<Rightarrow> pending_action \<Rightarrow> pending_action \<Rightarrow> py_mapping \<Rightarrow> attempt_result app_op" where
  "attempt_write cfg env action executing parameters =
     (if pa_function_id action = ''EMP-EXPORT-001''
      then sx_bind (sx_lift (we_export env)) (\<lambda>payload.
        sx_bind (stage_op cfg env SuccessStage (on_approvals (complete_success (pa_action_id action)
          payload ''export generated and validated in memory'' True))) (\<lambda>completed.
        sx_return (Exported completed)))
      else sx_bind (service_execute cfg env executing parameters) (\<lambda>result.
        sx_return (Written result)))"

definition remains_claimed :: write_error where
  "remains_claimed =
     WApplication ''verified write outcome remains claimed for operator reconciliation''"

definition complete_write ::
  "app_config \<Rightarrow> write_env \<Rightarrow> string \<Rightarrow> py_mapping \<Rightarrow> execution_result \<Rightarrow> pending_action app_op" where
  "complete_write cfg env action_id parameters result =
     catch_exception (stage_op cfg env SuccessStage (on_approvals (complete_success action_id
         (we_result_text env result) (er_message result) (er_postcondition_verified result))))
       (\<lambda>_. sx_bind (catch_exception (persist_uncertain_and_reconcile cfg env action_id parameters
              ''verified write result could not be persisted'') (\<lambda>_. sx_raise remains_claimed))
            (\<lambda>completed. if pa_status completed = EXECUTING then sx_raise remains_claimed
              else sx_return completed))"

definition execute_write_critical_section ::
  "app_config \<Rightarrow> write_env \<Rightarrow> pending_action \<Rightarrow> py_mapping \<Rightarrow> pending_action app_op" where
  "execute_write_critical_section cfg env action parameters = (let action_id = pa_action_id action in
     sx_bind (sx_lift (we_fingerprint env)) (\<lambda>fingerprint.
     sx_bind (stage_op cfg env BeginStage
       (on_approvals (begin_execution (we_begin env) action_id fingerprint))) (\<lambda>executing.
     sx_bind (catch_exception (execution_parameters cfg env (pa_function_id action) parameters)
       (\<lambda>e. sx_bind (stage_op cfg env PreparationFailedStage (on_approvals (complete_failure action_id
              ''deterministic preparation failed before dispatch'' False))) (\<lambda>_. sx_raise e)))
       (\<lambda>xparameters.
     sx_bind (sx_try (attempt_write cfg env action executing xparameters)) (\<lambda>r. case r of
       Inl e \<Rightarrow>
         if e = WCancelled then sx_raise e
         else if e = WAmbiguous then persist_uncertain_and_reconcile cfg env action_id xparameters
           ''write outcome uncertain; reconciliation required''
         else sx_bind (stage_op cfg env FailedStage (on_approvals (complete_failure action_id
             ''deterministic execution failed before a verified result'' False))) (\<lambda>_. sx_raise e)
     | Inr (Exported completed) \<Rightarrow> sx_return completed
     | Inr (Written result) \<Rightarrow> complete_write cfg env action_id xparameters result)))))"

section \<open>The requester and the parameters of a pending action\<close>

text \<open>\<open>int(text)\<close>: blanks around, a sign, decimal digits with single underscores between them.\<close>

fun underscored_digits :: "string \<Rightarrow> bool" where
  "underscored_digits [] = False"
| "underscored_digits [c] = is_digit c"
| "underscored_digits (c # d # cs) = (is_digit c \<and> (if d = CHR ''_'' then underscored_digits cs
     else underscored_digits (d # cs)))"

definition py_int :: "string \<Rightarrow> int option" where
  "py_int text = (let
       body = py_strip text;
       negative = (body \<noteq> [] \<and> hd body = CHR ''-'');
       digits = (if body \<noteq> [] \<and> hd body \<in> {CHR ''-'', CHR ''+''} then tl body else body);
       figures = filter is_digit digits
     in if underscored_digits digits \<and> length figures \<le> 4300
        then Some (if negative then - int (digits_val figures) else int (digits_val figures))
        else None)"

fun string_list :: "py_value \<Rightarrow> string list option" where
  "string_list (PList vs) = (if list_all (\<lambda>v. case v of PStr s \<Rightarrow> True | _ \<Rightarrow> False) vs
     then Some (map (\<lambda>v. case v of PStr s \<Rightarrow> s | _ \<Rightarrow> []) vs) else None)"
| "string_list _ = None"

text \<open>\<open>payload.get("version") != 1\<close>: an integer, a boolean and a float are compared by value.\<close>

definition equals_one :: "py_value \<Rightarrow> bool" where
  "equals_one v = (v \<in> {PInt 1, PBool True, PFloat (FiniteFloat ''1.0'')})"

definition identity_field :: "dic_service \<Rightarrow> (py_value \<times> py_value) list \<Rightarrow> string \<Rightarrow> int option" where
  "identity_field svc context name = (case map_of context (PStr name) of
     None \<Rightarrow> py_int []
   | Some v \<Rightarrow> py_int (py_str (ds_repr svc) v))"

definition requester_bound :: "discord_actor \<Rightarrow> pending_action \<Rightarrow> bool" where
  "requester_bound requester action =
     (int_text (ac_user_id requester) = pa_requester_id action
      \<and> int_text (ac_guild_id requester) = pa_guild_id action
      \<and> int_text (ac_channel_id requester) = pa_channel_id action)"

definition validate_requester_binding :: "discord_actor \<Rightarrow> pending_action \<Rightarrow> write_error + unit" where
  "validate_requester_binding requester action =
     (if requester_bound requester action then Inr ()
      else Inl (WApplication ''requester authorization does not match pending action''))"

definition decoded_requester ::
  "dic_service \<Rightarrow> (py_value \<times> py_value) list \<Rightarrow> write_error + discord_actor" where
  "decoded_requester svc context =
     (case (string_list (dict_member context ''logical_roles''),
            string_list (dict_member context ''entitlements'')) of
        (Some roles, Some entitlements) \<Rightarrow>
          (case (identity_field svc context ''user_id'', identity_field svc context ''guild_id'',
                 identity_field svc context ''channel_id'') of
             (Some user, Some guild, Some channel) \<Rightarrow> Inr
               \<lparr>ac_user_id = user, ac_guild_id = guild, ac_channel_id = channel,
                ac_logical_roles = remdups roles, ac_discord_role_ids = [],
                ac_entitlements = remdups entitlements\<rparr>
           | _ \<Rightarrow> Inl (WApplication ''decrypted requester identity is malformed''))
      | _ \<Rightarrow> Inl (WApplication ''decrypted requester authorization is malformed''))"

definition decode_pending_payload :: "app_config \<Rightarrow> write_env \<Rightarrow> pending_action
    \<Rightarrow> write_error + (py_value \<times> py_value) list \<times> discord_actor" where
  "decode_pending_payload cfg env action =
     (case we_decrypt env (pa_encrypted_parameters action) of
        Inl e \<Rightarrow> Inl e
      | Inr (PDict payload) \<Rightarrow>
          if \<not> equals_one (dict_member payload ''version'')
          then Inl (WApplication ''decrypted pending payload has an invalid version'')
          else (case (dict_member payload ''parameters'', dict_member payload ''requester_context'') of
             (PDict parameters, PDict context) \<Rightarrow>
               (case decoded_requester (ap_dic cfg) context of
                  Inl e \<Rightarrow> Inl e
                | Inr requester \<Rightarrow> (case validate_requester_binding requester action of
                      Inl e \<Rightarrow> Inl e | Inr _ \<Rightarrow> Inr (parameters, requester)))
           | _ \<Rightarrow> Inl (WApplication ''decrypted pending payload is malformed''))
      | Inr _ \<Rightarrow> Inl (WApplication ''decrypted pending payload has an invalid version''))"

definition operation_parameters ::
  "pending_action \<Rightarrow> (py_value \<times> py_value) list \<Rightarrow> write_error + py_mapping" where
  "operation_parameters action parameters =
     (case get_function_spec (pa_function_id action) of
        None \<Rightarrow> Inl (WApplication ''unknown Function ID'')
      | Some spec \<Rightarrow>
          (case validate_write_parameters spec (case pa_motivation action of
              None \<Rightarrow> parameters
            | Some m \<Rightarrow> AList.update (PStr ''motivation'') (PStr m) parameters) of
             Inl e \<Rightarrow> Inl (WParameters e)
           | Inr validated \<Rightarrow> Inr (AList.delete ''motivation'' validated)))"

definition app_context :: "app_config \<Rightarrow> discord_actor \<Rightarrow> string \<Rightarrow> policy_phase \<Rightarrow> string option
    \<Rightarrow> string \<Rightarrow> policy_context" where
  "app_context cfg actor function_id phase target scope = \<lparr>pc_function_id = function_id,
     pc_user_id = int_text (ac_user_id actor), pc_guild_id = int_text (ac_guild_id actor),
     pc_channel_id = int_text (ac_channel_id actor), pc_allowed_guild_ids = ap_allowed_guild_ids cfg,
     pc_allowed_channel_ids = ap_allowed_channel_ids cfg, pc_roles = ac_logical_roles actor,
     pc_flags = flag_enabled (ap_flags cfg), pc_current_tenant_id = Some (ap_current_tenant_id cfg),
     pc_allowed_tenant_ids = ap_allowed_tenant_ids cfg, pc_phase = phase, pc_operation_scope = scope,
     pc_entitlements = ac_entitlements actor, pc_target_employee_id = target,
     pc_target_ambiguous = False, pc_sensitive_profile = False, pc_system_state = ''HEALTHY'',
     pc_system_capabilities = ap_capabilities cfg\<rparr>"

definition execution_scope :: "app_config \<Rightarrow> pending_action \<Rightarrow> py_mapping \<Rightarrow> string" where
  "execution_scope cfg action parameters =
     (if pa_function_id action = ''EMP-EXPORT-001''
      then (case map_of parameters ''scope'' of
              None \<Rightarrow> ''default'' | Some v \<Rightarrow> py_str (ds_repr (ap_dic cfg)) v)
      else ''default'')"

definition execution_context ::
  "app_config \<Rightarrow> discord_actor \<Rightarrow> pending_action \<Rightarrow> py_mapping \<Rightarrow> policy_context" where
  "execution_context cfg requester action parameters =
     app_context cfg requester (pa_function_id action) EXECUTE (pa_target_employee_id action)
       (execution_scope cfg action parameters)"

section \<open>The approved action\<close>

datatype interaction = Registered pending_action | Outcome pending_action bool

text \<open>
  What is checked before the section: the payload decodes and is bound to the action, the parameters
  conform, the requester as resolved now is the same person, and may execute this now.
\<close>

definition live_requester :: "write_env \<Rightarrow> pending_action \<Rightarrow> discord_actor \<Rightarrow> write_error + discord_actor" where
  "live_requester env action stored = (case we_requester env of
     None \<Rightarrow> Inr stored | Some resolve \<Rightarrow> resolve action)"

definition authorize_execution ::
  "app_config \<Rightarrow> write_env \<Rightarrow> pending_action \<Rightarrow> write_error + py_mapping" where
  "authorize_execution cfg env action =
     (case decode_pending_payload cfg env action of
        Inl e \<Rightarrow> Inl e
      | Inr (raw, stored) \<Rightarrow>
          (case operation_parameters action raw of
             Inl e \<Rightarrow> Inl e
           | Inr parameters \<Rightarrow>
               (case live_requester env action stored of
                  Inl e \<Rightarrow> Inl e
                | Inr requester \<Rightarrow>
                    (case validate_requester_binding requester action of
                       Inl e \<Rightarrow> Inl e
                     | Inr _ \<Rightarrow> (let decision = evaluate (execution_context cfg requester action parameters)
                         in if pd_allowed decision then Inr parameters
                            else Inl (WPolicyDenied decision))))))"

definition execute_approved ::
  "app_config \<Rightarrow> write_env \<Rightarrow> pending_action \<Rightarrow> interaction app_op" where
  "execute_approved cfg env action =
     sx_bind (sx_lift (authorize_execution cfg env action)) (\<lambda>parameters.
     sx_bind (execute_write_critical_section cfg env action parameters) (\<lambda>completed.
     sx_bind (stage_op cfg env AuditStage (sx_return ())) (\<lambda>_.
     sx_return (Outcome completed (pa_status completed = SUCCEEDED)))))"

text \<open>The command of a user: a confirmation by the requester, an approval by anyone else.\<close>

definition register_approval :: "app_config \<Rightarrow> write_env \<Rightarrow> discord_actor \<Rightarrow> string \<Rightarrow> string
    \<Rightarrow> string option \<Rightarrow> pending_action \<Rightarrow> pending_action app_op" where
  "register_approval cfg env actor action_id code text action = (let who = int_text (ac_user_id actor) in
     if who = pa_requester_id action
     then stage_op cfg env RegisterStage (on_approvals
       (confirm_action (ap_approvals cfg) (we_approval env) action_id who code text))
     else if py_upper (py_strip code) \<noteq> ''APPROVE''
     then sx_raise (WApplication (''l'' @ [CHR 0x27] @ ''approvatore deve inserire APPROVE''))
     else stage_op cfg env RegisterStage (on_approvals
       (approve_action (we_approval env) action_id who (ac_logical_roles actor))))"

definition approve_command :: "app_config \<Rightarrow> write_env \<Rightarrow> discord_actor \<Rightarrow> string \<Rightarrow> string
    \<Rightarrow> string option \<Rightarrow> interaction app_op" where
  "approve_command cfg env actor action_id code text =
     sx_bind (on_approvals (get_action action_id sx_return)) (\<lambda>action.
     sx_bind (register_approval cfg env actor action_id code text action) (\<lambda>registered.
     if pa_status registered = APPROVED then execute_approved cfg env registered
     else sx_return (Registered registered)))"

end
