(* ===== verification/WriteSafety.thy ===== *)
theory WriteSafety
  imports WriteExecution
begin

text \<open>
  What the write path guarantees (\<^verbatim>\<open>application.py\<close>). Over any history of commands, with any fault,
  cancellation and interleaving of \<open>WriteExecution\<close>: an action is dispatched to the adapter at most
  once, only when fully authorised, and its recorded status never contradicts what the adapter answered.
\<close>

section \<open>Other users leave a claimed action alone\<close>

text \<open>Run from \<open>s\<close>, the operation leaves the record \<open>r\<close> where it is.\<close>

definition leaves :: "pending_action \<Rightarrow> 'a approval_op \<Rightarrow> approval_mem \<Rightarrow> bool" where
  "leaves r m s = (repo_get s (pa_action_id r) = Some r
     \<longrightarrow> repo_get (snd (m s)) (pa_action_id r) = Some r)"

lemma leaves_raise [simp]: "leaves r (sx_raise e) s"
  by (simp add: leaves_def sx_raise_def)

lemma leaves_guard [simp]: "leaves r (guard b e m) s \<longleftrightarrow> b \<or> leaves r m s"
  by (simp add: guard_def)

lemma leaves_writes: "leaves r m s \<Longrightarrow> leaves r (require_writes_enabled env m) s"
  by (simp add: require_writes_enabled_def)

lemma leaves_now: "(\<And>now. leaves r (k now) s) \<Longrightarrow> leaves r (with_now env k) s"
  by (simp add: with_now_def split: sum.split)

lemma leaves_get: "(\<And>a. repo_get s i = Some a \<Longrightarrow> leaves r (k a) s) \<Longrightarrow> leaves r (get_action i k) s"
  by (simp add: leaves_def get_action_def split: option.split)

lemma leaves_spec: "(\<And>spec. leaves r (k spec) s) \<Longrightarrow> leaves r (with_function_spec a k) s"
  by (simp add: with_function_spec_def split: option.split)

lemma leaves_roles: "(\<And>roles. leaves r (k roles) s) \<Longrightarrow> leaves r (with_roles vals k) s"
  by (simp add: with_roles_def split: option.split)

lemma leaves_save: "pa_action_id b \<noteq> pa_action_id r \<Longrightarrow> leaves r (save_action b v) s"
  by (auto simp: leaves_def save_action_def split: prod.splits sum.splits
      dest: repo_replace_ok approval_store.rep_err)

lemma leaves_save_raise:
  "pa_action_id b \<noteq> pa_action_id r \<Longrightarrow> leaves r (sx_bind (save_action b v) (\<lambda>_. sx_raise e)) s"
  using leaves_save [of b r v s]
  by (auto simp: leaves_def sx_bind_def sx_raise_def split: prod.splits sum.splits)

lemma leaves_active:
  assumes "pa_status a \<in> set ACTIVE_STATUSES \<Longrightarrow> pa_action_id a \<noteq> pa_action_id r"
    and "pa_status a \<in> set ACTIVE_STATUSES \<Longrightarrow> leaves r m s"
  shows "leaves r (require_active a now m) s"
  using assms by (simp add: require_active_def leaves_save_raise expire_action_def)

text \<open>A record of an active action is not the record of a claimed one.\<close>

lemma other_record:
  assumes "approval_inv s" "repo_get s (pa_action_id r) = Some r" "executed r"
    and "repo_get s i = Some a" "pa_status a \<in> set ACTIVE_STATUSES"
  shows "pa_action_id a \<noteq> pa_action_id r"
proof
  assume same: "pa_action_id a = pa_action_id r"
  have "pa_action_id a = i" using inv_action [OF assms(1,4)] by simp
  with same assms(2,4) have "a = r" by simp
  with assms(3,5) show False by (auto simp: executed_defs)
qed

definition guarded :: "pending_action \<Rightarrow> approval_mem \<Rightarrow> bool" where
  "guarded r s = (approval_inv s \<and> repo_get s (pa_action_id r) = Some r \<and> executed r)"

lemma guarded_other: "guarded r s \<Longrightarrow> repo_get s i = Some a \<Longrightarrow> pa_status a \<in> set ACTIVE_STATUSES
    \<Longrightarrow> pa_action_id a \<noteq> pa_action_id r"
  unfolding guarded_def by (elim conjE) (rule other_record)

lemma leaves_with_active:
  assumes "guarded r s"
    and "\<And>a now. pa_action_id a \<noteq> pa_action_id r \<Longrightarrow> leaves r (k a now) s"
  shows "leaves r (with_active env i k) s"
  unfolding with_active_def
  using guarded_other [OF assms(1)] assms(2) by (blast intro: leaves_get leaves_now leaves_active)

lemmas changed_ids = confirmed_action_def approved_action_def rejected_action_def expire_action_def
  with_status_def

lemma confirm_leaves: "guarded r s \<Longrightarrow> leaves r (confirm_action svc env i who code text) s"
  unfolding confirm_action_def
  by (auto intro!: leaves_with_active leaves_writes leaves_spec leaves_save
      simp: changed_ids Let_def split: sum.splits)

lemma approve_leaves: "guarded r s \<Longrightarrow> leaves r (approve_action env i who roles) s"
  unfolding approve_action_def
  by (auto intro!: leaves_with_active leaves_writes leaves_spec leaves_roles leaves_save
      simp: changed_ids Let_def)

lemma reject_leaves: "guarded r s \<Longrightarrow> leaves r (reject_action env i who roles reason) s"
  unfolding reject_action_def
  by (auto intro!: leaves_with_active leaves_spec leaves_roles leaves_save
      simp: changed_ids Let_def split: sum.splits)

lemma claim_leaves:
  assumes "pa_action_id a \<noteq> pa_action_id r"
  shows "leaves r (claim_execution a) s"
proof (cases "repo_claim (pa_idempotency_key a) (pa_action_id a) s")
  case (Pair b t)
  have "repo_get t = repo_get s"
    using approval_store.claim_lookup [of "pa_idempotency_key a" "pa_action_id a" s] Pair by simp
  moreover have "leaves r (save_action (with_status a EXECUTING) (pa_version a)) t"
    using assms by (intro leaves_save) (simp add: with_status_def)
  ultimately show ?thesis
    using Pair by (cases b) (simp_all add: leaves_def claim_execution_def)
qed

lemma begin_leaves: "guarded r s \<Longrightarrow> leaves r (begin_execution env i fingerprint) s"
  unfolding begin_execution_def
  by (intro leaves_writes leaves_get) (auto intro!: leaves_now leaves_active leaves_save_raise
      claim_leaves simp: guarded_other with_status_def)

lemma prepare_leaves: "leaves r (prepare_action svc env rq) s"
proof (cases "prepare_action svc env rq s")
  case (Pair x s')
  show ?thesis
  proof (cases x)
    case (Inl e)
    with Pair prepare_Inl [of svc env rq s e s'] show ?thesis by (simp add: leaves_def)
  next
    case (Inr p)
    with Pair prepare_Inr [of svc env rq s p s'] have
      "repo_insert (pr_action p) s = (Inr (), s')" by simp
    from approval_store.ins_keeps [of s "pa_action_id r" r "pr_action p"] this Pair show ?thesis
      by (simp add: leaves_def)
  qed
qed

lemma expire_loop_leaves:
  assumes "executed r" and "\<forall>a\<in>set actions. pa_action_id a = pa_action_id r \<longrightarrow> a = r"
  shows "leaves r (expire_loop now actions n) s"
  using assms(2)
proof (induction actions arbitrary: s n)
  case Nil
  then show ?case by (simp add: leaves_def sx_return_def)
next
  case (Cons a actions)
  have rest: "leaves r (expire_loop now actions m) t" for m t using Cons by simp
  show ?case
  proof (cases "pa_status a \<in> set ACTIVE_STATUSES \<and> pa_expires_at a \<le> now")
    case True
    with Cons.prems assms(1) have "pa_action_id a \<noteq> pa_action_id r"
      by (auto simp: executed_defs)
    then have "leaves r (save_action (expire_action a) (pa_version a)) s"
      by (intro leaves_save) (simp add: expire_action_def)
    with True rest show ?thesis
      by (auto simp: leaves_def sx_bind_def split: prod.split sum.split)
  next
    case False
    with rest show ?thesis by (auto simp: leaves_def)
  qed
qed

lemma expire_pending_leaves: "guarded r s \<Longrightarrow> leaves r (expire_pending env) s"
  unfolding expire_pending_def
proof (rule leaves_now)
  fix now
  assume g: "guarded r s"
  then have inv: "approval_inv s" and r: "repo_get s (pa_action_id r) = Some r"
    by (simp_all add: guarded_def)
  have "\<forall>a\<in>set (repo_list s). pa_action_id a = pa_action_id r \<longrightarrow> a = r"
  proof (intro ballI impI)
    fix a
    assume "a \<in> set (repo_list s)" and "pa_action_id a = pa_action_id r"
    with keyed_list(1) [OF inv_keyed [OF inv]] have "repo_get s (pa_action_id r) = Some a" by metis
    with r show "a = r" by simp
  qed
  from expire_loop_leaves [OF _ this] g show "leaves r (\<lambda>s. expire_loop now (repo_list s) 0 s) s"
    by (simp add: leaves_def guarded_def)
qed

lemma user_step_leaves:
  assumes g: "guarded r s"
  shows "repo_get (approval_step svc (user_event call) s) (pa_action_id r) = Some r"
proof -
  from g have here: "repo_get s (pa_action_id r) = Some r" by (simp add: guarded_def)
  show ?thesis
  proof (cases call)
    case (CallPrepare env rq)
    with here prepare_leaves [of r svc env rq s] show ?thesis
      by (simp add: approval_step_def leaves_def)
  next
    case (CallConfirm env i who code extra)
    with here confirm_leaves [OF g, of svc env i who code extra] show ?thesis
      by (simp add: approval_step_def leaves_def)
  next
    case (CallApprove env i who roles)
    with here approve_leaves [OF g, of env i who roles] show ?thesis
      by (simp add: approval_step_def leaves_def)
  next
    case (CallReject env i who roles reason)
    with here reject_leaves [OF g, of env i who roles reason] show ?thesis
      by (simp add: approval_step_def leaves_def)
  next
    case (CallExpire env)
    with here expire_pending_leaves [OF g, of env] show ?thesis
      by (simp add: approval_step_def leaves_def)
  qed
qed

lemma user_step_guarded: "guarded r s \<Longrightarrow> guarded r (approval_step svc (user_event call) s)"
  using user_step_leaves [of r s svc call] step_inv [of s svc "user_event call"]
  by (simp add: guarded_def)

lemma users_guarded:
  "guarded r s \<Longrightarrow> guarded r (fold (approval_step svc) (map user_event calls) s)"
  by (induction calls arbitrary: s) (simp_all add: user_step_guarded)

section \<open>Dispatches and the recorded status\<close>

text \<open>The write may have reached the service: a result, an uncertain outcome, or a cancelled call.\<close>

definition possibly_applied :: "dispatch \<Rightarrow> bool" where
  "possibly_applied d = (case di_outcome d of
     Inr _ \<Rightarrow> True | Inl e \<Rightarrow> e \<in> {WAmbiguous, WCancelled})"

definition recorded_ok :: "dispatch \<Rightarrow> action_status \<Rightarrow> bool" where
  "recorded_ok d st = (st = EXECUTING \<or> (if possibly_applied d
     then st \<in> {SUCCEEDED, UNKNOWN_REQUIRES_RECONCILIATION} else st = FAILED))"

definition accounted :: "approval_mem \<Rightarrow> dispatch \<Rightarrow> bool" where
  "accounted t d = (\<exists>a. repo_get t (di_action_id d) = Some a \<and> executed a
     \<and> pa_idempotency_key a = di_idempotency_key d \<and> recorded_ok d (pa_status a))"

definition log_ok :: "dispatch list \<Rightarrow> approval_mem \<Rightarrow> bool" where
  "log_ok L t = (approval_inv t \<and> distinct (map di_action_id L) \<and> (\<forall>d\<in>set L. accounted t d))"

definition logged :: "(dispatch list \<Rightarrow> bool) \<Rightarrow> app_state \<Rightarrow> bool" where
  "logged F s = (F (app_dispatched s) \<and> log_ok (app_dispatched s) (app_approvals s))"

lemma accounted_kept:
  assumes "approval_inv t" and "accounted t d"
    and "\<And>r. guarded r t \<Longrightarrow> repo_get t' (pa_action_id r) = Some r"
  shows "accounted t' d"
proof -
  from assms(2) obtain a where a: "repo_get t (di_action_id d) = Some a" "executed a"
    "pa_idempotency_key a = di_idempotency_key d" "recorded_ok d (pa_status a)"
    unfolding accounted_def by blast
  have id: "pa_action_id a = di_action_id d" using inv_action [OF assms(1) a(1)] by simp
  with a assms(1) have "guarded a t" by (simp add: guarded_def)
  from assms(3) [OF this] id have "repo_get t' (di_action_id d) = Some a" by simp
  with a show ?thesis unfolding accounted_def by blast
qed

lemma log_ok_kept:
  assumes "log_ok L t" and "approval_inv t'"
    and "\<And>r. guarded r t \<Longrightarrow> repo_get t' (pa_action_id r) = Some r"
  shows "log_ok L t'"
proof -
  from assms(1) have inv: "approval_inv t" and L: "distinct (map di_action_id L)"
    and acc: "\<forall>d\<in>set L. accounted t d" by (simp_all add: log_ok_def)
  have "accounted t' d" if "d \<in> set L" for d
    using accounted_kept [OF inv _ assms(3)] acc that by blast
  with L assms(2) show ?thesis by (simp add: log_ok_def)
qed

lemma users_log_ok:
  "log_ok L t \<Longrightarrow> log_ok L (fold (approval_step svc) (map user_event calls) t)"
proof (induction calls arbitrary: t)
  case (Cons call calls)
  have "approval_inv t" using Cons.prems by (simp add: log_ok_def)
  from log_ok_kept [OF Cons.prems step_inv [OF this] user_step_leaves]
  have "log_ok L (approval_step svc (user_event call) t)" .
  from Cons.IH [OF this] show ?case by simp
qed simp

lemma save_log_ok:
  assumes t: "log_ok L t" and a: "repo_get t (pa_action_id a) = Some a" and move: "action_move a b"
    and ok: "\<forall>d\<in>set L. di_action_id d = pa_action_id a \<longrightarrow> recorded_ok d (pa_status b)"
  shows "log_ok L (snd (save_action b (pa_version a) t))"
proof -
  from save_move [OF a move] obtain t' where
    t': "save_action b (pa_version a) t = (Inr b, t')" "store_change t t'" by blast
  note frame = action_move_frame [OF move]
  from t have inv: "approval_inv t" by (simp add: log_ok_def)
  from t'(1) have "repo_replace b (pa_version a) t = (Inr (), t')" by (simp add: save_action_Inr)
  then have get: "repo_get t' = (repo_get t)(pa_action_id a \<mapsto> b)"
    using repo_replace_ok frame by metis
  have "accounted t' d" if d: "d \<in> set L" for d
  proof -
    from t d obtain c where c: "repo_get t (di_action_id d) = Some c" "executed c"
      "pa_idempotency_key c = di_idempotency_key d" "recorded_ok d (pa_status c)"
      unfolding log_ok_def accounted_def by blast
    show ?thesis
    proof (cases "di_action_id d = pa_action_id a")
      case True
      with a c have "c = a" by simp
      with True c get frame move_executed [OF move] ok d show ?thesis by (simp add: accounted_def)
    next
      case False
      with c get show ?thesis by (simp add: accounted_def)
    qed
  qed
  with t t'(1) store_change_inv [OF t'(2) inv] show ?thesis by (simp add: log_ok_def)
qed

lemma get_log_ok:
  assumes "log_ok L t"
    and "\<And>a. repo_get t (pa_action_id a) = Some a \<Longrightarrow> pa_action_id a = i \<Longrightarrow> log_ok L (snd (k a t))"
  shows "log_ok L (snd (get_action i k t))"
proof (cases "repo_get t i")
  case (Some a)
  with inv_action [of t i a] assms show ?thesis by (simp add: get_action_def log_ok_def)
qed (simp add: get_action_def assms(1))

lemma guard_log_ok: "log_ok L t \<Longrightarrow> (\<not> b \<Longrightarrow> log_ok L (snd (m t))) \<Longrightarrow> log_ok L (snd (guard b e m t))"
  by (simp add: guard_def sx_raise_def)

abbreviation outcome_of :: "bool \<Rightarrow> string \<Rightarrow> dispatch list \<Rightarrow> bool" where
  "outcome_of applied i L \<equiv> \<forall>d\<in>set L. di_action_id d = i \<longrightarrow> possibly_applied d = applied"

lemma failure_log_ok:
  assumes "log_ok L t" and "outcome_of uncertain i L"
  shows "log_ok L (snd (complete_failure i result uncertain t))"
  unfolding complete_failure_def
  by (intro get_log_ok guard_log_ok assms(1) save_log_ok move_fail)
    (use assms(2) in \<open>simp_all add: failed_action_def recorded_ok_def\<close>)

lemma success_log_ok:
  assumes "log_ok L t" and "outcome_of True i L"
  shows "log_ok L (snd (complete_success i result post verified t))"
  unfolding complete_success_def
  by (intro get_log_ok guard_log_ok assms(1) save_log_ok move_complete)
    (use assms(2) in \<open>simp_all add: completed_action_def recorded_ok_def\<close>)

lemma reconcile_log_ok:
  assumes "log_ok L t" and "outcome_of True i L"
  shows "log_ok L (snd (reconcile_action i True result t))"
  unfolding reconcile_action_def
  by (intro get_log_ok guard_log_ok assms(1) save_log_ok move_reconcile)
    (use assms(2) in \<open>simp_all add: reconciled_action_def recorded_ok_def\<close>)

section \<open>The steps of the section\<close>

lemma meanwhile_parts [simp]:
  "app_dispatched (meanwhile cfg calls s) = app_dispatched s"
  "app_approvals (meanwhile cfg calls s) =
     fold (approval_step (ap_approvals cfg)) (map user_event calls) (app_approvals s)"
  by (simp_all add: meanwhile_def)

lemma on_approvals_parts [simp]:
  "app_dispatched (snd (on_approvals m s)) = app_dispatched s"
  "app_approvals (snd (on_approvals m s)) = snd (m (app_approvals s))"
  "fst (on_approvals m s) = map_error WApproval (fst (m (app_approvals s)))"
  by (simp_all add: on_approvals_def sx_zoom_def map_error_def split: prod.split sum.split)

lemma on_files_parts [simp]:
  "app_dispatched (snd (on_files m s)) = app_dispatched s"
  "app_approvals (snd (on_files m s)) = app_approvals s"
  by (simp_all add: on_files_def sx_zoom_def split: prod.split sum.split)

lemma meanwhile_logged: "logged F s \<Longrightarrow> logged F (meanwhile cfg calls s)"
  by (simp add: logged_def users_log_ok)

text \<open>A step, with the calls made before it and any fault, keeps what its body keeps.\<close>

lemma stage_keeps:
  assumes "\<And>s. P s \<Longrightarrow> P (meanwhile cfg (we_meanwhile env stage) s)" and "keeps P m"
  shows "keeps P (stage_op cfg env stage m)"
  using assms by (simp add: keeps_snd stage_op_def Let_def split: option.split)

lemma approvals_logged:
  assumes "\<And>L t. F L \<Longrightarrow> log_ok L t \<Longrightarrow> log_ok L (snd (m t))"
  shows "keeps (logged F) (stage_op cfg env stage (on_approvals m))"
proof (rule stage_keeps)
  show "logged F s \<Longrightarrow> logged F (meanwhile cfg (we_meanwhile env stage) s)" for s
    by (rule meanwhile_logged)
  show "keeps (logged F) (on_approvals m)" by (simp add: keeps_snd logged_def assms)
qed

lemma sx_try_triple:
  "triple P m (\<lambda>x. R (Inr x)) (\<lambda>e. R (Inl e)) \<Longrightarrow> (\<And>r. triple (R r) (f r) Q E)
    \<Longrightarrow> triple P (sx_bind (sx_try m) f) Q E"
  by (rule triple_bind [OF triple_try])

lemma catch_triple:
  assumes "triple P m Q R" and "\<And>e. e \<noteq> WCancelled \<Longrightarrow> triple (R e) (h e) Q E"
    and "\<And>s. R WCancelled s \<Longrightarrow> E WCancelled s"
  shows "triple P (catch_exception m h) Q E"
  unfolding catch_exception_def
proof (rule sx_try_triple [where R = "\<lambda>r. case r of Inr x \<Rightarrow> Q x | Inl e \<Rightarrow> R e"])
  show "triple P m (\<lambda>x. case Inr x of Inr x \<Rightarrow> Q x | Inl e \<Rightarrow> R e)
      (\<lambda>e. case Inl e of Inr x \<Rightarrow> Q x | Inl e \<Rightarrow> R e)" using assms(1) by simp
  fix r
  show "triple (case r of Inr x \<Rightarrow> Q x | Inl e \<Rightarrow> R e)
      (case r of Inr x \<Rightarrow> sx_return x | Inl e \<Rightarrow> if e = WCancelled then sx_raise e else h e) Q E"
    using assms(2,3) by (cases r) (auto intro: triple_return triple_raise)
qed

lemma catch_keeps: "keeps P m \<Longrightarrow> (\<And>e. keeps P (h e)) \<Longrightarrow> keeps P (catch_exception m h)"
  by (rule catch_triple)

lemma persist_keeps:
  assumes F: "\<And>L. F L \<Longrightarrow> outcome_of True i L"
  shows "keeps (logged F) (persist_uncertain_and_reconcile cfg env i parameters result)"
  unfolding persist_uncertain_and_reconcile_def
proof (intro keeps_bind approvals_logged failure_log_ok, assumption, rule F, assumption)
  show "keeps (logged F) (sx_try (service_reconcile cfg env a parameters))" for a
    by (rule keeps_pure) (simp add: sx_try_def service_reconcile_def sx_bind_def sx_lift_def
        split: prod.split sum.split)
next
  fix a and r :: "write_error + reconciliation_result"
  have "keeps (logged F) (stage_op cfg env ReconciledStage
      (on_approvals (reconcile_action i True (rr_detail x))))" for x
    by (rule approvals_logged) (use reconcile_log_ok F in blast)
  then show "keeps (logged F) (case r of Inl e \<Rightarrow> if e = WCancelled then sx_raise e else sx_return a
    | Inr x \<Rightarrow> if rr_state x \<noteq> REC_CONFIRMED_APPLIED then sx_return a
        else catch_exception (stage_op cfg env ReconciledStage
            (on_approvals (reconcile_action i True (rr_detail x)))) (\<lambda>_. sx_return a))"
    by (auto split: sum.split intro!: triple_return triple_raise catch_keeps)
qed

lemma complete_write_keeps:
  assumes F: "\<And>L. F L \<Longrightarrow> outcome_of True i L"
  shows "keeps (logged F) (complete_write cfg env i parameters result)"
  unfolding complete_write_def
proof (intro catch_keeps keeps_bind)
  show "keeps (logged F) (stage_op cfg env SuccessStage (on_approvals (complete_success i
      (we_result_text env result) (er_message result) (er_postcondition_verified result))))"
    by (rule approvals_logged) (use success_log_ok F in blast)
  show "keeps (logged F) (persist_uncertain_and_reconcile cfg env i parameters
      ''verified write result could not be persisted'')" by (rule persist_keeps [OF F])
qed (auto intro!: triple_raise triple_return triple_if)

section \<open>The section as a whole\<close>

definition app_inv :: "app_state \<Rightarrow> bool" where
  "app_inv = logged (\<lambda>_. True)"

text \<open>The action is claimed by this call and was never dispatched.\<close>

definition armed :: "string \<Rightarrow> pending_action \<Rightarrow> app_state \<Rightarrow> bool" where
  "armed i b s = (logged (\<lambda>L. i \<notin> di_action_id ` set L) s \<and> guarded b (app_approvals s)
     \<and> pa_status b = EXECUTING \<and> pa_action_id b = i)"

lemma logged_mono: "logged F s \<Longrightarrow> (\<And>L. F L \<Longrightarrow> G L) \<Longrightarrow> logged G s"
  by (simp add: logged_def)

lemma logged_inv: "logged F s \<Longrightarrow> app_inv s"
  by (simp add: app_inv_def logged_def)

lemma undispatched: "i \<notin> di_action_id ` set L \<Longrightarrow> outcome_of x i L"
  by (auto simp: image_iff)

lemma armed_logged: "armed i b s \<Longrightarrow> logged (outcome_of x i) s"
  unfolding armed_def logged_def by (elim conjE) (intro conjI undispatched)

lemma conseq:
  assumes "triple P m Q E" and "\<And>s. P' s \<Longrightarrow> P s" and "\<And>x s. Q x s \<Longrightarrow> Q' x s"
    and "\<And>e s. E e s \<Longrightarrow> E' e s"
  shows "triple P' m Q' E'"
  using assms unfolding triple_def by (fastforce split: prod.splits sum.splits)

lemma begin_log_ok: "log_ok L t \<Longrightarrow> log_ok L (snd (begin_execution env i fingerprint t))"
proof -
  assume t: "log_ok L t"
  then have inv: "approval_inv t" by (simp add: log_ok_def)
  from step_inv [OF inv, of undefined "BeginExecution env i fingerprint"]
  have "approval_inv (snd (begin_execution env i fingerprint t))" by (simp add: approval_step_def)
  from log_ok_kept [OF t this] begin_leaves [of _ t env i fingerprint] show ?thesis
    by (auto simp: leaves_def guarded_def)
qed

lemma begin_armed:
  assumes t: "log_ok L t" and b: "begin_execution env i fingerprint t = (Inr b, t')"
  shows "guarded b t' \<and> pa_status b = EXECUTING \<and> pa_action_id b = i \<and> i \<notin> di_action_id ` set L"
proof -
  from t have inv: "approval_inv t" by (simp add: log_ok_def)
  from begin_execution_claims [OF inv b] obtain a where
    a: "repo_get t i = Some a" "\<not> executed a" by blast
  from a t have fresh: "i \<notin> di_action_id ` set L" by (auto simp: log_ok_def accounted_def)
  from b a obtain u where u: "save_action (with_status a EXECUTING) (pa_version a) u = (Inr b, t')"
    by (auto simp: begin_execution_Inr)
  then have b': "b = with_status a EXECUTING" by (simp add: save_action_Inr)
  from inv_action [OF inv a(1)] have id: "pa_action_id a = i" by simp
  from u have "repo_replace (with_status a EXECUTING) (pa_version a) u = (Inr (), t')"
    by (simp add: save_action_Inr)
  from repo_replace_ok [OF this] b' id have "repo_get t' i = Some b" by (simp add: with_status_def)
  moreover have "approval_inv t'"
    using step_inv [OF inv, of undefined "BeginExecution env i fingerprint"] b
    by (simp add: approval_step_def)
  ultimately show ?thesis using b' id fresh by (simp add: guarded_def with_status_def executed_defs)
qed

lemma begin_triple:
  "triple app_inv (stage_op cfg env BeginStage (on_approvals (begin_execution (we_begin env) i fp)))
     (armed i) (\<lambda>_. app_inv)"
proof (unfold triple_def, intro allI impI)
  fix s
  assume "app_inv s"
  then have m: "app_inv (meanwhile cfg (we_meanwhile env BeginStage) s)"
    unfolding app_inv_def by (rule meanwhile_logged)
  let ?s = "meanwhile cfg (we_meanwhile env BeginStage) s"
  let ?op = "on_approvals (begin_execution (we_begin env) i fp)"
  from m have ok: "log_ok (app_dispatched ?s) (app_approvals ?s)"
    unfolding app_inv_def logged_def by blast
  have after: "app_inv (snd (?op ?s))"
    using begin_log_ok [OF ok] by (simp add: app_inv_def logged_def del: meanwhile_parts)
  show "case stage_op cfg env BeginStage ?op s of (Inr x, s') \<Rightarrow> armed i x s' | (Inl e, s') \<Rightarrow> app_inv s'"
  proof (cases "we_faults env BeginStage")
    case None
    show ?thesis
    proof (cases "?op ?s")
      case (Pair r s')
      show ?thesis
      proof (cases r)
        case (Inl e)
        with None Pair after show ?thesis by (simp add: stage_op_def)
      next
        case (Inr b)
        with Pair have op: "begin_execution (we_begin env) i fp (app_approvals ?s)
            = (Inr b, app_approvals s')" and L: "app_dispatched s' = app_dispatched ?s"
          by (auto simp: on_approvals_def sx_zoom_def simp del: meanwhile_parts
              split: prod.splits sum.splits)
        from begin_armed [OF ok op] after Pair L have "armed i b s'"
          by (simp add: armed_def app_inv_def logged_def del: meanwhile_parts)
        with None Pair Inr show ?thesis by (simp add: stage_op_def)
      qed
    qed
  next
    case (Some f)
    with m after show ?thesis by (cases f) (simp add: stage_op_def Let_def del: meanwhile_parts)
  qed
qed

lemma armed_meanwhile: "armed i b s \<Longrightarrow> armed i b (meanwhile cfg calls s)"
  using meanwhile_logged users_guarded by (simp add: armed_def logged_def users_log_ok)

lemma dispatch_triple:
  "triple (armed i b) (dispatch_write env b act) (\<lambda>_. logged (outcome_of True i))
     (\<lambda>e. logged (outcome_of (e \<in> {WAmbiguous, WCancelled}) i))"
proof -
  define d where "d = \<lparr>di_action_id = pa_action_id b, di_idempotency_key = pa_idempotency_key b,
    di_action = act, di_outcome = we_execute env act\<rparr>"
  have id: "di_action_id d = pa_action_id b" by (simp add: d_def)
  have "logged (outcome_of (possibly_applied d) i) (snd (dispatch_write env b act s))"
    if s: "armed i b s" for s
  proof -
    have L: "app_dispatched (snd (dispatch_write env b act s)) = app_dispatched s @ [d]"
      and A: "app_approvals (snd (dispatch_write env b act s)) = app_approvals s"
      by (simp_all add: dispatch_write_def d_def)
    from s have "accounted (app_approvals s) d"
      by (auto simp: armed_def guarded_def accounted_def recorded_ok_def d_def)
    with s id have "log_ok (app_dispatched s @ [d]) (app_approvals s)"
      by (auto simp: armed_def logged_def log_ok_def)
    moreover have "outcome_of (possibly_applied d) i (app_dispatched s @ [d])"
      using undispatched [of i "app_dispatched s"] s by (auto simp: armed_def logged_def)
    ultimately show ?thesis using L A by (simp add: logged_def)
  qed
  moreover have "possibly_applied d = (case we_execute env act of
      Inr _ \<Rightarrow> True | Inl e \<Rightarrow> e \<in> {WAmbiguous, WCancelled})"
    by (simp add: possibly_applied_def d_def)
  ultimately show ?thesis
    by (fastforce simp: triple_def dispatch_write_def split: sum.splits)
qed

lemma service_execute_triple:
  "triple (armed i b) (service_execute cfg env b parameters) (\<lambda>_. logged (outcome_of True i))
     (\<lambda>e. logged (outcome_of (e \<in> {WAmbiguous, WCancelled}) i))"
  unfolding service_execute_def
proof (rule triple_bind)
  show "triple (armed i b) (sx_lift (map_error WDic (prepare_execution (ap_dic cfg) (we_now env) b parameters)))
      (\<lambda>_. armed i b) (\<lambda>e. logged (outcome_of (e \<in> {WAmbiguous, WCancelled}) i))"
    using armed_logged by (auto simp: triple_def sx_lift_def split: sum.split)
qed (rule dispatch_triple)

definition attempted :: "string \<Rightarrow> attempt_result \<Rightarrow> app_state \<Rightarrow> bool" where
  "attempted i r = (case r of Exported _ \<Rightarrow> app_inv | Written _ \<Rightarrow> logged (outcome_of True i))"

lemma export_triple:
  "triple (armed i b) (sx_bind (sx_lift (we_export env)) (\<lambda>payload.
     sx_bind (stage_op cfg env SuccessStage (on_approvals (complete_success i payload m True)))
       (\<lambda>completed. sx_return (Exported completed))))
     (attempted i) (\<lambda>e. logged (outcome_of (e \<in> {WAmbiguous, WCancelled}) i))"
proof (rule conseq)
  let ?G = "logged (\<lambda>L. i \<notin> di_action_id ` set L)"
  show "triple ?G (sx_bind (sx_lift (we_export env)) (\<lambda>payload.
     sx_bind (stage_op cfg env SuccessStage (on_approvals (complete_success i payload m True)))
       (\<lambda>completed. sx_return (Exported completed)))) (attempted i) (\<lambda>_. ?G)"
  proof (rule triple_bind, rule keeps_pure, simp add: sx_lift_def, rule triple_bind)
    show "keeps ?G (stage_op cfg env SuccessStage (on_approvals (complete_success i payload m True)))"
      for payload
      by (rule approvals_logged) (use success_log_ok undispatched in blast)
    show "triple ?G (sx_return (Exported completed)) (attempted i) (\<lambda>_. ?G)" for completed
      by (rule triple_return) (simp add: attempted_def logged_inv)
  qed
  show "armed i b s \<Longrightarrow> ?G s" for s by (simp add: armed_def)
  show "?G s \<Longrightarrow> logged (outcome_of (e \<in> {WAmbiguous, WCancelled}) i) s" for e s
    by (erule logged_mono) (rule undispatched)
qed

lemma attempt_triple:
  "triple (armed (pa_action_id action) b) (attempt_write cfg env action b parameters)
     (attempted (pa_action_id action))
     (\<lambda>e. logged (outcome_of (e \<in> {WAmbiguous, WCancelled}) (pa_action_id action)))"
proof (cases "pa_function_id action = ''EMP-EXPORT-001''")
  case True
  then show ?thesis
    using export_triple [of "pa_action_id action" b env cfg
        "''export generated and validated in memory''"]
    by (simp add: attempt_write_def)
next
  case False
  have "triple (armed (pa_action_id action) b)
      (sx_bind (service_execute cfg env b parameters) (\<lambda>result. sx_return (Written result)))
      (attempted (pa_action_id action))
      (\<lambda>e. logged (outcome_of (e \<in> {WAmbiguous, WCancelled}) (pa_action_id action)))"
    by (rule triple_bind [OF service_execute_triple]) (simp add: triple_return attempted_def)
  with False show ?thesis by (simp add: attempt_write_def)
qed

lemma claim_file_armed:
  "keeps (armed i b) (stage_op cfg env ClaimFileStage (on_files m))"
proof (rule stage_keeps)
  show "armed i b s \<Longrightarrow> armed i b (meanwhile cfg (we_meanwhile env ClaimFileStage) s)" for s
    by (rule armed_meanwhile)
  show "keeps (armed i b) (on_files m)" by (simp add: keeps_snd armed_def logged_def)
qed

lemma parameters_armed: "keeps (armed i b) (execution_parameters cfg env f parameters)"
  unfolding execution_parameters_def
  by (auto split: option.split py_value.split
      intro!: triple_if triple_return triple_raise keeps_bind claim_file_armed)

lemma preparation_failed_triple:
  "triple (armed i b) (sx_bind (stage_op cfg env PreparationFailedStage
     (on_approvals (complete_failure i m False))) (\<lambda>_. sx_raise e)) (\<lambda>_. armed i b) (\<lambda>_. app_inv)"
proof (rule conseq)
  show "triple (logged (outcome_of False i)) (sx_bind (stage_op cfg env PreparationFailedStage
     (on_approvals (complete_failure i m False))) (\<lambda>_. sx_raise e)) (\<lambda>_ _. False)
     (\<lambda>_. logged (outcome_of False i))"
  proof (rule triple_bind)
    show "keeps (logged (outcome_of False i))
        (stage_op cfg env PreparationFailedStage (on_approvals (complete_failure i m False)))"
      by (rule approvals_logged) (use failure_log_ok in blast)
  qed (rule triple_raise)
  show "armed i b s \<Longrightarrow> logged (outcome_of False i) s" for s by (rule armed_logged)
  show "logged (outcome_of False i) s \<Longrightarrow> app_inv s" for s by (rule logged_inv)
qed simp

lemma outcome_triple:
  assumes r: "\<And>s. P s \<Longrightarrow> (case r of Inl e \<Rightarrow> logged (outcome_of (e \<in> {WAmbiguous, WCancelled}) i)
      | Inr x \<Rightarrow> attempted i x) s"
  shows "triple P (case r of
       Inl e \<Rightarrow> if e = WCancelled then sx_raise e
         else if e = WAmbiguous then persist_uncertain_and_reconcile cfg env i parameters m
         else sx_bind (stage_op cfg env FailedStage (on_approvals (complete_failure i m' False)))
           (\<lambda>_. sx_raise e)
     | Inr (Exported completed) \<Rightarrow> sx_return completed
     | Inr (Written result) \<Rightarrow> complete_write cfg env i parameters result) (\<lambda>_. app_inv) (\<lambda>_. app_inv)"
proof -
  have persist: "triple (logged (outcome_of True i)) (persist_uncertain_and_reconcile cfg env i parameters m)
      (\<lambda>_. app_inv) (\<lambda>_. app_inv)"
    by (rule conseq [OF persist_keeps]) (auto intro: logged_inv)
  have complete: "triple (logged (outcome_of True i)) (complete_write cfg env i parameters result)
      (\<lambda>_. app_inv) (\<lambda>_. app_inv)" for result
    by (rule conseq [OF complete_write_keeps]) (auto intro: logged_inv)
  have "keeps (logged (outcome_of False i))
      (stage_op cfg env FailedStage (on_approvals (complete_failure i m' False)))"
    by (rule approvals_logged) (use failure_log_ok in blast)
  then have failed: "keeps (logged (outcome_of False i)) (sx_bind
      (stage_op cfg env FailedStage (on_approvals (complete_failure i m' False))) (\<lambda>_. sx_raise e :: pending_action app_op))" for e
    by (intro keeps_bind) (auto intro: triple_raise)
  show ?thesis
  proof (cases r)
    case (Inl e)
    show ?thesis
    proof (cases "e = WCancelled")
      case True
      with Inl r show ?thesis by (auto intro!: triple_raise logged_inv)
    next
      case False
      show ?thesis
      proof (cases "e = WAmbiguous")
        case True
        with Inl r have "P s \<Longrightarrow> logged (outcome_of True i) s" for s by simp
        from conseq [OF persist this] True Inl show ?thesis by simp
      next
        case more: False
        with False Inl r have "P s \<Longrightarrow> logged (outcome_of False i) s" for s by simp
        from conseq [OF failed this logged_inv logged_inv] False more Inl show ?thesis by simp
      qed
    qed
  next
    case (Inr x)
    show ?thesis
    proof (cases x)
      case (Exported c)
      with Inr r show ?thesis by (auto simp: attempted_def intro!: triple_return)
    next
      case (Written result)
      with Inr r have "P s \<Longrightarrow> logged (outcome_of True i) s" for s by (simp add: attempted_def)
      from conseq [OF complete this] Written Inr show ?thesis by simp
    qed
  qed
qed

lemma section_keeps: "keeps app_inv (execute_write_critical_section cfg env action parameters)"
proof -
  let ?i = "pa_action_id action"
  let ?R = "\<lambda>r s. (case r of Inl e \<Rightarrow> logged (outcome_of (e \<in> {WAmbiguous, WCancelled}) ?i)
      | Inr x \<Rightarrow> attempted ?i x) s"
  have prep: "triple (armed ?i b) (catch_exception (execution_parameters cfg env f parameters)
      (\<lambda>e. sx_bind (stage_op cfg env PreparationFailedStage (on_approvals (complete_failure ?i
        ''deterministic preparation failed before dispatch'' False))) (\<lambda>_. sx_raise e)))
      (\<lambda>_. armed ?i b) (\<lambda>_. app_inv)" for b f
    by (rule catch_triple [OF parameters_armed preparation_failed_triple])
      (auto simp: armed_def intro: logged_inv)
  have att: "triple (armed ?i b) (attempt_write cfg env action b ps) (\<lambda>x. ?R (Inr x)) (\<lambda>e. ?R (Inl e))"
    for b ps using attempt_triple [of action b cfg env ps] by simp
  show ?thesis
    unfolding execute_write_critical_section_def Let_def
  proof (rule keeps_bind)
    show "keeps app_inv (sx_lift (we_fingerprint env))"
      by (rule keeps_pure) (simp add: sx_lift_def)
  qed (rule triple_bind [OF begin_triple], rule triple_bind [OF prep], rule sx_try_triple [OF att],
      rule outcome_triple, assumption)
qed

text \<open>The rest of the command.\<close>

lemma execute_approved_keeps: "keeps app_inv (execute_approved cfg env action)"
proof -
  have "keeps app_inv (stage_op cfg env AuditStage (sx_return ()))"
    by (rule stage_keeps) (auto simp: app_inv_def meanwhile_logged intro: triple_return)
  then show ?thesis
    unfolding execute_approved_def
    by (intro keeps_bind section_keeps) (auto intro: triple_return keeps_pure simp: sx_lift_def)
qed

lemma register_keeps: "keeps app_inv (register_approval cfg env actor i code extra action)"
proof -
  have user: "log_ok L t \<Longrightarrow> log_ok L (approval_step svc (user_event call) t)" for L t svc call
    using users_log_ok [of L t svc "[call]"] by simp
  have "keeps app_inv (stage_op cfg env RegisterStage (on_approvals
      (confirm_action (ap_approvals cfg) (we_approval env) i who code extra)))" for who
    using user [where call = "CallConfirm (we_approval env) i who code extra" and svc = "ap_approvals cfg"]
    unfolding app_inv_def by (intro approvals_logged) (simp add: approval_step_def)
  moreover have "keeps app_inv (stage_op cfg env RegisterStage (on_approvals
      (approve_action (we_approval env) i who roles)))" for who roles
    using user [where call = "CallApprove (we_approval env) i who roles" and svc = "ap_approvals cfg"]
    unfolding app_inv_def by (intro approvals_logged) (simp add: approval_step_def)
  ultimately show ?thesis
    unfolding register_approval_def Let_def by (auto intro!: triple_if triple_raise)
qed

lemma approve_keeps: "keeps app_inv (approve_command cfg env actor i code extra)"
proof -
  have "keeps app_inv (on_approvals (get_action i sx_return))"
    by (rule keeps_pure) (simp add: on_approvals_def sx_zoom_def get_action_def sx_return_def
        split: option.split)
  then show ?thesis
    unfolding approve_command_def
    by (intro keeps_bind register_keeps triple_if execute_approved_keeps) (auto intro: triple_return)
qed

section \<open>Histories\<close>

datatype app_event =
    Commands app_config "user_call list"
  | ApproveCommand app_config write_env discord_actor string string "string option"

fun app_step :: "app_event \<Rightarrow> app_state \<Rightarrow> app_state" where
  "app_step (Commands cfg calls) s = meanwhile cfg calls s"
| "app_step (ApproveCommand cfg env actor i code extra) s = snd (approve_command cfg env actor i code extra s)"

definition app_run :: "app_event list \<Rightarrow> app_state \<Rightarrow> app_state" where
  "app_run evs s = fold app_step evs s"

definition new_app_state :: "file_state \<Rightarrow> app_state" where
  "new_app_state files = \<lparr>app_approvals = empty_approval_mem, app_files = files, app_dispatched = []\<rparr>"

lemma new_app_inv: "app_inv (new_app_state files)"
  by (simp add: app_inv_def logged_def log_ok_def new_app_state_def approval_inv_empty)

lemma app_step_inv: "app_inv s \<Longrightarrow> app_inv (app_step ev s)"
  using keepsD [OF approve_keeps] meanwhile_logged by (cases ev) (auto simp: app_inv_def)

lemma app_run_inv: "app_inv s \<Longrightarrow> app_inv (app_run evs s)"
  unfolding app_run_def by (induction evs arbitrary: s) (simp_all add: app_step_inv)

lemma run_log_ok: "log_ok (app_dispatched (app_run evs (new_app_state files)))
    (app_approvals (app_run evs (new_app_state files)))"
  using app_run_inv [OF new_app_inv, of evs files] by (simp add: app_inv_def logged_def)

lemma accounted_authorized:
  assumes "approval_inv t" and "accounted t d"
  shows "\<exists>a. repo_get t (di_action_id d) = Some a \<and> pa_idempotency_key a = di_idempotency_key d
    \<and> executed a \<and> confirmed a \<and> distinct (approved_by a) \<and> pa_requester_id a \<notin> set (approved_by a)
    \<and> (\<exists>spec. get_function_spec (pa_function_id a) = Some spec \<and> is_write spec
         \<and> length (approved_by a) = fs_approvals_required spec)"
proof -
  from assms(2) obtain a where a: "repo_get t (di_action_id d) = Some a" "executed a"
    "pa_idempotency_key a = di_idempotency_key d"
    unfolding accounted_def by blast
  from inv_action [OF assms(1) a(1)] have ok: "action_ok a" by simp
  with a(2) have "authorized a"
    by (auto simp: action_ok_def status_ok_def executed_defs split: action_status.splits)
  with ok a show ?thesis
    by (auto simp: authorized_def action_ok_def spec_ok_def approved_by_def)
qed

lemma dispatched_keys_distinct:
  assumes "log_ok L t"
  shows "distinct (map di_idempotency_key L)"
proof -
  have "inj_on di_idempotency_key (set L)"
  proof (rule inj_onI)
    fix d d'
    assume d: "d \<in> set L" "d' \<in> set L" "di_idempotency_key d = di_idempotency_key d'"
    from assms have inv: "approval_inv t" and ids: "distinct (map di_action_id L)"
      by (simp_all add: log_ok_def)
    have "repo_claims t (di_idempotency_key e) = Some (di_action_id e)" if "e \<in> set L" for e
      using assms that inv_executed_claim [OF inv] unfolding log_ok_def accounted_def by metis
    with d have "di_action_id d = di_action_id d'" by (metis option.inject)
    with d ids show "d = d'" by (meson distinct_map inj_onD)
  qed
  moreover have "distinct L" using assms by (simp add: log_ok_def distinct_map)
  ultimately show ?thesis by (simp add: distinct_map)
qed

text \<open>A history: one user prepares and confirms, another approves, and the adapter
  does not know the outcome of the write.\<close>

definition demo_app_config :: app_config where
  "demo_app_config = \<lparr>ap_approvals = demo_service, ap_dic = demo_dic_service,
     ap_flags = ds_flags demo_dic_service, ap_allowed_guild_ids = [''2''],
     ap_allowed_channel_ids = [''3''], ap_current_tenant_id = ''t'', ap_allowed_tenant_ids = [''t''],
     ap_capabilities = [], ap_files = None, ap_path_text = fst\<rparr>"

definition demo_payload :: py_value where
  "demo_payload = PDict [(PStr ''version'', PInt 1), (PStr ''parameters'', PDict []),
     (PStr ''requester_context'', PDict [(PStr ''user_id'', PStr ''1''), (PStr ''guild_id'', PStr ''2''),
        (PStr ''channel_id'', PInt 3), (PStr ''logical_roles'', PList [PStr ''HR_WRITE'']),
        (PStr ''entitlements'', PList [])])]"

definition demo_write_env :: write_env where
  "demo_write_env = \<lparr>we_decrypt = (\<lambda>_. Inr demo_payload), we_requester = None,
     we_fingerprint = Inr ''fp'', we_begin = demo_env 3,
     we_file_env = \<lparr>fe_upload_id = [], fe_now = Aware 0, fe_detect = (\<lambda>_. Inr []),
       fe_scan = (\<lambda>_. Inl ValueErr), fe_disk = \<lparr>df_open = False,
         df_sync = False, df_move = False, df_read = False\<rparr>\<rparr>, we_now = 5, we_export = Inl WAmbiguous,
     we_approval = demo_env 2, we_execute = (\<lambda>_. Inl WAmbiguous), we_result_text = (\<lambda>_. ''result''),
     we_reconcile = (\<lambda>_. Inl WAmbiguous), we_faults = (\<lambda>_. None), we_meanwhile = (\<lambda>_. [])\<rparr>"

definition demo_calls :: "user_call list" where
  "demo_calls = [CallPrepare (demo_env 0) (demo_request\<lparr>rq_requester_id := ''1'', rq_guild_id := ''2'',
       rq_channel_id := ''3''\<rparr>), CallConfirm (demo_env 1) demo_id ''1'' ''abcd efgh'' None]"

definition demo_approver :: discord_actor where
  "demo_approver = \<lparr>ac_user_id = 7, ac_guild_id = 2, ac_channel_id = 3,
     ac_logical_roles = [''APPROVER''], ac_discord_role_ids = [], ac_entitlements = []\<rparr>"

definition demo_history :: "app_event list" where
  "demo_history = [Commands demo_app_config demo_calls,
     ApproveCommand demo_app_config demo_write_env demo_approver demo_id '' approve '' None]"

definition demo_files :: file_state where
  "demo_files = \<lparr>fl_repo = empty_upload_mem, fl_fs = empty_upload_fs, fl_events = []\<rparr>"

definition demo_end :: app_state where
  "demo_end = app_run demo_history (new_app_state demo_files)"

text \<open>How the witnesses reach the dispatch of the history.\<close>

definition demo_dispatch :: dispatch where
  "demo_dispatch = hd (app_dispatched demo_end)"

lemma demo_log:
  "map (\<lambda>d. (di_action_id d, possibly_applied d)) (app_dispatched demo_end) = [(demo_id, True)]"
  by code_simp

lemma demo_member: "demo_dispatch \<in> set (app_dispatched demo_end)"
  "di_action_id demo_dispatch = demo_id" "possibly_applied demo_dispatch"
  using demo_log by (auto simp: demo_dispatch_def)

lemma register_log:
  "app_dispatched (snd (register_approval cfg env actor i code extra action s)) = app_dispatched s"
  by (simp add: register_approval_def stage_op_def sx_raise_def Let_def split: option.split)

lemma authorize_Inr: "authorize_execution cfg env action = Inr parameters \<longleftrightarrow>
    (\<exists>raw stored requester. decode_pending_payload cfg env action = Inr (raw, stored)
      \<and> operation_parameters action raw = Inr parameters
      \<and> live_requester env action stored = Inr requester \<and> requester_bound requester action
      \<and> pd_allowed (evaluate (execution_context cfg requester action parameters)))"
  by (auto simp: authorize_execution_def validate_requester_binding_def Let_def
      split: sum.splits prod.splits if_splits)

lemma execute_unauthorized:
  "app_dispatched (snd (execute_approved cfg env action s)) \<noteq> app_dispatched s \<Longrightarrow>
    \<exists>parameters. authorize_execution cfg env action = Inr parameters"
  by (cases "authorize_execution cfg env action")
    (auto simp: execute_approved_def sx_bind_def sx_lift_def)

section \<open>Properties\<close>

text \<open>C1: A write is dispatched at most once, and only when authorised. Over any history of commands,
  with faults at any step, cancelled calls and other users' calls between the steps, no action and no
  idempotency key reaches the adapter twice; each dispatched action is in the store as a claimed one,
  confirmed by its requester and approved by as many distinct other people as the catalogue asks for its
  function.\<close>

theorem dispatched_once_and_authorized:
  "let s = app_run evs (new_app_state files) in
     distinct (map di_action_id (app_dispatched s))
     \<and> distinct (map di_idempotency_key (app_dispatched s))
     \<and> (\<forall>d\<in>set (app_dispatched s). \<exists>a. repo_get (app_approvals s) (di_action_id d) = Some a
          \<and> pa_idempotency_key a = di_idempotency_key d \<and> executed a \<and> confirmed a
          \<and> distinct (approved_by a) \<and> pa_requester_id a \<notin> set (approved_by a)
          \<and> (\<exists>spec. get_function_spec (pa_function_id a) = Some spec \<and> is_write spec
               \<and> length (approved_by a) = fs_approvals_required spec))"
proof -
  note ok = run_log_ok [of evs files]
  have "\<exists>a. repo_get (app_approvals (app_run evs (new_app_state files))) (di_action_id d) = Some a
      \<and> pa_idempotency_key a = di_idempotency_key d \<and> executed a \<and> confirmed a
      \<and> distinct (approved_by a) \<and> pa_requester_id a \<notin> set (approved_by a)
      \<and> (\<exists>spec. get_function_spec (pa_function_id a) = Some spec \<and> is_write spec
           \<and> length (approved_by a) = fs_approvals_required spec)"
    if "d \<in> set (app_dispatched (app_run evs (new_app_state files)))" for d
    using ok that accounted_authorized unfolding log_ok_def by blast
  with ok dispatched_keys_distinct [OF ok] show ?thesis by (simp add: log_ok_def)
qed

theorem dispatched_once_and_authorized_witness:
  "\<exists>a. repo_get (app_approvals demo_end) demo_id = Some a \<and> confirmed a
     \<and> (\<exists>spec. get_function_spec (pa_function_id a) = Some spec \<and> length (approved_by a) = fs_approvals_required spec)"
  using dispatched_once_and_authorized [of demo_history demo_files] demo_member
  by (auto simp: Let_def demo_end_def [symmetric])

text \<open>C2: The recorded status never contradicts the adapter. When the write may have been applied (a
  result, an uncertain outcome, a cancelled call) the action is never recorded as failed: it is
  completed, awaits reconciliation or is still claimed. When the adapter refused, it is never recorded as
  completed. This holds through lost persistence, failed reconciliations and interleaved calls.\<close>

theorem recorded_status_truthful:
  assumes "d \<in> set (app_dispatched (app_run evs (new_app_state files)))"
  shows "\<exists>a. repo_get (app_approvals (app_run evs (new_app_state files))) (di_action_id d) = Some a
    \<and> (if possibly_applied d
       then pa_status a \<in> {EXECUTING, SUCCEEDED, UNKNOWN_REQUIRES_RECONCILIATION}
       else pa_status a \<in> {EXECUTING, FAILED})"
proof -
  from run_log_ok [of evs files] assms
  have "accounted (app_approvals (app_run evs (new_app_state files))) d" by (simp add: log_ok_def)
  then obtain a where "repo_get (app_approvals (app_run evs (new_app_state files))) (di_action_id d) = Some a"
    "recorded_ok d (pa_status a)" unfolding accounted_def by blast
  then show ?thesis by (auto simp: recorded_ok_def)
qed

theorem recorded_status_truthful_witness:
  "\<exists>a. repo_get (app_approvals demo_end) demo_id = Some a
     \<and> pa_status a \<in> {EXECUTING, SUCCEEDED, UNKNOWN_REQUIRES_RECONCILIATION}"
  using recorded_status_truthful [of demo_dispatch demo_history demo_files] demo_member
  by (simp add: demo_end_def)

end
