(* ===== verification/WriteDispatch.thy ===== *)
theory WriteDispatch
  imports WriteSafety
begin

text \<open>
  What one command of a user dispatches (\<^verbatim>\<open>application.py\<close>): the steps that send nothing, the one that
  sends, and that what is sent is the stored action the command names.
\<close>

section \<open>What one command dispatches\<close>

definition silent :: "'a app_op \<Rightarrow> bool" where
  "silent m \<longleftrightarrow> (\<forall>s. app_dispatched (snd (m s)) = app_dispatched s)"

lemma silent_pure: "silent (sx_return x)" "silent (sx_raise e)" "silent (sx_lift r)"
  by (simp_all add: silent_def sx_return_def sx_raise_def sx_lift_def)

lemma silent_bind: "silent m \<Longrightarrow> (\<And>x. silent (f x)) \<Longrightarrow> silent (sx_bind m f)"
  by (auto simp: silent_def sx_bind_def split: prod.splits sum.splits) (metis snd_conv)+

lemma silent_try: "silent m \<Longrightarrow> silent (sx_try m)"
  by (simp add: silent_def sx_try_def case_prod_beta)

lemma silent_catch: "silent m \<Longrightarrow> (\<And>e. silent (h e)) \<Longrightarrow> silent (catch_exception m h)"
  unfolding catch_exception_def
  by (intro silent_bind silent_try) (auto split: sum.split simp: silent_pure)

lemma silent_stage: "silent m \<Longrightarrow> silent (stage_op cfg env stage m)"
  by (auto simp: silent_def stage_op_def Let_def split: option.split)

lemma silent_parts: "silent (on_approvals m)" "silent (on_files n)"
  by (simp_all add: silent_def)

lemmas silent_intros = silent_pure silent_bind silent_catch silent_stage silent_parts

lemma silent_parameters: "silent (execution_parameters cfg env f ps)"
  unfolding execution_parameters_def
  by (auto split: option.split py_value.split intro!: silent_intros)

lemma silent_persist: "silent (persist_uncertain_and_reconcile cfg env i ps m)"
  unfolding persist_uncertain_and_reconcile_def service_reconcile_def
  by (intro silent_intros silent_try) (auto split: sum.split intro!: silent_intros)

lemma silent_complete: "silent (complete_write cfg env i ps r)"
  unfolding complete_write_def
  by (intro silent_intros silent_persist) (auto intro!: silent_intros)

text \<open>A silent step that comes first has ended well when the whole dispatches.\<close>

lemma bind_sends:
  assumes "silent m" and "app_dispatched (snd (sx_bind m f s)) \<noteq> app_dispatched s"
  shows "\<exists>x t. m s = (Inr x, t) \<and> app_dispatched t = app_dispatched s \<and> snd (sx_bind m f s) = snd (f x t)"
proof (cases "m s")
  case (Pair r t)
  with assms(1) have t: "app_dispatched t = app_dispatched s" by (metis silent_def snd_conv)
  from assms(2) Pair t obtain x where "r = Inr x" by (cases r) (auto simp: sx_bind_def)
  with Pair t show ?thesis by (simp add: sx_bind_def)
qed

lemma then_silent:
  assumes "\<And>x. silent (f x)"
  shows "app_dispatched (snd (sx_bind m f s)) = app_dispatched (snd (m s))"
  using assms by (auto simp: silent_def sx_bind_def split: prod.split sum.split)

text \<open>What is executed: the parameters, with the capability of an upload in place of its identifier.\<close>

definition delivered_parameters :: "string \<Rightarrow> py_mapping \<Rightarrow> py_mapping \<Rightarrow> bool" where
  "delivered_parameters f ps xps \<longleftrightarrow> (if f = ''EMP-DOC-002''
     then \<forall>k. k \<noteq> ''upload_id'' \<and> k \<notin> set DOCUMENT_EXECUTION_ONLY_PARAMETERS \<longrightarrow> map_of xps k = map_of ps k
     else xps = ps)"

lemma delivered_execution_parameters:
  assumes "execution_parameters cfg env f ps s = (Inr xps, t)"
  shows "delivered_parameters f ps xps"
  using assms
  by (auto simp: execution_parameters_def delivered_parameters_def DOCUMENT_EXECUTION_ONLY_PARAMETERS_def
      sx_bind_Inr sx_return_def sx_raise_def delete_conv' map_of_update split: if_splits option.splits py_value.splits)

lemma attempt_sends:
  assumes "app_dispatched (snd (attempt_write cfg env action b ps s)) \<noteq> app_dispatched s"
  shows "\<exists>act. prepare_execution (ap_dic cfg) (we_now env) b ps = Inr act
    \<and> app_dispatched (snd (attempt_write cfg env action b ps s)) = app_dispatched s
        @ [\<lparr>di_action_id = pa_action_id b, di_idempotency_key = pa_idempotency_key b, di_action = act,
            di_outcome = we_execute env act\<rparr>]"
proof (cases "pa_function_id action = ''EMP-EXPORT-001''")
  case True
  have "silent (attempt_write cfg env action b ps)"
    unfolding attempt_write_def using True by (auto intro!: silent_intros)
  with assms show ?thesis by (simp add: silent_def)
next
  case False
  have "snd (attempt_write cfg env action b ps s) = snd (service_execute cfg env b ps s)"
    using False by (simp add: attempt_write_def sx_bind_def sx_return_def case_prod_beta split: sum.split)
  with assms show ?thesis
    by (cases "prepare_execution (ap_dic cfg) (we_now env) b ps")
      (simp_all add: service_execute_def sx_bind_def sx_lift_def dispatch_write_def)
qed

lemma section_sends:
  assumes "app_dispatched (snd (execute_write_critical_section cfg env action parameters s)) \<noteq> app_dispatched s"
  shows "\<exists>fp b t xps act.
      stage_op cfg env BeginStage (on_approvals (begin_execution (we_begin env) (pa_action_id action) fp)) s = (Inr b, t)
    \<and> delivered_parameters (pa_function_id action) parameters xps
    \<and> prepare_execution (ap_dic cfg) (we_now env) b xps = Inr act
    \<and> app_dispatched (snd (execute_write_critical_section cfg env action parameters s)) = app_dispatched s
        @ [\<lparr>di_action_id = pa_action_id b, di_idempotency_key = pa_idempotency_key b, di_action = act,
            di_outcome = we_execute env act\<rparr>]"
proof -
  let ?i = "pa_action_id action"
  let ?claiming = "\<lambda>fp. stage_op cfg env BeginStage (on_approvals (begin_execution (we_begin env) ?i fp))"
  let ?failed = "\<lambda>e. sx_bind (stage_op cfg env PreparationFailedStage (on_approvals (complete_failure ?i
    ''deterministic preparation failed before dispatch'' False))) (\<lambda>_. sx_raise e) :: py_mapping app_op"
  let ?prepare = "catch_exception (execution_parameters cfg env (pa_function_id action) parameters) ?failed"
  let ?rest = "\<lambda>xps r. case r of
       Inl e \<Rightarrow> if e = WCancelled then sx_raise e
         else if e = WAmbiguous then persist_uncertain_and_reconcile cfg env ?i xps
           ''write outcome uncertain; reconciliation required''
         else sx_bind (stage_op cfg env FailedStage (on_approvals (complete_failure ?i
             ''deterministic execution failed before a verified result'' False))) (\<lambda>_. sx_raise e)
     | Inr (Exported completed) \<Rightarrow> sx_return completed
     | Inr (Written result) \<Rightarrow> complete_write cfg env ?i xps result"
  let ?tail = "\<lambda>b xps. sx_bind (sx_try (attempt_write cfg env action b xps)) (?rest xps)"
  have whole: "execute_write_critical_section cfg env action parameters = sx_bind (sx_lift (we_fingerprint env))
      (\<lambda>fp. sx_bind (?claiming fp) (\<lambda>b. sx_bind ?prepare (?tail b)))"
    by (simp add: execute_write_critical_section_def Let_def)
  have rest: "silent (?rest xps r)" for xps r
    by (auto split: sum.split attempt_result.split intro!: silent_intros silent_persist silent_complete)
  have claim: "silent (?claiming fp)" for fp by (intro silent_stage silent_parts)
  have prepare: "silent ?prepare" by (intro silent_catch silent_parameters silent_intros)
  from bind_sends [OF silent_pure(3) assms [unfolded whole]] obtain fp s0 where fp: "sx_lift (we_fingerprint env) s = (Inr fp, s0)"
    "app_dispatched s0 = app_dispatched s"
    "snd (execute_write_critical_section cfg env action parameters s)
      = snd (sx_bind (?claiming fp) (\<lambda>b. sx_bind ?prepare (?tail b)) s0)"
    unfolding whole by blast
  have s0: "s0 = s" using fp(1) by (simp add: sx_lift_def)
  have "app_dispatched (snd (sx_bind (?claiming fp) (\<lambda>b. sx_bind ?prepare (?tail b)) s)) \<noteq> app_dispatched s"
    using assms fp(3) s0 by simp
  from bind_sends [OF claim this] obtain b t where b: "?claiming fp s = (Inr b, t)" "app_dispatched t = app_dispatched s"
    "snd (sx_bind (?claiming fp) (\<lambda>b. sx_bind ?prepare (?tail b)) s) = snd (sx_bind ?prepare (?tail b) t)"
    by blast
  have "app_dispatched (snd (sx_bind ?prepare (?tail b) t)) \<noteq> app_dispatched t"
    using assms fp(3) s0 b by simp
  from bind_sends [OF prepare this] obtain xps u where x: "?prepare t = (Inr xps, u)" "app_dispatched u = app_dispatched t"
    "snd (sx_bind ?prepare (?tail b) t) = snd (?tail b xps u)"
    by blast
  have "\<exists>v. execution_parameters cfg env (pa_function_id action) parameters t = (Inr xps, v)"
    using x(1) by (auto simp: catch_exception_def sx_bind_def sx_try_def sx_raise_def sx_return_def
        split: prod.splits sum.splits if_splits)
  then have delivered: "delivered_parameters (pa_function_id action) parameters xps"
    using delivered_execution_parameters by blast
  have sent: "app_dispatched (snd (?tail b xps u)) = app_dispatched (snd (attempt_write cfg env action b xps u))"
    using then_silent [of "?rest xps", OF rest] by (simp add: sx_try_def case_prod_beta)
  then have "app_dispatched (snd (attempt_write cfg env action b xps u)) \<noteq> app_dispatched u"
    using assms fp(3) s0 b x by simp
  from attempt_sends [OF this] sent b fp(3) s0 x delivered show ?thesis by auto
qed

text \<open>Two records of one action: what was previewed and is to be executed.\<close>

definition same_request :: "pending_action \<Rightarrow> pending_action \<Rightarrow> bool" where
  "same_request a b \<longleftrightarrow> pa_action_id b = pa_action_id a \<and> pa_function_id b = pa_function_id a
     \<and> pa_target_employee_id b = pa_target_employee_id a \<and> pa_requester_id b = pa_requester_id a
     \<and> pa_encrypted_parameters b = pa_encrypted_parameters a \<and> pa_idempotency_key b = pa_idempotency_key a"

lemma same_request_trans: "same_request a b \<Longrightarrow> same_request b c \<Longrightarrow> same_request a c"
  by (simp add: same_request_def)

lemma move_same_request: "action_move a b \<Longrightarrow> same_request a b"
  using action_move_frame by (simp add: same_request_def)

lemma run_same_request:
  assumes "approval_inv t" "repo_get t i = Some a"
  shows "\<exists>b. repo_get (fold (approval_step svc) evs t) i = Some b \<and> same_request a b"
proof -
  from run_get [OF assms, of svc evs] obtain b where
    b: "repo_get (fold (approval_step svc) evs t) i = Some b" "action_evolves\<^sup>*\<^sup>* a b"
    by blast
  from assms(1) have "approval_inv (fold (approval_step svc) evs t)" by (rule run_inv)
  from inv_action [OF this b(1)] inv_action [OF assms] evolves_star [OF b(2)]
  have "same_request a b" by (simp add: same_request_def)
  with b(1) show ?thesis by blast
qed

lemma stage_Inr:
  assumes "stage_op cfg env stage (on_approvals m) s = (Inr b, t)"
  shows "m (fold (approval_step (ap_approvals cfg)) (map user_event (we_meanwhile env stage)) (app_approvals s))
    = (Inr b, app_approvals t)"
  using assms
  by (auto simp: stage_op_def Let_def on_approvals_def sx_zoom_def meanwhile_def split: option.splits prod.splits sum.splits)

definition stored_as :: "string \<Rightarrow> pending_action \<Rightarrow> app_state \<Rightarrow> bool" where
  "stored_as i a s \<longleftrightarrow> app_inv s \<and> (\<exists>b. repo_get (app_approvals s) i = Some b \<and> same_request a b)"

lemma app_inv_approvals: "app_inv s \<Longrightarrow> approval_inv (app_approvals s)"
  by (simp add: app_inv_def logged_def log_ok_def)

text \<open>A claim or a registration returns a record of the request that is in the store.\<close>

lemma begin_same_request:
  assumes "stored_as i a s"
    and "stage_op cfg env stage (on_approvals (begin_execution aenv i fp)) s = (Inr b, t)"
  shows "same_request a b \<and> pa_status b = EXECUTING"
proof -
  let ?t = "fold (approval_step (ap_approvals cfg)) (map user_event (we_meanwhile env stage)) (app_approvals s)"
  from assms(1) obtain a' where a': "repo_get (app_approvals s) i = Some a'" "same_request a a'"
    and inv: "approval_inv (app_approvals s)" by (auto simp: stored_as_def app_inv_approvals)
  from run_same_request [OF inv a'(1)] obtain c where c: "repo_get ?t i = Some c" "same_request a' c" by blast
  from stage_Inr [OF assms(2)] c(1) have "b = with_status c EXECUTING"
    by (auto simp: begin_execution_Inr save_action_Inr)
  with c(2) a'(2) show ?thesis by (simp add: with_status_def same_request_def)
qed

lemma register_same_request:
  assumes "stored_as i a s" and "register_approval cfg env actor i code extra action s = (Inr b, t)"
  shows "same_request a b \<and> stored_as i a t"
proof -
  let ?t = "fold (approval_step (ap_approvals cfg)) (map user_event (we_meanwhile env RegisterStage)) (app_approvals s)"
  let ?who = "int_text (ac_user_id actor)"
  from assms(1) obtain a' where a': "repo_get (app_approvals s) i = Some a'" "same_request a a'"
    and inv: "approval_inv (app_approvals s)" by (auto simp: stored_as_def app_inv_approvals)
  from run_same_request [OF inv a'(1)] obtain c where c: "repo_get ?t i = Some c" "same_request a' c" by blast
  from inv have invt: "approval_inv ?t"
    by (rule run_inv)
  have "app_inv t" using keepsD [OF register_keeps, of s cfg env actor i code extra action] assms
    by (simp add: stored_as_def)
  have "confirm_action (ap_approvals cfg) (we_approval env) i ?who code extra ?t = (Inr b, app_approvals t)
      \<or> approve_action (we_approval env) i ?who (ac_logical_roles actor) ?t = (Inr b, app_approvals t)"
    using assms(2) by (auto simp: register_approval_def Let_def sx_raise_def dest!: stage_Inr split: if_splits)
  then have "same_request c b \<and> (\<exists>ev. app_approvals t = approval_step (ap_approvals cfg) ev ?t)"
  proof
    assume m: "confirm_action (ap_approvals cfg) (we_approval env) i ?who code extra ?t = (Inr b, app_approvals t)"
    then have "\<exists>now. b = confirmed_action c now"
      using c(1) by (auto simp: confirm_action_Inr save_action_Inr)
    moreover have "app_approvals t = approval_step (ap_approvals cfg) (Confirm (we_approval env) i ?who code extra) ?t"
      using m by (simp add: approval_step_def)
    ultimately show ?thesis by (auto simp: same_request_def confirmed_action_def)
  next
    assume m: "approve_action (we_approval env) i ?who (ac_logical_roles actor) ?t = (Inr b, app_approvals t)"
    then have "\<exists>now. b = approved_action c ?who now"
      using c(1) by (auto simp: approve_action_Inr save_action_Inr)
    moreover have "app_approvals t = approval_step (ap_approvals cfg) (Approve (we_approval env) i ?who (ac_logical_roles actor)) ?t"
      using m by (simp add: approval_step_def)
    ultimately show ?thesis by (auto simp: same_request_def approved_action_def Let_def)
  qed
  then obtain ev where b: "same_request c b" and t: "app_approvals t = fold (approval_step (ap_approvals cfg)) [ev] ?t"
    by auto
  from run_same_request [OF invt c(1), of "ap_approvals cfg" "[ev]"] obtain e where
    "repo_get (app_approvals t) i = Some e" "same_request c e" unfolding t by blast
  with b a'(2) c(2) \<open>app_inv t\<close> show ?thesis unfolding stored_as_def by (meson same_request_trans)
qed

lemma prepared_request:
  assumes "prepare_execution svc now p ps = Inr a"
  shows "da_function_id a = pa_function_id p \<and> da_employee_id a = map_option model_trim (pa_target_employee_id p)
    \<and> da_idempotency_key a = model_trim (pa_idempotency_key p)"
  using assms unfolding prepare_execution_def
  by (rule build_prepared_Inr) (auto dest: new_dic_action_Inr)

text \<open>C3: Approval alone does not execute. A command that dispatches anything in any reachable state dispatches
  one write, for the stored action it names. It has registered that action as fully approved,
  decoded its payload to parameters that conform to the catalogue, resolved the requester as of now, who is
  the person, place and channel of the request, and that requester passes every gate of the policy for
  executing this function on this target. What is sent is what the service prepares from the claimed record
  of that action and these parameters, an upload's identifier being replaced by its capability.\<close>

theorem dispatch_needs_live_authorization:
  fixes evs :: "app_event list" and files :: file_state
  defines "s \<equiv> app_run evs (new_app_state files)"
  assumes "app_dispatched (snd (approve_command cfg env actor i code extra s)) \<noteq> app_dispatched s"
  shows "\<exists>before action executing raw stored requester parameters xparameters act.
    repo_get (app_approvals s) i = Some before \<and> same_request before action
    \<and> pa_action_id action = i \<and> pa_status action = APPROVED
    \<and> decode_pending_payload cfg env action = Inr (raw, stored)
    \<and> operation_parameters action raw = Inr parameters
    \<and> live_requester env action stored = Inr requester \<and> requester_bound requester action
    \<and> pd_allowed (evaluate (execution_context cfg requester action parameters))
    \<and> same_request action executing \<and> pa_status executing = EXECUTING
    \<and> delivered_parameters (pa_function_id action) parameters xparameters
    \<and> prepare_execution (ap_dic cfg) (we_now env) executing xparameters = Inr act
    \<and> da_function_id act = pa_function_id action
    \<and> da_employee_id act = map_option model_trim (pa_target_employee_id action)
    \<and> app_dispatched (snd (approve_command cfg env actor i code extra s)) = app_dispatched s
        @ [\<lparr>di_action_id = i, di_idempotency_key = pa_idempotency_key action, di_action = act,
            di_outcome = we_execute env act\<rparr>]"
proof -
  have inv: "app_inv s" unfolding s_def by (rule app_run_inv [OF new_app_inv])
  let ?get = "on_approvals (get_action i sx_return) :: pending_action app_op"
  let ?next = "\<lambda>b. if pa_status b = APPROVED then execute_approved cfg env b else sx_return (Registered b)"
  have whole: "approve_command cfg env actor i code extra = sx_bind ?get (\<lambda>action.
      sx_bind (register_approval cfg env actor i code extra action) ?next)"
    by (simp add: approve_command_def)
  from bind_sends [OF silent_parts(1) assms(2) [unfolded whole]] obtain before s1 where
    got: "?get s = (Inr before, s1)" and s1: "snd (approve_command cfg env actor i code extra s)
      = snd (sx_bind (register_approval cfg env actor i code extra before) ?next s1)"
    unfolding whole by blast
  from got have before: "repo_get (app_approvals s) i = Some before" "s1 = s"
    by (auto simp: on_approvals_def sx_zoom_def get_action_def sx_return_def sx_raise_def split: option.splits)
  from inv_action [OF app_inv_approvals [OF inv] before(1)] have id: "pa_action_id before = i" by simp
  have stored: "stored_as i before s" using inv before(1) by (auto simp: stored_as_def same_request_def)
  have quiet: "silent (register_approval cfg env actor i code extra before)"
    by (simp add: silent_def register_log)
  from assms(2) have "app_dispatched (snd (sx_bind (register_approval cfg env actor i code extra before) ?next s))
      \<noteq> app_dispatched s" unfolding s1 before(2) .
  from bind_sends [OF quiet this] obtain action u where
    reg: "register_approval cfg env actor i code extra before s = (Inr action, u)"
    and u: "app_dispatched u = app_dispatched s"
    and after: "snd (approve_command cfg env actor i code extra s) = snd (?next action u)"
    unfolding s1 before(2) by blast
  note same = register_same_request [OF stored reg]
  from assms(2) have sends: "app_dispatched (snd (?next action u)) \<noteq> app_dispatched u" unfolding after u .
  then have approved: "pa_status action = APPROVED" by (auto simp: sx_return_def split: if_splits)
  with sends have sends: "app_dispatched (snd (execute_approved cfg env action u)) \<noteq> app_dispatched u" by simp
  from execute_unauthorized [OF sends] obtain parameters where
    auth: "authorize_execution cfg env action = Inr parameters" by blast
  have "sx_bind (sx_lift (Inr x)) f = f x" for x and f :: "py_mapping \<Rightarrow> interaction app_op"
    by (simp add: fun_eq_iff sx_bind_def sx_lift_def)
  then have tail: "app_dispatched (snd (execute_approved cfg env action u))
      = app_dispatched (snd (execute_write_critical_section cfg env action parameters u))"
    using then_silent [of "\<lambda>completed. sx_bind (stage_op cfg env AuditStage (sx_return ()))
        (\<lambda>_. sx_return (Outcome completed (pa_status completed = SUCCEEDED)))"
        "execute_write_critical_section cfg env action parameters" u]
    by (simp add: execute_approved_def auth silent_intros)
  from sends have "app_dispatched (snd (execute_write_critical_section cfg env action parameters u)) \<noteq> app_dispatched u"
    unfolding tail .
  from section_sends [OF this] obtain fp executing v xparameters act where
    claim: "stage_op cfg env BeginStage (on_approvals (begin_execution (we_begin env) (pa_action_id action) fp)) u
        = (Inr executing, v)"
    and xs: "delivered_parameters (pa_function_id action) parameters xparameters"
    and act: "prepare_execution (ap_dic cfg) (we_now env) executing xparameters = Inr act"
    and log: "app_dispatched (snd (execute_write_critical_section cfg env action parameters u)) = app_dispatched u
        @ [\<lparr>di_action_id = pa_action_id executing, di_idempotency_key = pa_idempotency_key executing,
            di_action = act, di_outcome = we_execute env act\<rparr>]" by blast
  from same id have aid: "pa_action_id action = i" by (simp add: same_request_def)
  from begin_same_request [of i before u] same claim aid
  have ex: "same_request before executing" "pa_status executing = EXECUTING" by auto
  with same have "same_request action executing" by (simp add: same_request_def)
  moreover have "app_dispatched (snd (approve_command cfg env actor i code extra s)) = app_dispatched s
        @ [\<lparr>di_action_id = i, di_idempotency_key = pa_idempotency_key action, di_action = act,
            di_outcome = we_execute env act\<rparr>]"
    using after approved tail log u ex same id by (simp add: same_request_def)
  moreover have "da_function_id act = pa_function_id action"
    "da_employee_id act = map_option model_trim (pa_target_employee_id action)"
    using prepared_request [OF act] ex(1) same by (simp_all add: same_request_def)
  moreover from authorize_Inr [of cfg env action parameters] auth obtain raw stored requester where
    "decode_pending_payload cfg env action = Inr (raw, stored)" "operation_parameters action raw = Inr parameters"
    "live_requester env action stored = Inr requester" "requester_bound requester action"
    "pd_allowed (evaluate (execution_context cfg requester action parameters))" by blast
  ultimately show ?thesis using before(1) same aid approved ex(2) xs act by blast
qed

theorem dispatch_needs_live_authorization_witness:
  "\<exists>before action requester parameters act. repo_get (app_approvals
        (app_run [Commands demo_app_config demo_calls] (new_app_state demo_files))) demo_id = Some before
     \<and> same_request before action \<and> pa_status action = APPROVED \<and> requester_bound requester action
     \<and> pd_allowed (evaluate (execution_context demo_app_config requester action parameters))
     \<and> da_function_id (act :: dic_action) = pa_function_id action"
proof -
  let ?s = "app_run [Commands demo_app_config demo_calls] (new_app_state demo_files)"
  have "demo_dispatch \<in> set (app_dispatched (snd (approve_command demo_app_config
      demo_write_env demo_approver demo_id '' approve '' None ?s)))"
    using demo_member(1) by (simp add: demo_end_def app_run_def demo_history_def)
  moreover have "app_dispatched ?s = []" by (simp add: app_run_def new_app_state_def)
  ultimately have "app_dispatched (snd (approve_command demo_app_config demo_write_env
      demo_approver demo_id '' approve '' None ?s)) \<noteq> app_dispatched ?s" by force
  from dispatch_needs_live_authorization [OF this] show ?thesis by blast
qed

end
