(* ===== verification/BrowserRuntime.thy ===== *)
theory BrowserRuntime
  imports DicModels
begin

text \<open>
  The coordinator of browser operations (\<^verbatim>\<open>services/browser_runtime.py\<close>): the circuit breaker, the
  bounded retry of reads, the single dispatch of writes. Times are integers of one unit; the delay
  doubles exactly, as a float does while the power of two is finite. What an operation does is one
  outcome per attempt: it returns, raises (a timeout is a raise) or is cancelled, which no handler of
  the source catches. Other operations may use the same breaker while one waits, so an attempt also
  carries what they do to it.
\<close>

section \<open>The circuit breaker\<close>

datatype circuit_state = CIRCUIT_CLOSED | CIRCUIT_OPEN | CIRCUIT_HALF_OPEN

datatype browser_error =
    AmbiguousWriteError
  | TransientError
  | CircuitOpenError string
  | UiChangedError
  | TimeoutFault
  | ConnectionFault
  | ReconciliationRequired string
  | RuntimeFault string
  | ValueFault string
  | OtherFault

record circuit_breaker =
  cb_failure_threshold :: int
  cb_recovery_timeout :: int
  cb_state :: circuit_state
  cb_failures :: int
  cb_opened_at :: "int option"
  cb_half_open_in_flight :: bool

definition new_circuit :: "int \<Rightarrow> int \<Rightarrow> browser_error + circuit_breaker" where
  "new_circuit failure_threshold recovery_timeout =
     (if failure_threshold < 1 \<or> recovery_timeout \<le> 0
      then Inl (ValueFault ''invalid circuit breaker configuration'')
      else Inr \<lparr>cb_failure_threshold = failure_threshold, cb_recovery_timeout = recovery_timeout,
        cb_state = CIRCUIT_CLOSED, cb_failures = 0, cb_opened_at = None,
        cb_half_open_in_flight = False\<rparr>)"

text \<open>The second half of \<open>before_call\<close>: one probe at a time.\<close>

definition admit_probe :: "(circuit_breaker, browser_error, unit) sx" where
  "admit_probe b =
     (if cb_half_open_in_flight b
      then (Inl (CircuitOpenError ''DIC browser half-open probe is already running''), b)
      else (Inr (), b\<lparr>cb_half_open_in_flight := True\<rparr>))"

definition before_call :: "int \<Rightarrow> (circuit_breaker, browser_error, unit) sx" where
  "before_call now b =
     (case cb_state b of
        CIRCUIT_CLOSED \<Rightarrow> (Inr (), b)
      | CIRCUIT_OPEN \<Rightarrow>
          (case cb_opened_at b of
             None \<Rightarrow> (Inl (RuntimeFault ''open circuit has no opening timestamp''), b)
           | Some opened_at \<Rightarrow>
               if now - opened_at < cb_recovery_timeout b
               then (Inl (CircuitOpenError ''DIC browser circuit is open''), b)
               else admit_probe (b\<lparr>cb_state := CIRCUIT_HALF_OPEN\<rparr>))
      | CIRCUIT_HALF_OPEN \<Rightarrow> admit_probe b)"

definition record_success :: "circuit_breaker \<Rightarrow> circuit_breaker" where
  "record_success b = b\<lparr>cb_state := CIRCUIT_CLOSED, cb_failures := 0, cb_opened_at := None,
     cb_half_open_in_flight := False\<rparr>"

definition record_failure :: "int \<Rightarrow> circuit_breaker \<Rightarrow> circuit_breaker" where
  "record_failure now b =
     (let b1 = b\<lparr>cb_half_open_in_flight := False, cb_failures := cb_failures b + 1\<rparr> in
      if cb_state b1 = CIRCUIT_HALF_OPEN \<or> cb_failure_threshold b1 \<le> cb_failures b1
      then b1\<lparr>cb_state := CIRCUIT_OPEN, cb_opened_at := Some now\<rparr> else b1)"

section \<open>The breaker over any interleaving of calls\<close>

text \<open>
  What reaches a breaker: a call asking for leave, a success and a failure, each at any time and in
  any order, since other operations of the same scope run while one waits.
\<close>

datatype breaker_event = Before_call int | Record_success | Record_failure int

definition breaker_step :: "breaker_event \<Rightarrow> circuit_breaker \<Rightarrow> circuit_breaker" where
  "breaker_step ev b = (case ev of
     Before_call now \<Rightarrow> snd (before_call now b)
   | Record_success \<Rightarrow> record_success b
   | Record_failure now \<Rightarrow> record_failure now b)"

fun is_failure :: "breaker_event \<Rightarrow> bool" where
  "is_failure (Record_failure now) = True"
| "is_failure ev = False"

text \<open>The failures of a history since its last success.\<close>

definition recent_failures :: "breaker_event list \<Rightarrow> nat" where
  "recent_failures evs =
     length (filter is_failure (takeWhile (\<lambda>ev. ev \<noteq> Record_success) (rev evs)))"

text \<open>
  The invariant: the breaker is closed exactly while it counted fewer failures than its threshold, a
  half-open breaker has its one probe in flight and no other does, and a breaker that is not closed
  remembers when it opened.
\<close>

definition breaker_ok :: "circuit_breaker \<Rightarrow> bool" where
  "breaker_ok b \<longleftrightarrow> 1 \<le> cb_failure_threshold b \<and> 0 < cb_recovery_timeout b \<and> 0 \<le> cb_failures b
     \<and> (cb_state b = CIRCUIT_CLOSED \<longleftrightarrow> cb_failures b < cb_failure_threshold b)
     \<and> (cb_state b = CIRCUIT_HALF_OPEN \<longleftrightarrow> cb_half_open_in_flight b)
     \<and> (cb_state b = CIRCUIT_CLOSED \<longleftrightarrow> cb_opened_at b = None)"

lemmas breaker_defs = before_call_def admit_probe_def record_success_def record_failure_def

lemma new_circuit_ok: "new_circuit threshold recovery = Inr b \<Longrightarrow> breaker_ok b \<and> cb_failures b = 0
    \<and> cb_failure_threshold b = threshold \<and> cb_recovery_timeout b = recovery"
  by (auto simp: new_circuit_def breaker_ok_def split: if_splits)

lemma record_success_ok [simp]: "breaker_ok b \<Longrightarrow> breaker_ok (record_success b)"
  by (simp add: breaker_ok_def record_success_def)

lemma record_failure_ok [simp]: "breaker_ok b \<Longrightarrow> breaker_ok (record_failure now b)"
  by (cases "cb_state b") (simp_all add: breaker_ok_def record_failure_def Let_def)

lemma before_call_ok [simp]: "breaker_ok b \<Longrightarrow> breaker_ok (snd (before_call now b))"
  by (cases "cb_state b"; cases "cb_opened_at b")
    (simp_all add: breaker_ok_def before_call_def admit_probe_def)

lemma breaker_step_ok [simp]: "breaker_ok b \<Longrightarrow> breaker_ok (breaker_step ev b)"
  by (simp add: breaker_step_def split: breaker_event.split)

lemma before_call_counters [simp]:
  "cb_failures (snd (before_call now b)) = cb_failures b"
  "cb_failure_threshold (snd (before_call now b)) = cb_failure_threshold b"
  "cb_recovery_timeout (snd (before_call now b)) = cb_recovery_timeout b"
  by (simp_all add: before_call_def admit_probe_def split: circuit_state.split option.split)

lemma breaker_step_counters [simp]:
  "cb_failures (breaker_step ev b) = (case ev of Before_call now \<Rightarrow> cb_failures b
     | Record_success \<Rightarrow> 0 | Record_failure now \<Rightarrow> cb_failures b + 1)"
  "cb_failure_threshold (breaker_step ev b) = cb_failure_threshold b"
  "cb_recovery_timeout (breaker_step ev b) = cb_recovery_timeout b"
  by (simp_all add: breaker_step_def record_success_def record_failure_def Let_def
      split: breaker_event.split)

lemma fold_breaker_step:
  assumes "breaker_ok b" "cb_failures b = 0"
  shows "breaker_ok (fold breaker_step evs b)
    \<and> cb_failures (fold breaker_step evs b) = int (recent_failures evs)
    \<and> cb_failure_threshold (fold breaker_step evs b) = cb_failure_threshold b
    \<and> cb_recovery_timeout (fold breaker_step evs b) = cb_recovery_timeout b"
proof (induction evs rule: rev_induct)
  case Nil
  then show ?case using assms by (simp add: recent_failures_def)
next
  case (snoc ev evs)
  then show ?case by (cases ev) (simp_all add: recent_failures_def)
qed

text \<open>Who is admitted: by a sound breaker, and never with an internal error.\<close>

definition admits :: "int \<Rightarrow> circuit_breaker \<Rightarrow> bool" where
  "admits now b \<longleftrightarrow> cb_state b = CIRCUIT_CLOSED
     \<or> (cb_state b = CIRCUIT_OPEN \<and> cb_recovery_timeout b \<le> now - the (cb_opened_at b))"

lemma before_call_admits:
  assumes "breaker_ok b"
  shows "if admits now b then fst (before_call now b) = Inr ()
    else (\<exists>m. fst (before_call now b) = Inl (CircuitOpenError m)) \<and> snd (before_call now b) = b"
  using assms
  by (cases "cb_state b"; cases "cb_opened_at b")
    (auto simp: breaker_ok_def before_call_def admit_probe_def admits_def)

section \<open>Reads and writes\<close>

record read_policy =
  rp_attempts :: nat
  rp_initial_delay :: int
  rp_maximum_delay :: int
  rp_operation_timeout :: int

definition new_read_policy :: "nat \<Rightarrow> int \<Rightarrow> int \<Rightarrow> int \<Rightarrow> browser_error + read_policy" where
  "new_read_policy attempts initial_delay maximum_delay timeout =
     (if attempts < 1 then Inl (ValueFault ''attempts must be positive'')
      else if initial_delay < 0 \<or> maximum_delay < 0
        then Inl (ValueFault ''retry delays cannot be negative'')
      else if timeout \<le> 0 then Inl (ValueFault ''operation timeout must be positive'')
      else Inr \<lparr>rp_attempts = attempts, rp_initial_delay = initial_delay,
        rp_maximum_delay = maximum_delay, rp_operation_timeout = timeout\<rparr>)"

definition retry_delay :: "read_policy \<Rightarrow> nat \<Rightarrow> int" where
  "retry_delay p attempt = min (rp_maximum_delay p) (rp_initial_delay p * 2 ^ (attempt - 1))"

text \<open>\<open>DicCircuitOpenError\<close> is a \<open>DicTransientError\<close>.\<close>

definition retryable :: "browser_error \<Rightarrow> bool" where
  "retryable e = (case e of TransientError \<Rightarrow> True | CircuitOpenError m \<Rightarrow> True
     | TimeoutFault \<Rightarrow> True | ConnectionFault \<Rightarrow> True | _ \<Rightarrow> False)"

definition circuit_failure :: "browser_error \<Rightarrow> bool" where
  "circuit_failure e = (retryable e \<or> e = AmbiguousWriteError \<or> e = UiChangedError)"

datatype 'a op_outcome = Returned 'a | Raised browser_error | Cancelled

datatype 'a run_end = Finished 'a | Failed browser_error | WasCancelled

datatype run_event = Dispatched | Slept int

record 'a attempt =
  at_before :: int
  at_during :: "breaker_event list"
  at_outcome :: "'a op_outcome"
  at_after :: int
  at_pause :: "breaker_event list"

definition record_raised :: "browser_error \<Rightarrow> int \<Rightarrow> circuit_breaker \<Rightarrow> circuit_breaker" where
  "record_raised e now b = (if circuit_failure e then record_failure now b else record_success b)"

function read_loop ::
  "read_policy \<Rightarrow> (nat \<Rightarrow> 'a attempt) \<Rightarrow> nat \<Rightarrow> browser_error option \<Rightarrow> circuit_breaker
    \<Rightarrow> 'a run_end \<times> circuit_breaker \<times> run_event list" where
  "read_loop p env attempt last_error b =
     (if rp_attempts p < attempt
      then (Failed (case last_error of None \<Rightarrow> TransientError | Some e \<Rightarrow> e), b, [])
      else case before_call (at_before (env attempt)) b of
        (Inl e, b1) \<Rightarrow> (Failed e, b1, [])
      | (Inr _, b1) \<Rightarrow> (let b2 = fold breaker_step (at_during (env attempt)) b1; now = at_after (env attempt) in
          case at_outcome (env attempt) of
            Cancelled \<Rightarrow> (WasCancelled, b2, [Dispatched])
          | Returned x \<Rightarrow> (Finished x, record_success b2, [Dispatched])
          | Raised e \<Rightarrow>
              if \<not> retryable e then (Failed e, record_raised e now b2, [Dispatched])
              else let b3 = record_failure now b2 in
                if attempt = rp_attempts p then (Failed e, b3, [Dispatched])
                else case read_loop p env (attempt + 1) (Some e) (fold breaker_step (at_pause (env attempt)) b3) of
                  (r, b', log) \<Rightarrow> (r, b', Dispatched # Slept (retry_delay p attempt) # log)))"
  by pat_completeness auto
termination
  by (relation "measure (\<lambda>(p, env, attempt, e, b). Suc (rp_attempts p) - attempt)") auto

declare read_loop.simps [simp del]

definition run_read ::
  "read_policy \<Rightarrow> (nat \<Rightarrow> 'a attempt) \<Rightarrow> circuit_breaker \<Rightarrow> 'a run_end \<times> circuit_breaker \<times> run_event list" where
  "run_read p env b = read_loop p env 1 None b"

text \<open>\<open>execute_once\<close> of \<open>run_once\<close> and of \<open>run_write\<close>.\<close>

definition execute_once ::
  "'a attempt \<Rightarrow> circuit_breaker \<Rightarrow> 'a run_end \<times> circuit_breaker \<times> run_event list" where
  "execute_once a b =
     (case before_call (at_before a) b of
        (Inl e, b1) \<Rightarrow> (Failed e, b1, [])
      | (Inr _, b1) \<Rightarrow> (let b2 = fold breaker_step (at_during a) b1 in
          case at_outcome a of
            Cancelled \<Rightarrow> (WasCancelled, b2, [Dispatched])
          | Returned x \<Rightarrow> (Finished x, record_success b2, [Dispatched])
          | Raised e \<Rightarrow> (Failed e, record_raised e (at_after a) b2, [Dispatched])))"

definition run_once ::
  "read_policy \<Rightarrow> int option \<Rightarrow> 'a attempt \<Rightarrow> circuit_breaker
    \<Rightarrow> 'a run_end \<times> circuit_breaker \<times> run_event list" where
  "run_once p timeout_seconds a b =
     (let timeout = (case timeout_seconds of None \<Rightarrow> rp_operation_timeout p | Some t \<Rightarrow> t) in
      if timeout \<le> 0 then (Failed (ValueFault ''operation timeout must be positive''), b, [])
      else execute_once a b)"

definition run_write ::
  "'a attempt \<Rightarrow> circuit_breaker \<Rightarrow> 'a run_end \<times> circuit_breaker \<times> run_event list" where
  "run_write a b = execute_once a b"

text \<open>The read after a write: it asks no breaker for leave and records its outcome on its own.\<close>

definition run_reconciliation ::
  "'a attempt \<Rightarrow> circuit_breaker \<Rightarrow> 'a run_end \<times> circuit_breaker \<times> run_event list" where
  "run_reconciliation a b = (let b2 = fold breaker_step (at_during a) b in
     case at_outcome a of
       Cancelled \<Rightarrow> (WasCancelled, b2, [Dispatched])
     | Returned x \<Rightarrow> (Finished x, record_success b2, [Dispatched])
     | Raised e \<Rightarrow> (Failed e, record_failure (at_after a) b2, [Dispatched]))"

definition reconcile_or_raise ::
  "reconciliation_result attempt \<Rightarrow> circuit_breaker
    \<Rightarrow> reconciliation_result run_end \<times> circuit_breaker \<times> run_event list" where
  "reconcile_or_raise a b =
     (case run_reconciliation a b of
        (Finished outcome, b', log) \<Rightarrow>
          (if rr_state outcome = REC_UNKNOWN
           then (Failed (ReconciliationRequired (rr_detail outcome)), b', log)
           else (Finished outcome, b', log))
      | other \<Rightarrow> other)"

text \<open>One breaker per operation name, unless one was injected.\<close>

definition breaker_for ::
  "circuit_breaker option \<Rightarrow> string \<Rightarrow> (string \<times> circuit_breaker) list
    \<Rightarrow> (browser_error + circuit_breaker) \<times> (string \<times> circuit_breaker) list" where
  "breaker_for fixed scope breakers =
     (case fixed of
        Some b \<Rightarrow> (Inr b, breakers)
      | None \<Rightarrow>
          if scope = [] then (Inl (ValueFault ''circuit scope cannot be empty''), breakers)
          else case map_of breakers scope of
            Some b \<Rightarrow> (Inr b, breakers)
          | None \<Rightarrow>
              (case new_circuit 3 30 of
                 Inl e \<Rightarrow> (Inl e, breakers)
               | Inr b \<Rightarrow> (Inr b, breakers @ [(scope, b)])))"


section \<open>What a call makes of its attempts\<close>

definition dispatches :: "run_event list \<Rightarrow> nat" where
  "dispatches log = length (filter ((=) Dispatched) log)"

fun pauses :: "run_event list \<Rightarrow> int list" where
  "pauses [] = []"
| "pauses (Dispatched # log) = pauses log"
| "pauses (Slept d # log) = d # pauses log"

lemma dispatches_simps [simp]:
  "dispatches [] = 0" "dispatches (Dispatched # log) = Suc (dispatches log)"
  "dispatches (Slept d # log) = dispatches log"
  by (simp_all add: dispatches_def)

fun failed_retryably :: "'a op_outcome \<Rightarrow> bool" where
  "failed_retryably (Raised e) = retryable e"
| "failed_retryably _ = False"

fun is_circuit_open :: "browser_error \<Rightarrow> bool" where
  "is_circuit_open (CircuitOpenError m) = True"
| "is_circuit_open _ = False"

text \<open>
  How a read that is at attempt \<open>k\<close> ends after \<open>n\<close> more dispatches: with what the last of them did,
  or refused by the breaker before all attempts are used.
\<close>

definition read_ends :: "nat \<Rightarrow> (nat \<Rightarrow> 'a attempt) \<Rightarrow> nat \<Rightarrow> nat \<Rightarrow> 'a run_end \<Rightarrow> bool" where
  "read_ends attempts env k n r =
     (case r of
        Finished x \<Rightarrow> 0 < n \<and> at_outcome (env (k + n - 1)) = Returned x
      | WasCancelled \<Rightarrow> 0 < n \<and> at_outcome (env (k + n - 1)) = Cancelled
      | Failed e \<Rightarrow>
          (0 < n \<and> at_outcome (env (k + n - 1)) = Raised e \<and> (retryable e \<longrightarrow> k + n - 1 = attempts))
          \<or> (k + n \<le> attempts \<and> is_circuit_open e))"

lemma breaker_ok_fold [simp]: "breaker_ok b \<Longrightarrow> breaker_ok (fold breaker_step evs b)"
  by (induction evs arbitrary: b) simp_all

lemma before_call_cases:
  assumes "breaker_ok b"
  obtains (admitted) b1 where "admits now b" "before_call now b = (Inr (), b1)" "breaker_ok b1"
  | (refused) m where "\<not> admits now b" "before_call now b = (Inl (CircuitOpenError m), b)"
proof (cases "admits now b")
  case True
  then show ?thesis
    using before_call_admits [OF assms, of now] before_call_ok [OF assms, of now] admitted
    by (cases "before_call now b") simp
next
  case False
  then show ?thesis
    using before_call_admits [OF assms, of now] refused by (cases "before_call now b") auto
qed

definition read_contract ::
  "read_policy \<Rightarrow> (nat \<Rightarrow> 'a attempt) \<Rightarrow> nat \<Rightarrow> 'a run_end \<times> circuit_breaker \<times> run_event list \<Rightarrow> bool"
where
  "read_contract p env k result = (case result of (r, b', log) \<Rightarrow>
     breaker_ok b' \<and> k + dispatches log \<le> Suc (rp_attempts p)
     \<and> read_ends (rp_attempts p) env k (dispatches log) r
     \<and> (\<forall>i. Suc i < dispatches log \<longrightarrow> failed_retryably (at_outcome (env (k + i))))
     \<and> pauses log = map (retry_delay p) [k ..< k + length (pauses log)]
     \<and> k + length (pauses log) \<le> rp_attempts p)"

lemma read_spec_retry:
  assumes "read_contract p env (Suc k) (r, b', log)" "failed_retryably (at_outcome (env k))"
  shows "read_contract p env k (r, b', Dispatched # Slept (retry_delay p k) # log)"
proof -
  let ?n = "dispatches log" and ?m = "length (pauses log)"
  have ends: "read_ends (rp_attempts p) env (Suc k) ?n r \<Longrightarrow> read_ends (rp_attempts p) env k (Suc ?n) r"
    by (auto simp: read_ends_def split: run_end.splits)
  have earlier: "failed_retryably (at_outcome (env (k + i)))" if "Suc i < Suc ?n" for i
  proof (cases i)
    case 0
    then show ?thesis using assms(2) by simp
  next
    case (Suc j)
    then have "failed_retryably (at_outcome (env (Suc k + j)))"
      using assms(1) that by (simp add: read_contract_def)
    then show ?thesis by (simp add: Suc)
  qed
  have sleeps: "retry_delay p k # pauses log = map (retry_delay p) [k ..< k + Suc ?m]"
  proof -
    have "pauses log = map (retry_delay p) [Suc k ..< Suc k + ?m]"
      using assms(1) by (simp add: read_contract_def)
    moreover have "[k ..< k + Suc ?m] = k # [Suc k ..< Suc k + ?m]"
      by (simp add: upt_conv_Cons del: upt_Suc)
    ultimately show ?thesis by (simp only: list.map)
  qed
  have bounds: "breaker_ok b'" "k + Suc ?n \<le> Suc (rp_attempts p)" "k + Suc ?m \<le> rp_attempts p"
    using assms(1) by (simp_all add: read_contract_def)
  show ?thesis
    unfolding read_contract_def prod.case dispatches_simps pauses.simps list.size add_0_right add_Suc_right
    using ends earlier sleeps bounds assms(1) by (simp add: read_contract_def del: upt_Suc)
qed

lemma read_loop_spec:
  assumes "breaker_ok b" "k \<le> rp_attempts p"
  shows "read_contract p env k (read_loop p env k e b)"
  using assms
proof (induction "rp_attempts p - k" arbitrary: k e b)
  case 0
  then have k: "k = rp_attempts p" by simp
  show ?case
    by (rule before_call_cases [OF "0.prems"(1), of "at_before (env k)"])
      (use "0.prems" k in \<open>auto simp: read_loop.simps [of p env "rp_attempts p" e b] Let_def read_contract_def
        read_ends_def record_raised_def split: op_outcome.split\<close>)
next
  case (Suc m)
  then have k: "k < rp_attempts p" by simp
  note step = read_loop.simps [of p env k e b]
  show ?case
  proof (rule before_call_cases [OF Suc.prems(1), of "at_before (env k)"])
    fix msg assume "before_call (at_before (env k)) b = (Inl (CircuitOpenError msg), b)"
    then show ?thesis using Suc.prems k by (simp add: step read_contract_def read_ends_def)
  next
    fix b1 assume b1: "before_call (at_before (env k)) b = (Inr (), b1)" "breaker_ok b1"
    let ?b2 = "fold breaker_step (at_during (env k)) b1"
    show ?thesis
    proof (cases "failed_retryably (at_outcome (env k))")
      case False
      then show ?thesis
        using k b1 by (cases "at_outcome (env k)")
          (auto simp: step Let_def read_contract_def read_ends_def record_raised_def)
    next
      case True
      then obtain x where x: "at_outcome (env k) = Raised x" "retryable x"
        by (cases "at_outcome (env k)") simp_all
      let ?b3 = "fold breaker_step (at_pause (env k)) (record_failure (at_after (env k)) ?b2)"
      obtain r b' log where rest: "read_loop p env (Suc k) (Some x) ?b3 = (r, b', log)"
        by (cases "read_loop p env (Suc k) (Some x) ?b3")
      have "read_contract p env (Suc k) (r, b', log)"
        unfolding rest [symmetric] by (rule Suc.hyps) (use Suc.hyps(2) b1 k in simp_all)
      then have "read_contract p env k (r, b', Dispatched # Slept (retry_delay p k) # log)"
        using True by (rule read_spec_retry)
      then show ?thesis using b1 x k by (simp add: step rest Let_def)
    qed
  qed
qed

lemma retry_delay_bounds:
  "0 \<le> rp_initial_delay p \<Longrightarrow> 0 \<le> rp_maximum_delay p
    \<Longrightarrow> 0 \<le> retry_delay p k \<and> retry_delay p k \<le> rp_maximum_delay p"
  by (simp add: retry_delay_def)

lemma new_read_policy_ok: "new_read_policy a i m t = Inr p \<Longrightarrow>
    1 \<le> rp_attempts p \<and> 0 \<le> rp_initial_delay p \<and> 0 \<le> rp_maximum_delay p \<and> rp_attempts p = a"
  by (auto simp: new_read_policy_def split: if_splits)

text \<open>A write, a single operation: dispatched once when the breaker admits it, else not at all.\<close>

definition end_of :: "'a op_outcome \<Rightarrow> 'a run_end" where
  "end_of oc = (case oc of Returned x \<Rightarrow> Finished x | Raised e \<Rightarrow> Failed e | Cancelled \<Rightarrow> WasCancelled)"

lemma execute_once_cases:
  assumes "breaker_ok b"
  shows "case execute_once a b of (r, b', log) \<Rightarrow> breaker_ok b' \<and>
     (if admits (at_before a) b then log = [Dispatched] \<and> r = end_of (at_outcome a)
      else log = [] \<and> (\<exists>m. r = Failed (CircuitOpenError m)) \<and> b' = b)"
  by (rule before_call_cases [OF assms, of "at_before a"])
    (use assms in \<open>auto simp: execute_once_def Let_def record_raised_def end_of_def
      split: op_outcome.split\<close>)

section \<open>Properties\<close>

text \<open>C16: Whatever calls, successes and failures reached a circuit breaker, in any order and at any
  times, it is closed exactly while fewer failures than its threshold followed the last success; it
  admits a call exactly when it is closed or when it is open and the recovery time has passed, so a
  half-open breaker admits no second probe; a refused call changes nothing; and the internal error
  of an open breaker without an opening time never occurs.\<close>

theorem circuit_breaker_sound:
  assumes "new_circuit threshold recovery = Inr b0"
  shows "let b = fold breaker_step evs b0 in
     (cb_state b = CIRCUIT_CLOSED \<longleftrightarrow> int (recent_failures evs) < threshold)
     \<and> (cb_state b = CIRCUIT_HALF_OPEN \<longleftrightarrow> cb_half_open_in_flight b)
     \<and> (if cb_state b = CIRCUIT_CLOSED
           \<or> (cb_state b = CIRCUIT_OPEN \<and> recovery \<le> now - the (cb_opened_at b))
        then fst (before_call now b) = Inr ()
        else (\<exists>m. before_call now b = (Inl (CircuitOpenError m), b)))"
proof -
  let ?b = "fold breaker_step evs b0"
  have b: "breaker_ok ?b" "cb_failures ?b = int (recent_failures evs)"
      "cb_failure_threshold ?b = threshold" "cb_recovery_timeout ?b = recovery"
    using new_circuit_ok [OF assms] fold_breaker_step [of b0 evs] by simp_all
  show ?thesis
    using b before_call_admits [OF b(1), of now]
    by (auto simp: Let_def breaker_ok_def admits_def prod_eq_iff)
qed

theorem circuit_breaker_sound_witness:
  "\<exists>b0. new_circuit 2 30 = Inr b0
     \<and> cb_state (fold breaker_step [Record_failure 5, Record_failure 7] b0) = CIRCUIT_OPEN
     \<and> (\<exists>m. fst (before_call 20 (fold breaker_step [Record_failure 5, Record_failure 7] b0))
           = Inl (CircuitOpenError m))"
proof -
  define b0 where "b0 = \<lparr>cb_failure_threshold = 2, cb_recovery_timeout = 30,
    cb_state = CIRCUIT_CLOSED, cb_failures = 0, cb_opened_at = None, cb_half_open_in_flight = False\<rparr>"
  have new: "new_circuit 2 30 = Inr b0" by (simp add: new_circuit_def b0_def)
  have run: "cb_state (fold breaker_step [Record_failure 5, Record_failure 7] b0) = CIRCUIT_OPEN"
      "cb_opened_at (fold breaker_step [Record_failure 5, Record_failure 7] b0) = Some 7"
    by (simp_all add: b0_def breaker_step_def record_failure_def)
  show ?thesis
    using circuit_breaker_sound [OF new, of "[Record_failure 5, Record_failure 7]" 20] new run
    by (auto simp: Let_def prod_eq_iff)
qed

text \<open>C15: A read ends after at most the configured number of attempts. Every attempt but the last
  ended in an error that may be retried; the read returns what its last attempt did, an error that
  may be retried being returned only when no attempt is left, or the refusal of the breaker. It
  pauses between two attempts only, each time for the delay of that attempt, which lies between zero
  and the configured maximum. The breaker's other users do what they like meanwhile.\<close>

theorem read_retries_bounded:
  assumes "new_read_policy attempts initial_delay maximum_delay timeout = Inr p"
    "new_circuit threshold recovery = Inr b0"
  shows "case run_read p env (fold breaker_step evs b0) of (r, b', log) \<Rightarrow>
     dispatches log \<le> attempts \<and> length (pauses log) < attempts
     \<and> (\<forall>i. 1 \<le> i \<and> i < dispatches log \<longrightarrow> failed_retryably (at_outcome (env i)))
     \<and> (case r of
          Finished x \<Rightarrow> 0 < dispatches log \<and> at_outcome (env (dispatches log)) = Returned x
        | WasCancelled \<Rightarrow> 0 < dispatches log \<and> at_outcome (env (dispatches log)) = Cancelled
        | Failed e \<Rightarrow> (0 < dispatches log \<and> at_outcome (env (dispatches log)) = Raised e
              \<and> (retryable e \<longrightarrow> dispatches log = attempts))
            \<or> (dispatches log < attempts \<and> is_circuit_open e))
     \<and> pauses log = map (retry_delay p) [1 ..< Suc (length (pauses log))]
     \<and> (\<forall>d\<in>set (pauses log). 0 \<le> d \<and> d \<le> rp_maximum_delay p)"
proof -
  let ?b = "fold breaker_step evs b0"
  note p = new_read_policy_ok [OF assms(1)]
  have "breaker_ok ?b" using new_circuit_ok [OF assms(2)] by simp
  then have "read_contract p env 1 (run_read p env ?b)"
    unfolding run_read_def using p by (intro read_loop_spec) simp_all
  moreover obtain r b' log where run: "run_read p env ?b = (r, b', log)"
    by (cases "run_read p env ?b")
  ultimately have ends: "read_contract p env 1 (r, b', log)" by simp
  have retried: "failed_retryably (at_outcome (env i))" if i: "1 \<le> i" "i < dispatches log" for i
  proof -
    from i have "Suc (i - 1) < dispatches log" "1 + (i - 1) = i" by simp_all
    with ends show ?thesis unfolding read_contract_def prod.case by metis
  qed
  have sleeps: "pauses log = map (retry_delay p) [1 ..< Suc (length (pauses log))]"
    using ends by (simp add: read_contract_def del: upt_Suc)
  have small: "0 \<le> d \<and> d \<le> rp_maximum_delay p" if "d \<in> set (pauses log)" for d
  proof -
    from that have "d \<in> set (map (retry_delay p) [1 ..< Suc (length (pauses log))])"
      using sleeps by metis
    then show ?thesis using retry_delay_bounds [of p] p by (auto simp del: upt_Suc)
  qed
  show ?thesis
    unfolding run prod.case
    using ends p retried sleeps small
    by (auto simp: read_contract_def read_ends_def split: run_end.splits simp del: upt_Suc)
qed

theorem read_retries_bounded_witness:
  "\<exists>p b0 b'. new_read_policy 3 1 5 30 = Inr p \<and> new_circuit 3 30 = Inr b0
     \<and> run_read p (\<lambda>i. \<lparr>at_before = 0, at_during = [],
         at_outcome = (if i < 3 then Raised TimeoutFault else Returned ''ok''),
         at_after = 1, at_pause = []\<rparr>) b0
       = (Finished ''ok'', b', [Dispatched, Slept 1, Dispatched, Slept 2, Dispatched])
     \<and> length [1, 2::int] < (3::nat)"
proof -
  define env where "env = (\<lambda>i::nat. \<lparr>at_before = 0, at_during = [],
         at_outcome = (if i < 3 then Raised TimeoutFault else Returned ''ok''),
         at_after = 1, at_pause = []\<rparr>)"
  define p where "p = \<lparr>rp_attempts = 3, rp_initial_delay = 1, rp_maximum_delay = 5,
    rp_operation_timeout = 30\<rparr>"
  define b0 where "b0 = \<lparr>cb_failure_threshold = 3, cb_recovery_timeout = 30,
    cb_state = CIRCUIT_CLOSED, cb_failures = 0, cb_opened_at = None, cb_half_open_in_flight = False\<rparr>"
  have p: "new_read_policy 3 1 5 30 = Inr p" by (simp add: new_read_policy_def p_def)
  have new: "new_circuit 3 30 = Inr b0" by (simp add: new_circuit_def b0_def)
  have run: "\<exists>b'. run_read p env b0
      = (Finished ''ok'', b', [Dispatched, Slept 1, Dispatched, Slept 2, Dispatched])"
    by (simp add: run_read_def read_loop.simps p_def b0_def env_def breaker_defs retryable_def
        retry_delay_def)
  then obtain b' where b': "run_read p env b0
      = (Finished ''ok'', b', [Dispatched, Slept 1, Dispatched, Slept 2, Dispatched])" by blast
  have "length [1, 2::int] < (3::nat)"
    using read_retries_bounded [OF p new, of env "[]"] b' by simp
  then show ?thesis using p new b' unfolding env_def by blast
qed

text \<open>C14: A write, and a read that must not be repeated, is dispatched once when the breaker admits
  it and not at all otherwise; its caller gets exactly what that dispatch did, so an ambiguous write
  is reported and never sent again. A refused call leaves the breaker as it was.\<close>

theorem write_dispatched_at_most_once:
  assumes "new_circuit threshold recovery = Inr b0" "0 < timeout"
  shows "let b = fold breaker_step evs b0 in run_once p (Some timeout) a b = run_write a b
     \<and> (case run_write a b of (r, b', log) \<Rightarrow>
       (if cb_state b = CIRCUIT_CLOSED
           \<or> (cb_state b = CIRCUIT_OPEN \<and> recovery \<le> at_before a - the (cb_opened_at b))
        then log = [Dispatched] \<and> r = (case at_outcome a of
               Returned x \<Rightarrow> Finished x | Raised e \<Rightarrow> Failed e | Cancelled \<Rightarrow> WasCancelled)
        else log = [] \<and> (\<exists>m. r = Failed (CircuitOpenError m)) \<and> b' = b))"
proof -
  let ?b = "fold breaker_step evs b0"
  have b: "breaker_ok ?b" "cb_recovery_timeout ?b = recovery"
    using new_circuit_ok [OF assms(1)] fold_breaker_step [of b0 evs] by simp_all
  have "run_once p (Some timeout) a ?b = run_write a ?b"
    using assms(2) by (simp add: run_once_def run_write_def)
  then show ?thesis
    using execute_once_cases [OF b(1), of a] b(2)
    by (simp add: Let_def run_write_def admits_def end_of_def case_prod_beta)
qed

theorem write_dispatched_at_most_once_witness:
  "\<exists>b0. new_circuit 3 30 = Inr b0 \<and> fst (run_write \<lparr>at_before = 0, at_during = [],
     at_outcome = (Raised AmbiguousWriteError :: nat op_outcome), at_after = 1, at_pause = []\<rparr> b0)
     = Failed AmbiguousWriteError"
proof -
  define b0 where "b0 = \<lparr>cb_failure_threshold = 3, cb_recovery_timeout = 30,
    cb_state = CIRCUIT_CLOSED, cb_failures = 0, cb_opened_at = None, cb_half_open_in_flight = False\<rparr>"
  have new: "new_circuit 3 30 = Inr b0" by (simp add: new_circuit_def b0_def)
  have closed: "cb_state b0 = CIRCUIT_CLOSED" by (simp add: b0_def)
  show ?thesis
    using write_dispatched_at_most_once [OF new zero_less_one, of "[]" undefined
        "\<lparr>at_before = 0, at_during = [], at_outcome = (Raised AmbiguousWriteError :: nat op_outcome),
          at_after = 1, at_pause = []\<rparr>"] new closed
    by (simp add: case_prod_beta)
qed

text \<open>
  A half-open probe that is cancelled records nothing: \<open>except Exception\<close> does not catch
  \<open>CancelledError\<close>. The breaker keeps its probe in flight and refuses every later call.
\<close>

lemma cancelled_probe_refuses_forever:
  assumes "breaker_ok b" "cb_state b = CIRCUIT_OPEN" "admits (at_before a) b"
    "at_outcome a = Cancelled" "at_during a = []"
  shows "\<exists>m. before_call now (fst (snd (run_write a b)))
     = (Inl (CircuitOpenError m), fst (snd (run_write a b)))"
  using assms by (auto simp: run_write_def execute_once_def before_call_def admit_probe_def
      admits_def breaker_ok_def split: option.split)

end
