(* ===== verification/BrowserQueue.thy ===== *)
theory BrowserQueue
  imports Prelude
begin

text \<open>
  The bounded queue of browser operations (\<open>KeyedLockRegistry\<close> and \<open>BrowserOperationQueue\<close> of
  \<^verbatim>\<open>services/browser_runtime.py\<close>) as a transition system. The coroutines \<open>submit\<close>, \<open>_worker\<close> and
  \<open>close\<close> are cut at their suspension points; between two of them the event loop may run any other
  coroutine, so a run is any sequence of steps. \<open>asyncio.Queue\<close> and \<open>asyncio.Lock\<close> do what the
  standard library documents: a put waits for room, a get takes the oldest item, \<open>task_done\<close> counts
  down, and a lock has one holder.
\<close>

section \<open>State\<close>

record work_item =
  wi_id :: nat
  wi_key :: string

datatype future_state = Pending_future | Done_future | Cancelled_future

datatype worker =
    Idle
  | Taken work_item
  | Locking work_item
  | Running work_item
  | Stopped
  | Died

datatype closing = Not_closing | Joining | Sending nat | Gathering | Closed

record browser_queue =
  bq_max_queue_size :: nat
  bq_worker_count :: nat
  bq_putters :: "work_item list"
  bq_queue :: "work_item option list"
  bq_unfinished :: nat
  bq_workers :: "worker list"
  bq_locks :: "string \<Rightarrow> nat option"
  bq_next_id :: nat
  bq_futures :: "nat \<Rightarrow> future_state option"
  bq_executed :: "nat list"
  bq_closing :: closing

definition new_browser_queue :: "nat \<Rightarrow> nat \<Rightarrow> string + browser_queue" where
  "new_browser_queue max_queue_size workers =
     (if max_queue_size < 1 \<or> workers < 1 then Inl ''queue size and workers must be positive''
      else Inr \<lparr>bq_max_queue_size = max_queue_size, bq_worker_count = workers, bq_putters = [],
        bq_queue = [], bq_unfinished = 0, bq_workers = [], bq_locks = \<lambda>_. None, bq_next_id = 0,
        bq_futures = \<lambda>_. None, bq_executed = [], bq_closing = Not_closing\<rparr>)"

section \<open>Steps\<close>

definition start_workers :: "browser_queue \<Rightarrow> browser_queue" where
  "start_workers q =
     (if bq_workers q = [] then q\<lparr>bq_workers := replicate (bq_worker_count q) Idle\<rparr> else q)"

definition ensure_started :: "(browser_queue, string, unit) sx" where
  "ensure_started q =
     (if bq_closing q \<noteq> Not_closing then (Inl ''browser operation queue is closing'', q)
      else (Inr (), start_workers q))"

text \<open>\<open>submit\<close> up to its \<open>put\<close>: the item is made with a fresh future.\<close>

definition new_item :: "string \<Rightarrow> browser_queue \<Rightarrow> browser_queue" where
  "new_item key q = q\<lparr>bq_putters := bq_putters q @ [\<lparr>wi_id = bq_next_id q, wi_key = key\<rparr>],
     bq_futures := (bq_futures q)(bq_next_id q \<mapsto> Pending_future),
     bq_next_id := Suc (bq_next_id q)\<rparr>"

definition submit :: "string \<Rightarrow> (browser_queue, string, nat) sx" where
  "submit key =
     sx_bind (raise_if (key = []) ''operation lock key cannot be empty'') (\<lambda>_.
     sx_bind ensure_started (\<lambda>_.
     sx_bind (sx_gets bq_next_id) (\<lambda>i.
     sx_bind (sx_modify (new_item key)) (\<lambda>_. sx_return i))))"

definition queue_put :: "work_item option \<Rightarrow> browser_queue \<Rightarrow> browser_queue" where
  "queue_put x q = q\<lparr>bq_queue := bq_queue q @ [x], bq_unfinished := Suc (bq_unfinished q)\<rparr>"

definition set_worker :: "nat \<Rightarrow> worker \<Rightarrow> browser_queue \<Rightarrow> browser_queue" where
  "set_worker w x q = q\<lparr>bq_workers := (bq_workers q)[w := x]\<rparr>"

definition task_done :: "browser_queue \<Rightarrow> browser_queue" where
  "task_done q = q\<lparr>bq_unfinished := bq_unfinished q - 1\<rparr>"

definition acquire :: "nat \<Rightarrow> string \<Rightarrow> browser_queue \<Rightarrow> browser_queue" where
  "acquire w key q = q\<lparr>bq_locks := (bq_locks q)(key \<mapsto> w)\<rparr>"

definition release :: "string \<Rightarrow> browser_queue \<Rightarrow> browser_queue" where
  "release key q = q\<lparr>bq_locks := (bq_locks q)(key := None)\<rparr>"

definition set_future :: "nat \<Rightarrow> future_state \<Rightarrow> browser_queue \<Rightarrow> browser_queue" where
  "set_future i x q =
     (if bq_futures q i = Some Pending_future then q\<lparr>bq_futures := (bq_futures q)(i \<mapsto> x)\<rparr> else q)"

definition worker_at :: "browser_queue \<Rightarrow> nat \<Rightarrow> worker \<Rightarrow> bool" where
  "worker_at q w x \<longleftrightarrow> w < length (bq_workers q) \<and> bq_workers q ! w = x"

inductive queue_step :: "browser_queue \<Rightarrow> browser_queue \<Rightarrow> bool" where
  submitted: "submit key q = (Inr i, q') \<Longrightarrow> queue_step q q'"
| put: "bq_putters q = before @ item # after \<Longrightarrow> length (bq_queue q) < bq_max_queue_size q
    \<Longrightarrow> queue_step q (queue_put (Some item) (q\<lparr>bq_putters := before @ after\<rparr>))"
| give_up: "bq_putters q = before @ item # after
    \<Longrightarrow> queue_step q (q\<lparr>bq_putters := before @ after\<rparr>)"
| cancelled: "queue_step q (set_future i Cancelled_future q)"
| take: "worker_at q w Idle \<Longrightarrow> bq_queue q = Some item # items
    \<Longrightarrow> queue_step q (set_worker w (Taken item) (q\<lparr>bq_queue := items\<rparr>))"
| stop: "worker_at q w Idle \<Longrightarrow> bq_queue q = None # items
    \<Longrightarrow> queue_step q (task_done (set_worker w Stopped (q\<lparr>bq_queue := items\<rparr>)))"
| skip: "worker_at q w (Taken item) \<Longrightarrow> bq_futures q (wi_id item) = Some Cancelled_future
    \<Longrightarrow> queue_step q (task_done (set_worker w Idle q))"
| claim: "worker_at q w (Taken item) \<Longrightarrow> bq_futures q (wi_id item) \<noteq> Some Cancelled_future
    \<Longrightarrow> queue_step q (set_worker w (Locking item) q)"
| run: "worker_at q w (Locking item) \<Longrightarrow> bq_locks q (wi_key item) = None
    \<Longrightarrow> queue_step q (acquire w (wi_key item) (set_worker w (Running item)
          (q\<lparr>bq_executed := bq_executed q @ [wi_id item]\<rparr>)))"
| finish: "worker_at q w (Running item)
    \<Longrightarrow> queue_step q (task_done (set_future (wi_id item) Done_future
          (release (wi_key item) (set_worker w Idle q))))"
| die: "worker_at q w (Running item)
    \<Longrightarrow> queue_step q (task_done (release (wi_key item) (set_worker w Died q)))"
| close: "bq_closing q = Not_closing
    \<Longrightarrow> queue_step q (q\<lparr>bq_closing := (if bq_workers q = [] then Closed else Joining)\<rparr>)"
| joined: "bq_closing q = Joining \<Longrightarrow> bq_unfinished q = 0
    \<Longrightarrow> queue_step q (q\<lparr>bq_closing := Sending (length (bq_workers q))\<rparr>)"
| send: "bq_closing q = Sending (Suc n) \<Longrightarrow> length (bq_queue q) < bq_max_queue_size q
    \<Longrightarrow> queue_step q (queue_put None (q\<lparr>bq_closing := Sending n\<rparr>))"
| sent: "bq_closing q = Sending 0 \<Longrightarrow> queue_step q (q\<lparr>bq_closing := Gathering\<rparr>)"
| gathered: "bq_closing q = Gathering \<Longrightarrow> \<forall>x\<in>set (bq_workers q). x = Stopped
    \<Longrightarrow> queue_step q (q\<lparr>bq_closing := Closed, bq_workers := []\<rparr>)"
| gather_failed: "bq_closing q = Gathering \<Longrightarrow> Died \<in> set (bq_workers q)
    \<Longrightarrow> queue_step q (q\<lparr>bq_closing := Closed\<rparr>)"

section \<open>The invariant\<close>

text \<open>Items a worker holds before it runs them, and items a worker is busy with.\<close>

fun held :: "worker \<Rightarrow> work_item list" where
  "held (Taken item) = [item]"
| "held (Locking item) = [item]"
| "held _ = []"

fun busy :: "worker \<Rightarrow> work_item list" where
  "busy (Taken item) = [item]"
| "busy (Locking item) = [item]"
| "busy (Running item) = [item]"
| "busy _ = []"

definition waiting_ids :: "browser_queue \<Rightarrow> nat list" where
  "waiting_ids q = map wi_id (bq_putters q) @ map wi_id (List.map_filter id (bq_queue q))
     @ map wi_id (concat (map held (bq_workers q)))"

definition places :: "nat \<Rightarrow> browser_queue \<Rightarrow> nat" where
  "places i q = count_list (waiting_ids q) i + count_list (bq_executed q) i"

text \<open>An item is at most at one place: waiting somewhere, or run.\<close>

definition once_ok :: "browser_queue \<Rightarrow> bool" where
  "once_ok q \<longleftrightarrow> (\<forall>i. places i q \<le> (if i < bq_next_id q then 1 else 0))"

definition room_ok :: "browser_queue \<Rightarrow> bool" where
  "room_ok q \<longleftrightarrow> length (bq_queue q) \<le> bq_max_queue_size q
     \<and> bq_unfinished q = length (bq_queue q) + length (concat (map busy (bq_workers q)))"

definition locks_ok :: "browser_queue \<Rightarrow> bool" where
  "locks_ok q \<longleftrightarrow> (\<forall>w item. worker_at q w (Running item) \<longrightarrow> bq_locks q (wi_key item) = Some w
     \<and> wi_id item \<in> set (bq_executed q))"

definition futures_ok :: "browser_queue \<Rightarrow> bool" where
  "futures_ok q \<longleftrightarrow> (\<forall>i. bq_futures q i = Some Done_future \<longrightarrow> i \<in> set (bq_executed q))"

definition queue_ok :: "browser_queue \<Rightarrow> bool" where
  "queue_ok q \<longleftrightarrow> once_ok q \<and> room_ok q \<and> locks_ok q \<and> futures_ok q"

lemmas queue_step_defs = queue_put_def set_worker_def task_done_def acquire_def release_def
  set_future_def

lemma length_concat_update:
  "w < length ws \<Longrightarrow> length (concat (map f (ws[w := x]))) + length (f (ws ! w))
    = length (concat (map f ws)) + length (f x)"
proof (induction ws arbitrary: w)
  case (Cons y ys)
  then show ?case by (cases w) simp_all
qed simp

lemma count_concat_update:
  "w < length ws \<Longrightarrow> count_list (map g (concat (map f (ws[w := x])))) i + count_list (map g (f (ws ! w))) i
    = count_list (map g (concat (map f ws))) i + count_list (map g (f x)) i"
proof (induction ws arbitrary: w)
  case (Cons y ys)
  then show ?case by (cases w) (simp_all add: count_list_append)
qed simp

lemma places_simps [simp]:
  "places i (task_done q) = places i q" "places i (release k q) = places i q"
  "places i (acquire w k q) = places i q" "places i (set_future j x q) = places i q"
  "places i (q\<lparr>bq_closing := c\<rparr>) = places i q"
  by (simp_all add: places_def waiting_ids_def queue_step_defs)

lemma places_worker:
  "worker_at q w y \<Longrightarrow> places i (set_worker w x q) + count_list (map wi_id (held y)) i
    = places i q + count_list (map wi_id (held x)) i"
  using count_concat_update [of w "bq_workers q" wi_id held x i]
  by (simp add: places_def waiting_ids_def worker_at_def set_worker_def count_list_append)

lemma held_replicate [simp]: "concat (map held (replicate n Idle)) = []"
  by (induction n) simp_all

lemma busy_replicate [simp]: "concat (map busy (replicate n Idle)) = []"
  by (induction n) simp_all

lemma submit_Inr:
  "submit key q = (Inr i, q') \<longleftrightarrow> key \<noteq> [] \<and> bq_closing q = Not_closing \<and> i = bq_next_id (start_workers q)
    \<and> q' = new_item key (start_workers q)"
  by (auto simp: submit_def ensure_started_def sx_simps)

lemma submit_refused: "submit key q = (Inl e, q') \<Longrightarrow> q' = q"
  by (auto simp: submit_def ensure_started_def sx_simps split: if_splits)

lemma worker_at_simps [simp]: "worker_at (q\<lparr>bq_queue := x\<rparr>) w y = worker_at q w y"
  "worker_at (q\<lparr>bq_executed := e\<rparr>) w y = worker_at q w y"
  by (simp_all add: worker_at_def)

lemma places_parts:
  "places i (q\<lparr>bq_putters := before @ after\<rparr>) + count_list (map wi_id (bq_putters q)) i
    = places i q + count_list (map wi_id (before @ after)) i"
  "places i (q\<lparr>bq_queue := items\<rparr>) + count_list (map wi_id (List.map_filter id (bq_queue q))) i
    = places i q + count_list (map wi_id (List.map_filter id items)) i"
  "places i (q\<lparr>bq_executed := e\<rparr>) + count_list (bq_executed q) i = places i q + count_list e i"
  by (simp_all add: places_def waiting_ids_def count_list_append)

lemma places_put:
  "places i (queue_put (Some item) q) = places i q + count_list [wi_id item] i"
  "places i (queue_put None q) = places i q"
  by (simp_all add: places_def waiting_ids_def queue_put_def count_list_append List.map_filter_def)

lemma next_id_simps [simp]:
  "bq_next_id (queue_put x q) = bq_next_id q" "bq_next_id (set_worker w y q) = bq_next_id q"
  "bq_next_id (task_done q) = bq_next_id q" "bq_next_id (acquire w k q) = bq_next_id q"
  "bq_next_id (release k q) = bq_next_id q" "bq_next_id (set_future j f q) = bq_next_id q"
  by (simp_all add: queue_step_defs)

lemma places_step:
  assumes "queue_step q q'"
  shows "(\<exists>key i. submit key q = (Inr i, q')) \<or> (bq_next_id q' = bq_next_id q \<and> places i q' \<le> places i q)"
  using assms
proof (induction rule: queue_step.induct)
  case (put q before item after)
  then show ?case
    using places_parts(1) [of i before after q] places_put(1) [of i item "q\<lparr>bq_putters := before @ after\<rparr>"]
    by (intro disjI2) (simp add: count_list_append split: if_splits)
next
  case (give_up q before item after)
  then show ?case
    using places_parts(1) [of i before after q] by (intro disjI2) (simp add: count_list_append split: if_splits)
next
  case (take q w item items)
  then show ?case
    using places_worker [of "q\<lparr>bq_queue := items\<rparr>" w Idle i "Taken item"]
      places_parts(2) [of i items q]
    by (intro disjI2) (simp add: List.map_filter_def split: if_splits)
next
  case (stop q w items)
  then show ?case
    using places_worker [of "q\<lparr>bq_queue := items\<rparr>" w Idle i Stopped] places_parts(2) [of i items q]
    by (intro disjI2) (simp add: List.map_filter_def split: if_splits)
next
  case (skip q w item)
  then show ?case using places_worker [of q w "Taken item" i Idle]
    by (intro disjI2) (simp add: split: if_splits)
next
  case (claim q w item)
  then show ?case using places_worker [of q w "Taken item" i "Locking item"]
    by (intro disjI2) (simp add: split: if_splits)
next
  case (run q w item)
  then show ?case
    using places_worker [of "q\<lparr>bq_executed := bq_executed q @ [wi_id item]\<rparr>" w "Locking item" i "Running item"]
      places_parts(3) [of i "bq_executed q @ [wi_id item]" q]
    by (intro disjI2) (simp add: count_list_append split: if_splits)
next
  case (finish q w item)
  then show ?case using places_worker [of q w "Running item" i Idle]
    by (intro disjI2) (simp add: split: if_splits)
next
  case (die q w item)
  then show ?case using places_worker [of q w "Running item" i Died]
    by (intro disjI2) (simp add: split: if_splits)
next
  case (send q n)
  then show ?case using places_put(2) [of i "q\<lparr>bq_closing := Sending n\<rparr>"] by (intro disjI2) (simp add: split: if_splits)
next
  case (gathered q)
  then show ?case by (intro disjI2) (simp add: places_def waiting_ids_def split: if_splits)
qed auto

lemma once_ok_step:
  assumes "queue_step q q'" "once_ok q"
  shows "once_ok q'"
  unfolding once_ok_def
proof
  fix i
  have before: "places i q \<le> (if i < bq_next_id q then 1 else 0)"
    using assms(2) by (simp add: once_ok_def)
  consider (new) key j where "submit key q = (Inr j, q')"
    | (old) "bq_next_id q' = bq_next_id q" "places i q' \<le> places i q"
    using places_step [OF assms(1), of i] by blast
  then show "places i q' \<le> (if i < bq_next_id q' then 1 else 0)"
  proof cases
    case new
    then have q': "q' = new_item key (start_workers q)" by (simp add: submit_Inr)
    have "places i (start_workers q) = places i q" "bq_next_id (start_workers q) = bq_next_id q"
      by (simp_all add: start_workers_def places_def waiting_ids_def)
    then have "places i q' = places i q + count_list [bq_next_id q] i"
      "bq_next_id q' = Suc (bq_next_id q)"
      by (simp_all add: q' new_item_def places_def waiting_ids_def count_list_append)
    then show ?thesis using before by (simp split: if_splits)
  qed (use before in auto)
qed

lemma busy_update:
  "worker_at q w y \<Longrightarrow> length (concat (map busy ((bq_workers q)[w := x]))) + length (busy y)
    = length (concat (map busy (bq_workers q))) + length (busy x)"
  using length_concat_update [of w "bq_workers q" busy x] by (simp add: worker_at_def)

lemma room_ok_step:
  assumes "queue_step q q'" "room_ok q"
  shows "room_ok q'"
  using assms
proof (induction rule: queue_step.induct)
  case (submitted key q i q')
  then show ?case
    by (auto simp: room_ok_def submit_Inr new_item_def start_workers_def)
next
  case (take q w item items)
  then show ?case using busy_update [of q w Idle "Taken item"]
    by (simp add: room_ok_def set_worker_def)
next
  case (stop q w items)
  then show ?case using busy_update [of q w Idle Stopped]
    by (simp add: room_ok_def set_worker_def task_done_def)
next
  case (skip q w item)
  then show ?case using busy_update [of q w "Taken item" Idle]
    by (simp add: room_ok_def set_worker_def task_done_def)
next
  case (claim q w item)
  then show ?case using busy_update [of q w "Taken item" "Locking item"]
    by (simp add: room_ok_def set_worker_def)
next
  case (run q w item)
  then show ?case using busy_update [of q w "Locking item" "Running item"]
    by (simp add: room_ok_def set_worker_def acquire_def)
next
  case (finish q w item)
  then show ?case using busy_update [of q w "Running item" Idle]
    by (simp add: room_ok_def queue_step_defs)
next
  case (die q w item)
  then show ?case using busy_update [of q w "Running item" Died]
    by (simp add: room_ok_def queue_step_defs)
next
  case (gathered q)
  then have "x = Stopped" if "x \<in> set (bq_workers q)" for x using that by blast
  then have "busy x = []" if "x \<in> set (bq_workers q)" for x using that by fastforce
  with gathered show ?case by (simp add: room_ok_def)
qed (simp_all add: room_ok_def queue_step_defs)

lemma worker_at_set [simp]:
  "worker_at (set_worker w x q) v y
    \<longleftrightarrow> (if v = w then w < length (bq_workers q) \<and> y = x else worker_at q v y)"
  by (auto simp: worker_at_def set_worker_def)

lemma worker_at_other [simp]:
  "worker_at (task_done q) v y = worker_at q v y" "worker_at (acquire w k q) v y = worker_at q v y"
  "worker_at (release k q) v y = worker_at q v y" "worker_at (set_future i f q) v y = worker_at q v y"
  "worker_at (queue_put x q) v y = worker_at q v y"
  "worker_at (q\<lparr>bq_putters := ps\<rparr>) v y = worker_at q v y"
  "worker_at (q\<lparr>bq_closing := c\<rparr>) v y = worker_at q v y"
  by (simp_all add: worker_at_def queue_step_defs)

lemma worker_at_new: "worker_at (new_item key (start_workers q)) v (Running item)
    \<longleftrightarrow> worker_at q v (Running item)"
  by (auto simp: worker_at_def new_item_def start_workers_def)

text \<open>The lock of a running item is held by its worker; so the lock table decides who runs.\<close>

lemma locks_okD:
  "locks_ok q \<Longrightarrow> worker_at q w (Running item) \<Longrightarrow> bq_locks q (wi_key item) = Some w"
  "locks_ok q \<Longrightarrow> worker_at q w (Running item) \<Longrightarrow> wi_id item \<in> set (bq_executed q)"
  by (simp_all add: locks_ok_def)

lemma locks_ok_step:
  assumes "queue_step q q'" "locks_ok q"
  shows "locks_ok q'"
  using assms
proof (induction rule: queue_step.induct)
  case (submitted key q i q')
  then show ?case
    by (simp add: locks_ok_def submit_Inr worker_at_new) (simp add: new_item_def start_workers_def)
next
  case (run q w item)
  have "wi_key other \<noteq> wi_key item" if "worker_at q v (Running other)" for v other
    using that run locks_okD(1) [of q v other] by auto
  with run show ?case by (auto simp: locks_ok_def acquire_def set_worker_def worker_at_def nth_list_update)
next
  case (finish q w item)
  have "wi_key other \<noteq> wi_key item" if "worker_at q v (Running other)" "v \<noteq> w" for v other
    using that finish locks_okD(1) [of q v other] locks_okD(1) [of q w item] by auto
  with finish show ?case by (auto simp: locks_ok_def queue_step_defs worker_at_def nth_list_update)
next
  case (die q w item)
  have "wi_key other \<noteq> wi_key item" if "worker_at q v (Running other)" "v \<noteq> w" for v other
    using that die locks_okD(1) [of q v other] locks_okD(1) [of q w item] by auto
  with die show ?case by (auto simp: locks_ok_def queue_step_defs worker_at_def nth_list_update)
next
  case (gathered q)
  then show ?case by (simp add: locks_ok_def worker_at_def)
qed (auto simp: locks_ok_def queue_step_defs worker_at_def nth_list_update)

lemma futures_ok_step:
  assumes "queue_step q q'" "futures_ok q" "locks_ok q"
  shows "futures_ok q'"
  using assms
  by (induction rule: queue_step.induct)
    (auto simp: futures_ok_def locks_ok_def submit_Inr new_item_def start_workers_def queue_step_defs)

lemma queue_reachable_ok:
  assumes "queue_step\<^sup>*\<^sup>* q0 q" "new_browser_queue n w = Inr q0"
  shows "queue_ok q \<and> bq_max_queue_size q = n"
  using assms(1)
proof (induction rule: rtranclp_induct)
  case base
  then show ?case
    using assms(2) by (auto simp: new_browser_queue_def queue_ok_def once_ok_def places_def
      waiting_ids_def room_ok_def locks_ok_def futures_ok_def worker_at_def List.map_filter_def
      split: if_splits)
next
  case (step q q')
  have "bq_max_queue_size q' = bq_max_queue_size q"
    using step.hyps(2)
    by (induction rule: queue_step.induct)
      (simp_all add: submit_Inr new_item_def start_workers_def queue_step_defs)
  with step show ?case
    using once_ok_step room_ok_step locks_ok_step futures_ok_step by (simp add: queue_ok_def)
qed

lemma distinct_count_le_1: "(\<And>i. count_list xs i \<le> 1) \<Longrightarrow> distinct xs"
proof (induction xs)
  case (Cons x xs)
  have "count_list xs i \<le> 1" for i using Cons.prems [of i] by (simp split: if_splits)
  moreover have "count_list xs x = 0" using Cons.prems [of x] by simp
  ultimately show ?case using Cons.IH by (simp add: count_list_0_iff)
qed simp

text \<open>C17: However the coroutines of the queue interleave, it holds at most its configured number of
  entries, operations on one lock key never run at the same time, every submitted operation is run
  at most once, a call that got a result belongs to an operation that was run, and the queue's count
  of unfinished entries is what is queued or being worked on.\<close>

theorem browser_queue_safe:
  assumes "new_browser_queue n w = Inr q0" "queue_step\<^sup>*\<^sup>* q0 q"
  shows "length (bq_queue q) \<le> n
     \<and> (worker_at q v1 (Running item1) \<and> worker_at q v2 (Running item2)
          \<and> wi_key item1 = wi_key item2 \<longrightarrow> v1 = v2)
     \<and> distinct (bq_executed q) \<and> (\<forall>i\<in>set (bq_executed q). i < bq_next_id q)
     \<and> (bq_futures q i = Some Done_future \<longrightarrow> i \<in> set (bq_executed q))
     \<and> bq_unfinished q = length (bq_queue q) + length (concat (map busy (bq_workers q)))"
proof -
  have q: "once_ok q" "room_ok q" "locks_ok q" "futures_ok q" "bq_max_queue_size q = n"
    using queue_reachable_ok [OF assms(2,1)] by (simp_all add: queue_ok_def)
  have few: "count_list (bq_executed q) j \<le> (if j < bq_next_id q then 1 else 0)" for j
    using q(1) [unfolded once_ok_def places_def, THEN spec, of j] by (rule add_leD2)
  have "count_list (bq_executed q) j \<le> 1" for j
    using few [of j] by (simp split: if_splits)
  then have "distinct (bq_executed q)" by (rule distinct_count_le_1)
  moreover have "j < bq_next_id q" if "j \<in> set (bq_executed q)" for j
  proof (rule ccontr)
    assume "\<not> j < bq_next_id q"
    then have "count_list (bq_executed q) j = 0" using few [of j] by simp
    with that show False by (simp add: count_list_0_iff)
  qed
  moreover have "v1 = v2" if "worker_at q v1 (Running item1) \<and> worker_at q v2 (Running item2)
      \<and> wi_key item1 = wi_key item2"
    using that locks_okD(1) [OF q(3), of v1 item1] locks_okD(1) [OF q(3), of v2 item2] by simp
  moreover have "i \<in> set (bq_executed q)" if "bq_futures q i = Some Done_future"
    using q(4) that by (simp add: futures_ok_def)
  moreover have "length (bq_queue q) \<le> n"
      "bq_unfinished q = length (bq_queue q) + length (concat (map busy (bq_workers q)))"
    using q(2,5) by (simp_all add: room_ok_def)
  ultimately show ?thesis by (intro conjI impI ballI) assumption+
qed

theorem browser_queue_safe_witness:
  "\<exists>q0 q. new_browser_queue 1 1 = Inr q0 \<and> queue_step\<^sup>*\<^sup>* q0 q
     \<and> worker_at q 0 (Running \<lparr>wi_id = 0, wi_key = ''employee''\<rparr>) \<and> distinct (bq_executed q)"
proof -
  define item where "item = \<lparr>wi_id = 0, wi_key = ''employee''\<rparr>"
  obtain q0 where q0: "new_browser_queue 1 1 = Inr q0" by (simp add: new_browser_queue_def)
  define q1 where "q1 = new_item ''employee'' (start_workers q0)"
  define q2 where "q2 = queue_put (Some item) (q1\<lparr>bq_putters := [] @ []\<rparr>)"
  define q3 where "q3 = set_worker 0 (Taken item) (q2\<lparr>bq_queue := []\<rparr>)"
  define q4 where "q4 = set_worker 0 (Locking item) q3"
  define q5 where "q5 = acquire 0 (wi_key item) (set_worker 0 (Running item)
    (q4\<lparr>bq_executed := bq_executed q4 @ [wi_id item]\<rparr>))"
  note states = q1_def q2_def q3_def q4_def q5_def item_def
  have start: "bq_closing q0 = Not_closing" "bq_workers q0 = []" "bq_worker_count q0 = 1"
      "bq_putters q0 = []" "bq_queue q0 = []" "bq_max_queue_size q0 = 1" "bq_next_id q0 = 0"
      "bq_locks q0 = (\<lambda>_. None)"
    using q0 by (auto simp: new_browser_queue_def)
  note run = start new_item_def start_workers_def queue_step_defs worker_at_def
  have "queue_step q0 q1"
    by (rule submitted [where key = "''employee''" and i = 0]) (simp add: submit_Inr q1_def run)
  moreover have "queue_step q1 q2"
    unfolding q2_def by (rule put) (simp_all add: q1_def item_def run)
  moreover have "queue_step q2 q3"
    unfolding q3_def by (rule take) (simp_all add: q2_def q1_def run)
  moreover have "queue_step q3 q4"
    unfolding q4_def by (rule claim) (simp_all add: q3_def q2_def q1_def item_def run)
  moreover have "queue_step q4 q5"
    unfolding q5_def by (rule queue_step.run) (simp_all add: q4_def q3_def q2_def q1_def item_def run)
  ultimately have steps: "queue_step\<^sup>*\<^sup>* q0 q5"
    by (rule converse_rtranclp_into_rtranclp [OF _ converse_rtranclp_into_rtranclp
        [OF _ converse_rtranclp_into_rtranclp [OF _ converse_rtranclp_into_rtranclp
        [OF _ r_into_rtranclp]]]])
  have "worker_at q5 0 (Running item)" by (simp add: states run)
  then show ?thesis
    using browser_queue_safe [OF q0 steps, of 0 item 0 item 0] q0 steps item_def by auto
qed

end
