(* ===== verification/QueueLiveness.thy ===== *)
theory QueueLiveness
  imports BrowserQueue
begin

text \<open>
  The queue of browser operations makes progress. While it is not closing and no worker died, the steps
  of the workers and of the waiting callers (those of \<open>queue_step\<close> that need nobody else, once every
  operation returns) cannot go on for ever, and they end only when every operation that was waiting has
  been answered.
\<close>

section \<open>The steps that serve what was submitted\<close>

inductive work_step :: "browser_queue \<Rightarrow> browser_queue \<Rightarrow> bool" where
  work_put: "bq_putters q = before @ item # after \<Longrightarrow> length (bq_queue q) < bq_max_queue_size q
    \<Longrightarrow> work_step q (queue_put (Some item) (q\<lparr>bq_putters := before @ after\<rparr>))"
| work_take: "worker_at q w Idle \<Longrightarrow> bq_queue q = Some item # items
    \<Longrightarrow> work_step q (set_worker w (Taken item) (q\<lparr>bq_queue := items\<rparr>))"
| work_skip: "worker_at q w (Taken item) \<Longrightarrow> bq_futures q (wi_id item) = Some Cancelled_future
    \<Longrightarrow> work_step q (task_done (set_worker w Idle q))"
| work_claim: "worker_at q w (Taken item) \<Longrightarrow> bq_futures q (wi_id item) \<noteq> Some Cancelled_future
    \<Longrightarrow> work_step q (set_worker w (Locking item) q)"
| work_run: "worker_at q w (Locking item) \<Longrightarrow> bq_locks q (wi_key item) = None
    \<Longrightarrow> work_step q (acquire w (wi_key item) (set_worker w (Running item)
          (q\<lparr>bq_executed := bq_executed q @ [wi_id item]\<rparr>)))"
| work_finish: "worker_at q w (Running item)
    \<Longrightarrow> work_step q (task_done (set_future (wi_id item) Done_future
          (release (wi_key item) (set_worker w Idle q))))"

lemma work_step_queue: "work_step q q' \<Longrightarrow> queue_step q q'"
  by (induction rule: work_step.induct) (blast intro: queue_step.intros)+

lemma work_steps_queue: "work_step\<^sup>*\<^sup>* q q' \<Longrightarrow> queue_step\<^sup>*\<^sup>* q q'"
  by (induction rule: rtranclp_induct) (auto intro: rtranclp.rtrancl_into_rtrancl dest: work_step_queue)

section \<open>They end\<close>

text \<open>How many steps an operation still needs, by where it is.\<close>

fun worker_load :: "worker \<Rightarrow> nat" where
  "worker_load (Taken item) = 3"
| "worker_load (Locking item) = 2"
| "worker_load (Running item) = 1"
| "worker_load _ = 0"

definition workload :: "browser_queue \<Rightarrow> nat" where
  "workload q = 5 * length (bq_putters q) + 4 * length (bq_queue q)
     + sum_list (map worker_load (bq_workers q))"

lemma load_update:
  "worker_at q w x \<Longrightarrow> sum_list (map worker_load ((bq_workers q)[w := y])) + worker_load x
     = sum_list (map worker_load (bq_workers q)) + worker_load y"
proof -
  have "w < length ws \<Longrightarrow> sum_list (map worker_load (ws[w := y])) + worker_load (ws ! w)
      = sum_list (map worker_load ws) + worker_load y" for ws
  proof (induction ws arbitrary: w)
    case (Cons z zs)
    then show ?case by (cases w) auto
  qed simp
  then show "worker_at q w x \<Longrightarrow> ?thesis" by (auto simp: worker_at_def)
qed

lemma work_step_decreases: "work_step q q' \<Longrightarrow> workload q' < workload q"
proof (induction rule: work_step.induct)
  case (work_put q before item after)
  then show ?case by (simp add: workload_def queue_step_defs)
next
  case (work_take q w item items)
  then show ?case using load_update [of q w Idle "Taken item"]
    by (simp add: workload_def queue_step_defs)
next
  case (work_skip q w item)
  then show ?case using load_update [of q w "Taken item" Idle]
    by (simp add: workload_def queue_step_defs)
next
  case (work_claim q w item)
  then show ?case using load_update [of q w "Taken item" "Locking item"]
    by (simp add: workload_def queue_step_defs)
next
  case (work_run q w item)
  then show ?case using load_update [of q w "Locking item" "Running item"]
    by (simp add: workload_def queue_step_defs)
next
  case (work_finish q w item)
  then show ?case using load_update [of q w "Running item" Idle]
    by (simp add: workload_def queue_step_defs)
qed

lemma work_steps_bounded: "(work_step ^^ k) q q' \<Longrightarrow> k + workload q' \<le> workload q"
proof (induction k arbitrary: q')
  case (Suc k)
  then obtain p where "(work_step ^^ k) q p" "work_step p q'" by auto
  with Suc.IH [of p] work_step_decreases [of p q'] show ?case by simp
qed simp

section \<open>They do not end early\<close>

text \<open>A held lock belongs to a worker that is running under it.\<close>

definition holders_ok :: "browser_queue \<Rightarrow> bool" where
  "holders_ok q \<longleftrightarrow> (\<forall>k w. bq_locks q k = Some w
     \<longrightarrow> (\<exists>item. worker_at q w (Running item) \<and> wi_key item = k))"

text \<open>Before \<open>close\<close> nothing asks a worker to stop, and nothing waits for workers that do not exist.\<close>

definition open_ok :: "browser_queue \<Rightarrow> bool" where
  "open_ok q \<longleftrightarrow> 0 < bq_max_queue_size q \<and> 0 < bq_worker_count q
     \<and> (bq_closing q = Not_closing \<longrightarrow> None \<notin> set (bq_queue q) \<and> Stopped \<notin> set (bq_workers q)
          \<and> (bq_workers q = [] \<longrightarrow> bq_putters q = [] \<and> bq_queue q = []))"

text \<open>An operation that was run and is not running has answered its caller, unless its worker died.\<close>

definition answered_ok :: "browser_queue \<Rightarrow> bool" where
  "answered_ok q \<longleftrightarrow> Died \<in> set (bq_workers q)
     \<or> (\<forall>i\<in>set (bq_executed q). bq_futures q i \<in> {Some Done_future, Some Cancelled_future}
          \<or> (\<exists>w item. worker_at q w (Running item) \<and> wi_id item = i))"

text \<open>A waiting operation has a future.\<close>

definition pending_ok :: "browser_queue \<Rightarrow> bool" where
  "pending_ok q \<longleftrightarrow> (\<forall>i. i < bq_next_id q \<longrightarrow> bq_futures q i \<noteq> None)"


lemma died_update: "worker_at q w x \<Longrightarrow> x \<noteq> Died \<Longrightarrow> Died \<in> set (bq_workers q)
    \<Longrightarrow> Died \<in> set ((bq_workers q)[w := y])"
  by (metis in_set_conv_nth length_list_update nth_list_update_neq worker_at_def)

lemma worker_at_inj: "worker_at q w x \<Longrightarrow> worker_at q w y \<Longrightarrow> x = y"
  by (simp add: worker_at_def)

lemma none_running:
  "\<forall>x\<in>set (bq_workers q). x = y \<Longrightarrow> \<forall>item. y \<noteq> Running item \<Longrightarrow> \<not> worker_at q w (Running item)"
  by (metis nth_mem worker_at_def)

lemma holders_ok_step: "queue_step q q' \<Longrightarrow> holders_ok q \<Longrightarrow> locks_ok q \<Longrightarrow> holders_ok q'"
proof (induction rule: queue_step.induct)
  case (submitted key q i q')
  then show ?case
    by (simp add: holders_ok_def submit_Inr worker_at_new) (simp add: new_item_def start_workers_def)
next
  case (gathered q)
  then have "\<not> worker_at q w (Running item)" for w item
    using none_running [of q Stopped] by blast
  with gathered show ?case by (simp add: holders_ok_def)
next
  case (gather_failed q)
  then show ?case by (simp add: holders_ok_def)
qed (fastforce simp: holders_ok_def queue_step_defs worker_at_def nth_list_update split: if_splits)+

lemma open_ok_step: "queue_step q q' \<Longrightarrow> open_ok q \<Longrightarrow> open_ok q'"
proof (induction rule: queue_step.induct)
  case (submitted key q i q')
  then show ?case by (auto simp: open_ok_def submit_Inr new_item_def start_workers_def)
qed (auto simp: open_ok_def queue_step_defs dest: set_update_subset_insert [THEN subsetD])

lemma pending_ok_step: "queue_step q q' \<Longrightarrow> pending_ok q \<Longrightarrow> pending_ok q'"
proof (induction rule: queue_step.induct)
  case (submitted key q i q')
  then show ?case by (auto simp: pending_ok_def submit_Inr new_item_def start_workers_def less_Suc_eq)
qed (auto simp: pending_ok_def queue_step_defs)

lemma once_ok_ids: "once_ok q \<Longrightarrow> i \<in> set (bq_executed q) \<Longrightarrow> i < bq_next_id q"
  using count_list_0_iff [of "bq_executed q" i]
  by (auto simp: once_ok_def places_def dest!: spec [of _ i] split: if_splits)


text \<open>What \<open>answered_ok\<close> says of one operation.\<close>

definition answered :: "browser_queue \<Rightarrow> nat \<Rightarrow> bool" where
  "answered q i \<longleftrightarrow> bq_futures q i = Some Done_future \<or> bq_futures q i = Some Cancelled_future
     \<or> (\<exists>w item. worker_at q w (Running item) \<and> wi_id item = i)"

lemma answered_ok_iff: "answered_ok q \<longleftrightarrow> Died \<in> set (bq_workers q) \<or> (\<forall>i\<in>set (bq_executed q). answered q i)"
  by (simp add: answered_ok_def answered_def)

lemma answered_keeps:
  "\<lbrakk>answered q i; \<And>j. bq_futures q j = Some Done_future \<Longrightarrow> bq_futures q' j = Some Done_future;
    \<And>j. bq_futures q j = Some Cancelled_future \<Longrightarrow> bq_futures q' j = Some Cancelled_future;
    \<And>v item. worker_at q v (Running item) \<Longrightarrow> worker_at q' v (Running item)\<rbrakk> \<Longrightarrow> answered q' i"
  unfolding answered_def by blast

lemma answered_ok_keeps:
  "\<lbrakk>answered_ok q; bq_executed q' = bq_executed q; Died \<in> set (bq_workers q) \<Longrightarrow> Died \<in> set (bq_workers q');
    \<And>j. bq_futures q j = Some Done_future \<Longrightarrow> bq_futures q' j = Some Done_future;
    \<And>j. bq_futures q j = Some Cancelled_future \<Longrightarrow> bq_futures q' j = Some Cancelled_future;
    \<And>v item. worker_at q v (Running item) \<Longrightarrow> worker_at q' v (Running item)\<rbrakk> \<Longrightarrow> answered_ok q'"
  unfolding answered_ok_iff by (metis answered_keeps)

lemma idle_not_running:
  "worker_at q w x \<Longrightarrow> \<forall>item. x \<noteq> Running item \<Longrightarrow> worker_at q v (Running item) \<Longrightarrow> v \<noteq> w"
  by (auto simp: worker_at_def)

lemma answered_ok_step:
  "queue_step q q' \<Longrightarrow> answered_ok q \<Longrightarrow> pending_ok q \<Longrightarrow> once_ok q \<Longrightarrow> answered_ok q'"
proof (induction rule: queue_step.induct)
  case (submitted key q i q')
  then have "answered q j \<Longrightarrow> j < bq_next_id q \<Longrightarrow> answered q' j" for j
    by (simp add: answered_def submit_Inr worker_at_new) (auto simp add: new_item_def start_workers_def)
  moreover have "bq_executed q' = bq_executed q" "Died \<in> set (bq_workers q) \<Longrightarrow> Died \<in> set (bq_workers q')"
    using submitted by (auto simp: submit_Inr new_item_def start_workers_def)
  ultimately show ?case using submitted once_ok_ids by (auto simp: answered_ok_iff)
next
  case (cancelled q i)
  then show ?case by (rule_tac answered_ok_keeps [of q]) (auto simp: set_future_def worker_at_def)
next
  case (take q w item items)
  then show ?case
    using died_update [of q w Idle] idle_not_running [of q w Idle]
    by (rule_tac answered_ok_keeps [of q]) (auto simp: set_worker_def worker_at_def nth_list_update)
next
  case (stop q w items)
  then show ?case
    using died_update [of q w Idle] idle_not_running [of q w Idle]
    by (rule_tac answered_ok_keeps [of q]) (auto simp: queue_step_defs worker_at_def nth_list_update)
next
  case (skip q w item)
  then show ?case
    using died_update [of q w "Taken item"] idle_not_running [of q w "Taken item"]
    by (rule_tac answered_ok_keeps [of q]) (auto simp: queue_step_defs worker_at_def nth_list_update)
next
  case (claim q w item)
  then show ?case
    using died_update [of q w "Taken item"] idle_not_running [of q w "Taken item"]
    by (rule_tac answered_ok_keeps [of q]) (auto simp: queue_step_defs worker_at_def nth_list_update)
next
  case (run q w item)
  let ?p = "set_worker w (Running item) q"
  let ?q = "acquire w (wi_key item) (set_worker w (Running item)
          (q\<lparr>bq_executed := bq_executed q @ [wi_id item]\<rparr>))"
  have "answered_ok ?p"
    using run died_update [of q w "Locking item"] idle_not_running [of q w "Locking item"]
    by (rule_tac answered_ok_keeps [of q]) (auto simp: set_worker_def worker_at_def nth_list_update)
  moreover have "answered ?q i \<longleftrightarrow> answered ?p i" for i
    by (simp add: answered_def queue_step_defs worker_at_def)
  moreover have "answered ?q (wi_id item)" using run.hyps(1)
    by (auto simp: answered_def queue_step_defs worker_at_def)
  ultimately show ?case by (auto simp: answered_ok_iff acquire_def set_worker_def)
next
  case (finish q w item)
  let ?q = "task_done (set_future (wi_id item) Done_future (release (wi_key item) (set_worker w Idle q)))"
  have "answered ?q i" if "answered q i" "i \<in> set (bq_executed q)" for i
  proof (cases "i = wi_id item")
    case True
    have "bq_futures q i \<noteq> None" using that(2) finish.prems once_ok_ids by (auto simp: pending_ok_def)
    then obtain f where "bq_futures q i = Some f" by blast
    then show ?thesis using True by (cases f) (auto simp: answered_def queue_step_defs)
  next
    case False
    then have "bq_futures ?q i = bq_futures q i" by (simp add: queue_step_defs)
    moreover have "worker_at ?q v (Running item')" if "worker_at q v (Running item')" "wi_id item' = i" for v item'
      using that finish.hyps False worker_at_inj [of q v "Running item'" "Running item"] by auto
    ultimately show ?thesis using that(1) unfolding answered_def by metis
  qed
  moreover have "Died \<in> set (bq_workers q) \<Longrightarrow> Died \<in> set (bq_workers ?q)"
    using finish died_update [of q w "Running item"] by (simp add: queue_step_defs)
  moreover have "bq_executed ?q = bq_executed q" by (simp add: queue_step_defs)
  ultimately show ?case using finish.prems(1) unfolding answered_ok_iff by metis
next
  case (die q w item)
  then have "Died \<in> set ((bq_workers q)[w := Died])" by (simp add: worker_at_def set_update_memI)
  then show ?case by (simp add: answered_ok_iff queue_step_defs)
next
  case (gathered q)
  then have "\<not> worker_at q w (Running item)" for w item
    using none_running [of q Stopped] by blast
  with gathered show ?case
    by (rule_tac answered_ok_keeps [of q]) (auto simp: worker_at_def)
qed (auto simp: answered_ok_iff answered_def queue_put_def worker_at_def)


definition live_ok :: "browser_queue \<Rightarrow> bool" where
  "live_ok q \<longleftrightarrow> queue_ok q \<and> holders_ok q \<and> open_ok q \<and> pending_ok q \<and> answered_ok q"

lemma live_ok_step: "queue_step q q' \<Longrightarrow> live_ok q \<Longrightarrow> live_ok q'"
  unfolding live_ok_def queue_ok_def
  by (meson answered_ok_step futures_ok_step holders_ok_step locks_ok_step once_ok_step open_ok_step
      pending_ok_step room_ok_step)

lemma new_queue_fields:
  "new_browser_queue n w = Inr q \<Longrightarrow> bq_max_queue_size q = n \<and> 0 < n \<and> bq_worker_count q = w \<and> 0 < w
     \<and> bq_putters q = [] \<and> bq_queue q = [] \<and> bq_workers q = [] \<and> bq_locks q = (\<lambda>_. None)
     \<and> bq_next_id q = 0 \<and> bq_executed q = []"
  by (auto simp: new_browser_queue_def split: if_splits)

lemma live_ok_new: "new_browser_queue n w = Inr q \<Longrightarrow> live_ok q"
  using queue_reachable_ok [of q q n w] new_queue_fields [of n w q]
  by (simp add: live_ok_def holders_ok_def open_ok_def pending_ok_def answered_ok_def)

lemma live_ok_steps: "queue_step\<^sup>*\<^sup>* q q' \<Longrightarrow> live_ok q \<Longrightarrow> live_ok q'"
  by (induction rule: rtranclp_induct) (auto dest: live_ok_step)

text \<open>The work is done when nothing waits and every worker is idle.\<close>

definition drained :: "browser_queue \<Rightarrow> bool" where
  "drained q \<longleftrightarrow> bq_putters q = [] \<and> bq_queue q = [] \<and> (\<forall>x\<in>set (bq_workers q). x = Idle)"

definition serving :: "browser_queue \<Rightarrow> bool" where
  "serving q \<longleftrightarrow> bq_closing q = Not_closing \<and> Died \<notin> set (bq_workers q)"

lemma worker_atI: "x \<in> set (bq_workers q) \<Longrightarrow> \<exists>w. worker_at q w x"
  by (auto simp: in_set_conv_nth worker_at_def)

lemma serving_progress:
  assumes "live_ok q" "serving q"
  shows "drained q \<or> (\<exists>q'. work_step q q')"
proof (rule disjCI)
  assume stuck: "\<nexists>q'. work_step q q'"
  have idle: "x = Idle" if x: "x \<in> set (bq_workers q)" for x
  proof -
    obtain w where w: "worker_at q w x" using worker_atI [OF x] by blast
    have none: "\<not> worker_at q v (Running item)" for v item using stuck work_finish by blast
    then have free: "bq_locks q k = None" for k
      using assms(1) by (cases "bq_locks q k") (auto simp: live_ok_def holders_ok_def)
    show ?thesis
    proof (cases x)
      case (Taken item)
      then show ?thesis using w stuck work_skip [of q w item] work_claim [of q w item] by blast
    next
      case (Locking item)
      then show ?thesis using w stuck work_run [OF _ free] by blast
    qed (use none w x assms in \<open>auto simp: live_ok_def open_ok_def serving_def\<close>)
  qed
  have open_q: "None \<notin> set (bq_queue q)" "0 < bq_max_queue_size q"
      "bq_workers q = [] \<Longrightarrow> bq_putters q = [] \<and> bq_queue q = []"
    using assms by (simp_all add: live_ok_def open_ok_def serving_def)
  have "bq_queue q = []"
  proof (cases "bq_workers q")
    case (Cons x xs)
    then have "worker_at q 0 Idle" using idle by (simp add: worker_at_def)
    then have "bq_queue q \<noteq> Some item # items" for item items using stuck work_take [of q 0] by blast
    then show ?thesis using open_q(1) by (metis list.exhaust list.set_intros(1) option.exhaust)
  qed (use open_q in simp)
  moreover have "bq_putters q = []"
  proof (cases "bq_putters q")
    case (Cons item items)
    then show ?thesis using stuck work_put [of q "[]" item items] open_q(2) calculation by simp
  qed
  ultimately show "drained q" using idle by (simp add: drained_def)
qed

lemma serving_step: "work_step q q' \<Longrightarrow> serving q \<Longrightarrow> serving q'"
  by (induction rule: work_step.induct)
    (auto simp: serving_def queue_step_defs dest: set_update_subset_insert [THEN subsetD])

section \<open>Every operation is answered\<close>

text \<open>An operation that waits, runs, has run or was cancelled.\<close>

definition outstanding :: "browser_queue \<Rightarrow> nat \<Rightarrow> bool" where
  "outstanding q i \<longleftrightarrow> 0 < places i q \<or> bq_futures q i = Some Cancelled_future"

lemma places_work_step:
  "work_step q q' \<Longrightarrow> places i q' = places i q \<or> bq_futures q i = Some Cancelled_future"
proof (induction rule: work_step.induct)
  case (work_put q before item after)
  then show ?case
    using places_parts(1) [of i before after q] places_put(1) [of i item "q\<lparr>bq_putters := before @ after\<rparr>"]
    by (simp add: count_list_append split: if_splits)
next
  case (work_take q w item items)
  then show ?case
    using places_worker [of "q\<lparr>bq_queue := items\<rparr>" w Idle i "Taken item"]
      places_parts(2) [of i items q]
    by (simp add: List.map_filter_def split: if_splits)
next
  case (work_skip q w item)
  then show ?case using places_worker [of q w "Taken item" i Idle] by (auto split: if_splits)
next
  case (work_claim q w item)
  then show ?case using places_worker [of q w "Taken item" i "Locking item"] by (simp split: if_splits)
next
  case (work_run q w item)
  then show ?case
    using places_worker [of "q\<lparr>bq_executed := bq_executed q @ [wi_id item]\<rparr>" w "Locking item" i "Running item"]
      places_parts(3) [of i "bq_executed q @ [wi_id item]" q]
    by (simp add: count_list_append split: if_splits)
next
  case (work_finish q w item)
  then show ?case using places_worker [of q w "Running item" i Idle] by (simp split: if_splits)
qed

lemma outstanding_step: "work_step q q' \<Longrightarrow> outstanding q i \<Longrightarrow> outstanding q' i"
proof -
  assume step: "work_step q q'" and i: "outstanding q i"
  have "bq_futures q i = Some Cancelled_future \<Longrightarrow> bq_futures q' i = Some Cancelled_future"
    using step by (induction rule: work_step.induct) (auto simp: queue_step_defs)
  then show ?thesis using places_work_step [OF step, of i] i by (auto simp: outstanding_def)
qed

lemma work_steps_keep:
  assumes "work_step\<^sup>*\<^sup>* q q'" "live_ok q" "serving q"
  shows "live_ok q' \<and> serving q' \<and> (\<forall>i. outstanding q i \<longrightarrow> outstanding q' i)"
  using assms(1)
  by (induction rule: rtranclp_induct)
    (use assms(2,3) in \<open>auto dest: work_step_queue serving_step live_ok_step outstanding_step\<close>)

lemma drained_answered:
  assumes "drained q" "live_ok q" "serving q" "outstanding q i"
  shows "bq_futures q i \<in> {Some Done_future, Some Cancelled_future}"
proof -
  have "held x = []" if "x \<in> set (bq_workers q)" for x using that assms(1) by (auto simp: drained_def)
  then have "waiting_ids q = []" using assms(1) by (auto simp: waiting_ids_def drained_def List.map_filter_def)
  then have "i \<in> set (bq_executed q) \<or> bq_futures q i = Some Cancelled_future"
    using assms(4) count_list_0_iff [of "bq_executed q" i] by (auto simp: outstanding_def places_def)
  moreover have "\<not> worker_at q w (Running item)" for w item
    using assms(1) none_running [of q Idle] by (simp add: drained_def)
  ultimately show ?thesis using assms(2,3) by (auto simp: live_ok_def answered_ok_def serving_def)
qed

lemma drained_reached:
  assumes "live_ok q" "serving q"
  shows "\<exists>q'. work_step\<^sup>*\<^sup>* q q' \<and> drained q'"
  using assms
proof (induction "workload q" arbitrary: q rule: less_induct)
  case less
  show ?case
  proof (cases "drained q")
    case False
    then obtain p where p: "work_step q p" using serving_progress less.prems by blast
    then obtain q' where "work_step\<^sup>*\<^sup>* p q'" "drained q'"
      using less.hyps [OF work_step_decreases [OF p]] live_ok_step [OF work_step_queue [OF p]]
        serving_step [OF p] less.prems by blast
    then show ?thesis using p converse_rtranclp_into_rtranclp by metis
  qed auto
qed

text \<open>C18: While the queue is not closing and no worker died, serving what was submitted always ends,
  whatever the order of the steps: a run of the workers and the waiting callers takes at most
  \<open>workload\<close> steps, can always be continued until nothing waits and every worker is idle, and then every
  operation that was waiting or running has been answered or was cancelled by its caller.\<close>

theorem browser_queue_live:
  assumes "new_browser_queue n w = Inr q0" "queue_step\<^sup>*\<^sup>* q0 q"
    "bq_closing q = Not_closing" "Died \<notin> set (bq_workers q)"
  shows "(\<forall>k q'. (work_step ^^ k) q q' \<longrightarrow> k \<le> workload q)
    \<and> (\<exists>q'. work_step\<^sup>*\<^sup>* q q' \<and> drained q')
    \<and> (\<forall>q'. work_step\<^sup>*\<^sup>* q q' \<longrightarrow> drained q' \<or> (\<exists>p. work_step q' p))
    \<and> (\<forall>q' i. work_step\<^sup>*\<^sup>* q q' \<and> drained q' \<and> outstanding q i
         \<longrightarrow> bq_futures q' i \<in> {Some Done_future, Some Cancelled_future})"
proof -
  have q: "live_ok q" "serving q"
    using live_ok_steps [OF assms(2) live_ok_new [OF assms(1)]] assms(3,4) by (simp_all add: serving_def)
  have "k \<le> workload q" if "(work_step ^^ k) q q'" for k q'
    using work_steps_bounded [OF that] by simp
  then show ?thesis
    using drained_reached [OF q] work_steps_keep [OF _ q] serving_progress drained_answered by metis
qed

theorem browser_queue_live_witness:
  "\<exists>q0 q q'. new_browser_queue 1 1 = Inr q0 \<and> submit ''employee'' q0 = (Inr 0, q)
     \<and> work_step\<^sup>*\<^sup>* q q' \<and> drained q' \<and> bq_futures q' 0 \<in> {Some Done_future, Some Cancelled_future}"
proof -
  obtain q0 where q0: "new_browser_queue 1 1 = Inr q0" by (simp add: new_browser_queue_def)
  note start = new_queue_fields [OF q0]
  have closing: "bq_closing q0 = Not_closing" using q0 by (auto simp: new_browser_queue_def)
  define q where "q = new_item ''employee'' (start_workers q0)"
  have submit: "submit ''employee'' q0 = (Inr 0, q)"
    using start closing by (simp add: submit_Inr q_def start_workers_def)
  have q: "bq_closing q = Not_closing" "Died \<notin> set (bq_workers q)"
    using start closing by (simp_all add: q_def new_item_def start_workers_def)
  have "0 < places 0 q"
    using start by (simp add: q_def new_item_def start_workers_def places_def waiting_ids_def)
  then have "outstanding q 0" by (simp add: outstanding_def)
  moreover have steps: "queue_step\<^sup>*\<^sup>* q0 q" using submit by (blast intro: queue_step.submitted)
  obtain q' where "work_step\<^sup>*\<^sup>* q q'" "drained q'"
    using browser_queue_live [OF q0 steps q] by blast
  ultimately show ?thesis using browser_queue_live [OF q0 steps q] q0 submit by blast
qed

end
