(* ===== verification/ApprovalTable.thy ===== *)
theory ApprovalTable
  imports ApprovalProperties UploadStore "HOL-Library.Multiset"
begin

text \<open>
  The SQL repository of the approval workflow (\<open>SqlAlchemyApprovalRepository\<close> of
  \<^verbatim>\<open>approvals/storage.py\<close>) over its three tables, and that it refines the in-memory repository: on every
  call the service makes, in corresponding states, both succeed and correspond afterwards. So what is
  proved of the workflow over the in-memory repository holds of what the tables store. A transaction is
  one step that an error rolls back; \<open>uuid4\<close> and the clock are the environment of the call. The length
  limits of the columns are not modelled.
\<close>

section \<open>Rows\<close>

record decision_row =
  dr_approval_id :: string
  dr_action_id :: string
  dr_approver :: string
  dr_decision :: string
  dr_redacted_reason :: "string option"
  dr_created_at :: py_datetime

record execution_row =
  xr_execution_id :: string
  xr_action_id :: string
  xr_idempotency_key :: string
  xr_status :: string
  xr_started_at :: py_datetime
  xr_completed_at :: "py_datetime option"
  xr_result :: py_value
  xr_postcondition :: py_value
  xr_uncertain_outcome :: bool

record action_row =
  aw_action_id :: string
  aw_correlation_id :: string
  aw_function_id :: string
  aw_requester :: string
  aw_guild_id :: string
  aw_channel_id :: string
  aw_target_employee_id :: "string option"
  aw_encrypted_parameters :: bytes
  aw_redacted_diff :: py_mapping
  aw_motivation :: "string option"
  aw_state_fingerprint :: string
  aw_status :: string
  aw_created_at :: "py_datetime option"
  aw_expires_at :: "py_datetime option"
  aw_approvals_required :: nat
  aw_approvals_received :: nat
  aw_confirmation_salt :: bytes
  aw_confirmation_digest :: bytes
  aw_confirmation_consumed_at :: "py_datetime option"
  aw_idempotency_key :: string
  aw_execution_result :: py_value
  aw_postcondition_result :: py_value
  aw_rejection_reason :: "string option"
  aw_version :: int

record approval_tables =
  at_actions :: "(string \<times> action_row) list"
  at_decisions :: "decision_row list"
  at_executions :: "execution_row list"

definition empty_approval_tables :: approval_tables where
  "empty_approval_tables = \<lparr>at_actions = [], at_decisions = [], at_executions = []\<rparr>"

text \<open>The driver of the timestamp columns, the time, and the draws of \<open>uuid4\<close> in their order.\<close>

record sql_env =
  se_driver :: column_driver
  se_now :: int
  se_id :: "nat \<Rightarrow> string"

definition encode_result :: "string option \<Rightarrow> py_value" where
  "encode_result v = (case v of None \<Rightarrow> PNone | Some x \<Rightarrow> PDict [(PStr ''summary'', PStr x)])"

text \<open>\<open>None\<close> is the \<open>ValueError\<close> of a result this repository did not write.\<close>

definition decode_result :: "py_value \<Rightarrow> string option option" where
  "decode_result v = (case v of
     PNone \<Rightarrow> Some None
   | PDict items \<Rightarrow> (case map_of items (PStr ''summary'') of Some (PStr x) \<Rightarrow> Some (Some x) | _ \<Rightarrow> None)
   | PStr x \<Rightarrow> Some (Some x)
   | _ \<Rightarrow> None)"

lemma decode_encode [simp]: "decode_result (encode_result v) = Some v"
  by (cases v) (simp_all add: decode_result_def encode_result_def)

definition action_status_of :: "string \<Rightarrow> action_status option" where
  "action_status_of v = find (\<lambda>st. status_value st = v)
     [PENDING, PARTIALLY_APPROVED, APPROVED, EXECUTING, SUCCEEDED, FAILED, REJECTED, EXPIRED, STALE,
      UNKNOWN_REQUIRES_RECONCILIATION, RECONCILED_NOT_APPLIED]"

lemma action_status_of_value [simp]: "action_status_of (status_value st) = Some st"
  by (cases st) (simp_all add: action_status_of_def status_value_def)

definition action_row_values :: "column_driver \<Rightarrow> pending_action \<Rightarrow> action_row" where
  "action_row_values drv a =
     \<lparr>aw_action_id = pa_action_id a, aw_correlation_id = pa_correlation_id a,
      aw_function_id = pa_function_id a, aw_requester = pa_requester_id a, aw_guild_id = pa_guild_id a,
      aw_channel_id = pa_channel_id a, aw_target_employee_id = pa_target_employee_id a,
      aw_encrypted_parameters = pa_encrypted_parameters a, aw_redacted_diff = pa_redacted_diff a,
      aw_motivation = pa_motivation a, aw_state_fingerprint = pa_state_fingerprint a,
      aw_status = status_value (pa_status a),
      aw_created_at = Some (column_time drv (pa_created_at a)),
      aw_expires_at = Some (column_time drv (pa_expires_at a)),
      aw_approvals_required = pa_approvals_required a, aw_approvals_received = length (pa_approvals a),
      aw_confirmation_salt = pa_confirmation_salt a, aw_confirmation_digest = pa_confirmation_digest a,
      aw_confirmation_consumed_at = map_option (column_time drv) (pa_confirmation_consumed_at a),
      aw_idempotency_key = pa_idempotency_key a,
      aw_execution_result = encode_result (pa_execution_result a),
      aw_postcondition_result = encode_result (pa_postcondition_result a),
      aw_rejection_reason = pa_rejection_reason a, aw_version = pa_version a\<rparr>"

definition approval_row ::
  "column_driver \<Rightarrow> string \<Rightarrow> string \<Rightarrow> approval_record \<Rightarrow> decision_row" where
  "approval_row drv uuid action_id r =
     \<lparr>dr_approval_id = uuid, dr_action_id = action_id, dr_approver = ar_approver_id r,
      dr_decision = ''APPROVED'', dr_redacted_reason = None,
      dr_created_at = column_time drv (ar_approved_at r)\<rparr>"

definition rejection_row :: "sql_env \<Rightarrow> string \<Rightarrow> string \<Rightarrow> pending_action \<Rightarrow> decision_row" where
  "rejection_row env uuid who a =
     \<lparr>dr_approval_id = uuid, dr_action_id = pa_action_id a, dr_approver = who,
      dr_decision = ''REJECTED'', dr_redacted_reason = pa_rejection_reason a,
      dr_created_at = column_time (se_driver env)
        (case pa_rejected_at a of Some t \<Rightarrow> t | None \<Rightarrow> se_now env)\<rparr>"

section \<open>Rows of an action read back\<close>

definition row_time :: "py_datetime \<Rightarrow> int" where
  "row_time d = (case d of Naive t \<Rightarrow> t | Aware t \<Rightarrow> t)"

definition decisions_of :: "approval_tables \<Rightarrow> string \<Rightarrow> decision_row list" where
  "decisions_of t action_id = filter (\<lambda>d. dr_action_id d = action_id) (at_decisions t)"

definition approvals_from_rows :: "decision_row list \<Rightarrow> approval_record list" where
  "approvals_from_rows rows =
     map (\<lambda>d. \<lparr>ar_approver_id = dr_approver d, ar_approved_at = row_time (dr_created_at d)\<rparr>)
       (filter (\<lambda>d. dr_decision d = ''APPROVED'')
          (sort_key (\<lambda>d. row_time (dr_created_at d)) (sort_key dr_approval_id rows)))"

definition approval_to_domain :: "action_row \<Rightarrow> decision_row list \<Rightarrow> pending_action option" where
  "approval_to_domain w rows =
     (let rejection = find (\<lambda>d. dr_decision d = ''REJECTED'') rows in
      case (as_utc (aw_created_at w), as_utc (aw_expires_at w)) of
        (Some created_at, Some expires_at) \<Rightarrow>
          (case (action_status_of (aw_status w), decode_result (aw_execution_result w),
                 decode_result (aw_postcondition_result w)) of
             (Some status, Some execution_result, Some postcondition_result) \<Rightarrow> Some
               \<lparr>pa_action_id = aw_action_id w, pa_correlation_id = aw_correlation_id w,
                pa_function_id = aw_function_id w, pa_requester_id = aw_requester w,
                pa_guild_id = aw_guild_id w, pa_channel_id = aw_channel_id w,
                pa_target_employee_id = aw_target_employee_id w,
                pa_encrypted_parameters = aw_encrypted_parameters w,
                pa_redacted_diff = aw_redacted_diff w, pa_motivation = aw_motivation w,
                pa_state_fingerprint = aw_state_fingerprint w, pa_status = status,
                pa_created_at = created_at, pa_expires_at = expires_at,
                pa_approvals_required = aw_approvals_required w,
                pa_approvals = approvals_from_rows rows,
                pa_confirmation_salt = aw_confirmation_salt w,
                pa_confirmation_digest = aw_confirmation_digest w,
                pa_confirmation_consumed_at = as_utc (aw_confirmation_consumed_at w),
                pa_idempotency_key = aw_idempotency_key w,
                pa_execution_result = execution_result, pa_postcondition_result = postcondition_result,
                pa_rejection_reason = aw_rejection_reason w,
                pa_rejected_by = map_option dr_approver rejection,
                pa_rejected_at = map_option (\<lambda>d. row_time (dr_created_at d)) rejection,
                pa_version = aw_version w\<rparr>
           | _ \<Rightarrow> None)
      | _ \<Rightarrow> None)"

section \<open>The repository\<close>

text \<open>The decisions of an action that the table has not; \<open>existing\<close> is read before any is added.\<close>

definition missing_decisions ::
  "sql_env \<Rightarrow> pending_action \<Rightarrow> (string \<times> string) set \<Rightarrow> decision_row list" where
  "missing_decisions env a existing =
     (let approvals = filter (\<lambda>r. (ar_approver_id r, ''APPROVED'') \<notin> existing) (pa_approvals a) in
      map (\<lambda>(n, r). approval_row (se_driver env) (se_id env n) (pa_action_id a) r)
        (List.enumerate 0 approvals)
      @ (case pa_rejected_by a of
           None \<Rightarrow> []
         | Some who \<Rightarrow> if (who, ''REJECTED'') \<in> existing then []
             else [rejection_row env (se_id env (length approvals)) who a]))"

text \<open>The constraints of the three tables.\<close>

definition decisions_accepted :: "decision_row list \<Rightarrow> bool" where
  "decisions_accepted rows \<longleftrightarrow> distinct (map dr_approval_id rows)
     \<and> distinct (map (\<lambda>d. (dr_action_id d, dr_approver d)) rows)"

definition key_free :: "approval_tables \<Rightarrow> action_row \<Rightarrow> bool" where
  "key_free t w \<longleftrightarrow> (\<forall>(i, v)\<in>set (at_actions t). i \<noteq> aw_action_id w
     \<longrightarrow> aw_idempotency_key v \<noteq> aw_idempotency_key w)"

definition sql_insert :: "sql_env \<Rightarrow> (approval_tables, pending_action) store_insert" where
  "sql_insert env a t =
     (let w = action_row_values (se_driver env) a; rows = at_decisions t @ missing_decisions env a {} in
      if map_of (at_actions t) (pa_action_id a) \<noteq> None then (Inl DuplicateRecord, t)
      else if \<not> key_free t w then (Inl DuplicateIdempotencyKey, t)
      else if \<not> (1 \<le> aw_version w \<and> decisions_accepted rows) then (Inl ConstraintViolated, t)
      else (Inr (), t\<lparr>at_actions := AList.update (pa_action_id a) w (at_actions t),
              at_decisions := rows\<rparr>))"

definition sql_get :: "approval_tables \<Rightarrow> string \<Rightarrow> pending_action option" where
  "sql_get t action_id = (case map_of (at_actions t) action_id of
     None \<Rightarrow> None | Some w \<Rightarrow> approval_to_domain w (decisions_of t action_id))"

definition sync_execution_row :: "sql_env \<Rightarrow> pending_action \<Rightarrow> execution_row \<Rightarrow> execution_row" where
  "sync_execution_row env a x = x\<lparr>
     xr_status := (if pa_status a = EXECUTING then ''STARTED'' else status_value (pa_status a)),
     xr_result := encode_result (pa_execution_result a),
     xr_postcondition := encode_result (pa_postcondition_result a),
     xr_uncertain_outcome := (pa_status a = UNKNOWN_REQUIRES_RECONCILIATION),
     xr_completed_at := (if pa_status a = EXECUTING then None
        else Some (column_time (se_driver env) (se_now env)))\<rparr>"

definition sync_execution ::
  "sql_env \<Rightarrow> pending_action \<Rightarrow> execution_row list \<Rightarrow> (store_error + execution_row list)" where
  "sync_execution env a rows =
     (if pa_status a \<notin> set EXECUTED_STATUSES then Inr rows
      else if \<not> (\<exists>x\<in>set rows. xr_action_id x = pa_action_id a) then Inl ExecutionNotClaimed
      else Inr (map (\<lambda>x. if xr_action_id x = pa_action_id a then sync_execution_row env a x else x) rows))"

definition sql_replace :: "sql_env \<Rightarrow> (approval_tables, pending_action) store_replace" where
  "sql_replace env a expected_version t =
     (let w = action_row_values (se_driver env) a in
      if pa_version a \<noteq> expected_version + 1 then (Inl VersionNotIncremented, t)
      else case map_of (at_actions t) (pa_action_id a) of
        None \<Rightarrow> (Inl ConcurrentStoreUpdate, t)
      | Some current \<Rightarrow>
          if aw_version current \<noteq> expected_version then (Inl ConcurrentStoreUpdate, t)
          else if \<not> (1 \<le> aw_version w \<and> key_free t w) then (Inl ConstraintViolated, t)
          else let existing = (\<lambda>d. (dr_approver d, dr_decision d)) ` set (decisions_of t (pa_action_id a));
                   rows = at_decisions t @ missing_decisions env a existing in
            if \<not> decisions_accepted rows then (Inl ConstraintViolated, t)
            else case sync_execution env a (at_executions t) of
              Inl e \<Rightarrow> (Inl e, t)
            | Inr executions \<Rightarrow> (Inr (),
                t\<lparr>at_actions := AList.update (pa_action_id a) w (at_actions t),
                  at_decisions := rows, at_executions := executions\<rparr>))"

definition sql_claim :: "sql_env \<Rightarrow> approval_tables store_claim" where
  "sql_claim env key action_id t =
     (if \<not> (\<exists>w. map_of (at_actions t) action_id = Some w \<and> aw_idempotency_key w = key) then (False, t)
      else if \<exists>x\<in>set (at_executions t). xr_action_id x = action_id \<or> xr_idempotency_key x = key
        then (False, t)
      else if \<exists>x\<in>set (at_executions t). xr_execution_id x = se_id env 0 then (False, t)
      else (True, t\<lparr>at_executions := at_executions t @
        [\<lparr>xr_execution_id = se_id env 0, xr_action_id = action_id, xr_idempotency_key = key,
          xr_status = ''CLAIMED'', xr_started_at = column_time (se_driver env) (se_now env),
          xr_completed_at = None, xr_result = PNone, xr_postcondition = PNone,
          xr_uncertain_outcome = False\<rparr>]\<rparr>))"

definition sql_list :: "approval_tables \<Rightarrow> pending_action option list" where
  "sql_list t = map (\<lambda>w. approval_to_domain w (decisions_of t (aw_action_id w)))
     (sort_key (\<lambda>w. case as_utc (aw_created_at w) of None \<Rightarrow> 0 | Some i \<Rightarrow> i)
        (sort_key aw_action_id (map snd (at_actions t))))"

section \<open>Corresponding states\<close>

definition decision_key :: "decision_row \<Rightarrow> string \<times> string \<times> py_datetime" where
  "decision_key d = (dr_approver d, dr_decision d, dr_created_at d)"

definition approval_key :: "column_driver \<Rightarrow> approval_record \<Rightarrow> string \<times> string \<times> py_datetime" where
  "approval_key drv r = (ar_approver_id r, ''APPROVED'', column_time drv (ar_approved_at r))"

definition action_decisions :: "column_driver \<Rightarrow> pending_action \<Rightarrow> (string \<times> string \<times> py_datetime) multiset" where
  "action_decisions drv a = mset (map (approval_key drv) (pa_approvals a))
     + (case (pa_rejected_by a, pa_rejected_at a) of
          (Some who, Some t) \<Rightarrow> {#(who, ''REJECTED'', column_time drv t)#} | _ \<Rightarrow> {#})"

text \<open>What the service keeps of every action, beyond \<open>action_ok\<close>.\<close>

definition row_ok :: "pending_action \<Rightarrow> bool" where
  "row_ok a \<longleftrightarrow> 1 \<le> pa_version a \<and> (pa_rejected_by a = None \<longleftrightarrow> pa_rejected_at a = None)
     \<and> (pa_status a \<noteq> REJECTED \<longrightarrow> pa_rejected_by a = None)"

definition execution_keys :: "execution_row list \<Rightarrow> (string \<times> string) set" where
  "execution_keys rows = (\<lambda>x. (xr_action_id x, xr_idempotency_key x)) ` set rows"

definition represents :: "column_driver \<Rightarrow> approval_mem \<Rightarrow> approval_tables \<Rightarrow> bool" where
  "represents drv m t \<longleftrightarrow> distinct (map fst (at_actions t))
     \<and> (\<forall>i. map_of (at_actions t) i = map_option (action_row_values drv) (repo_get m i))
     \<and> (\<forall>i. image_mset decision_key (mset (decisions_of t i))
          = (case repo_get m i of None \<Rightarrow> {#} | Some a \<Rightarrow> action_decisions drv a))
     \<and> decisions_accepted (at_decisions t)
     \<and> execution_keys (at_executions t) = {(i, k). repo_claims m k = Some i}
     \<and> (\<forall>i a. repo_get m i = Some a \<longrightarrow> row_ok a)"

text \<open>An action up to the order of its approvals, which the table sorts by time.\<close>

definition same_action :: "pending_action \<Rightarrow> pending_action \<Rightarrow> bool" where
  "same_action a b \<longleftrightarrow> b = a\<lparr>pa_approvals := pa_approvals b\<rparr> \<and> mset (pa_approvals b) = mset (pa_approvals a)"

lemma row_time_column [simp]: "row_time (column_time drv t) = t"
  by (cases drv) (simp_all add: row_time_def)

lemma approvals_read:
  assumes "image_mset decision_key (mset rows) = action_decisions drv a"
  shows "mset (approvals_from_rows rows) = mset (pa_approvals a)"
proof -
  define f where "f = (\<lambda>k :: string \<times> string \<times> py_datetime.
    \<lparr>ar_approver_id = fst k, ar_approved_at = row_time (snd (snd k))\<rparr>)"
  have f: "f (ar_approver_id r, ''APPROVED'', column_time drv (ar_approved_at r)) = r" for r
    by (simp add: f_def)
  have "mset (approvals_from_rows rows) = image_mset (\<lambda>d. f (decision_key d))
      (filter_mset (\<lambda>d. fst (snd (decision_key d)) = ''APPROVED'') (mset rows))"
    by (simp add: approvals_from_rows_def decision_key_def f_def mset_filter)
  also have "\<dots> = image_mset f (filter_mset (\<lambda>k. fst (snd k) = ''APPROVED'') (action_decisions drv a))"
    unfolding assms [symmetric] by (simp add: filter_mset_image_mset multiset.map_comp o_def)
  also have "\<dots> = mset (pa_approvals a)"
    by (auto simp: action_decisions_def filter_mset_image_mset multiset.map_comp o_def f approval_key_def
        split: option.splits)
  finally show ?thesis .
qed

lemma rejected_key:
  "k \<in># action_decisions drv a \<Longrightarrow> fst (snd k) = ''REJECTED'' \<Longrightarrow>
    \<exists>who t. pa_rejected_by a = Some who \<and> pa_rejected_at a = Some t \<and> k = (who, ''REJECTED'', column_time drv t)"
  by (auto simp: action_decisions_def approval_key_def split: option.splits)

lemma rejection_read:
  assumes "image_mset decision_key (mset rows) = action_decisions drv a" "row_ok a"
  shows "map_option dr_approver (find (\<lambda>d. dr_decision d = ''REJECTED'') rows) = pa_rejected_by a
    \<and> map_option (\<lambda>d. row_time (dr_created_at d)) (find (\<lambda>d. dr_decision d = ''REJECTED'') rows)
        = pa_rejected_at a"
proof -
  have keys: "decision_key ` set rows = set_mset (action_decisions drv a)"
    unfolding assms(1) [symmetric] by simp
  have rej: "\<exists>who t. pa_rejected_by a = Some who \<and> pa_rejected_at a = Some t
      \<and> decision_key d = (who, ''REJECTED'', column_time drv t)"
    if "d \<in> set rows" "dr_decision d = ''REJECTED''" for d
  proof (rule rejected_key)
    show "decision_key d \<in># action_decisions drv a" using keys that(1) by blast
    show "fst (snd (decision_key d)) = ''REJECTED''" using that(2) by (simp add: decision_key_def)
  qed
  show ?thesis
  proof (cases "find (\<lambda>d. dr_decision d = ''REJECTED'') rows")
    case None
    have "pa_rejected_by a = None"
    proof (rule ccontr)
      assume "pa_rejected_by a \<noteq> None"
      then obtain who t where "pa_rejected_by a = Some who" "pa_rejected_at a = Some t"
        using assms(2) by (auto simp: row_ok_def)
      then have "(who, ''REJECTED'', column_time drv t) \<in> decision_key ` set rows"
        unfolding keys by (simp add: action_decisions_def)
      then obtain d where "d \<in> set rows" "dr_decision d = ''REJECTED''" by (auto simp: decision_key_def)
      then show False using None by (simp add: find_None_iff)
    qed
    then show ?thesis using None assms(2) by (simp add: row_ok_def)
  next
    case (Some d)
    then have "d \<in> set rows" "dr_decision d = ''REJECTED''" by (auto simp: find_Some_iff)
    then obtain who t where "pa_rejected_by a = Some who" "pa_rejected_at a = Some t"
        "decision_key d = (who, ''REJECTED'', column_time drv t)"
      using rej by blast
    then show ?thesis using Some by (simp add: decision_key_def)
  qed
qed

lemma row_read:
  assumes "image_mset decision_key (mset rows) = action_decisions drv a" "row_ok a"
  shows "\<exists>b. approval_to_domain (action_row_values drv a) rows = Some b \<and> same_action a b"
  using rejection_read [OF assms] approvals_read [OF assms(1)]
  by (simp add: approval_to_domain_def Let_def action_row_values_def same_action_def)

lemma get_read:
  "represents drv m t \<Longrightarrow> rel_option same_action (repo_get m i) (sql_get t i)"
  using row_read [of "decisions_of t i" drv]
  by (cases "repo_get m i") (fastforce simp: represents_def sql_get_def)+

section \<open>The calls\<close>

definition fresh_ids :: "sql_env \<Rightarrow> approval_tables \<Rightarrow> bool" where
  "fresh_ids env t \<longleftrightarrow> inj (se_id env) \<and> range (se_id env) \<inter> dr_approval_id ` set (at_decisions t) = {}
     \<and> range (se_id env) \<inter> xr_execution_id ` set (at_executions t) = {}"

text \<open>The next version of an action: its approvals grow, and it may be rejected once.\<close>

definition extends :: "pending_action \<Rightarrow> pending_action \<Rightarrow> bool" where
  "extends a b \<longleftrightarrow> pa_action_id b = pa_action_id a \<and> pa_idempotency_key b = pa_idempotency_key a
     \<and> pa_rejected_by a = None \<and> (\<exists>new. pa_approvals b = pa_approvals a @ new)
     \<and> distinct (approved_by b) \<and> (\<forall>who. pa_rejected_by b = Some who \<longrightarrow> who \<notin> set (approved_by b))"

lemma enumerate_approvals:
  "map decision_key (map (\<lambda>(n, r). approval_row drv (ids n) i r) (List.enumerate k xs)) = map (approval_key drv) xs"
  "map dr_approval_id (map (\<lambda>(n, r). approval_row drv (ids n) i r) (List.enumerate k xs))
     = map ids [k..<k + length xs]"
proof (induction xs arbitrary: k)
  case (Cons x xs)
  {
    case 1
    show ?case using Cons.IH(1) by (simp add: decision_key_def approval_row_def approval_key_def)
  next
    case 2
    have "[k..<Suc (k + length xs)] = k # [Suc k..<Suc (k + length xs)]" by (rule upt_conv_Cons) simp
    then show ?case using Cons.IH(2) [of "Suc k"] by (simp add: approval_row_def del: upt_Suc)
  }
qed simp_all

lemma filter_new:
  assumes "pa_approvals b = pa_approvals a @ new" "distinct (approved_by b)"
  shows "filter (\<lambda>r. (ar_approver_id r, ''APPROVED'')
      \<notin> (\<lambda>r. (ar_approver_id r, ''APPROVED'')) ` set (pa_approvals a)) (pa_approvals b) = new"
proof -
  have "ar_approver_id r \<notin> ar_approver_id ` set (pa_approvals a)" if "r \<in> set new" for r
    using assms that by (auto simp: approved_by_def)
  then show ?thesis unfolding assms(1) filter_append
    by (auto simp: filter_empty_conv filter_id_conv image_iff)
qed

lemma missing_new:
  assumes "extends a b" "row_ok b" "pa_approvals b = pa_approvals a @ new"
    and "existing = (\<lambda>r. (ar_approver_id r, ''APPROVED'')) ` set (pa_approvals a)"
  shows "map decision_key (missing_decisions env b existing) = map (approval_key (se_driver env)) new
      @ (case (pa_rejected_by b, pa_rejected_at b) of
           (Some who, Some t) \<Rightarrow> [(who, ''REJECTED'', column_time (se_driver env) t)] | _ \<Rightarrow> [])"
    and "\<exists>n. map dr_approval_id (missing_decisions env b existing) = map (se_id env) [0..<n]"
    and "\<forall>d\<in>set (missing_decisions env b existing). dr_action_id d = pa_action_id b"
proof -
  have new: "filter (\<lambda>r. (ar_approver_id r, ''APPROVED'') \<notin> existing) (pa_approvals b) = new"
    using filter_new [OF assms(3)] assms(1,4) by (simp add: extends_def)
  have rej: "(who, ''REJECTED'') \<notin> existing" for who by (auto simp: assms(4))
  show "map decision_key (missing_decisions env b existing) = map (approval_key (se_driver env)) new
      @ (case (pa_rejected_by b, pa_rejected_at b) of
           (Some who, Some t) \<Rightarrow> [(who, ''REJECTED'', column_time (se_driver env) t)] | _ \<Rightarrow> [])"
    using assms(2) rej
    by (simp add: missing_decisions_def new Let_def enumerate_approvals row_ok_def del: map_map split: option.splits)
      (simp add: decision_key_def rejection_row_def)
  show "\<exists>n. map dr_approval_id (missing_decisions env b existing) = map (se_id env) [0..<n]"
  proof (cases "pa_rejected_by b")
    case None
    then show ?thesis
      by (intro exI [of _ "length new"])
        (simp add: missing_decisions_def new Let_def enumerate_approvals del: map_map)
  next
    case (Some who)
    then show ?thesis using rej
      by (intro exI [of _ "Suc (length new)"])
        (simp add: missing_decisions_def new Let_def enumerate_approvals rejection_row_def del: map_map)
  qed
  show "\<forall>d\<in>set (missing_decisions env b existing). dr_action_id d = pa_action_id b"
    by (auto simp: missing_decisions_def Let_def approval_row_def rejection_row_def split: option.splits)
qed

lemma decisions_of_append:
  "(\<forall>d\<in>set new. dr_action_id d = i) \<Longrightarrow>
    decisions_of (t\<lparr>at_decisions := at_decisions t @ new\<rparr>) j
      = decisions_of t j @ (if j = i then new else [])"
  by (auto simp: decisions_of_def filter_id_conv)

lemma decisions_of_other [simp]:
  "decisions_of (t\<lparr>at_actions := x\<rparr>) j = decisions_of t j"
  "decisions_of (t\<lparr>at_executions := y\<rparr>) j = decisions_of t j"
  by (simp_all add: decisions_of_def)

text \<open>The new decisions of an action fit beside those the table has.\<close>

lemma accepted_new:
  assumes "decisions_accepted old" "fresh_ids env t" "at_decisions t = old"
    and "map dr_approval_id new = map (se_id env) [0..<n]" "\<forall>d\<in>set new. dr_action_id d = i"
    and "distinct (map dr_approver new)"
    and "\<forall>d\<in>set old. dr_action_id d = i \<longrightarrow> dr_approver d \<notin> dr_approver ` set new"
  shows "decisions_accepted (old @ new)"
proof -
  have "inj (se_id env)" using assms(2) by (simp add: fresh_ids_def)
  then have "distinct (map (se_id env) [0..<n])" by (simp add: distinct_map inj_on_subset [OF _ subset_UNIV])
  then have ids: "distinct (map dr_approval_id new)" using assms(4) by simp
  have "dr_approval_id ` set new \<subseteq> range (se_id env)"
    unfolding set_map [symmetric] assms(4) by auto
  then have apart: "dr_approval_id ` set old \<inter> dr_approval_id ` set new = {}"
    using assms(2,3) by (auto simp: fresh_ids_def)
  have pairs: "distinct (map (\<lambda>d. (dr_action_id d, dr_approver d)) new)"
    using assms(5,6) by (auto simp: distinct_map inj_on_def)
  have "(\<lambda>d. (dr_action_id d, dr_approver d)) ` set old
      \<inter> (\<lambda>d. (dr_action_id d, dr_approver d)) ` set new = {}"
    using assms(5,7) by fastforce
  then show ?thesis using assms(1) ids apart pairs by (simp add: decisions_accepted_def)
qed

section \<open>The simulation\<close>

lemma key_action_eq: "xr_action_id (sync_execution_row env a x) = xr_action_id x"
  "xr_idempotency_key (sync_execution_row env a x) = xr_idempotency_key x"
  by (simp_all add: sync_execution_row_def)

lemma sync_keeps:
  assumes "pa_status b \<in> set EXECUTED_STATUSES \<longrightarrow> (\<exists>k. (pa_action_id b, k) \<in> execution_keys rows)"
  shows "\<exists>rows'. sync_execution env b rows = Inr rows' \<and> execution_keys rows' = execution_keys rows"
proof (cases "pa_status b \<in> set EXECUTED_STATUSES")
  case True
  let ?g = "\<lambda>x. if xr_action_id x = pa_action_id b then sync_execution_row env b x else x"
  have "(xr_action_id (?g x), xr_idempotency_key (?g x)) = (xr_action_id x, xr_idempotency_key x)" for x
    by (simp add: key_action_eq)
  then have "execution_keys (map ?g rows) = execution_keys rows"
    unfolding execution_keys_def set_map image_image by (intro image_cong refl)
  moreover have "\<exists>x\<in>set rows. xr_action_id x = pa_action_id b"
    using assms True by (auto simp: execution_keys_def)
  ultimately show ?thesis using True by (simp add: sync_execution_def)
qed (simp add: sync_execution_def)

lemma action_decisions_unrejected:
  "pa_rejected_by a = None \<Longrightarrow> action_decisions drv a = image_mset (approval_key drv) (mset (pa_approvals a))"
  by (simp add: action_decisions_def)

lemma key_free_row:
  assumes "represents drv m t"
    and "\<forall>i c. repo_get m i = Some c \<longrightarrow> i \<noteq> pa_action_id b \<longrightarrow> pa_idempotency_key c \<noteq> pa_idempotency_key b"
  shows "key_free t (action_row_values drv b)"
  unfolding key_free_def
proof clarsimp
  fix i v
  assume "(i, v) \<in> set (at_actions t)" and i: "i \<noteq> aw_action_id (action_row_values drv b)"
    and key: "aw_idempotency_key v = aw_idempotency_key (action_row_values drv b)"
  have "distinct (map fst (at_actions t))" using assms(1) by (simp add: represents_def)
  then have "map_of (at_actions t) i = Some v" using \<open>(i, v) \<in> set (at_actions t)\<close> by (rule map_of_is_SomeI)
  then have "map_option (action_row_values drv) (repo_get m i) = Some v"
    using assms(1) unfolding represents_def by metis
  then obtain c where "repo_get m i = Some c" "v = action_row_values drv c" by auto
  then show False using assms(2) i key by (simp add: action_row_values_def)
qed

lemma replace_represents:
  assumes rep: "represents drv m t" and a: "repo_get m (pa_action_id a) = Some a"
    and ext: "extends a b" and ok: "row_ok b" and replaced: "repo_replace b (pa_version a) m = (Inr (), m')"
    and keys: "\<forall>i c. repo_get m i = Some c \<longrightarrow> i \<noteq> pa_action_id b \<longrightarrow> pa_idempotency_key c \<noteq> pa_idempotency_key b"
    and claimed: "pa_status b \<in> set EXECUTED_STATUSES \<longrightarrow> repo_claims m (pa_idempotency_key a) = Some (pa_action_id a)"
    and env: "se_driver env = drv" "fresh_ids env t"
  shows "\<exists>t'. sql_replace env b (pa_version a) t = (Inr (), t') \<and> represents drv m' t'"
proof -
  note r = rep [unfolded represents_def]
  have same: "pa_action_id b = pa_action_id a" "pa_idempotency_key b = pa_idempotency_key a"
      "pa_rejected_by a = None" "distinct (approved_by b)"
    using ext by (simp_all add: extends_def)
  obtain new where new: "pa_approvals b = pa_approvals a @ new" using ext by (auto simp: extends_def)
  have m': "repo_get m' = (repo_get m)(pa_action_id a \<mapsto> b)" "pa_version b = pa_version a + 1"
    using repo_replace_ok [OF replaced] same(1) by simp_all
  define rows where "rows = decisions_of t (pa_action_id a)"
  have rows: "image_mset decision_key (mset rows) = image_mset (approval_key drv) (mset (pa_approvals a))"
    using r a action_decisions_unrejected [OF same(3)] by (simp add: rows_def)
  have row_keys: "decision_key ` set rows = approval_key drv ` set (pa_approvals a)"
    using arg_cong [OF rows, of set_mset] by simp
  define existing where "existing = (\<lambda>d. (dr_approver d, dr_decision d)) ` set rows"
  have "existing = (\<lambda>k. (fst k, fst (snd k))) ` decision_key ` set rows"
    by (simp add: existing_def image_image decision_key_def)
  also have "\<dots> = (\<lambda>r. (ar_approver_id r, ''APPROVED'')) ` set (pa_approvals a)"
    unfolding row_keys by (simp add: image_image approval_key_def)
  finally have existing: "existing = \<dots>" .
  define ds where "ds = missing_decisions env b existing"
  note missing = missing_new [OF ext ok new existing, of env, folded ds_def]
  have approvers: "dr_approver ` set rows = set (approved_by a)"
  proof -
    have "dr_approver ` set rows = fst ` decision_key ` set rows" by (simp add: image_image decision_key_def)
    then show ?thesis unfolding row_keys by (simp add: image_image approval_key_def approved_by_def)
  qed
  have new_approvers: "map dr_approver ds = map ar_approver_id new
      @ (case pa_rejected_by b of None \<Rightarrow> [] | Some who \<Rightarrow> [who])"
  proof -
    have "map dr_approver ds = map fst (map decision_key ds)" by (simp add: decision_key_def)
    then show ?thesis unfolding missing(1) using ok
      by (auto simp: approval_key_def row_ok_def split: option.splits)
  qed
  have parts: "distinct (map dr_approver ds)" "dr_approver ` set ds \<inter> set (approved_by a) = {}"
    unfolding set_map [symmetric] new_approvers using ext new same(4)
    by (cases "pa_rejected_by b"; force simp: extends_def approved_by_def)+
  obtain n where ids: "map dr_approval_id ds = map (se_id env) [0..<n]" using missing(2) by blast
  have accepted: "decisions_accepted (at_decisions t @ ds)"
  proof (rule accepted_new [OF _ env(2) refl ids missing(3) parts(1)])
    show "decisions_accepted (at_decisions t)" using r by blast
    show "\<forall>d\<in>set (at_decisions t). dr_action_id d = pa_action_id b \<longrightarrow> dr_approver d \<notin> dr_approver ` set ds"
      using approvers parts(2) same(1) by (auto simp: rows_def decisions_of_def)
  qed
  have "(pa_action_id b, pa_idempotency_key a) \<in> execution_keys (at_executions t)"
    if "pa_status b \<in> set EXECUTED_STATUSES"
    using claimed that r same(1) by simp
  then obtain xs where xs: "sync_execution env b (at_executions t) = Inr xs"
      "execution_keys xs = execution_keys (at_executions t)"
    using sync_keeps [of b "at_executions t" env] by blast
  let ?t = "t\<lparr>at_actions := AList.update (pa_action_id b) (action_row_values drv b) (at_actions t),
    at_decisions := at_decisions t @ ds, at_executions := xs\<rparr>"
  have row: "map_of (at_actions t) (pa_action_id b) = Some (action_row_values drv a)"
    using r a same(1) by simp
  have version: "aw_version (action_row_values drv c) = pa_version c" for c by (simp add: action_row_values_def)
  have "key_free t (action_row_values drv b)" by (rule key_free_row [OF rep keys])
  moreover have "1 \<le> pa_version b" using ok by (simp add: row_ok_def)
  ultimately have "sql_replace env b (pa_version a) t = (Inr (), ?t)"
    using accepted xs(1) m'(2) unfolding sql_replace_def Let_def env(1) row
    by (simp add: version ds_def existing_def rows_def same(1))
  moreover have "represents drv m' ?t"
    unfolding represents_def
  proof (intro conjI allI impI)
    fix i
    show "distinct (map fst (at_actions ?t))" using r by (simp add: distinct_update)
    show "decisions_accepted (at_decisions ?t)" using accepted by simp
    show "map_of (at_actions ?t) i = map_option (action_row_values drv) (repo_get m' i)"
      using r m'(1) same(1) by simp
    have "mset (map decision_key ds) + image_mset (approval_key drv) (mset (pa_approvals a))
        = action_decisions drv b"
      unfolding missing(1) using new env(1) by (simp add: action_decisions_def split: option.splits)
    then have "image_mset decision_key (mset (rows @ ds)) = action_decisions drv b"
      using rows by (simp add: union_commute)
    then show "image_mset decision_key (mset (decisions_of ?t i))
        = (case repo_get m' i of None \<Rightarrow> {#} | Some a \<Rightarrow> action_decisions drv a)"
      using r m'(1) same(1) decisions_of_append [OF missing(3), of t i]
      by (auto simp: rows_def decisions_of_def)
    have "repo_claims m' = repo_claims m"
      using approval_store.rep_claims [of b "pa_version a" m] replaced by simp
    then show "execution_keys (at_executions ?t) = {(i, k). repo_claims m' k = Some i}"
      using r xs(2) by simp
    fix c
    assume "repo_get m' i = Some c"
    then show "row_ok c" using r m'(1) ok by (auto split: if_splits)
  qed
  ultimately show ?thesis by blast
qed

section \<open>Every change the service makes\<close>

lemma move_extends:
  assumes "action_move a b" "row_ok a" "action_ok a"
  shows "extends a b \<and> row_ok b"
proof -
  note f = action_move_frame [OF assms(1)]
  note status = move_status_ok [OF assms(1,3)]
  from assms(1) have active: "pa_status a \<noteq> REJECTED"
    by cases (auto simp: ACTIVE_STATUSES_def)
  then have none: "pa_rejected_by a = None" "pa_rejected_at a = None"
    using assms(2) by (auto simp: row_ok_def)
  have "(\<exists>new. pa_approvals b = pa_approvals a @ new)
      \<and> (pa_rejected_by b = None \<and> pa_rejected_at b = None
          \<or> pa_status b = REJECTED \<and> pa_rejected_at b \<noteq> None
             \<and> (\<exists>who. pa_rejected_by b = Some who \<and> who \<notin> set (approved_by b)))"
    using assms(1)
    by cases (use none in \<open>auto simp: move_defs approved_by_def\<close>)
  then show ?thesis using f status none assms(2) by (auto simp: extends_def row_ok_def)
qed

lemma inv_keys_distinct:
  "approval_inv m \<Longrightarrow> repo_get m i = Some a \<Longrightarrow> repo_get m j = Some b \<Longrightarrow> i \<noteq> j
    \<Longrightarrow> pa_idempotency_key b \<noteq> pa_idempotency_key a"
  unfolding approval_inv_def by (metis option.inject)

lemma move_represents:
  assumes inv: "approval_inv m" and rep: "represents drv m t" and a: "repo_get m (pa_action_id a) = Some a"
    and move: "action_move a b" and replaced: "repo_replace b (pa_version a) m = (Inr (), m')"
    and env: "se_driver env = drv" "fresh_ids env t"
  shows "\<exists>t'. sql_replace env b (pa_version a) t = (Inr (), t') \<and> represents drv m' t'"
proof (rule replace_represents [OF rep a _ _ replaced _ _ env])
  have ok: "row_ok a" "action_ok a" using rep inv a by (auto simp: represents_def approval_inv_def)
  note f = action_move_frame [OF move]
  show "extends a b" "row_ok b" using move_extends [OF move ok] by simp_all
  show "\<forall>i c. repo_get m i = Some c \<longrightarrow> i \<noteq> pa_action_id b \<longrightarrow> pa_idempotency_key c \<noteq> pa_idempotency_key b"
    using inv_keys_distinct [OF inv a] f by metis
  show "pa_status b \<in> set EXECUTED_STATUSES \<longrightarrow> repo_claims m (pa_idempotency_key a) = Some (pa_action_id a)"
    using move_executed [OF move] inv a by (auto simp: executed_def approval_inv_def)
qed

lemma insert_represents:
  assumes inv: "approval_inv m" and rep: "represents drv m t" and fresh: "fresh_action a"
    and ins: "repo_insert a m = (Inr (), m')" and env: "se_driver env = drv"
  shows "\<exists>t'. sql_insert env a t = (Inr (), t') \<and> represents drv m' t'"
proof -
  note r = rep [unfolded represents_def]
  have a: "pa_approvals a = []" "pa_rejected_by a = None" "pa_rejected_at a = None" "pa_version a = 1"
      "pa_status a = PENDING"
    using fresh by (simp_all add: fresh_action_def)
  have new: "repo_get m (pa_action_id a) = None"
      "map_of (am_pending_idempotency m) (pa_idempotency_key a) = None"
    using ins by (auto simp: repo_insert_Inr repo_get_def)
  have m': "repo_get m' = (repo_get m)(pa_action_id a \<mapsto> a)"
    using approval_store.ins_ok [OF ins] by simp
  have none: "missing_decisions env a {} = []" using a by (simp add: missing_decisions_def)
  have "pa_idempotency_key c \<noteq> pa_idempotency_key a" if "repo_get m i = Some c" for i c
    using inv that new(2) by (metis approval_inv_def option.distinct(1))
  then have "key_free t (action_row_values drv a)" using key_free_row [OF rep] by blast
  moreover have "aw_version (action_row_values drv a) = 1" using a by (simp add: action_row_values_def)
  moreover have absent: "map_of (at_actions t) (pa_action_id a) = None" using r new(1) by (metis option.map_disc_iff)
  ultimately have "sql_insert env a t = (Inr (), t\<lparr>at_actions := AList.update (pa_action_id a)
      (action_row_values drv a) (at_actions t)\<rparr>)"
    using r env none by (simp add: sql_insert_def)
  moreover have "represents drv m' (t\<lparr>at_actions := AList.update (pa_action_id a)
      (action_row_values drv a) (at_actions t)\<rparr>)"
  proof -
    have "action_decisions drv a = {#}" using a by (simp add: action_decisions_def)
    moreover have "row_ok a" using a by (simp add: row_ok_def)
    moreover have "repo_claims m' = repo_claims m" using approval_store.ins_claims [of a m] ins by simp
    moreover have "mset (decisions_of t (pa_action_id a)) = {#}"
      using r new(1) by (metis image_mset_is_empty_iff option.case(1))
    ultimately show ?thesis using r m' new(1) unfolding represents_def
      by (auto simp: distinct_update split: if_splits)
  qed
  ultimately show ?thesis by blast
qed

lemma claim_represents:
  assumes inv: "approval_inv m" and rep: "represents drv m t" and a: "repo_get m (pa_action_id a) = Some a"
    and claim: "repo_claim (pa_idempotency_key a) (pa_action_id a) m = (True, m')"
    and env: "fresh_ids env t"
  shows "\<exists>x. sql_claim env (pa_idempotency_key a) (pa_action_id a) t
      = (True, t\<lparr>at_executions := at_executions t @ [x]\<rparr>) \<and> xr_execution_id x = se_id env 0
    \<and> represents drv m' (t\<lparr>at_executions := at_executions t @ [x]\<rparr>)"
proof -
  note r = rep [unfolded represents_def]
  have key: "repo_claims m (pa_idempotency_key a) = None"
    using claim by (auto simp: repo_claim_True repo_claims_def)
  have own: "k = pa_idempotency_key a" if "repo_claims m k = Some (pa_action_id a)" for k
    using inv that a unfolding approval_inv_def by (metis option.inject)
  have keys: "execution_keys (at_executions t) = {(i, k). repo_claims m k = Some i}" using r by blast
  have unclaimed: "xr_action_id x \<noteq> pa_action_id a \<and> xr_idempotency_key x \<noteq> pa_idempotency_key a"
    if "x \<in> set (at_executions t)" for x
  proof -
    have "(xr_action_id x, xr_idempotency_key x) \<in> execution_keys (at_executions t)"
      using that by (simp add: execution_keys_def)
    then have "repo_claims m (xr_idempotency_key x) = Some (xr_action_id x)" unfolding keys by simp
    then show ?thesis using key own by (metis option.distinct(1))
  qed
  have "map_of (at_actions t) (pa_action_id a) = Some (action_row_values drv a)" using r a by simp
  moreover have "aw_idempotency_key (action_row_values drv a) = pa_idempotency_key a"
    by (simp add: action_row_values_def)
  moreover have "xr_execution_id x \<noteq> se_id env 0" if "x \<in> set (at_executions t)" for x
    using env that by (force simp: fresh_ids_def)
  ultimately obtain x where x: "sql_claim env (pa_idempotency_key a) (pa_action_id a) t
      = (True, t\<lparr>at_executions := at_executions t @ [x]\<rparr>)"
      "xr_action_id x = pa_action_id a" "xr_idempotency_key x = pa_idempotency_key a"
      "xr_execution_id x = se_id env 0"
    using unclaimed by (auto simp: sql_claim_def)
  have "repo_claims m' = (repo_claims m)(pa_idempotency_key a \<mapsto> pa_action_id a)"
    using approval_store.claim_granted [OF claim] by simp
  then have "execution_keys (at_executions t @ [x]) = {(i, k). repo_claims m' k = Some i}"
    using keys x(2,3) key by (auto simp: execution_keys_def)
  moreover have "repo_get m' = repo_get m"
    using approval_store.claim_lookup [of "pa_idempotency_key a" "pa_action_id a" m] claim by simp
  ultimately have "represents drv m' (t\<lparr>at_executions := at_executions t @ [x]\<rparr>)"
    using r by (simp add: represents_def)
  then show ?thesis using x(1,4) by blast
qed

text \<open>Refusals: an update in the table against another version than the stored one fails as it does in
  memory, and a claimed key is refused.\<close>

lemma replace_refused:
  assumes "represents drv m t" "repo_replace b v m = (Inl e, m')"
  shows "\<exists>f. sql_replace env b v t = (Inl f, t)"
proof (cases "repo_get m (pa_action_id b)")
  case None
  then have "map_of (at_actions t) (pa_action_id b) = None" using assms(1) by (simp add: represents_def)
  then show ?thesis by (auto simp: sql_replace_def Let_def)
next
  case (Some a)
  then have row: "map_of (at_actions t) (pa_action_id b) = Some (action_row_values drv a)"
    using assms(1) by (simp add: represents_def)
  have "pa_version a \<noteq> v \<or> pa_version b \<noteq> v + 1"
    using assms(2) Some by (auto simp: repo_replace_def repo_get_def split: if_splits)
  moreover have "aw_version (action_row_values drv a) = pa_version a" by (simp add: action_row_values_def)
  ultimately show ?thesis by (auto simp: sql_replace_def row Let_def)
qed

lemma claim_refused:
  assumes "represents drv m t" "\<not> fst (repo_claim k i m)"
  shows "\<not> fst (sql_claim env k i t)"
proof -
  obtain j where "repo_claims m k = Some j"
    using assms(2) by (auto simp: repo_claim_def repo_claims_def split: if_splits)
  then have "(j, k) \<in> execution_keys (at_executions t)" using assms(1) by (simp add: represents_def)
  then show ?thesis by (auto simp: sql_claim_def execution_keys_def)
qed

section \<open>The refinement\<close>

text \<open>The calls of the repository that one change of the service's store makes, and those calls on the
  tables.\<close>

inductive service_calls :: "approval_mem \<Rightarrow> pending_action store_op list \<Rightarrow> approval_mem \<Rightarrow> bool" where
  calls_insert: "fresh_action a \<Longrightarrow> repo_insert a m = (Inr (), m') \<Longrightarrow> service_calls m [InsertRec a] m'"
| calls_move: "repo_get m (pa_action_id a) = Some a \<Longrightarrow> action_move a b \<Longrightarrow>
     repo_replace b (pa_version a) m = (Inr (), m') \<Longrightarrow> service_calls m [ReplaceRec b (pa_version a)] m'"
| calls_execute: "repo_get m (pa_action_id a) = Some a \<Longrightarrow> pa_status a = APPROVED \<Longrightarrow> now < pa_expires_at a \<Longrightarrow>
     repo_claim (pa_idempotency_key a) (pa_action_id a) m = (True, n) \<Longrightarrow>
     repo_replace (with_status a EXECUTING) (pa_version a) n = (Inr (), m') \<Longrightarrow>
     service_calls m [ClaimKey (pa_idempotency_key a) (pa_action_id a),
       ReplaceRec (with_status a EXECUTING) (pa_version a)] m'"

lemma store_change_calls: "store_change m m' \<longleftrightarrow> (\<exists>ops. service_calls m ops m')"
  by (auto elim!: store_change.cases service_calls.cases intro: store_change.intros)
    (blast intro: service_calls.intros)+

fun sql_call :: "sql_env \<Rightarrow> pending_action store_op \<Rightarrow> approval_tables \<Rightarrow> bool \<times> approval_tables" where
  "sql_call env (InsertRec a) t = (case sql_insert env a t of (x, t') \<Rightarrow> (x = Inr (), t'))"
| "sql_call env (ReplaceRec a v) t = (case sql_replace env a v t of (x, t') \<Rightarrow> (x = Inr (), t'))"
| "sql_call env (ClaimKey k i) t = sql_claim env k i t"

text \<open>The calls one after another, as long as they succeed.\<close>

fun sql_calls :: "sql_env list \<Rightarrow> pending_action store_op list \<Rightarrow> approval_tables \<Rightarrow> approval_tables option" where
  "sql_calls (env # envs) (op # ops) t =
     (case sql_call env op t of (True, t') \<Rightarrow> sql_calls envs ops t' | (False, t') \<Rightarrow> None)"
| "sql_calls envs ops t = (if ops = [] then Some t else None)"

text \<open>The environments of the calls draw identifiers that are in no table and in no other call.\<close>

definition fresh_envs :: "column_driver \<Rightarrow> sql_env list \<Rightarrow> approval_tables \<Rightarrow> bool" where
  "fresh_envs drv envs t \<longleftrightarrow> (\<forall>env\<in>set envs. se_driver env = drv \<and> fresh_ids env t)
     \<and> sorted_wrt (\<lambda>e f. range (se_id e) \<inter> range (se_id f) = {}) envs"

lemma calls_represent:
  assumes inv: "approval_inv m" and rep: "represents drv m t" and envs: "fresh_envs drv envs t"
    and calls: "service_calls m ops m'" and len: "length envs = length ops"
  shows "\<exists>t'. sql_calls envs ops t = Some t' \<and> represents drv m' t'"
  using calls
proof cases
  case (calls_insert a)
  then obtain env where env: "envs = [env]" using len by (cases envs) auto
  then have "se_driver env = drv" using envs by (simp add: fresh_envs_def)
  then obtain t' where "sql_insert env a t = (Inr (), t')" "represents drv m' t'"
    using insert_represents [OF inv rep calls_insert(2,3)] by blast
  then show ?thesis using env calls_insert(1) by simp
next
  case (calls_move a b)
  then obtain env where env: "envs = [env]" using len by (cases envs) auto
  then have "se_driver env = drv" "fresh_ids env t" using envs by (simp_all add: fresh_envs_def)
  then obtain t' where "sql_replace env b (pa_version a) t = (Inr (), t')" "represents drv m' t'"
    using move_represents [OF inv rep calls_move(2-4)] by blast
  then show ?thesis using env calls_move(1) by simp
next
  case (calls_execute a now n)
  then obtain e f where env: "envs = [e, f]" using len by (cases envs; cases "tl envs") auto
  have fresh: "fresh_ids e t" "fresh_ids f t" "se_driver f = drv" "range (se_id e) \<inter> range (se_id f) = {}"
    using envs env by (simp_all add: fresh_envs_def)
  let ?b = "with_status a EXECUTING"
  have same: "pa_action_id ?b = pa_action_id a" "pa_idempotency_key ?b = pa_idempotency_key a"
      "pa_version ?b = pa_version a + 1" "pa_rejected_by ?b = pa_rejected_by a"
      "pa_rejected_at ?b = pa_rejected_at a"
    by (simp_all add: with_status_def)
  obtain x where x: "sql_claim e (pa_idempotency_key a) (pa_action_id a) t
        = (True, t\<lparr>at_executions := at_executions t @ [x]\<rparr>)" "xr_execution_id x = se_id e 0"
      "represents drv n (t\<lparr>at_executions := at_executions t @ [x]\<rparr>)"
    using claim_represents [OF inv rep calls_execute(2,5) fresh(1)] by blast
  let ?t = "t\<lparr>at_executions := at_executions t @ [x]\<rparr>"
  have get: "repo_get n = repo_get m"
    using approval_store.claim_lookup [of "pa_idempotency_key a" "pa_action_id a" m] calls_execute(5) by simp
  have ok: "row_ok a" "action_ok a"
    using rep inv calls_execute(2) by (auto simp: represents_def approval_inv_def)
  have "\<exists>t'. sql_replace f ?b (pa_version a) ?t = (Inr (), t') \<and> represents drv m' t'"
  proof (rule replace_represents [OF x(3) _ _ _ calls_execute(6) _ _ fresh(3)])
    show "repo_get n (pa_action_id a) = Some a" using get calls_execute(2) by simp
    show "extends a ?b" using ok calls_execute(3)
      by (auto simp: extends_def same row_ok_def action_ok_def)
    show "row_ok ?b" using ok calls_execute(3) by (auto simp: row_ok_def same)
    show "\<forall>i c. repo_get n i = Some c \<longrightarrow> i \<noteq> pa_action_id ?b \<longrightarrow> pa_idempotency_key c \<noteq> pa_idempotency_key ?b"
      using inv_keys_distinct [OF inv calls_execute(2)] get same by metis
    show "pa_status ?b \<in> set EXECUTED_STATUSES \<longrightarrow> repo_claims n (pa_idempotency_key a) = Some (pa_action_id a)"
      using approval_store.claim_granted [OF calls_execute(5)] by simp
    have "xr_execution_id x \<notin> range (se_id f)" using fresh(4) x(2) by auto
    then show "fresh_ids f ?t" using fresh(2) by (auto simp: fresh_ids_def)
  qed
  then show ?thesis using env x(1) calls_execute(1) by auto
qed

lemma represents_empty: "represents drv empty_approval_mem empty_approval_tables"
  by (auto simp: represents_def empty_approval_mem_def empty_approval_tables_def repo_get_def
      repo_claims_def decisions_of_def decisions_accepted_def execution_keys_def)

text \<open>C10: The tables refine the in-memory repository. The empty tables represent the empty repository.
  Whenever tables represent a reachable state of the workflow, the calls by which any operation of the
  service changes that state succeed on the tables, which then represent the new state, and every action
  read from them is the action in memory, up to the order of its approvals; and an update against another
  version than the stored one, or a claim of a claimed key, is refused by the tables as it is in memory.\<close>

theorem sql_repository_refines:
  assumes "reachable svc m" "represents drv m t" "fresh_envs drv envs t"
  shows "represents drv empty_approval_mem empty_approval_tables
    \<and> (\<forall>i. rel_option same_action (repo_get m i) (sql_get t i))
    \<and> (\<forall>ops m'. service_calls m ops m' \<and> length envs = length ops \<longrightarrow>
         (\<exists>t'. sql_calls envs ops t = Some t' \<and> represents drv m' t'))
    \<and> (\<forall>env b v e m'. repo_replace b v m = (Inl e, m') \<longrightarrow> sql_calls [env] [ReplaceRec b v] t = None)
    \<and> (\<forall>env k i. \<not> fst (repo_claim k i m) \<longrightarrow> sql_calls [env] [ClaimKey k i] t = None)"
proof (intro conjI allI impI)
  show "represents drv empty_approval_mem empty_approval_tables" by (rule represents_empty)
  show "rel_option same_action (repo_get m i) (sql_get t i)" for i by (rule get_read [OF assms(2)])
  show "\<exists>t'. sql_calls envs ops t = Some t' \<and> represents drv m' t'"
    if "service_calls m ops m' \<and> length envs = length ops" for ops m'
    using calls_represent [OF reachable_inv [OF assms(1)] assms(2,3)] that by blast
  show "sql_calls [env] [ReplaceRec b v] t = None" if "repo_replace b v m = (Inl e, m')" for env b v e m'
    using replace_refused [OF assms(2) that, of env] by auto
  show "sql_calls [env] [ClaimKey k i] t = None" if "\<not> fst (repo_claim k i m)" for env k i
    using claim_refused [OF assms(2) that, of env] by (cases "sql_claim env k i t") auto
qed

theorem sql_repository_refines_witness:
  "\<exists>t' a. sql_calls [\<lparr>se_driver = DropsZone, se_now = 0, se_id = \<lambda>n. replicate n CHR ''x''\<rparr>]
       [InsertRec demo_pending] empty_approval_tables = Some t'
     \<and> represents DropsZone (demo_store demo_pending []) t'
     \<and> sql_get t' demo_id = Some a \<and> same_action demo_pending a"
proof -
  define env where "env = \<lparr>se_driver = DropsZone, se_now = 0, se_id = \<lambda>n. replicate n CHR ''x''\<rparr>"
  have "inj (\<lambda>n. replicate n CHR ''x'')" by (rule injI) (metis length_replicate)
  then have envs: "fresh_envs DropsZone [env] empty_approval_tables"
    by (simp add: fresh_envs_def fresh_ids_def env_def empty_approval_tables_def)
  have "fresh_action demo_pending"
    unfolding fresh_action_def
    by (simp add: demo_pending_def new_action_def demo_request_def demo_env_def demo_material_def
        confirmed_def absent_def)
  moreover have "repo_insert demo_pending empty_approval_mem = (Inr (), demo_store demo_pending [])"
    by (simp add: repo_insert_def empty_approval_mem_def demo_store_def)
  ultimately have "service_calls empty_approval_mem [InsertRec demo_pending] (demo_store demo_pending [])"
    by (rule calls_insert)
  then obtain t' where t': "sql_calls [env] [InsertRec demo_pending] empty_approval_tables = Some t'"
      "represents DropsZone (demo_store demo_pending []) t'"
    using sql_repository_refines [OF reachable_empty represents_empty envs,
        THEN conjunct2, THEN conjunct2, THEN conjunct1, rule_format, of "[InsertRec demo_pending]"
        "demo_store demo_pending []"] by auto
  have "rel_option same_action (repo_get (demo_store demo_pending []) demo_id) (sql_get t' demo_id)"
    by (rule get_read [OF t'(2)])
  then have "\<exists>a. sql_get t' demo_id = Some a \<and> same_action demo_pending a"
    by (auto simp: option_rel_Some1)
  then show ?thesis using t' unfolding env_def by blast
qed

end
