(* ===== verification/OrderedDict.thy ===== *)
theory OrderedDict
  imports Prelude
begin

text \<open>
  Python's \<open>OrderedDict\<close> as the stores of the program use it: an association list, least recently used
  first, and what its operations keep.
\<close>

section \<open>Operations\<close>

definition od_pop :: "'k \<Rightarrow> ('k \<times> 'v) list \<Rightarrow> ('k \<times> 'v) list" where
  "od_pop k d = filter (\<lambda>(k', v). k' \<noteq> k) d"

definition od_move_to_end :: "'k \<Rightarrow> ('k \<times> 'v) list \<Rightarrow> ('k \<times> 'v) list" where
  "od_move_to_end k d = od_pop k d @ filter (\<lambda>(k', v). k' = k) d"

text \<open>\<open>while len(d) > n: d.popitem(last=False)\<close>\<close>

definition od_trim :: "nat \<Rightarrow> ('k \<times> 'v) list \<Rightarrow> ('k \<times> 'v) list" where
  "od_trim n d = drop (length d - n) d"

text \<open>\<open>d[k] = v\<close> and \<open>d.move_to_end(k)\<close>.\<close>

definition od_store :: "'k \<Rightarrow> 'v \<Rightarrow> ('k \<times> 'v) list \<Rightarrow> ('k \<times> 'v) list" where
  "od_store k v d = od_move_to_end k (AList.update k v d)"

section \<open>Lemmas\<close>

lemma od_pop_set [simp]: "set (od_pop k d) = {e \<in> set d. fst e \<noteq> k}"
  by (auto simp: od_pop_def)

lemma od_move_to_end_set [simp]: "set (od_move_to_end k d) = set d"
  by (auto simp: od_move_to_end_def)

lemma update_set: "distinct (map fst d) \<Longrightarrow> set (AList.update k v d) = insert (k, v) {e \<in> set d. fst e \<noteq> k}"
  by (induction d) (auto simp: rev_image_eqI)

lemma od_store_set [simp]:
  "distinct (map fst d) \<Longrightarrow> set (od_store k v d) = insert (k, v) {e \<in> set d. fst e \<noteq> k}"
  by (simp add: od_store_def update_set)

lemma od_trim_set: "set (od_trim n d) \<subseteq> set d"
  by (auto simp: od_trim_def dest: in_set_dropD)

lemma od_pop_distinct [simp]: "distinct (map fst d) \<Longrightarrow> distinct (map fst (od_pop k d))"
  by (simp add: od_pop_def distinct_filter_keys)

lemma od_move_to_end_distinct [simp]:
  "distinct (map fst d) \<Longrightarrow> distinct (map fst (od_move_to_end k d))"
  by (auto simp: od_move_to_end_def od_pop_def distinct_filter_keys)

lemma od_store_distinct [simp]: "distinct (map fst d) \<Longrightarrow> distinct (map fst (od_store k v d))"
  by (simp add: od_store_def distinct_update)

lemma od_trim_distinct [simp]: "distinct (map fst d) \<Longrightarrow> distinct (map fst (od_trim n d))"
  by (simp add: od_trim_def drop_map [symmetric] distinct_drop)

lemma od_trim_length [simp]: "length (od_trim n d) \<le> n"
  by (simp add: od_trim_def)

lemma od_move_to_end_length [simp]: "length (od_move_to_end k d) = length d"
proof (induction d)
  case (Cons e d)
  then show ?case by (cases e) (auto simp: od_move_to_end_def od_pop_def)
qed (simp add: od_move_to_end_def od_pop_def)

lemma od_pop_length [simp]: "length (od_pop k d) \<le> length d"
  by (simp add: od_pop_def)

section \<open>Predicates of the entries\<close>

text \<open>A dictionary with one entry per key, of which each meets a predicate of its key.\<close>

definition od_ok :: "('k \<Rightarrow> 'v \<Rightarrow> bool) \<Rightarrow> ('k \<times> 'v) list \<Rightarrow> bool" where
  "od_ok Q d \<longleftrightarrow> distinct (map fst d) \<and> (\<forall>(k, v)\<in>set d. Q k v)"

named_theorems od_intros "the operations of an ordered dictionary keep a predicate of its entries"

lemma od_ok_Nil [od_intros]: "od_ok Q []"
  by (simp add: od_ok_def)

lemma od_ok_filter [od_intros]: "od_ok Q d \<Longrightarrow> od_ok Q (filter R d)"
  by (auto simp: od_ok_def distinct_filter_keys)

lemma od_ok_pop [od_intros]: "od_ok Q d \<Longrightarrow> od_ok Q (od_pop k d)"
  by (auto simp: od_ok_def)

lemma od_ok_move [od_intros]: "od_ok Q d \<Longrightarrow> od_ok Q (od_move_to_end k d)"
  by (auto simp: od_ok_def)

lemma od_ok_store [od_intros]: "od_ok Q d \<Longrightarrow> Q k v \<Longrightarrow> od_ok Q (od_store k v d)"
  by (auto simp: od_ok_def)

lemma od_ok_trim [od_intros]: "od_ok Q d \<Longrightarrow> od_ok Q (od_trim n d)"
  using od_trim_set [of n d] by (auto simp: od_ok_def)

lemma od_ok_mono: "od_ok Q d \<Longrightarrow> (\<And>k v. Q k v \<Longrightarrow> R k v) \<Longrightarrow> od_ok R d"
  by (auto simp: od_ok_def)

lemma od_ok_lookup: "od_ok Q d \<Longrightarrow> map_of d k = Some v \<Longrightarrow> Q k v"
  by (auto simp: od_ok_def dest: map_of_SomeD)

end
