(* ===== verification/ConversationContext.thy ===== *)
theory ConversationContext
  imports OrderedDict Sanitization "HOL-Library.Char_ord" "HOL-Library.List_Lexorder"
begin

text \<open>
  The conversational references of a user in a channel (\<^verbatim>\<open>query/context.py\<close>): the last candidate
  list, the operation that waits for a target, the current employee and the snapshots behind the
  selection menus. An \<open>OrderedDict\<close> is an association list, least recently used first. Times are
  integers of one unit; a call is given what the clock and \<open>uuid4\<close> returned to it. A caller that
  hands in other objects than strings is outside the model, except as a context parameter.
\<close>

section \<open>Records and parameters\<close>

record conversation_key =
  ck_user_id :: int
  ck_guild_id :: int
  ck_channel_id :: int

datatype context_value = CStr string | CInt int | CBool bool | COther

type_synonym context_parameters = "(string \<times> context_value) list"

record conversation_context =
  cc_candidate_employee_ids :: "string list"
  cc_function_id :: string
  cc_parameters :: context_parameters
  cc_expires_at :: int

record pending_target =
  pt_function_id :: string
  pt_parameters :: context_parameters
  pt_expires_at :: int

record current_employee_context =
  ce_employee_id :: string
  ce_expires_at :: int

record selection_context =
  sc_key :: conversation_key
  sc_context :: conversation_context

record context_config =
  cs_ttl_seconds :: int
  cs_max_conversations :: nat
  cs_max_candidates :: nat

record context_store =
  cs_items :: "(conversation_key \<times> conversation_context) list"
  cs_pending_targets :: "(conversation_key \<times> pending_target) list"
  cs_current_employees :: "(conversation_key \<times> current_employee_context) list"
  cs_selection_contexts :: "(string \<times> selection_context) list"

datatype context_error = ContextValueError string | ContextInputError input_error

definition new_conversation_key :: "int \<Rightarrow> int \<Rightarrow> int \<Rightarrow> context_error + conversation_key" where
  "new_conversation_key user_id guild_id channel_id =
     (if user_id \<le> 0 \<or> guild_id \<le> 0 \<or> channel_id \<le> 0
      then Inl (ContextValueError ''conversation key identifiers must be positive'')
      else Inr \<lparr>ck_user_id = user_id, ck_guild_id = guild_id, ck_channel_id = channel_id\<rparr>)"

definition new_context_store :: "int \<Rightarrow> nat \<Rightarrow> nat \<Rightarrow> context_error + context_config \<times> context_store" where
  "new_context_store ttl_seconds max_conversations max_candidates =
     (if \<not> (1 \<le> ttl_seconds \<and> ttl_seconds \<le> 86400)
      then Inl (ContextValueError ''conversation TTL is out of bounds'')
      else if \<not> (1 \<le> max_conversations \<and> max_conversations \<le> 10000)
      then Inl (ContextValueError ''conversation store size is out of bounds'')
      else if \<not> (1 \<le> max_candidates \<and> max_candidates \<le> 500)
      then Inl (ContextValueError ''conversation candidate limit is out of bounds'')
      else Inr (\<lparr>cs_ttl_seconds = ttl_seconds, cs_max_conversations = max_conversations,
                 cs_max_candidates = max_candidates\<rparr>,
               \<lparr>cs_items = [], cs_pending_targets = [], cs_current_employees = [],
                 cs_selection_contexts = []\<rparr>))"

text \<open>\<^verbatim>\<open>^[A-Z][A-Z0-9-]{2,31}$\<close>, \<^verbatim>\<open>^[a-z][a-z0-9_]{0,63}$\<close> and \<^verbatim>\<open>^[0-9a-f]{32}$\<close> under \<open>fullmatch\<close>.\<close>

definition context_function_id :: "string \<Rightarrow> bool" where
  "context_function_id s = (3 \<le> length s \<and> length s \<le> 32 \<and> is_upper (hd s)
     \<and> list_all (\<lambda>c. is_upper c \<or> is_digit c \<or> c = CHR ''-'') (tl s))"

definition safe_parameter_name :: "string \<Rightarrow> bool" where
  "safe_parameter_name s = (s \<noteq> [] \<and> length s \<le> 64 \<and> is_lower (hd s)
     \<and> list_all (\<lambda>c. is_lower c \<or> is_digit c \<or> c = CHR ''_'') (tl s))"

definition selection_context_id :: "string \<Rightarrow> bool" where
  "selection_context_id s = (length s = 32 \<and> list_all is_hex_lower s)"

fun check_context_parameters :: "context_parameters \<Rightarrow> context_error + context_parameters" where
  "check_context_parameters [] = Inr []"
| "check_context_parameters ((name, value) # ps) =
     (if \<not> safe_parameter_name name then Inl (ContextValueError ''invalid context parameter name'')
      else if value = COther then Inl (ContextValueError ''context parameters must be scalar'')
      else if (case value of CStr s \<Rightarrow> s = [] \<or> 64 < length s | _ \<Rightarrow> False)
      then Inl (ContextValueError ''context parameter string is invalid'')
      else map_sum id (\<lambda>rest. (name, value) # rest) (check_context_parameters ps))"

text \<open>A \<open>Mapping\<close> has each name once, so the pairs are sorted by their names.\<close>

definition validated_context_parameters ::
  "context_parameters option \<Rightarrow> context_error + context_parameters" where
  "validated_context_parameters parameters =
     map_sum id (sort_key fst) (check_context_parameters (case parameters of None \<Rightarrow> [] | Some ps \<Rightarrow> ps))"

fun validate_employee_ids :: "string list \<Rightarrow> context_error + string list" where
  "validate_employee_ids [] = Inr []"
| "validate_employee_ids (e # es) = (case validate_employee_id e of
     Inl err \<Rightarrow> Inl (ContextInputError err)
   | Inr i \<Rightarrow> map_sum id (\<lambda>is. i # is) (validate_employee_ids es))"

section \<open>What a short answer refers to\<close>

text \<open>\<open>" ".join(request.strip().split())\<close>, and the first word, caseless.\<close>

definition normalize_request :: "string \<Rightarrow> string" where
  "normalize_request request = join_words (py_split (py_strip request))"

definition NEW_REQUEST_MARKERS :: "string list" where
  "NEW_REQUEST_MARKERS = [''apri'', ''capacita'', ''capacit'' @ [char_of (224 :: nat)], ''cerca'', ''come'',
     ''dimmi'', ''elenca'', ''mostra'', ''quale'', ''quali'', ''quanti'', ''segna'', ''stampa'', ''status'',
     ''trova'', ''visualizza'']"

definition name_letter :: "char \<Rightarrow> bool" where
  "name_letter c = (let n = code_point c in is_upper c \<or> is_lower c \<or> (192 \<le> n \<and> n \<noteq> 215 \<and> n \<noteq> 247))"

definition name_word :: "string \<Rightarrow> bool" where
  "name_word s = (s \<noteq> [] \<and> name_letter (hd s)
     \<and> list_all (\<lambda>c. name_letter c \<or> c = CHR 0x27 \<or> c = CHR ''-'') (tl s))"

text \<open>
  \<open>_BARE_EMPLOYEE_REFERENCE\<close> on a normalised text: an identifier, or one to six words of a name
  (a word has no whitespace, so the pattern's separators are the blanks between the words).
\<close>

definition bare_employee_reference :: "string \<Rightarrow> bool" where
  "bare_employee_reference s = (employee_id_syntax s
     \<or> (let ws = py_split s in ws \<noteq> [] \<and> length ws \<le> 6 \<and> list_all name_word ws))"

definition refers_to_employee :: "string \<Rightarrow> bool" where
  "refers_to_employee request = (let s = normalize_request request in
     s \<noteq> [] \<and> length s \<le> 128 \<and> bare_employee_reference s
     \<and> py_casefold (hd (py_split s)) \<notin> set NEW_REQUEST_MARKERS)"

definition ORDINALS :: "(string \<times> nat) list" where
  "ORDINALS = [(''primo'', 1), (''prima'', 1), (''secondo'', 2), (''seconda'', 2), (''terzo'', 3),
     (''terza'', 3), (''quarto'', 4), (''quarta'', 4), (''quinto'', 5), (''quinta'', 5)]"

text \<open>The text after the first of the given prefixes it starts with, caseless.\<close>

fun strip_prefix :: "string list \<Rightarrow> string \<Rightarrow> string option" where
  "strip_prefix [] s = None"
| "strip_prefix (p # ps) s =
     (if starts_with p (py_lower s) then Some (drop (length p) s) else strip_prefix ps s)"

text \<open>
  \<open>_ORDINAL\<close> on a normalised text: no verb or article is the start of an ordinal, so each optional
  part is taken when it is there.
\<close>

definition ordinal_reference :: "string \<Rightarrow> nat option" where
  "ordinal_reference s = (let
       t = (case strip_prefix [''apri '', ''usa '', ''scegli '', ''seleziona ''] s of None \<Rightarrow> s | Some t \<Rightarrow> t);
       u = (case strip_prefix [''il'', ''la'', ''l'' @ [CHR 0x27]] t of None \<Rightarrow> t | Some u \<Rightarrow> py_lstrip u)
     in map_of ORDINALS (py_lower u))"

text \<open>
  \<open>_DIRECT_EMPLOYEE_ID\<close>: the alternatives of the optional prefix in the order in which they are
  tried, each followed by an optional separator; the identifier must be the whole rest.
\<close>

definition after_separator :: "string \<Rightarrow> string" where
  "after_separator s = (case py_lstrip s of
     [] \<Rightarrow> []
   | c # t \<Rightarrow> if c = CHR '':'' \<or> c = CHR ''#'' then py_lstrip t else c # t)"

definition direct_rests :: "string \<Rightarrow> string list" where
  "direct_rests s =
     (case strip_prefix [''employee'', ''dipendente''] s of None \<Rightarrow> []
      | Some t \<Rightarrow> (case strip_prefix [''id''] (py_lstrip t) of None \<Rightarrow> [] | Some u \<Rightarrow> [u]))
     @ (case strip_prefix [''id''] s of None \<Rightarrow> [] | Some u \<Rightarrow> [u]) @ [s]"

definition direct_employee_id :: "string \<Rightarrow> string option" where
  "direct_employee_id s = List.find (\<lambda>t. t \<noteq> [] \<and> length t \<le> 64
       \<and> list_all (\<lambda>c. is_alnum c \<or> c = CHR ''_'' \<or> c = CHR ''-'') t)
     (map after_separator (direct_rests s))"

definition selected_employee :: "string list \<Rightarrow> string \<Rightarrow> string option" where
  "selected_employee candidates s =
     (case ordinal_reference s of
        Some ordinal \<Rightarrow> if ordinal \<le> length candidates then Some (candidates ! (ordinal - 1)) else None
      | None \<Rightarrow>
          (case direct_employee_id s of
             None \<Rightarrow> None
           | Some text \<Rightarrow>
               (case validate_employee_id text of
                  Inl _ \<Rightarrow> (if [] \<in> set candidates then Some [] else None)
                | Inr candidate \<Rightarrow> if candidate \<in> set candidates then Some candidate else None)))"

section \<open>The store's operations\<close>

definition purge_expired_contexts :: "int \<Rightarrow> context_store \<Rightarrow> context_store" where
  "purge_expired_contexts now st = st
     \<lparr>cs_items := filter (\<lambda>(k, v). now < cc_expires_at v) (cs_items st),
      cs_pending_targets := filter (\<lambda>(k, v). now < pt_expires_at v) (cs_pending_targets st),
      cs_current_employees := filter (\<lambda>(k, v). now < ce_expires_at v) (cs_current_employees st),
      cs_selection_contexts :=
        filter (\<lambda>(k, v). now < cc_expires_at (sc_context v)) (cs_selection_contexts st)\<rparr>"

definition purge_contexts :: "int \<Rightarrow> (context_store, context_error, unit) sx" where
  "purge_contexts now = sx_modify (purge_expired_contexts now)"

definition store_candidates ::
  "context_config \<Rightarrow> conversation_key \<Rightarrow> string \<Rightarrow> conversation_context \<Rightarrow> context_store \<Rightarrow> context_store"
where
  "store_candidates conf key context_id ctx st = st
     \<lparr>cs_items := od_trim (cs_max_conversations conf) (od_store key ctx (cs_items st)),
      cs_pending_targets := od_pop key (cs_pending_targets st),
      cs_selection_contexts := od_trim (cs_max_conversations conf)
        (od_store context_id \<lparr>sc_key = key, sc_context = ctx\<rparr> (cs_selection_contexts st))\<rparr>"

definition remember_candidates ::
  "context_config \<Rightarrow> int \<Rightarrow> string \<Rightarrow> conversation_key \<Rightarrow> string list \<Rightarrow> string
    \<Rightarrow> context_parameters option \<Rightarrow> (context_store, context_error, string) sx" where
  "remember_candidates conf now context_id key candidates function_id parameters =
     sx_bind (raise_if (candidates = [] \<or> cs_max_candidates conf < length candidates)
       (ContextValueError ''candidate result set is empty or exceeds the bound'')) (\<lambda>_.
     sx_bind (sx_lift (validate_employee_ids candidates)) (\<lambda>validated.
     sx_bind (raise_if (\<not> distinct validated)
       (ContextValueError ''candidate result set contains duplicate identifiers'')) (\<lambda>_.
     sx_bind (raise_if (\<not> context_function_id function_id)
       (ContextValueError ''invalid context function identifier'')) (\<lambda>_.
     sx_bind (sx_lift (validated_context_parameters parameters)) (\<lambda>safe.
     sx_bind (purge_contexts now) (\<lambda>_.
     sx_bind (sx_modify (store_candidates conf key context_id
       \<lparr>cc_candidate_employee_ids = validated, cc_function_id = function_id, cc_parameters = safe,
        cc_expires_at = now + cs_ttl_seconds conf\<rparr>)) (\<lambda>_.
     sx_return context_id)))))))"

definition remember_pending_target ::
  "context_config \<Rightarrow> int \<Rightarrow> conversation_key \<Rightarrow> string \<Rightarrow> context_parameters option
    \<Rightarrow> (context_store, context_error, unit) sx" where
  "remember_pending_target conf now key function_id parameters =
     sx_bind (raise_if (\<not> context_function_id function_id)
       (ContextValueError ''invalid context function identifier'')) (\<lambda>_.
     sx_bind (purge_contexts now) (\<lambda>_.
     sx_bind (sx_lift (validated_context_parameters parameters)) (\<lambda>safe.
     sx_modify (\<lambda>st. st\<lparr>cs_pending_targets := od_trim (cs_max_conversations conf)
       (od_store key \<lparr>pt_function_id = function_id, pt_parameters = safe,
          pt_expires_at = now + cs_ttl_seconds conf\<rparr> (cs_pending_targets st))\<rparr>))))"

definition pending_target_for ::
  "int \<Rightarrow> conversation_key \<Rightarrow> string \<Rightarrow> (context_store, context_error, pending_target option) sx" where
  "pending_target_for now key request =
     (if \<not> refers_to_employee request then sx_return None
      else sx_bind (purge_contexts now) (\<lambda>_.
        sx_bind (sx_gets (\<lambda>st. map_of (cs_pending_targets st) key)) (\<lambda>context.
        sx_bind (sx_modify (\<lambda>st. if context = None then st
          else st\<lparr>cs_pending_targets := od_move_to_end key (cs_pending_targets st)\<rparr>)) (\<lambda>_.
        sx_return context))))"

definition clear_pending_target :: "conversation_key \<Rightarrow> (context_store, context_error, bool) sx" where
  "clear_pending_target key st =
     (Inr (map_of (cs_pending_targets st) key \<noteq> None),
      st\<lparr>cs_pending_targets := od_pop key (cs_pending_targets st)\<rparr>)"

definition remember_current_employee ::
  "context_config \<Rightarrow> int \<Rightarrow> conversation_key \<Rightarrow> string \<Rightarrow> (context_store, context_error, unit) sx" where
  "remember_current_employee conf now key employee_id =
     sx_bind (purge_contexts now) (\<lambda>_.
     sx_bind (sx_lift (map_error ContextInputError (validate_employee_id employee_id))) (\<lambda>selected.
     sx_modify (\<lambda>st. st\<lparr>cs_current_employees := od_trim (cs_max_conversations conf)
       (od_store key \<lparr>ce_employee_id = selected, ce_expires_at = now + cs_ttl_seconds conf\<rparr>
         (cs_current_employees st))\<rparr>)))"

definition current_employee ::
  "int \<Rightarrow> conversation_key \<Rightarrow> (context_store, context_error, string option) sx" where
  "current_employee now key =
     sx_bind (purge_contexts now) (\<lambda>_.
     sx_bind (sx_gets (\<lambda>st. map_of (cs_current_employees st) key)) (\<lambda>found.
       case found of
         None \<Rightarrow> sx_return None
       | Some context \<Rightarrow>
           sx_bind (sx_modify (\<lambda>st. st\<lparr>cs_current_employees :=
             od_move_to_end key (cs_current_employees st)\<rparr>)) (\<lambda>_.
           sx_return (Some (ce_employee_id context)))))"

definition context_selection ::
  "int \<Rightarrow> conversation_key \<Rightarrow> string
    \<Rightarrow> (context_store, context_error, (string \<times> conversation_context) option) sx" where
  "context_selection now key request =
     sx_bind (purge_contexts now) (\<lambda>_.
     sx_bind (sx_gets (\<lambda>st. map_of (cs_items st) key)) (\<lambda>found.
       case found of
         None \<Rightarrow> sx_return None
       | Some context \<Rightarrow>
           (case selected_employee (cc_candidate_employee_ids context) (normalize_request request) of
              None \<Rightarrow> sx_return None
            | Some selected \<Rightarrow>
                sx_bind (sx_modify (\<lambda>st. st\<lparr>cs_items := od_move_to_end key (cs_items st)\<rparr>)) (\<lambda>_.
                sx_return (Some (selected, context))))))"

definition activate_selection_context ::
  "int \<Rightarrow> conversation_key \<Rightarrow> string \<Rightarrow> string \<Rightarrow> (context_store, context_error, bool) sx" where
  "activate_selection_context now key context_id employee_id =
     (if \<not> selection_context_id context_id then sx_return False
      else case validate_employee_id employee_id of
        Inl _ \<Rightarrow> sx_return False
      | Inr selected \<Rightarrow>
          sx_bind (purge_contexts now) (\<lambda>_.
          sx_bind (sx_gets (\<lambda>st. map_of (cs_selection_contexts st) context_id)) (\<lambda>found.
            case found of
              None \<Rightarrow> sx_return False
            | Some snap \<Rightarrow>
                if sc_key snap \<noteq> key
                   \<or> selected \<notin> set (cc_candidate_employee_ids (sc_context snap))
                then sx_return False
                else sx_bind (sx_modify (\<lambda>st. st
                    \<lparr>cs_selection_contexts := od_move_to_end context_id (cs_selection_contexts st),
                     cs_items := od_store key (sc_context snap) (cs_items st)\<rparr>)) (\<lambda>_.
                  sx_return True))))"

definition candidate_context ::
  "int \<Rightarrow> conversation_key \<Rightarrow> string
    \<Rightarrow> (context_store, context_error, conversation_context option) sx" where
  "candidate_context now key request =
     (if \<not> refers_to_employee request then sx_return None
      else sx_bind (purge_contexts now) (\<lambda>_.
        sx_bind (sx_gets (\<lambda>st. map_of (cs_items st) key)) (\<lambda>context.
        sx_bind (sx_modify (\<lambda>st. if context = None then st
          else st\<lparr>cs_items := od_move_to_end key (cs_items st)\<rparr>)) (\<lambda>_.
        sx_return context))))"

definition clear_conversation :: "conversation_key \<Rightarrow> (context_store, context_error, bool) sx" where
  "clear_conversation key st =
     (Inr (map_of (cs_items st) key \<noteq> None \<or> map_of (cs_pending_targets st) key \<noteq> None
         \<or> map_of (cs_current_employees st) key \<noteq> None
         \<or> list_ex (\<lambda>(i, snap). sc_key snap = key) (cs_selection_contexts st)),
      st\<lparr>cs_items := od_pop key (cs_items st),
         cs_pending_targets := od_pop key (cs_pending_targets st),
         cs_current_employees := od_pop key (cs_current_employees st),
         cs_selection_contexts := filter (\<lambda>(i, snap). sc_key snap \<noteq> key) (cs_selection_contexts st)\<rparr>)"

section \<open>What the entries come from\<close>

definition entries_ok ::
  "(conversation_key \<Rightarrow> conversation_context \<Rightarrow> bool) \<Rightarrow> (conversation_key \<Rightarrow> pending_target \<Rightarrow> bool)
    \<Rightarrow> (conversation_key \<Rightarrow> current_employee_context \<Rightarrow> bool) \<Rightarrow> context_store \<Rightarrow> bool" where
  "entries_ok G P E st \<longleftrightarrow> od_ok G (cs_items st) \<and> od_ok P (cs_pending_targets st)
     \<and> od_ok E (cs_current_employees st)
     \<and> od_ok (\<lambda>i snap. G (sc_key snap) (sc_context snap)) (cs_selection_contexts st)"

lemma entries_ok_purge [od_intros]:
  "entries_ok G P E st \<Longrightarrow> entries_ok G P E (purge_expired_contexts now st)"
  by (auto simp: entries_ok_def purge_expired_contexts_def intro: od_intros)

lemma entries_ok_candidates [od_intros]:
  "entries_ok G P E st \<Longrightarrow> G key ctx \<Longrightarrow> entries_ok G P E (store_candidates conf key i ctx st)"
  by (auto simp: entries_ok_def store_candidates_def intro!: od_intros)

lemma keeps_purge_contexts: "keeps (entries_ok G P E) (purge_contexts now)"
  unfolding purge_contexts_def by (rule keeps_modify) (rule entries_ok_purge)

lemma keeps_remember_candidates:
  assumes "\<And>validated safe. validate_employee_ids candidates = Inr validated \<Longrightarrow>
      validated_context_parameters parameters = Inr safe \<Longrightarrow> distinct validated \<Longrightarrow>
      candidates \<noteq> [] \<Longrightarrow> length candidates \<le> cs_max_candidates conf \<Longrightarrow>
      G key \<lparr>cc_candidate_employee_ids = validated, cc_function_id = function_id,
        cc_parameters = safe, cc_expires_at = now + cs_ttl_seconds conf\<rparr>"
  shows "keeps (entries_ok G P E)
    (remember_candidates conf now i key candidates function_id parameters)"
proof (cases "candidates = [] \<or> cs_max_candidates conf < length candidates")
  case True
  then show ?thesis
    by (intro keeps_pure) (simp add: remember_candidates_def sx_simps)
next
  case False
  note bounds = False
  show ?thesis
  proof (cases "validate_employee_ids candidates")
    case (Inl e)
    then show ?thesis by (intro keeps_pure) (simp add: remember_candidates_def sx_simps)
  next
    case (Inr validated)
    show ?thesis
    proof (cases "distinct validated")
      case True
      show ?thesis
        unfolding remember_candidates_def Inr
        by (intro keeps_bind keeps_simple keeps_lift_bind keeps_purge_contexts keeps_modify
            entries_ok_candidates assms)
          (use Inr True bounds in auto)
    next
      case False
      then show ?thesis using Inr bounds
        by (intro keeps_pure) (simp add: remember_candidates_def sx_simps)
    qed
  qed
qed

lemma keeps_remember_pending_target:
  assumes "\<And>safe. validated_context_parameters parameters = Inr safe \<Longrightarrow>
      P key \<lparr>pt_function_id = function_id, pt_parameters = safe,
        pt_expires_at = now + cs_ttl_seconds conf\<rparr>"
  shows "keeps (entries_ok G P E) (remember_pending_target conf now key function_id parameters)"
  unfolding remember_pending_target_def
  by (intro keeps_bind keeps_simple keeps_lift_bind keeps_purge_contexts keeps_modify)
    (auto simp: entries_ok_def intro!: od_intros assms)

lemma keeps_remember_current_employee:
  assumes "\<And>selected. validate_employee_id employee_id = Inr selected \<Longrightarrow>
      E key \<lparr>ce_employee_id = selected, ce_expires_at = now + cs_ttl_seconds conf\<rparr>"
  shows "keeps (entries_ok G P E) (remember_current_employee conf now key employee_id)"
  unfolding remember_current_employee_def
  by (intro keeps_bind keeps_simple keeps_lift_bind keeps_purge_contexts keeps_modify)
    (auto simp: entries_ok_def map_error_def split: sum.splits intro!: od_intros assms)

lemma keeps_pending_target_for: "keeps (entries_ok G P E) (pending_target_for now key request)"
  unfolding pending_target_for_def
  by (intro triple_if keeps_bind keeps_simple keeps_purge_contexts keeps_modify)
    (auto simp: entries_ok_def intro!: od_intros)

lemma keeps_candidate_context: "keeps (entries_ok G P E) (candidate_context now key request)"
  unfolding candidate_context_def
  by (intro triple_if keeps_bind keeps_simple keeps_purge_contexts keeps_modify)
    (auto simp: entries_ok_def intro!: od_intros)

lemma keeps_current_employee: "keeps (entries_ok G P E) (current_employee now key)"
  unfolding current_employee_def
  by (intro keeps_bind keeps_purge_contexts keeps_gets_bind)
    (auto simp: entries_ok_def sx_simps split: option.split intro!: od_intros)

lemma keeps_context_selection: "keeps (entries_ok G P E) (context_selection now key request)"
  unfolding context_selection_def
  by (intro keeps_bind keeps_purge_contexts keeps_gets_bind)
    (auto simp: entries_ok_def sx_simps split: option.split intro!: od_intros)

lemma keeps_activate_selection_context:
  "keeps (entries_ok G P E) (activate_selection_context now key i employee_id)"
  unfolding activate_selection_context_def
  by (intro triple_if triple_sum keeps_bind keeps_simple keeps_purge_contexts keeps_gets_bind)
    (auto simp: entries_ok_def sx_simps split: option.split intro!: od_intros
      dest: od_ok_lookup)

lemma keeps_clear_pending_target: "keeps (entries_ok G P E) (clear_pending_target key)"
  by (auto simp: keeps_snd clear_pending_target_def entries_ok_def intro!: od_intros)

lemma keeps_clear_conversation: "keeps (entries_ok G P E) (clear_conversation key)"
  by (auto simp: keeps_snd clear_conversation_def entries_ok_def intro!: od_intros)

section \<open>Histories\<close>

datatype context_op =
    OpCandidates int string conversation_key "string list" string "context_parameters option"
  | OpPending int conversation_key string "context_parameters option"
  | OpPendingFor int conversation_key string
  | OpClearPending conversation_key
  | OpEmployee int conversation_key string
  | OpCurrent int conversation_key
  | OpSelection int conversation_key string
  | OpActivate int conversation_key string string
  | OpCandidateContext int conversation_key string
  | OpClear conversation_key

fun context_step :: "context_config \<Rightarrow> context_op \<Rightarrow> context_store \<Rightarrow> context_store" where
  "context_step conf (OpCandidates now i key cs f ps) st = snd (remember_candidates conf now i key cs f ps st)"
| "context_step conf (OpPending now key f ps) st = snd (remember_pending_target conf now key f ps st)"
| "context_step conf (OpPendingFor now key r) st = snd (pending_target_for now key r st)"
| "context_step conf (OpClearPending key) st = snd (clear_pending_target key st)"
| "context_step conf (OpEmployee now key e) st = snd (remember_current_employee conf now key e st)"
| "context_step conf (OpCurrent now key) st = snd (current_employee now key st)"
| "context_step conf (OpSelection now key r) st = snd (context_selection now key r st)"
| "context_step conf (OpActivate now key i e) st = snd (activate_selection_context now key i e st)"
| "context_step conf (OpCandidateContext now key r) st = snd (candidate_context now key r st)"
| "context_step conf (OpClear key) st = snd (clear_conversation key st)"

abbreviation context_run :: "context_config \<Rightarrow> context_op list \<Rightarrow> context_store \<Rightarrow> context_store" where
  "context_run conf ops st \<equiv> fold (context_step conf) ops st"

text \<open>The calls after the last \<open>clear\<close> of a conversation.\<close>

definition since_clear :: "conversation_key \<Rightarrow> context_op list \<Rightarrow> context_op list" where
  "since_clear key ops = rev (takeWhile (\<lambda>op. op \<noteq> OpClear key) (rev ops))"

text \<open>
  What a call gave for a conversation: a candidate context, a pending target, a current employee,
  with the time until which it is good.
\<close>

definition gave_context :: "context_config \<Rightarrow> context_op list \<Rightarrow> conversation_key \<Rightarrow> conversation_context \<Rightarrow> bool"
where
  "gave_context conf ops key ctx \<longleftrightarrow> (\<exists>t i cs f ps. OpCandidates t i key cs f ps \<in> set ops
     \<and> validate_employee_ids cs = Inr (cc_candidate_employee_ids ctx)
     \<and> distinct (cc_candidate_employee_ids ctx) \<and> cs \<noteq> [] \<and> length cs \<le> cs_max_candidates conf
     \<and> cc_function_id ctx = f \<and> validated_context_parameters ps = Inr (cc_parameters ctx)
     \<and> cc_expires_at ctx = t + cs_ttl_seconds conf)"

definition gave_pending :: "context_config \<Rightarrow> context_op list \<Rightarrow> conversation_key \<Rightarrow> pending_target \<Rightarrow> bool"
where
  "gave_pending conf ops key target \<longleftrightarrow> (\<exists>t f ps. OpPending t key f ps \<in> set ops
     \<and> pt_function_id target = f \<and> validated_context_parameters ps = Inr (pt_parameters target)
     \<and> pt_expires_at target = t + cs_ttl_seconds conf)"

definition gave_employee ::
  "context_config \<Rightarrow> context_op list \<Rightarrow> conversation_key \<Rightarrow> current_employee_context \<Rightarrow> bool" where
  "gave_employee conf ops key ctx \<longleftrightarrow> (\<exists>t e. OpEmployee t key e \<in> set ops
     \<and> validate_employee_id e = Inr (ce_employee_id ctx)
     \<and> ce_expires_at ctx = t + cs_ttl_seconds conf)"

definition provenance_ok :: "context_config \<Rightarrow> context_op list \<Rightarrow> context_store \<Rightarrow> bool" where
  "provenance_ok conf ops = entries_ok
     (\<lambda>key. gave_context conf (since_clear key ops) key)
     (\<lambda>key. gave_pending conf (since_clear key ops) key)
     (\<lambda>key. gave_employee conf (since_clear key ops) key)"

lemma since_clear_append [simp]:
  "since_clear key (ops @ [op]) = (if op = OpClear key then [] else since_clear key ops @ [op])"
  by (simp add: since_clear_def)

lemma gave_append:
  "gave_context conf ops key ctx \<Longrightarrow> gave_context conf (ops @ [op]) key ctx"
  "gave_pending conf ops key target \<Longrightarrow> gave_pending conf (ops @ [op]) key target"
  "gave_employee conf ops key emp \<Longrightarrow> gave_employee conf (ops @ [op]) key emp"
  unfolding gave_context_def gave_pending_def gave_employee_def by (fastforce)+

lemma provenance_mono:
  "provenance_ok conf ops st \<Longrightarrow> \<forall>key. op \<noteq> OpClear key \<Longrightarrow> provenance_ok conf (ops @ [op]) st"
  unfolding provenance_ok_def entries_ok_def
  by (auto elim!: od_ok_mono intro: gave_append)

lemma provenance_clear:
  assumes "provenance_ok conf ops st"
  shows "provenance_ok conf (ops @ [OpClear key]) (snd (clear_conversation key st))"
  using assms unfolding provenance_ok_def entries_ok_def clear_conversation_def od_ok_def
  by (auto simp: distinct_filter_keys od_pop_def gave_append)

lemma provenance_step:
  assumes "provenance_ok conf ops st"
  shows "provenance_ok conf (ops @ [op]) (context_step conf op st)"
proof (cases op)
  case (OpClear key)
  then show ?thesis using provenance_clear [OF assms] by simp
next
  case (OpCandidates now i key cs f ps)
  have "keeps (provenance_ok conf (ops @ [op])) (remember_candidates conf now i key cs f ps)"
    unfolding provenance_ok_def
    by (rule keeps_remember_candidates) (simp add: OpCandidates gave_context_def, blast)
  then show ?thesis using provenance_mono [OF assms, of op] by (simp add: OpCandidates keepsD)
next
  case (OpPending now key f ps)
  have "keeps (provenance_ok conf (ops @ [op])) (remember_pending_target conf now key f ps)"
    unfolding provenance_ok_def
    by (rule keeps_remember_pending_target) (simp add: OpPending gave_pending_def, blast)
  then show ?thesis using provenance_mono [OF assms, of op] by (simp add: OpPending keepsD)
next
  case (OpEmployee now key e)
  have "keeps (provenance_ok conf (ops @ [op])) (remember_current_employee conf now key e)"
    unfolding provenance_ok_def
    by (rule keeps_remember_current_employee) (simp add: OpEmployee gave_employee_def, blast)
  then show ?thesis using provenance_mono [OF assms, of op] by (simp add: OpEmployee keepsD)
qed (use provenance_mono [OF assms, of op] in \<open>simp_all add: provenance_ok_def keepsD
    keeps_pending_target_for keeps_clear_pending_target keeps_current_employee keeps_context_selection
    keeps_activate_selection_context keeps_candidate_context\<close>)

lemma provenance_run: "provenance_ok conf [] st \<Longrightarrow> provenance_ok conf ops (context_run conf ops st)"
proof (induction ops rule: rev_induct)
  case (snoc op ops)
  then show ?case by (simp add: provenance_step)
qed simp

lemma new_context_store_ok:
  assumes "new_context_store ttl n m = Inr (conf, st)"
  shows "provenance_ok conf [] st" "cs_ttl_seconds conf = ttl" "cs_max_conversations conf = n"
    "cs_max_candidates conf = m" "st = \<lparr>cs_items = [], cs_pending_targets = [],
      cs_current_employees = [], cs_selection_contexts = []\<rparr>"
  using assms by (auto simp: new_context_store_def provenance_ok_def entries_ok_def od_ok_Nil
      split: if_splits)

section \<open>How many entries\<close>

text \<open>
  Every dictionary but the candidate lists is trimmed where it grows. A menu that restores its
  snapshot adds to the candidate lists without trimming them: the lists that no snapshot backs are
  within the limit, and so are the snapshots.
\<close>

definition snapshots :: "context_store \<Rightarrow> (conversation_key \<times> conversation_context) set" where
  "snapshots st = (\<lambda>e. (sc_key (snd e), sc_context (snd e))) ` set (cs_selection_contexts st)"

definition unbacked :: "context_store \<Rightarrow> (conversation_key \<times> conversation_context) set" where
  "unbacked st = set (cs_items st) - snapshots st"

definition sizes_ok :: "nat \<Rightarrow> context_store \<Rightarrow> bool" where
  "sizes_ok n st \<longleftrightarrow> length (cs_pending_targets st) \<le> n \<and> length (cs_current_employees st) \<le> n
     \<and> length (cs_selection_contexts st) \<le> n \<and> card (unbacked st) \<le> n
     \<and> entries_ok (\<lambda>_ _. True) (\<lambda>_ _. True) (\<lambda>_ _. True) st"

lemma unbacked_finite [simp]: "finite (unbacked st)"
  by (simp add: unbacked_def)

lemma sizes_ok_smaller:
  assumes "sizes_ok n st" "length (cs_pending_targets st') \<le> length (cs_pending_targets st)"
    "length (cs_current_employees st') \<le> length (cs_current_employees st)"
    "length (cs_selection_contexts st') \<le> length (cs_selection_contexts st)"
    "unbacked st' \<subseteq> unbacked st" "entries_ok (\<lambda>_ _. True) (\<lambda>_ _. True) (\<lambda>_ _. True) st'"
  shows "sizes_ok n st'"
  using assms card_mono [OF unbacked_finite assms(5)] by (simp add: sizes_ok_def)

lemma sizes_ok_entries: "sizes_ok n st \<Longrightarrow> entries_ok (\<lambda>_ _. True) (\<lambda>_ _. True) (\<lambda>_ _. True) st"
  by (simp add: sizes_ok_def)

lemma sizes_ok_purge:
  assumes "sizes_ok n st"
  shows "sizes_ok n (purge_expired_contexts now st)"
proof (rule sizes_ok_smaller [OF assms])
  show "entries_ok (\<lambda>_ _. True) (\<lambda>_ _. True) (\<lambda>_ _. True) (purge_expired_contexts now st)"
    by (rule entries_ok_purge [OF sizes_ok_entries [OF assms]])
  show "unbacked (purge_expired_contexts now st) \<subseteq> unbacked st"
  proof
    fix e assume e: "e \<in> unbacked (purge_expired_contexts now st)"
    obtain k ctx where k: "e = (k, ctx)" by (cases e)
    have item: "(k, ctx) \<in> set (cs_items st)" "now < cc_expires_at ctx"
      using e by (auto simp: k unbacked_def purge_expired_contexts_def)
    have "(k, ctx) \<in> snapshots (purge_expired_contexts now st)" if "(k, ctx) \<in> snapshots st"
    proof -
      from that obtain i snap where "(i, snap) \<in> set (cs_selection_contexts st)"
        "k = sc_key snap" "ctx = sc_context snap" by (auto simp: snapshots_def)
      then show ?thesis
        using item(2) by (force simp: snapshots_def purge_expired_contexts_def)
    qed
    then have "(k, ctx) \<notin> snapshots st" using e by (auto simp: k unbacked_def)
    then show "e \<in> unbacked st" using item(1) by (simp add: k unbacked_def)
  qed
qed (simp_all add: purge_expired_contexts_def)

lemma items_within:
  assumes "sizes_ok n st"
  shows "length (cs_items st) \<le> 2 * n"
proof -
  have "distinct (cs_items st)"
    using sizes_ok_entries [OF assms] by (simp add: entries_ok_def od_ok_def distinct_map)
  then have "length (cs_items st) = card (set (cs_items st))" by (simp add: distinct_card)
  also have "\<dots> \<le> card (unbacked st \<union> snapshots st)"
    by (rule card_mono) (auto simp: unbacked_def snapshots_def)
  also have "\<dots> \<le> card (unbacked st) + card (snapshots st)" by (rule card_Un_le)
  also have "card (snapshots st) \<le> length (cs_selection_contexts st)"
    unfolding snapshots_def by (rule order_trans [OF card_image_le card_length]) simp
  finally show ?thesis using assms by (simp add: sizes_ok_def)
qed

lemma keeps_sizes_purge: "keeps (sizes_ok n) (purge_contexts now)"
  unfolding purge_contexts_def by (rule keeps_modify) (rule sizes_ok_purge)

lemma sizes_ok_candidates:
  assumes "sizes_ok n st" "cs_max_conversations conf = n"
  shows "sizes_ok n (store_candidates conf key i ctx st)"
proof -
  let ?st = "store_candidates conf key i ctx st"
  have "card (unbacked ?st) \<le> card (set (cs_items ?st))"
    by (rule card_mono) (auto simp: unbacked_def)
  also have "\<dots> \<le> length (cs_items ?st)" by (rule card_length)
  also have "\<dots> \<le> n" by (simp add: store_candidates_def assms(2) [symmetric])
  finally have "card (unbacked ?st) \<le> n" .
  moreover have "length (od_pop key (cs_pending_targets st)) \<le> n"
    using assms(1) order_trans [OF od_pop_length] by (auto simp: sizes_ok_def)
  ultimately show ?thesis
    using entries_ok_candidates [OF sizes_ok_entries [OF assms(1)] TrueI, of conf key i ctx] assms
    by (simp add: sizes_ok_def) (simp add: store_candidates_def)
qed

lemma sizes_ok_updates:
  assumes "sizes_ok n st"
  shows "sizes_ok n (st\<lparr>cs_items := od_move_to_end key (cs_items st)\<rparr>)"
    "sizes_ok n (st\<lparr>cs_pending_targets := od_move_to_end key (cs_pending_targets st)\<rparr>)"
    "sizes_ok n (st\<lparr>cs_current_employees := od_move_to_end key (cs_current_employees st)\<rparr>)"
    "sizes_ok n (st\<lparr>cs_pending_targets := od_pop key (cs_pending_targets st)\<rparr>)"
    "sizes_ok n (st\<lparr>cs_pending_targets := od_trim n (od_store key target (cs_pending_targets st))\<rparr>)"
    "sizes_ok n (st\<lparr>cs_current_employees := od_trim n (od_store key emp (cs_current_employees st))\<rparr>)"
  using assms order_trans [OF od_pop_length, of "cs_pending_targets st" n key]
  by (auto simp: sizes_ok_def unbacked_def snapshots_def entries_ok_def intro!: od_intros)

lemma sizes_ok_activate:
  assumes "sizes_ok n st" "map_of (cs_selection_contexts st) i = Some snap" "sc_key snap = key"
  shows "sizes_ok n (st\<lparr>cs_selection_contexts := od_move_to_end i (cs_selection_contexts st),
      cs_items := od_store key (sc_context snap) (cs_items st)\<rparr>)"
proof (rule sizes_ok_smaller [OF assms(1)])
  note entries = sizes_ok_entries [OF assms(1), unfolded entries_ok_def]
  show "entries_ok (\<lambda>_ _. True) (\<lambda>_ _. True) (\<lambda>_ _. True)
     (st\<lparr>cs_selection_contexts := od_move_to_end i (cs_selection_contexts st),
      cs_items := od_store key (sc_context snap) (cs_items st)\<rparr>)"
    using entries by (auto simp: entries_ok_def intro!: od_intros)
  have "(key, sc_context snap) \<in> snapshots st"
    unfolding snapshots_def using map_of_SomeD [OF assms(2)] assms(3) by force
  then show "unbacked (st\<lparr>cs_selection_contexts := od_move_to_end i (cs_selection_contexts st),
      cs_items := od_store key (sc_context snap) (cs_items st)\<rparr>) \<subseteq> unbacked st"
    using entries by (auto simp: unbacked_def snapshots_def od_ok_def)
qed simp_all

lemma sizes_ok_clear:
  assumes "sizes_ok n st"
  shows "sizes_ok n (snd (clear_conversation key st))"
proof (rule sizes_ok_smaller [OF assms])
  show "entries_ok (\<lambda>_ _. True) (\<lambda>_ _. True) (\<lambda>_ _. True) (snd (clear_conversation key st))"
    by (rule keepsD [OF keeps_clear_conversation sizes_ok_entries [OF assms]])
qed (auto simp: clear_conversation_def unbacked_def snapshots_def image_iff)

lemma sizes_ok_step:
  assumes "sizes_ok n st" "cs_max_conversations conf = n"
  shows "sizes_ok n (context_step conf op st)"
proof (cases op)
  case (OpCandidates now i key cs f ps)
  have "keeps (sizes_ok n) (remember_candidates conf now i key cs f ps)"
    unfolding remember_candidates_def
    by (intro keeps_bind keeps_simple keeps_sizes_purge keeps_modify sizes_ok_candidates assms(2))
  then show ?thesis using assms by (simp add: OpCandidates keepsD)
next
  case (OpPending now key f ps)
  have "keeps (sizes_ok n) (remember_pending_target conf now key f ps)"
    unfolding remember_pending_target_def assms(2)
    by (intro keeps_bind keeps_simple keeps_sizes_purge keeps_modify sizes_ok_updates)
  then show ?thesis using assms by (simp add: OpPending keepsD)
next
  case (OpPendingFor now key r)
  have "keeps (sizes_ok n) (pending_target_for now key r)"
    unfolding pending_target_for_def
    by (intro triple_if keeps_bind keeps_simple keeps_sizes_purge keeps_modify)
      (simp add: sizes_ok_updates)
  then show ?thesis using assms by (simp add: OpPendingFor keepsD)
next
  case (OpEmployee now key e)
  have "keeps (sizes_ok n) (remember_current_employee conf now key e)"
    unfolding remember_current_employee_def assms(2)
    by (intro keeps_bind keeps_simple keeps_sizes_purge keeps_modify sizes_ok_updates)
  then show ?thesis using assms by (simp add: OpEmployee keepsD)
next
  case (OpCurrent now key)
  have "keeps (sizes_ok n) (current_employee now key)"
    unfolding current_employee_def
    by (intro keeps_bind keeps_sizes_purge keeps_gets_bind)
      (simp add: sx_simps sizes_ok_updates split: option.split)
  then show ?thesis using assms by (simp add: OpCurrent keepsD)
next
  case (OpSelection now key r)
  have "keeps (sizes_ok n) (context_selection now key r)"
    unfolding context_selection_def
    by (intro keeps_bind keeps_sizes_purge keeps_gets_bind)
      (simp add: sx_simps sizes_ok_updates split: option.split)
  then show ?thesis using assms by (simp add: OpSelection keepsD)
next
  case (OpActivate now key i e)
  have "keeps (sizes_ok n) (activate_selection_context now key i e)"
    unfolding activate_selection_context_def
    by (intro triple_if triple_sum keeps_bind keeps_simple keeps_sizes_purge keeps_gets_bind)
      (simp add: sx_simps sizes_ok_activate split: option.split)
  then show ?thesis using assms by (simp add: OpActivate keepsD)
next
  case (OpCandidateContext now key r)
  have "keeps (sizes_ok n) (candidate_context now key r)"
    unfolding candidate_context_def
    by (intro triple_if keeps_bind keeps_simple keeps_sizes_purge keeps_modify)
      (simp add: sizes_ok_updates)
  then show ?thesis using assms by (simp add: OpCandidateContext keepsD)
qed (use assms in \<open>simp_all add: sizes_ok_clear clear_pending_target_def sizes_ok_updates\<close>)

lemma sizes_ok_run:
  assumes "new_context_store ttl n m = Inr (conf, st)"
  shows "sizes_ok n (context_run conf ops st)"
proof (induction ops rule: rev_induct)
  case Nil
  then show ?case
    using new_context_store_ok(5) [OF assms]
    by (simp add: sizes_ok_def unbacked_def entries_ok_def od_ok_Nil)
next
  case (snoc op ops)
  then show ?case using sizes_ok_step new_context_store_ok(3) [OF assms] by simp
qed

section \<open>Properties\<close>

lemma purged_lookup:
  "map_of (cs_items (purge_expired_contexts now st)) key = Some ctx \<Longrightarrow>
     (key, ctx) \<in> set (cs_items st) \<and> now < cc_expires_at ctx"
  "map_of (cs_pending_targets (purge_expired_contexts now st)) key = Some target \<Longrightarrow>
     (key, target) \<in> set (cs_pending_targets st) \<and> now < pt_expires_at target"
  "map_of (cs_current_employees (purge_expired_contexts now st)) key = Some emp \<Longrightarrow>
     (key, emp) \<in> set (cs_current_employees st) \<and> now < ce_expires_at emp"
  by (auto simp: purge_expired_contexts_def dest!: map_of_SomeD)

lemma provenance_lookup:
  assumes "provenance_ok conf ops st"
  shows "(key, ctx) \<in> set (cs_items st) \<Longrightarrow> gave_context conf (since_clear key ops) key ctx"
    "(key, target) \<in> set (cs_pending_targets st) \<Longrightarrow> gave_pending conf (since_clear key ops) key target"
    "(key, emp) \<in> set (cs_current_employees st) \<Longrightarrow> gave_employee conf (since_clear key ops) key emp"
  using assms by (auto simp: provenance_ok_def entries_ok_def od_ok_def)

lemma context_selection_found:
  assumes "fst (context_selection now key request st) = Inr (Some (e, ctx))"
  shows "map_of (cs_items (purge_expired_contexts now st)) key = Some ctx
    \<and> selected_employee (cc_candidate_employee_ids ctx) (normalize_request request) = Some e"
  using assms by (auto simp: context_selection_def purge_contexts_def sx_simps split: option.splits)

lemma ordinals_positive: "map_of ORDINALS w = Some n \<Longrightarrow> 1 \<le> n"
  by (auto simp: ORDINALS_def split: if_splits)

lemma selected_employee_in: "selected_employee cs s = Some e \<Longrightarrow> e \<in> set cs"
  unfolding selected_employee_def ordinal_reference_def Let_def
  by (auto dest: ordinals_positive split: option.splits sum.splits if_splits)

lemma current_employee_found:
  assumes "fst (current_employee now key st) = Inr (Some e)"
  shows "\<exists>emp. map_of (cs_current_employees (purge_expired_contexts now st)) key = Some emp
    \<and> ce_employee_id emp = e"
  using assms by (auto simp: current_employee_def purge_contexts_def sx_simps split: option.splits)

lemma pending_target_found:
  assumes "fst (pending_target_for now key request st) = Inr (Some target)"
  shows "map_of (cs_pending_targets (purge_expired_contexts now st)) key = Some target"
  using assms by (auto simp: pending_target_for_def purge_contexts_def sx_simps split: if_splits)

lemma candidate_context_found:
  assumes "fst (candidate_context now key request st) = Inr (Some ctx)"
  shows "map_of (cs_items (purge_expired_contexts now st)) key = Some ctx"
  using assms by (auto simp: candidate_context_def purge_contexts_def sx_simps split: if_splits)

text \<open>C19: A short answer in a conversation is resolved only to what was remembered for that very
  user, server and channel, after its last clear and not longer ago than the time to live: the
  chosen employee is one of the candidates of one remembered list, and that list, the list a bare name is
  looked up in, the current employee and the pending operation were remembered by a call for that
  conversation. This holds after any calls, the restoring of a selection menu included.\<close>

theorem conversations_isolated:
  assumes "new_context_store ttl n m = Inr (conf, st0)"
  shows "let st = context_run conf ops st0; own = since_clear key ops in
     (fst (context_selection now key request st) = Inr (Some (e, ctx)) \<longrightarrow>
        e \<in> set (cc_candidate_employee_ids ctx) \<and> gave_context conf own key ctx
        \<and> now < cc_expires_at ctx)
     \<and> (fst (current_employee now key st) = Inr (Some e) \<longrightarrow>
        (\<exists>emp. ce_employee_id emp = e \<and> gave_employee conf own key emp \<and> now < ce_expires_at emp))
     \<and> (fst (pending_target_for now key request st) = Inr (Some target) \<longrightarrow>
        gave_pending conf own key target \<and> now < pt_expires_at target)
     \<and> (fst (candidate_context now key request st) = Inr (Some ctx) \<longrightarrow>
        gave_context conf own key ctx \<and> now < cc_expires_at ctx)"
proof -
  let ?st = "context_run conf ops st0"
  note from_call = provenance_lookup [OF provenance_run [OF new_context_store_ok(1) [OF assms]]]
  have "e \<in> set (cc_candidate_employee_ids ctx) \<and> gave_context conf (since_clear key ops) key ctx
        \<and> now < cc_expires_at ctx"
    if "fst (context_selection now key request ?st) = Inr (Some (e, ctx))"
    using context_selection_found [OF that] purged_lookup(1) [of now ?st key ctx] from_call(1)
      selected_employee_in by blast
  moreover have "\<exists>emp. ce_employee_id emp = e \<and> gave_employee conf (since_clear key ops) key emp
        \<and> now < ce_expires_at emp"
    if "fst (current_employee now key ?st) = Inr (Some e)"
    using current_employee_found [OF that] purged_lookup(3) [of now ?st key] from_call(3) by blast
  moreover have "gave_pending conf (since_clear key ops) key target \<and> now < pt_expires_at target"
    if "fst (pending_target_for now key request ?st) = Inr (Some target)"
    using pending_target_found [OF that] purged_lookup(2) [of now ?st key target] from_call(2) by blast
  moreover have "gave_context conf (since_clear key ops) key ctx \<and> now < cc_expires_at ctx"
    if "fst (candidate_context now key request ?st) = Inr (Some ctx)"
    using candidate_context_found [OF that] purged_lookup(1) [of now ?st key ctx] from_call(1) by blast
  ultimately show ?thesis by (simp add: Let_def)
qed

definition demo_key :: "int \<Rightarrow> conversation_key" where
  "demo_key user = \<lparr>ck_user_id = user, ck_guild_id = 9, ck_channel_id = 9\<rparr>"

definition demo_config :: context_config where
  "demo_config = \<lparr>cs_ttl_seconds = 900, cs_max_conversations = 2, cs_max_candidates = 10\<rparr>"

definition empty_context_store :: context_store where
  "empty_context_store = \<lparr>cs_items = [], cs_pending_targets = [], cs_current_employees = [],
     cs_selection_contexts = []\<rparr>"

text \<open>Three conversations in a store for two: the second is pushed out, then restored by its menu.\<close>

definition demo_ops :: "context_op list" where
  "demo_ops =
     [OpCandidates 0 (replicate 32 CHR ''a'') (demo_key 1) [''e1''] ''EMP-001'' None,
      OpCandidates 1 (replicate 32 CHR ''b'') (demo_key 2) [''e2'', ''e4''] ''EMP-001'' None,
      OpCandidateContext 2 (demo_key 1) ''Rossi'',
      OpCandidates 3 (replicate 32 CHR ''c'') (demo_key 3) [''e3''] ''EMP-001'' None,
      OpActivate 4 (demo_key 2) (replicate 32 CHR ''b'') ''e2'']"

lemma demo_store: "new_context_store 900 2 10 = Inr (demo_config, empty_context_store)"
  by (simp add: new_context_store_def demo_config_def empty_context_store_def)

theorem conversations_isolated_witness:
  "\<exists>ctx. fst (context_selection 5 (demo_key 2) ''apri la seconda''
       (context_run demo_config demo_ops empty_context_store)) = Inr (Some (''e4'', ctx))
     \<and> 5 < cc_expires_at ctx"
proof -
  have run: "fst (context_selection 5 (demo_key 2) ''apri la seconda''
       (context_run demo_config demo_ops empty_context_store))
     = Inr (Some (''e4'', \<lparr>cc_candidate_employee_ids = [''e2'', ''e4''],
         cc_function_id = ''EMP-001'', cc_parameters = [], cc_expires_at = 901\<rparr>))" by code_simp
  show ?thesis
    using conversations_isolated [OF demo_store, of demo_ops "demo_key 2" 5 "''apri la seconda''" "''e4''"
      "\<lparr>cc_candidate_employee_ids = [''e2'', ''e4''], cc_function_id = ''EMP-001'', cc_parameters = [],
         cc_expires_at = 901\<rparr>"] run
    by (simp add: Let_def)
qed

text \<open>After any calls the pending targets, the current employees and the menu snapshots hold at
  most the configured number of conversations, and the candidate lists at most twice that number.\<close>

theorem context_store_bounded:
  assumes "new_context_store ttl n m = Inr (conf, st0)"
  shows "let st = context_run conf ops st0 in
     length (cs_pending_targets st) \<le> n \<and> length (cs_current_employees st) \<le> n
     \<and> length (cs_selection_contexts st) \<le> n \<and> length (cs_items st) \<le> 2 * n"
  using sizes_ok_run [OF assms] items_within [OF sizes_ok_run [OF assms]]
  by (simp add: sizes_ok_def Let_def)

theorem context_store_bounded_witness:
  "length (cs_items (context_run demo_config demo_ops empty_context_store)) \<le> 4"
  using context_store_bounded [OF demo_store, of demo_ops] by (simp add: Let_def)

text \<open>
  The limit itself is not kept: \<open>activate_selection_context\<close> adds to the candidate lists without
  trimming them, so a store for two conversations comes to hold the lists of three.
\<close>

lemma activation_exceeds_limit:
  "length (cs_items (context_run demo_config demo_ops empty_context_store)) = 3
   \<and> cs_max_conversations demo_config = 2"
  by code_simp

end
