(* ===== verification/AuditChain.thy ===== *)
theory AuditChain
  imports Json
begin

text \<open>
  The tamper-evident audit log: the event schema (\<^verbatim>\<open>audit/models.py\<close>), the chain functions
  (\<^verbatim>\<open>audit/chain.py\<close>) and the append and verify operations over the two tables
  (\<^verbatim>\<open>audit/service.py\<close>). A table is the list of its rows in order of \<open>sequence\<close>; an append is
  one transaction, so a refused one leaves the tables. The timestamp is the text pydantic gives it
  in JSON mode, and HMAC-SHA256 in hexadecimal is a function argument.
\<close>

datatype audit_outcome = OUT_SUCCESS | OUT_DENIED | OUT_FAILED | OUT_PENDING | OUT_UNCERTAIN

definition outcome_value :: "audit_outcome \<Rightarrow> string" where
  "outcome_value r = (case r of
     OUT_SUCCESS \<Rightarrow> ''SUCCESS'' | OUT_DENIED \<Rightarrow> ''DENIED'' | OUT_FAILED \<Rightarrow> ''FAILED''
   | OUT_PENDING \<Rightarrow> ''PENDING'' | OUT_UNCERTAIN \<Rightarrow> ''UNCERTAIN'')"

record audit_event =
  ev_event_id :: string
  ev_timestamp_utc :: string
  ev_event_type :: string
  ev_correlation_id :: string
  ev_actor_discord_id :: "string option"
  ev_guild_id :: "string option"
  ev_channel_id :: "string option"
  ev_function_id :: "string option"
  ev_target_pseudonym :: "string option"
  ev_outcome :: audit_outcome
  ev_payload :: "(string \<times> json) list"

record audit_material = audit_event +
  ev_sequence :: nat
  ev_previous_hash :: string

record audit_view = audit_material +
  ev_event_hash :: string

section \<open>Payload keys\<close>

text \<open>The alternatives of \<open>_FORBIDDEN_AUDIT_KEY\<close>: letters, an optional hyphen, an optional dot.\<close>

datatype pattern_item = Lit char | OptHyphen | OptAny

definition lits :: "string \<Rightarrow> pattern_item list" where
  "lits s = map Lit s"

definition forbidden_alternatives :: "pattern_item list list" where
  "forbidden_alternatives = [lits ''password'', lits ''passwd'', lits ''token'', lits ''secret'',
     lits ''authorization'', lits ''cookie'', lits ''totp'', lits ''iban'',
     lits ''codice'' @ OptAny # lits ''fiscale'', lits ''tax'' @ OptAny # lits ''id'',
     lits ''e'' @ OptHyphen # lits ''mail'', lits ''phone'', lits ''telefono'', lits ''address'',
     lits ''indirizzo'', lits ''first'' @ OptAny # lits ''name'', lits ''last'' @ OptAny # lits ''name'',
     lits ''nome'', lits ''cognome'', lits ''birth'', lits ''nascita'',
     lits ''document'' @ OptAny # lits ''content'', lits ''file'' @ OptAny # lits ''content'',
     lits ''storage'' @ OptAny # lits ''state'', lits ''full'' @ OptAny # lits ''prompt'']"

fun matches_here :: "pattern_item list \<Rightarrow> string \<Rightarrow> bool" where
  "matches_here [] s = True"
| "matches_here (Lit c # ps) s = (case s of [] \<Rightarrow> False | d # s' \<Rightarrow> lower_char d = c \<and> matches_here ps s')"
| "matches_here (OptHyphen # ps) s =
     (matches_here ps s \<or> (case s of [] \<Rightarrow> False | d # s' \<Rightarrow> d = CHR ''-'' \<and> matches_here ps s'))"
| "matches_here (OptAny # ps) s =
     (matches_here ps s \<or> (case s of [] \<Rightarrow> False | d # s' \<Rightarrow> d \<noteq> char_of (10 :: nat) \<and> matches_here ps s'))"

fun search_pattern :: "pattern_item list \<Rightarrow> string \<Rightarrow> bool" where
  "search_pattern ps [] = matches_here ps []"
| "search_pattern ps (c # s) = (matches_here ps (c # s) \<or> search_pattern ps s)"

definition forbidden_audit_key :: "string \<Rightarrow> bool" where
  "forbidden_audit_key key = list_ex (\<lambda>ps. search_pattern ps key) forbidden_alternatives"

text \<open>\<open>visit\<close> of the payload validator: the first forbidden key, depth first.\<close>

fun visit_value :: "json \<Rightarrow> string option"
  and visit_items :: "json list \<Rightarrow> string option"
  and visit_members :: "(string \<times> json) list \<Rightarrow> string option" where
  "visit_value (JObj ms) = visit_members ms"
| "visit_value (JList vs) = visit_items vs"
| "visit_value _ = None"
| "visit_items [] = None"
| "visit_items (v # vs) = (case visit_value v of Some k \<Rightarrow> Some k | None \<Rightarrow> visit_items vs)"
| "visit_members [] = None"
| "visit_members ((k, v) # ms) =
     (if forbidden_audit_key k then Some k
      else case visit_value v of Some k' \<Rightarrow> Some k' | None \<Rightarrow> visit_members ms)"

definition reject_sensitive_payload_keys ::
  "(string \<times> json) list \<Rightarrow> string + (string \<times> json) list" where
  "reject_sensitive_payload_keys payload =
     (case visit_value (JObj payload) of Some k \<Rightarrow> Inl k | None \<Rightarrow> Inr payload)"

section \<open>The chain\<close>

definition GENESIS_HASH :: string where
  "GENESIS_HASH = replicate 64 CHR ''0''"

definition hash_pattern :: "string \<Rightarrow> bool" where
  "hash_pattern s = (length s = 64 \<and> list_all is_hex_lower s)"

datatype audit_error = HmacKeyTooShort | AuditAppendError | AuditIntegrityError

definition normalize_hmac_key :: "bytes \<Rightarrow> audit_error + bytes" where
  "normalize_hmac_key key = (if length key < 32 then Inl HmacKeyTooShort else Inr key)"

definition opt_json :: "string option \<Rightarrow> json" where
  "opt_json v = (case v of None \<Rightarrow> JNull | Some s \<Rightarrow> JStr s)"

text \<open>\<open>event.model_dump(mode="json")\<close> of the material (the hash of a view is not part of it).\<close>

definition event_members :: "'a audit_material_scheme \<Rightarrow> (string \<times> json) list" where
  "event_members e = [
     (''event_id'', JStr (ev_event_id e)),
     (''timestamp_utc'', JStr (ev_timestamp_utc e)),
     (''event_type'', JStr (ev_event_type e)),
     (''correlation_id'', JStr (ev_correlation_id e)),
     (''actor_discord_id'', opt_json (ev_actor_discord_id e)),
     (''guild_id'', opt_json (ev_guild_id e)),
     (''channel_id'', opt_json (ev_channel_id e)),
     (''function_id'', opt_json (ev_function_id e)),
     (''target_pseudonym'', opt_json (ev_target_pseudonym e)),
     (''outcome'', JStr (outcome_value (ev_outcome e))),
     (''payload'', JObj (ev_payload e)),
     (''sequence'', JInt (int (ev_sequence e))),
     (''previous_hash'', JStr (ev_previous_hash e))]"

definition event_json :: "'a audit_material_scheme \<Rightarrow> json" where
  "event_json e = JObj (event_members e)"

definition canonical_event_bytes :: "'a audit_material_scheme \<Rightarrow> bytes" where
  "canonical_event_bytes e = utf8 (json_dumps (event_json e))"

type_synonym hmac_hex = "bytes \<Rightarrow> bytes \<Rightarrow> string"

definition compute_event_hash :: "hmac_hex \<Rightarrow> bytes \<Rightarrow> 'a audit_material_scheme \<Rightarrow> audit_error + string" where
  "compute_event_hash hmac key e = (case normalize_hmac_key key of
     Inl err \<Rightarrow> Inl err | Inr k \<Rightarrow> Inr (hmac k (canonical_event_bytes e)))"

definition verify_event_hash ::
  "hmac_hex \<Rightarrow> bytes \<Rightarrow> 'a audit_material_scheme \<Rightarrow> string \<Rightarrow> audit_error + bool" where
  "verify_event_hash hmac key e claimed_hash =
     (if \<not> hash_pattern claimed_hash then Inr False
      else case compute_event_hash hmac key e of
        Inl err \<Rightarrow> Inl err | Inr h \<Rightarrow> Inr (h = claimed_hash))"

record verification_result =
  vr_valid :: bool
  vr_event_count :: nat
  vr_last_sequence :: nat
  vr_last_hash :: string
  vr_failure_sequence :: "nat option"
  vr_reason :: "string option"

definition failed_at :: "nat \<Rightarrow> nat \<Rightarrow> string \<Rightarrow> nat option \<Rightarrow> string \<Rightarrow> verification_result" where
  "failed_at count last_sequence last_hash failure reason =
     \<lparr>vr_valid = False, vr_event_count = count, vr_last_sequence = last_sequence,
      vr_last_hash = last_hash, vr_failure_sequence = failure, vr_reason = Some reason\<rparr>"

text \<open>
  The loop, with \<open>expected_sequence\<close> and \<open>expected_previous\<close> as its state: a failure, or the state at
  the end. A key shorter than 32 bytes was refused before it.
\<close>

fun verify_loop :: "hmac_hex \<Rightarrow> bytes \<Rightarrow> nat \<Rightarrow> audit_view list \<Rightarrow> nat \<Rightarrow> string
    \<Rightarrow> verification_result + nat \<times> string" where
  "verify_loop hmac key count [] expected_sequence expected_previous =
     Inr (expected_sequence, expected_previous)"
| "verify_loop hmac key count (e # events) expected_sequence expected_previous =
     (if ev_sequence e \<noteq> expected_sequence
        then Inl (failed_at count (expected_sequence - 1) expected_previous (Some expected_sequence)
          ''non-contiguous audit sequence'')
      else if ev_previous_hash e \<noteq> expected_previous
        then Inl (failed_at count (expected_sequence - 1) expected_previous (Some (ev_sequence e))
          ''previous hash mismatch'')
      else if verify_event_hash hmac key e (ev_event_hash e) \<noteq> Inr True
        then Inl (failed_at count (expected_sequence - 1) expected_previous (Some (ev_sequence e))
          ''event HMAC mismatch'')
      else verify_loop hmac key count events (expected_sequence + 1) (ev_event_hash e))"

definition verify_events :: "hmac_hex \<Rightarrow> audit_view list \<Rightarrow> bytes \<Rightarrow> nat option \<Rightarrow> string option
    \<Rightarrow> audit_error + verification_result" where
  "verify_events hmac events key state_sequence state_hash =
     (case normalize_hmac_key key of
        Inl err \<Rightarrow> Inl err
      | Inr k \<Rightarrow>
          (case verify_loop hmac k (length events) events 1 GENESIS_HASH of
             Inl failure \<Rightarrow> Inr failure
           | Inr (expected_sequence, expected_previous) \<Rightarrow> (let last_sequence = expected_sequence - 1 in
               if state_sequence \<noteq> None \<and> state_sequence \<noteq> Some last_sequence
                 then Inr (failed_at (length events) last_sequence expected_previous None
                   ''audit chain-state sequence mismatch'')
               else if state_hash \<noteq> None \<and> state_hash \<noteq> Some expected_previous
                 then Inr (failed_at (length events) last_sequence expected_previous None
                   ''audit chain-state hash mismatch'')
               else Inr \<lparr>vr_valid = True, vr_event_count = length events,
                 vr_last_sequence = last_sequence, vr_last_hash = expected_previous,
                 vr_failure_sequence = None, vr_reason = None\<rparr>)))"

section \<open>The service\<close>

record audit_db =
  ad_rows :: "audit_view list"
  ad_state :: "(nat \<times> string) option"

definition empty_audit_db :: audit_db where
  "empty_audit_db = \<lparr>ad_rows = [], ad_state = None\<rparr>"

definition audit_view_of :: "audit_event \<Rightarrow> nat \<Rightarrow> string \<Rightarrow> string \<Rightarrow> audit_view" where
  "audit_view_of e sequence previous_hash event_hash =
     \<lparr>ev_event_id = ev_event_id e, ev_timestamp_utc = ev_timestamp_utc e,
      ev_event_type = ev_event_type e, ev_correlation_id = ev_correlation_id e,
      ev_actor_discord_id = ev_actor_discord_id e, ev_guild_id = ev_guild_id e,
      ev_channel_id = ev_channel_id e, ev_function_id = ev_function_id e,
      ev_target_pseudonym = ev_target_pseudonym e, ev_outcome = ev_outcome e,
      ev_payload = ev_payload e, ev_sequence = sequence, ev_previous_hash = previous_hash,
      ev_event_hash = event_hash\<rparr>"

text \<open>The constraints of the \<open>audit_events\<close> table: two unique columns, the primary key, two lengths.\<close>

definition row_accepted :: "audit_view list \<Rightarrow> audit_view \<Rightarrow> bool" where
  "row_accepted rows row = (ev_sequence row \<notin> set (map ev_sequence rows)
     \<and> ev_event_id row \<notin> set (map ev_event_id rows)
     \<and> ev_event_hash row \<notin> set (map ev_event_hash rows)
     \<and> length (ev_previous_hash row) = 64 \<and> length (ev_event_hash row) = 64)"

text \<open>
  Every exception of the body is re-raised as \<open>AuditAppendError\<close> after the rollback. The material is
  validated again by its constructor, which asks of \<open>previous_hash\<close> the hash pattern.
\<close>

definition audit_append :: "hmac_hex \<Rightarrow> bytes \<Rightarrow> audit_event \<Rightarrow> (audit_db, audit_error, audit_view) sx" where
  "audit_append hmac key e db = (let
       (last_sequence, last_hash) = (case ad_state db of None \<Rightarrow> (0, GENESIS_HASH) | Some st \<Rightarrow> st);
       sequence = last_sequence + 1;
       material = audit_view_of e sequence last_hash []
     in if \<not> hash_pattern last_hash then (Inl AuditAppendError, db)
        else case compute_event_hash hmac key material of
          Inl err \<Rightarrow> (Inl AuditAppendError, db)
        | Inr event_hash \<Rightarrow> (let row = audit_view_of e sequence last_hash event_hash in
            if \<not> row_accepted (ad_rows db) row \<or> \<not> hash_pattern event_hash
              then (Inl AuditAppendError, db)
            else (Inr row, db\<lparr>ad_rows := ad_rows db @ [row],
                    ad_state := Some (sequence, event_hash)\<rparr>)))"

definition audit_verify :: "hmac_hex \<Rightarrow> bytes \<Rightarrow> audit_db \<Rightarrow> audit_error + verification_result" where
  "audit_verify hmac key db = (case ad_state db of
     None \<Rightarrow> Inr (failed_at (length (ad_rows db)) 0 GENESIS_HASH None ''audit chain state is missing'')
   | Some (last_sequence, last_hash) \<Rightarrow>
       verify_events hmac (ad_rows db) key (Some last_sequence) (Some last_hash))"

definition verify_or_raise :: "hmac_hex \<Rightarrow> bytes \<Rightarrow> audit_db \<Rightarrow> audit_error + verification_result" where
  "verify_or_raise hmac key db = (case audit_verify hmac key db of
     Inl err \<Rightarrow> Inl err
   | Inr r \<Rightarrow> if vr_valid r then Inr r else Inl AuditIntegrityError)"

definition audit_count :: "audit_db \<Rightarrow> nat" where
  "audit_count db = length (ad_rows db)"

fun audit_appends :: "hmac_hex \<Rightarrow> bytes \<Rightarrow> audit_event list \<Rightarrow> audit_db \<Rightarrow> audit_db" where
  "audit_appends hmac key [] db = db"
| "audit_appends hmac key (e # es) db = audit_appends hmac key es (snd (audit_append hmac key e db))"

section \<open>What verification checks\<close>

fun chain_ok :: "hmac_hex \<Rightarrow> bytes \<Rightarrow> audit_view list \<Rightarrow> nat \<Rightarrow> string \<Rightarrow> bool" where
  "chain_ok hmac key [] seq prev = True"
| "chain_ok hmac key (e # es) seq prev =
     (ev_sequence e = seq \<and> ev_previous_hash e = prev \<and> hash_pattern (ev_event_hash e)
      \<and> ev_event_hash e = hmac key (canonical_event_bytes e)
      \<and> chain_ok hmac key es (seq + 1) (ev_event_hash e))"

definition chain_tip :: "string \<Rightarrow> audit_view list \<Rightarrow> string" where
  "chain_tip prev es = (if es = [] then prev else ev_event_hash (last es))"

lemma verify_event_hash_True: "32 \<le> length key \<Longrightarrow> verify_event_hash hmac key e h = Inr True \<longleftrightarrow>
    hash_pattern h \<and> h = hmac key (canonical_event_bytes e)"
  by (auto simp: verify_event_hash_def compute_event_hash_def normalize_hmac_key_def)

lemma chain_tip_simps [simp]:
  "chain_tip prev [] = prev" "chain_tip prev (e # es) = chain_tip (ev_event_hash e) es"
  by (auto simp: chain_tip_def)

lemma verify_loop_Inr:
  "32 \<le> length key \<Longrightarrow> verify_loop hmac key n es seq prev = Inr (seq', prev') \<longleftrightarrow>
     chain_ok hmac key es seq prev \<and> seq' = seq + length es \<and> prev' = chain_tip prev es"
  by (induction es arbitrary: seq prev) (auto simp: verify_event_hash_True)

lemma failed_at_invalid [simp]: "\<not> vr_valid (failed_at n l h f r)"
  by (simp add: failed_at_def)

lemma verify_loop_Inl: "verify_loop hmac key n es seq prev = Inl r \<Longrightarrow> \<not> vr_valid r"
  by (induction es arbitrary: seq prev) (auto split: if_splits)

lemma verify_events_valid:
  assumes "32 \<le> length key"
  shows "verify_events hmac rows key ss sh = Inr r \<and> vr_valid r \<longleftrightarrow>
     chain_ok hmac key rows 1 GENESIS_HASH \<and> (ss = None \<or> ss = Some (length rows))
     \<and> (sh = None \<or> sh = Some (chain_tip GENESIS_HASH rows))
     \<and> r = \<lparr>vr_valid = True, vr_event_count = length rows, vr_last_sequence = length rows,
          vr_last_hash = chain_tip GENESIS_HASH rows, vr_failure_sequence = None, vr_reason = None\<rparr>"
proof (cases "verify_loop hmac key (length rows) rows 1 GENESIS_HASH")
  case (Inl failure)
  then have "\<not> chain_ok hmac key rows 1 GENESIS_HASH"
    using verify_loop_Inr [OF assms, of hmac "length rows" rows 1 GENESIS_HASH] by auto
  with Inl verify_loop_Inl [OF Inl] assms show ?thesis
    by (auto simp: verify_events_def normalize_hmac_key_def)
next
  case (Inr st)
  then obtain sq pv where st: "st = (sq, pv)" by (cases st)
  with Inr have ok: "chain_ok hmac key rows 1 GENESIS_HASH" "sq = 1 + length rows"
    "pv = chain_tip GENESIS_HASH rows"
    using verify_loop_Inr [OF assms, of hmac "length rows" rows 1 GENESIS_HASH] by auto
  with Inr st assms show ?thesis
    by (auto simp: verify_events_def normalize_hmac_key_def Let_def split: if_splits)
qed

lemma chain_ok_append: "chain_ok hmac key (es @ [e]) seq prev \<longleftrightarrow> chain_ok hmac key es seq prev
    \<and> ev_sequence e = seq + length es \<and> ev_previous_hash e = chain_tip prev es
    \<and> hash_pattern (ev_event_hash e) \<and> ev_event_hash e = hmac key (canonical_event_bytes e)"
  by (induction es arbitrary: seq prev) auto

section \<open>Appending\<close>

definition audit_ok :: "hmac_hex \<Rightarrow> bytes \<Rightarrow> audit_db \<Rightarrow> bool" where
  "audit_ok hmac key db = (chain_ok hmac key (ad_rows db) 1 GENESIS_HASH
     \<and> (case ad_state db of None \<Rightarrow> ad_rows db = []
        | Some st \<Rightarrow> st = (length (ad_rows db), chain_tip GENESIS_HASH (ad_rows db))))"

lemma audit_view_of_simps [simp]:
  "ev_sequence (audit_view_of e n p h) = n" "ev_previous_hash (audit_view_of e n p h) = p"
  "ev_event_hash (audit_view_of e n p h) = h"
  by (simp_all add: audit_view_of_def)

lemma bytes_of_view:
  "canonical_event_bytes (audit_view_of e n prev h) = canonical_event_bytes (audit_view_of e n prev h')"
  by (simp add: canonical_event_bytes_def event_json_def event_members_def audit_view_of_def)

lemma audit_append_Inr:
  assumes "32 \<le> length key" and ok: "audit_ok hmac key db"
    and app: "audit_append hmac key e db = (Inr row, db')"
  shows "ad_rows db' = ad_rows db @ [row] \<and> audit_ok hmac key db' \<and> ad_state db' \<noteq> None
    \<and> (\<exists>h. row = audit_view_of e (length (ad_rows db) + 1) (chain_tip GENESIS_HASH (ad_rows db)) h)"
proof -
  let ?st = "case ad_state db of None \<Rightarrow> (0, GENESIS_HASH) | Some st \<Rightarrow> st"
  from ok have st: "?st = (length (ad_rows db), chain_tip GENESIS_HASH (ad_rows db))"
    by (auto simp: audit_ok_def split: option.splits)
  let ?row = "\<lambda>h. audit_view_of e (length (ad_rows db) + 1) (chain_tip GENESIS_HASH (ad_rows db)) h"
  let ?h = "hmac key (canonical_event_bytes (?row []))"
  from app assms(1) st have row: "row = ?row ?h" "hash_pattern ?h"
    and db': "db' = db\<lparr>ad_rows := ad_rows db @ [row], ad_state := Some (length (ad_rows db) + 1, ?h)\<rparr>"
    by (auto simp: audit_append_def compute_event_hash_def normalize_hmac_key_def Let_def
        split: if_splits)
  have "chain_ok hmac key (ad_rows db @ [row]) 1 GENESIS_HASH"
    unfolding chain_ok_append using ok row bytes_of_view [of e _ _ ?h "[]"]
    by (simp add: audit_ok_def)
  moreover have "ev_event_hash row = ?h" using row(1) by simp
  ultimately show ?thesis using db' row by (auto simp: audit_ok_def chain_tip_def)
qed

lemma audit_append_Inl: "audit_append hmac key e db = (Inl err, db') \<Longrightarrow> db' = db"
  by (auto simp: audit_append_def Let_def split: if_splits sum.splits prod.splits)

lemma audit_verify_ok:
  assumes "32 \<le> length key"
  shows "(\<exists>r. audit_verify hmac key db = Inr r \<and> vr_valid r) \<longleftrightarrow>
    audit_ok hmac key db \<and> ad_state db \<noteq> None"
proof (cases "ad_state db")
  case None
  then show ?thesis by (simp add: audit_verify_def)
next
  case (Some st)
  then show ?thesis
    using verify_events_valid [OF assms, of hmac "ad_rows db" "Some (fst st)" "Some (snd st)"]
    by (cases st) (auto simp: audit_verify_def audit_ok_def)
qed

lemma appends_ok:
  assumes "32 \<le> length key" and "audit_ok hmac key db"
  shows "audit_ok hmac key (audit_appends hmac key es db)
    \<and> (\<exists>more. ad_rows (audit_appends hmac key es db) = ad_rows db @ more)
    \<and> (ad_state db \<noteq> None \<longrightarrow> ad_state (audit_appends hmac key es db) \<noteq> None)
    \<and> (ad_rows (audit_appends hmac key es db) \<noteq> ad_rows db \<longrightarrow>
         ad_state (audit_appends hmac key es db) \<noteq> None)"
  using assms(2)
proof (induction es arbitrary: db)
  case (Cons e es)
  obtain x db' where x: "audit_append hmac key e db = (x, db')" by (cases "audit_append hmac key e db")
  show ?case
  proof (cases x)
    case (Inl err)
    with x audit_append_Inl [of hmac key e db err db'] Cons show ?thesis by simp
  next
    case (Inr row)
    with x have app: "audit_append hmac key e db = (Inr row, db')" by simp
    from audit_append_Inr [OF assms(1) Cons.prems this] Cons.IH [of db'] app show ?thesis
      by auto
  qed
qed auto

lemma audit_ok_empty: "audit_ok hmac key empty_audit_db"
  by (simp add: audit_ok_def empty_audit_db_def)

section \<open>Tamper evidence\<close>

text \<open>An event up to the order of its payload's object members, which JSON does not have.\<close>

definition canon_members :: "(string \<times> json) list \<Rightarrow> (string \<times> json) list" where
  "canon_members ms = sort_key fst (map (\<lambda>(k, v). (k, json_canon v)) ms)"

definition canonical_view :: "audit_view \<Rightarrow> audit_view" where
  "canonical_view e = e\<lparr>ev_payload := canon_members (ev_payload e)\<rparr>"

lemma canon_obj_members:
  assumes "json_canon (JObj ms) = json_canon (JObj ns)"
  shows "(\<lambda>(k, v). (k, json_canon v)) ` set ms = (\<lambda>(k, v). (k, json_canon v)) ` set ns"
proof -
  from assms have "sort_key fst (map (\<lambda>(k, v). (k, json_canon v)) ms)
      = sort_key fst (map (\<lambda>(k, v). (k, json_canon v)) ns)" by simp
  then have "set (sort_key fst (map (\<lambda>(k, v). (k, json_canon v)) ms))
      = set (sort_key fst (map (\<lambda>(k, v). (k, json_canon v)) ns))" by (simp only:)
  then show ?thesis by simp
qed

lemma opt_json_inj [simp]: "json_canon (opt_json a) = json_canon (opt_json b) \<longleftrightarrow> a = b"
  by (auto simp: opt_json_def split: option.splits)

lemma outcome_value_inj [simp]: "outcome_value a = outcome_value b \<longleftrightarrow> a = b"
  by (cases a; cases b) (simp_all add: outcome_value_def)

lemma event_members_keys: "distinct (map fst (event_members e))"
  by (simp add: event_members_def)

lemma member_value:
  assumes "json_canon (event_json e) = json_canon (event_json f)"
    and "(k, v) \<in> set (event_members e)" and "(k, w) \<in> set (event_members f)"
  shows "json_canon v = json_canon w"
proof -
  from canon_obj_members assms(1) have "(\<lambda>(k, v). (k, json_canon v)) ` set (event_members e)
      = (\<lambda>(k, v). (k, json_canon v)) ` set (event_members f)" unfolding event_json_def .
  then have "(k, json_canon v) \<in> (\<lambda>(k, v). (k, json_canon v)) ` set (event_members f)"
    using image_eqI [OF _ assms(2), of "(k, json_canon v)" "\<lambda>(k, v). (k, json_canon v)"] by simp
  then obtain w' where "(k, w') \<in> set (event_members f)" "json_canon v = json_canon w'" by auto
  with eq_key_imp_eq_value [OF event_members_keys this(1) assms(3)] show ?thesis by simp
qed

lemma event_json_fields:
  assumes "json_canon (event_json e) = json_canon (event_json f)"
  shows "ev_event_id e = ev_event_id f" "ev_timestamp_utc e = ev_timestamp_utc f"
    "ev_event_type e = ev_event_type f" "ev_correlation_id e = ev_correlation_id f"
    "ev_actor_discord_id e = ev_actor_discord_id f" "ev_guild_id e = ev_guild_id f"
    "ev_channel_id e = ev_channel_id f" "ev_function_id e = ev_function_id f"
    "ev_target_pseudonym e = ev_target_pseudonym f" "ev_outcome e = ev_outcome f"
    "canon_members (ev_payload e) = canon_members (ev_payload f)"
    "ev_sequence e = ev_sequence f" "ev_previous_hash e = ev_previous_hash f"
proof -
  note m = member_value [OF assms]
  show "ev_event_id e = ev_event_id f"
    using m [of "''event_id''" "JStr (ev_event_id e)" "JStr (ev_event_id f)"]
    by (simp add: event_members_def)
  show "ev_timestamp_utc e = ev_timestamp_utc f"
    using m [of "''timestamp_utc''" "JStr (ev_timestamp_utc e)" "JStr (ev_timestamp_utc f)"]
    by (simp add: event_members_def)
  show "ev_event_type e = ev_event_type f"
    using m [of "''event_type''" "JStr (ev_event_type e)" "JStr (ev_event_type f)"]
    by (simp add: event_members_def)
  show "ev_correlation_id e = ev_correlation_id f"
    using m [of "''correlation_id''" "JStr (ev_correlation_id e)" "JStr (ev_correlation_id f)"]
    by (simp add: event_members_def)
  show "ev_actor_discord_id e = ev_actor_discord_id f"
    using m [of "''actor_discord_id''" "opt_json (ev_actor_discord_id e)"
        "opt_json (ev_actor_discord_id f)"] by (simp add: event_members_def)
  show "ev_guild_id e = ev_guild_id f"
    using m [of "''guild_id''" "opt_json (ev_guild_id e)" "opt_json (ev_guild_id f)"]
    by (simp add: event_members_def)
  show "ev_channel_id e = ev_channel_id f"
    using m [of "''channel_id''" "opt_json (ev_channel_id e)" "opt_json (ev_channel_id f)"]
    by (simp add: event_members_def)
  show "ev_function_id e = ev_function_id f"
    using m [of "''function_id''" "opt_json (ev_function_id e)" "opt_json (ev_function_id f)"]
    by (simp add: event_members_def)
  show "ev_target_pseudonym e = ev_target_pseudonym f"
    using m [of "''target_pseudonym''" "opt_json (ev_target_pseudonym e)"
        "opt_json (ev_target_pseudonym f)"] by (simp add: event_members_def)
  show "ev_outcome e = ev_outcome f"
    using m [of "''outcome''" "JStr (outcome_value (ev_outcome e))" "JStr (outcome_value (ev_outcome f))"]
    by (simp add: event_members_def)
  show "canon_members (ev_payload e) = canon_members (ev_payload f)"
    using m [of "''payload''" "JObj (ev_payload e)" "JObj (ev_payload f)"]
    by (simp add: event_members_def canon_members_def)
  show "ev_sequence e = ev_sequence f"
    using m [of "''sequence''" "JInt (int (ev_sequence e))" "JInt (int (ev_sequence f))"]
    by (simp add: event_members_def)
  show "ev_previous_hash e = ev_previous_hash f"
    using m [of "''previous_hash''" "JStr (ev_previous_hash e)" "JStr (ev_previous_hash f)"]
    by (simp add: event_members_def)
qed

lemma event_json_inj:
  assumes "json_canon (event_json e) = json_canon (event_json f)"
    and "ev_event_hash e = ev_event_hash f"
  shows "canonical_view e = canonical_view f"
  using event_json_fields [OF assms(1)] assms(2)
  by (cases e; cases f) (simp add: canonical_view_def)

definition payloads_wf :: "audit_view list \<Rightarrow> bool" where
  "payloads_wf es = list_all (\<lambda>e. wf_json (JObj (ev_payload e))) es"

lemma wf_opt_json [simp]: "wf_json (opt_json v)"
  by (cases v) (simp_all add: opt_json_def)

lemma event_json_wf: "wf_json (JObj (ev_payload e)) \<Longrightarrow> wf_json (event_json e)"
  by (simp add: event_json_def event_members_def)

lemma canonical_bytes_inj:
  assumes "wf_json (JObj (ev_payload e))" "wf_json (JObj (ev_payload f))"
    and "canonical_event_bytes e = canonical_event_bytes f"
  shows "json_canon (event_json e) = json_canon (event_json f)"
proof -
  from assms(3) have "json_dumps (event_json e) = json_dumps (event_json f)"
    unfolding canonical_event_bytes_def by (rule utf8_inj)
  then show ?thesis by (rule json_dumps_inj [OF event_json_wf [OF assms(1)] event_json_wf [OF assms(2)]])
qed

lemma same_tip_same_events:
  assumes "chain_ok hmac key es 1 prev" "chain_ok hmac key fs 1 prev"
    and "chain_tip prev es = chain_tip prev fs" and "length es = length fs"
    and "payloads_wf es" "payloads_wf fs"
    and "\<forall>e\<in>set es. \<forall>f\<in>set fs. hmac key (canonical_event_bytes e) = hmac key (canonical_event_bytes f)
           \<longrightarrow> canonical_event_bytes e = canonical_event_bytes f"
  shows "map canonical_view es = map canonical_view fs"
  using assms
proof (induction es arbitrary: fs rule: rev_induct)
  case (snoc e es)
  then obtain f gs where fs: "fs = gs @ [f]" by (cases fs rule: rev_cases) auto
  from snoc.prems fs have e: "chain_ok hmac key es 1 prev" "ev_previous_hash e = chain_tip prev es"
    "ev_event_hash e = hmac key (canonical_event_bytes e)"
    and f: "chain_ok hmac key gs 1 prev" "ev_previous_hash f = chain_tip prev gs"
    "ev_event_hash f = hmac key (canonical_event_bytes f)"
    and tip: "ev_event_hash e = ev_event_hash f"
    by (simp_all add: chain_ok_append chain_tip_def)
  from snoc.prems(5,6) fs have wf: "wf_json (JObj (ev_payload e))" "wf_json (JObj (ev_payload f))"
    and wfs: "payloads_wf es" "payloads_wf gs" by (simp_all add: payloads_wf_def)
  from snoc.prems(7) fs e(3) f(3) tip have "canonical_event_bytes e = canonical_event_bytes f" by simp
  note canon = canonical_bytes_inj [OF wf this]
  have same: "canonical_view e = canonical_view f" by (rule event_json_inj [OF canon tip])
  from event_json_fields(13) [OF canon]
    e f have "chain_tip prev es = chain_tip prev gs" by simp
  from snoc.IH [OF e(1) f(1) this _ wfs] snoc.prems fs same show ?case by simp
qed simp

section \<open>The promises\<close>

lemma audit_appends_append:
  "audit_appends hmac key (es @ fs) db = audit_appends hmac key fs (audit_appends hmac key es db)"
  by (induction es arbitrary: db) simp_all

text \<open>C33: The log the service writes verifies. From the empty tables, after any sequence of append
  attempts, failed ones included, either nothing was written or verification succeeds with the number
  of rows as its count; and rows once written stay, in their places.\<close>

theorem appended_log_verifies:
  assumes "32 \<le> length key"
  shows "(ad_rows (audit_appends hmac key es empty_audit_db) = []
      \<or> (\<exists>r. audit_verify hmac key (audit_appends hmac key es empty_audit_db) = Inr r \<and> vr_valid r
           \<and> vr_last_sequence r = audit_count (audit_appends hmac key es empty_audit_db)))
    \<and> (\<exists>more. ad_rows (audit_appends hmac key (es @ fs) empty_audit_db)
         = ad_rows (audit_appends hmac key es empty_audit_db) @ more)"
proof -
  let ?db = "audit_appends hmac key es empty_audit_db"
  note ok = appends_ok [OF assms audit_ok_empty, of hmac es]
  have "\<exists>r. audit_verify hmac key ?db = Inr r \<and> vr_valid r \<and> vr_last_sequence r = audit_count ?db"
    if "ad_rows ?db \<noteq> []"
  proof -
    from ok that have "audit_ok hmac key ?db" "ad_state ?db \<noteq> None"
      by (auto simp: empty_audit_db_def)
    with audit_verify_ok [OF assms, of hmac ?db] obtain r where
      r: "audit_verify hmac key ?db = Inr r" "vr_valid r" by blast
    obtain n h where st: "ad_state ?db = Some (n, h)" using \<open>ad_state ?db \<noteq> None\<close> by auto
    with r have "verify_events hmac (ad_rows ?db) key (Some n) (Some h) = Inr r"
      by (simp add: audit_verify_def)
    with r(2) verify_events_valid [OF assms, of hmac "ad_rows ?db" "Some n" "Some h" r]
    have "vr_last_sequence r = length (ad_rows ?db)" by simp
    with r show ?thesis by (simp add: audit_count_def)
  qed
  then show ?thesis
    using appends_ok [OF assms, of hmac ?db fs] ok by (auto simp: audit_appends_append)
qed

definition demo_hmac :: hmac_hex where
  "demo_hmac key payload = replicate 64 CHR ''a''"

definition demo_event :: "(string \<times> json) list \<Rightarrow> audit_event" where
  "demo_event payload = \<lparr>ev_event_id = ''00000000-0000-4000-8000-000000000001'',
     ev_timestamp_utc = ''2026-01-01T00:00:00Z'', ev_event_type = ''demo.event'',
     ev_correlation_id = ''corr-0001'', ev_actor_discord_id = None, ev_guild_id = None,
     ev_channel_id = None, ev_function_id = None, ev_target_pseudonym = None,
     ev_outcome = OUT_SUCCESS, ev_payload = payload\<rparr>"

definition demo_db :: "(string \<times> json) list \<Rightarrow> audit_db" where
  "demo_db payload =
     audit_appends demo_hmac (replicate 32 CHR ''k'') [demo_event payload] empty_audit_db"

definition demo_row :: "(string \<times> json) list \<Rightarrow> audit_view" where
  "demo_row payload = audit_view_of (demo_event payload) 1 GENESIS_HASH (replicate 64 CHR ''a'')"

lemma demo_db_eq: "demo_db payload =
    \<lparr>ad_rows = [demo_row payload], ad_state = Some (1, replicate 64 CHR ''a'')\<rparr>"
proof -
  have "hash_pattern GENESIS_HASH" "hash_pattern (replicate 64 CHR ''a'')" by code_simp+
  then show ?thesis
    by (simp add: demo_db_def audit_append_def empty_audit_db_def Let_def compute_event_hash_def
        normalize_hmac_key_def demo_hmac_def row_accepted_def demo_row_def) (simp add: GENESIS_HASH_def)
qed

lemma demo_verifies: "audit_verify demo_hmac (replicate 32 CHR ''k'') (demo_db payload) =
    Inr \<lparr>vr_valid = True, vr_event_count = 1, vr_last_sequence = 1,
      vr_last_hash = replicate 64 CHR ''a'', vr_failure_sequence = None, vr_reason = None\<rparr>"
proof -
  have "hash_pattern (replicate 64 CHR ''a'')" by code_simp
  then show ?thesis
    by (simp add: demo_db_eq audit_verify_def verify_events_def normalize_hmac_key_def Let_def
        verify_event_hash_def compute_event_hash_def demo_hmac_def demo_row_def)
qed

theorem appended_log_verifies_witness:
  "\<exists>r. audit_verify demo_hmac (replicate 32 CHR ''k'') (demo_db []) = Inr r \<and> vr_valid r"
  using appended_log_verifies [of "replicate 32 CHR ''k''" demo_hmac "[demo_event []]" "[]"]
  unfolding demo_db_def [symmetric] by (auto simp: demo_db_eq)

text \<open>C32: Tamper evidence. Two states of the tables that both verify, with one number of events and one
  last hash, hold the same events in the same order, unless HMAC collides on two of their events: what
  the canonical text leaves open is only the order of the members of payload objects.\<close>

theorem audit_tamper_evident:
  assumes "32 \<le> length key"
    and "audit_verify hmac key db = Inr r" and "audit_verify hmac key db' = Inr r" and "vr_valid r"
    and "payloads_wf (ad_rows db)" "payloads_wf (ad_rows db')"
    and "\<forall>e\<in>set (ad_rows db). \<forall>f\<in>set (ad_rows db').
      hmac key (canonical_event_bytes e) = hmac key (canonical_event_bytes f)
        \<longrightarrow> canonical_event_bytes e = canonical_event_bytes f"
  shows "map canonical_view (ad_rows db) = map canonical_view (ad_rows db')"
proof -
  have chain: "chain_ok hmac key (ad_rows d) 1 GENESIS_HASH
      \<and> length (ad_rows d) = vr_last_sequence r \<and> chain_tip GENESIS_HASH (ad_rows d) = vr_last_hash r"
    if v: "audit_verify hmac key d = Inr r" for d
  proof (cases "ad_state d")
    case None
    with v assms(4) show ?thesis by (auto simp: audit_verify_def)
  next
    case (Some st)
    obtain n h where "st = (n, h)" by (cases st)
    with Some v have "verify_events hmac (ad_rows d) key (Some n) (Some h) = Inr r"
      by (simp add: audit_verify_def)
    with assms(4) verify_events_valid [OF assms(1), of hmac "ad_rows d" "Some n" "Some h" r]
    show ?thesis by simp
  qed
  note d = chain [OF assms(2)] and d' = chain [OF assms(3)]
  show ?thesis
    by (rule same_tip_same_events [where hmac = hmac and key = key and prev = GENESIS_HASH,
        OF _ _ _ _ assms(5-7)]) (use d d' in simp_all)
qed

theorem audit_tamper_evident_witness:
  "map canonical_view (ad_rows (demo_db [(''a'', JInt 1), (''b'', JNull)]))
    = map canonical_view (ad_rows (demo_db [(''b'', JNull), (''a'', JInt 1)]))"
proof (rule audit_tamper_evident [OF _ demo_verifies demo_verifies])
  show "\<forall>e\<in>set (ad_rows (demo_db [(''a'', JInt 1), (''b'', JNull)])).
      \<forall>f\<in>set (ad_rows (demo_db [(''b'', JNull), (''a'', JInt 1)])).
        demo_hmac (replicate 32 CHR ''k'') (canonical_event_bytes e)
          = demo_hmac (replicate 32 CHR ''k'') (canonical_event_bytes f)
        \<longrightarrow> canonical_event_bytes e = canonical_event_bytes f"
  proof -
    have "canonical_event_bytes (demo_row [(''a'', JInt 1), (''b'', JNull)])
        = canonical_event_bytes (demo_row [(''b'', JNull), (''a'', JInt 1)])" by code_simp
    then show ?thesis by (simp add: demo_db_eq)
  qed
qed (simp_all add: payloads_wf_def demo_db_eq demo_row_def audit_view_of_def demo_event_def)

end
