(* ===== verification/RateLimit.thy ===== *)
theory RateLimit
  imports Prelude
begin

text \<open>
  The sliding-window rate limiter (\<^verbatim>\<open>security/rate_limit.py\<close>). Times are integers of one unit
  (the source's monotonic clock and window are floats; rounding is not modelled). A deque is a list,
  oldest event first; the \<open>defaultdict\<close> is an association list, and a refused check still leaves the
  entry it looked up.
\<close>

record rate_limiter =
  rl_limit :: nat
  rl_window :: int

record rate_decision =
  rd_allowed :: bool
  rd_remaining :: nat
  rd_retry_after :: int

datatype rate_error = InvalidLimiter | InvalidKeyOrCost

type_synonym rate_state = "(string \<times> int list) list"

definition new_rate_limiter :: "int \<Rightarrow> int \<Rightarrow> rate_error + rate_limiter" where
  "new_rate_limiter limit window_seconds =
     (if limit \<le> 0 \<or> window_seconds \<le> 0 then Inl InvalidLimiter
      else Inr \<lparr>rl_limit = nat limit, rl_window = window_seconds\<rparr>)"

definition rate_events :: "rate_state \<Rightarrow> string \<Rightarrow> int list" where
  "rate_events s key = (case map_of s key of None \<Rightarrow> [] | Some es \<Rightarrow> es)"

definition drop_old :: "int \<Rightarrow> int list \<Rightarrow> int list" where
  "drop_old threshold events = dropWhile (\<lambda>t. t \<le> threshold) events"

definition rate_check ::
  "rate_limiter \<Rightarrow> int \<Rightarrow> string \<Rightarrow> int \<Rightarrow> (rate_state, rate_error, rate_decision) sx" where
  "rate_check l now key cost s =
     (if key = [] \<or> cost \<le> 0 \<or> int (rl_limit l) < cost then (Inl InvalidKeyOrCost, s)
      else let events = drop_old (now - rl_window l) (rate_events s key) in
        if int (rl_limit l) < int (length events) + cost
        then (Inr \<lparr>rd_allowed = False, rd_remaining = rl_limit l - length events,
                 rd_retry_after = (case events of
                     [] \<Rightarrow> rl_window l | e # _ \<Rightarrow> max 0 (e + rl_window l - now))\<rparr>,
              AList.update key events s)
        else let events = events @ replicate (nat cost) now in
             (Inr \<lparr>rd_allowed = True, rd_remaining = rl_limit l - length events, rd_retry_after = 0\<rparr>,
              AList.update key events s))"

definition rate_clear :: "string \<Rightarrow> rate_state \<Rightarrow> rate_state" where
  "rate_clear key s = AList.delete key s"

fun purge_entries :: "int \<Rightarrow> rate_state \<Rightarrow> rate_state \<times> nat" where
  "purge_entries threshold [] = ([], 0)"
| "purge_entries threshold ((k, es) # s) = (let
       (s', removed) = purge_entries threshold s; es' = drop_old threshold es
     in if es' = [] then (s', removed + 1) else ((k, es') # s', removed))"

definition purge_idle :: "rate_limiter \<Rightarrow> int \<Rightarrow> rate_state \<Rightarrow> nat \<times> rate_state" where
  "purge_idle l now s = (case purge_entries (now - rl_window l) s of (s', n) \<Rightarrow> (n, s'))"

section \<open>Histories\<close>

datatype rate_op = RateCheck int string int | RatePurge int

fun op_time :: "rate_op \<Rightarrow> int" where
  "op_time (RateCheck now _ _) = now"
| "op_time (RatePurge now) = now"

text \<open>One call: the state it leaves, and the admissions it grants (one entry per unit of cost).\<close>

fun rate_step :: "rate_limiter \<Rightarrow> rate_op \<Rightarrow> rate_state \<Rightarrow> rate_state \<times> (string \<times> int) list" where
  "rate_step l (RateCheck now key cost) s =
     (case rate_check l now key cost s of
        (Inr d, s') \<Rightarrow> (s', if rd_allowed d then replicate (nat cost) (key, now) else [])
      | (Inl _, s') \<Rightarrow> (s', []))"
| "rate_step l (RatePurge now) s = (snd (purge_idle l now s), [])"

fun rate_run :: "rate_limiter \<Rightarrow> rate_op list \<Rightarrow> rate_state \<Rightarrow> (string \<times> int) list \<Rightarrow> (string \<times> int) list" where
  "rate_run l [] s log = log"
| "rate_run l (op # ops) s log = (case rate_step l op s of (s', new) \<Rightarrow> rate_run l ops s' (log @ new))"

definition admitted :: "(string \<times> int) list \<Rightarrow> string \<Rightarrow> int list" where
  "admitted log key = map snd (filter (\<lambda>(k, t). k = key) log)"

definition in_window :: "rate_limiter \<Rightarrow> int \<Rightarrow> int \<Rightarrow> bool" where
  "in_window l T t = (T - rl_window l < t \<and> t \<le> T)"

section \<open>The invariant\<close>

text \<open>
  After the call at time \<open>now\<close>, each deque holds the admissions of its key past some threshold that
  is at most \<open>now\<close> less the window.
\<close>

definition tracks :: "rate_limiter \<Rightarrow> int \<Rightarrow> int list \<Rightarrow> int list \<Rightarrow> bool" where
  "tracks l now adm events = (sorted adm \<and> (\<forall>t\<in>set adm. t \<le> now)
     \<and> (\<exists>th \<le> now - rl_window l. events = filter (\<lambda>t. th < t) adm)
     \<and> length events \<le> rl_limit l
     \<and> (\<forall>T. length (filter (in_window l T) adm) \<le> rl_limit l))"

definition rate_inv :: "rate_limiter \<Rightarrow> int \<Rightarrow> (string \<times> int) list \<Rightarrow> rate_state \<Rightarrow> bool" where
  "rate_inv l now log s = (distinct (map fst s) \<and> (\<forall>k. tracks l now (admitted log k) (rate_events s k)))"

lemma drop_old_filter: "sorted es \<Longrightarrow> drop_old th es = filter (\<lambda>t. th < t) es"
proof (induction es)
  case (Cons e es)
  show ?case
  proof (cases "e \<le> th")
    case False
    with Cons.prems have "filter (\<lambda>t. th < t) es = es" by (intro filter_True) auto
    with False show ?thesis by (simp add: drop_old_def)
  qed (use Cons in \<open>simp add: drop_old_def\<close>)
qed (simp add: drop_old_def)

lemma filter_length_mono: "(\<And>x. P x \<Longrightarrow> Q x) \<Longrightarrow> length (filter P xs) \<le> length (filter Q xs)"
  by (induction xs) (auto intro: le_SucI)

lemma tracks_mono:
  assumes "tracks l now adm es" and "now \<le> now'"
  shows "tracks l now' adm es"
proof -
  from assms(1) obtain th where "th \<le> now - rl_window l" "es = filter (\<lambda>t. th < t) adm"
    by (auto simp: tracks_def)
  moreover from this(1) assms(2) have "th \<le> now' - rl_window l" by simp
  moreover have "\<forall>t\<in>set adm. t \<le> now'" using assms by (fastforce simp: tracks_def)
  ultimately show ?thesis using assms(1) unfolding tracks_def by blast
qed

lemma tracks_drop:
  assumes "tracks l now adm es" and "now \<le> now'"
  shows "drop_old (now' - rl_window l) es = filter (\<lambda>t. now' - rl_window l < t) adm"
    and "tracks l now' adm (drop_old (now' - rl_window l) es)"
proof -
  from assms(1) obtain th where th: "th \<le> now - rl_window l" "es = filter (\<lambda>t. th < t) adm"
    and srt: "sorted adm" and len: "length es \<le> rl_limit l" by (auto simp: tracks_def)
  have "sorted es" using srt th(2) by (simp add: sorted_wrt_filter)
  then have "drop_old (now' - rl_window l) es = filter (\<lambda>t. now' - rl_window l < t) es"
    by (rule drop_old_filter)
  also have "\<dots> = filter (\<lambda>t. now' - rl_window l < t) adm"
    using th assms(2) by (auto intro: filter_cong)
  finally show eq: "drop_old (now' - rl_window l) es = filter (\<lambda>t. now' - rl_window l < t) adm" .
  have "length (drop_old (now' - rl_window l) es) \<le> length es"
    by (simp add: drop_old_def length_dropWhile_le)
  with len eq tracks_mono [OF assms] show "tracks l now' adm (drop_old (now' - rl_window l) es)"
    unfolding tracks_def by auto
qed

lemma tracks_admit:
  assumes t: "tracks l now adm es" and "now \<le> now'" and "0 < rl_window l"
    and new: "new = drop_old (now' - rl_window l) es @ replicate n now'" and len: "length new \<le> rl_limit l"
  shows "tracks l now' (adm @ replicate n now') new"
proof -
  let ?adm = "adm @ replicate n now'"
  from t have srt: "sorted adm" and le: "\<forall>t\<in>set adm. t \<le> now"
    and win: "\<And>T. length (filter (in_window l T) adm) \<le> rl_limit l" by (auto simp: tracks_def)
  have eq: "new = filter (\<lambda>t. now' - rl_window l < t) ?adm"
    using new tracks_drop(1) [OF t assms(2)] assms(3) by simp
  have "length (filter (in_window l T) ?adm) \<le> rl_limit l" for T
  proof (cases "T < now'")
    case True
    then have "filter (in_window l T) ?adm = filter (in_window l T) adm"
      by (simp add: in_window_def)
    with win show ?thesis by simp
  next
    case False
    have "length (filter (in_window l T) ?adm) \<le> length (filter (\<lambda>t. now' - rl_window l < t) ?adm)"
      using False by (intro filter_length_mono) (auto simp: in_window_def)
    with len eq show ?thesis by simp
  qed
  moreover have "sorted ?adm" using srt le assms(2) by (fastforce simp: sorted_append)
  ultimately show ?thesis
    using eq len le assms(2) unfolding tracks_def by fastforce
qed

section \<open>Every call keeps it\<close>

lemma rate_events_update [simp]:
  "rate_events (AList.update k es s) key = (if key = k then es else rate_events s key)"
  by (simp add: rate_events_def)

lemma admitted_append [simp]: "admitted (log @ new) key = admitted log key @ admitted new key"
  by (simp add: admitted_def)

lemma admitted_replicate [simp]:
  "admitted (replicate n (k, t)) key = (if key = k then replicate n t else [])"
  by (induction n) (auto simp: admitted_def)

lemma admitted_Nil [simp]: "admitted [] key = []"
  by (simp add: admitted_def)

lemma purge_keys: "set (map fst (fst (purge_entries th s))) \<subseteq> set (map fst s)"
proof (induction s)
  case (Cons e s)
  obtain k es where "e = (k, es)" by (cases e)
  moreover obtain s' n where "purge_entries th s = (s', n)" by (cases "purge_entries th s")
  ultimately show ?case using Cons by (auto simp: Let_def)
qed simp

lemma purge_entries_events:
  "distinct (map fst s) \<Longrightarrow> distinct (map fst (fst (purge_entries th s)))
     \<and> rate_events (fst (purge_entries th s)) key = drop_old th (rate_events s key)"
proof (induction s)
  case (Cons e s)
  obtain k es where e: "e = (k, es)" by (cases e)
  obtain s' n where p: "purge_entries th s = (s', n)" by (cases "purge_entries th s")
  have keys: "k \<notin> set (map fst s')" using purge_keys [of th s] p e Cons.prems by auto
  then have none: "map_of s' k = None" by (simp add: map_of_eq_None_iff)
  have "map_of s k = None" using Cons.prems e by (simp add: map_of_eq_None_iff)
  with Cons p e none keys show ?case
    by (auto simp: rate_events_def drop_old_def Let_def eq_commute [of "[]" "dropWhile _ _"])
qed (simp add: rate_events_def drop_old_def)

lemma rate_check_inv:
  assumes inv: "rate_inv l now log s" and le: "now \<le> now'" and w: "0 < rl_window l"
    and check: "rate_check l now' key cost s = (Inr d, s')"
  shows "rate_inv l now' (log @ (if rd_allowed d then replicate (nat cost) (key, now') else [])) s'"
proof -
  from check have cost: "0 < cost" by (auto simp: rate_check_def split: if_splits)
  let ?es = "drop_old (now' - rl_window l) (rate_events s key)"
  have tr: "tracks l now (admitted log k) (rate_events s k)" for k using inv by (simp add: rate_inv_def)
  have others: "tracks l now' (admitted log k) (rate_events s k)" for k
    using tracks_mono [OF tr le] .
  have dist: "distinct (map fst (AList.update key es s))" for es
    using inv by (simp add: rate_inv_def distinct_update)
  show ?thesis
  proof (cases "int (rl_limit l) < int (length ?es) + cost")
    case True
    with check have "s' = AList.update key ?es s" "\<not> rd_allowed d"
      by (auto simp: rate_check_def Let_def split: if_splits)
    with others tracks_drop(2) [OF tr le] dist show ?thesis by (simp add: rate_inv_def)
  next
    case False
    let ?new = "?es @ replicate (nat cost) now'"
    from False check have s': "s' = AList.update key ?new s" "rd_allowed d"
      by (auto simp: rate_check_def Let_def split: if_splits)
    have "length ?new \<le> rl_limit l" using False cost by simp
    from tracks_admit [OF tr le w refl this] s' others dist show ?thesis by (simp add: rate_inv_def)
  qed
qed

lemma rate_step_inv:
  assumes inv: "rate_inv l now log s" and le: "now \<le> op_time op" and w: "0 < rl_window l"
  shows "rate_inv l (op_time op) (log @ snd (rate_step l op s)) (fst (rate_step l op s))"
proof -
  have tr: "tracks l now (admitted log k) (rate_events s k)" for k using inv by (simp add: rate_inv_def)
  show ?thesis
  proof (cases op)
    case (RateCheck now' key cost)
    obtain x s' where x: "rate_check l now' key cost s = (x, s')" by (cases "rate_check l now' key cost s")
    show ?thesis
    proof (cases x)
      case (Inl e)
      with x have "s' = s" by (auto simp: rate_check_def Let_def split: if_splits)
      with x Inl RateCheck inv le tracks_mono [OF tr] show ?thesis by (simp add: rate_inv_def)
    next
      case (Inr d)
      with x RateCheck le rate_check_inv [OF inv _ w, of now' key cost d s'] show ?thesis by simp
    qed
  next
    case (RatePurge now')
    have "distinct (map fst s)" using inv by (simp add: rate_inv_def)
    note purged = purge_entries_events [OF this, of "now' - rl_window l"]
    obtain s' n where p: "purge_entries (now' - rl_window l) s = (s', n)"
      by (cases "purge_entries (now' - rl_window l) s")
    from purged p RatePurge le tracks_drop(2) [OF tr, of now'] show ?thesis
      by (simp add: rate_inv_def purge_idle_def)
  qed
qed

lemma rate_run_log: "rate_run l ops s log = log @ rate_run l ops s []"
proof (induction ops arbitrary: s log)
  case (Cons op ops)
  obtain s' new where step: "rate_step l op s = (s', new)" by (cases "rate_step l op s")
  have "rate_run l (op # ops) s log = (log @ new) @ rate_run l ops s' []"
    using Cons.IH [of s' "log @ new"] step by simp
  also have "\<dots> = log @ rate_run l (op # ops) s []"
    using Cons.IH [of s' new] step by simp
  finally show ?case .
qed simp

lemma rate_run_bound:
  assumes "rate_inv l now log s" and "sorted (now # map op_time ops)" and "0 < rl_window l"
  shows "length (filter (in_window l T) (admitted (rate_run l ops s log) key)) \<le> rl_limit l"
  using assms
proof (induction ops arbitrary: now log s)
  case Nil
  then show ?case by (simp add: rate_inv_def tracks_def)
next
  case (Cons op ops)
  obtain s' new where step: "rate_step l op s = (s', new)" by (cases "rate_step l op s")
  from Cons.prems(2) have "now \<le> op_time op" "sorted (op_time op # map op_time ops)" by simp_all
  from rate_step_inv [OF Cons.prems(1) this(1) Cons.prems(3)] step
  have "rate_inv l (op_time op) (log @ new) s'" by simp
  from Cons.IH [OF this _ Cons.prems(3)] Cons.prems(2) step show ?case by simp
qed

lemma rate_inv_empty: "rate_inv l now [] []"
  by (auto simp: rate_inv_def tracks_def rate_events_def in_window_def)

section \<open>The promises\<close>

text \<open>C40: The window bound. Over any history of checks and purges with a clock that does not go back,
  in every window of the configured length the admissions of one key, counted with their cost, are at
  most the limit.\<close>

theorem window_bound:
  assumes "0 < rl_window l" and "sorted (map op_time ops)"
  shows "length (filter (in_window l T) (admitted (rate_run l ops [] []) key)) \<le> rl_limit l"
proof (cases ops)
  case (Cons op ops')
  have "sorted (op_time op # map op_time ops)" using assms(2) Cons by simp
  from rate_run_bound [OF rate_inv_empty this assms(1)] show ?thesis .
qed (simp add: in_window_def)

theorem window_bound_witness:
  "length (filter (in_window \<lparr>rl_limit = 1, rl_window = 10\<rparr> 5)
     (admitted (rate_run \<lparr>rl_limit = 1, rl_window = 10\<rparr>
        [RateCheck 0 ''k'' 1, RateCheck 5 ''k'' 1] [] []) ''k'')) \<le> 1"
  using window_bound [of "\<lparr>rl_limit = 1, rl_window = 10\<rparr>" "[RateCheck 0 ''k'' 1, RateCheck 5 ''k'' 1]"
      5 "''k''"] by simp

text \<open>The hint of a refusal is enough. When a check of cost one is refused, a check of cost one made
  after waiting the \<open>retry_after\<close> it returned, with no other call in between, is admitted.\<close>

theorem retry_after_sufficient:
  assumes "rate_check l now key 1 s = (Inr d, s')" and "\<not> rd_allowed d"
    and "length (rate_events s key) \<le> rl_limit l" and "now + rd_retry_after d \<le> later" and "now \<le> later"
  shows "\<exists>d' s''. rate_check l later key 1 s' = (Inr d', s'') \<and> rd_allowed d'"
proof -
  let ?es = "drop_old (now - rl_window l) (rate_events s key)"
  from assms(1) have ok: "key \<noteq> []" "1 \<le> rl_limit l" by (auto simp: rate_check_def split: if_splits)
  have len: "length ?es \<le> rl_limit l"
    using assms(3) length_dropWhile_le order_trans unfolding drop_old_def by blast
  from assms(1,2) ok have full: "rl_limit l < length ?es + 1" and s': "s' = AList.update key ?es s"
    and retry: "rd_retry_after d = (case ?es of [] \<Rightarrow> rl_window l | e # _ \<Rightarrow> max 0 (e + rl_window l - now))"
    by (auto simp: rate_check_def Let_def split: if_splits)
  from full ok have "?es \<noteq> []" by auto
  then obtain e es where es: "?es = e # es" by (cases ?es) auto
  with retry assms(4) have "e \<le> later - rl_window l" by simp
  then have "drop_old (later - rl_window l) ?es = drop_old (later - rl_window l) es"
    by (simp add: es) (simp add: drop_old_def)
  moreover have "length (drop_old (later - rl_window l) es) \<le> length es"
    by (simp add: drop_old_def length_dropWhile_le)
  ultimately have "length (drop_old (later - rl_window l) (rate_events s' key)) + 1 \<le> rl_limit l"
    using len es s' by simp
  then show ?thesis using ok by (auto simp: rate_check_def Let_def)
qed

theorem retry_after_sufficient_witness:
  "\<exists>d' s''. rate_check \<lparr>rl_limit = 1, rl_window = 10\<rparr> 10 ''k'' 1 [(''k'', [0])] = (Inr d', s'')
     \<and> rd_allowed d'"
proof -
  have "rate_check \<lparr>rl_limit = 1, rl_window = 10\<rparr> 4 ''k'' 1 [(''k'', [0])]
      = (Inr \<lparr>rd_allowed = False, rd_remaining = 0, rd_retry_after = 6\<rparr>, [(''k'', [0])])"
    by (simp add: rate_check_def drop_old_def rate_events_def)
  from retry_after_sufficient [OF this, of 10] show ?thesis by (simp add: rate_events_def)
qed

end
