(* ===== verification/UploadScreening.thy ===== *)
theory UploadScreening
  imports UploadProperties
begin

text \<open>
  What \<open>ingest\<close> decides. \<open>intake_verdict\<close> states the screening rule over the whole content, with no
  state: the reason for which an upload is refused, or none. \<open>ingest\<close>, with its repository updates,
  moves and early returns, is equivalent to it.
\<close>

definition screening_verdict ::
  "file_config \<Rightarrow> file_env \<Rightarrow> string \<Rightarrow> string option \<Rightarrow> bool \<Rightarrow> bytes \<Rightarrow> string option" where
  "screening_verdict cfg env filename claimed owned content =
     (case fe_detect env (Inr content) of
        Inl e \<Rightarrow> Some ''MIME_DETECTION_FAILED''
      | Inr answer \<Rightarrow> (let mime = canonical_mime_text answer in
          if mime \<notin> set (map canonical_mime_text (fc_allowed_mime_types cfg)) then Some ''MIME_NOT_ALLOWED''
          else if canonical_mime claimed \<notin> {None, Some mime} then Some ''MIME_MISMATCH''
          else if \<not> extension_matches_mime filename mime then Some ''EXTENSION_MISMATCH''
          else (case fe_scan env (Inr content) of
             Inl e \<Rightarrow> Some ''ANTIVIRUS_UNAVAILABLE''
           | Inr v \<Rightarrow>
               if v = AV_INFECTED then Some ''ANTIVIRUS_INFECTED''
               else if v \<noteq> AV_CLEAN \<and> fc_clamav_required cfg then Some ''ANTIVIRUS_UNAVAILABLE''
               else if owned then Some ''DUPLICATE_FILE'' else None)))"

text \<open>\<open>owned\<close> tells whether another upload owns the digest of the content.\<close>

definition intake_verdict ::
  "file_config \<Rightarrow> file_env \<Rightarrow> string \<Rightarrow> string option \<Rightarrow> upload_chunk list \<Rightarrow> (string \<Rightarrow> bool) \<Rightarrow> string option" where
  "intake_verdict cfg env filename claimed chunks owned =
     (if df_open (fe_disk env) then Some ''QUARANTINE_WRITE_FAILED''
      else case write_chunks (fc_sha256 cfg) (fc_max_bytes cfg) [] chunks of
        (Inl (SizeLimitExceeded n d), content) \<Rightarrow> Some ''SIZE_LIMIT_EXCEEDED''
      | (Inl e, content) \<Rightarrow> Some ''QUARANTINE_WRITE_FAILED''
      | (Inr u, content) \<Rightarrow>
          if df_sync (fe_disk env) then Some ''QUARANTINE_WRITE_FAILED''
          else if content = [] then Some ''EMPTY_FILE''
          else screening_verdict cfg env filename claimed (owned (fc_sha256 cfg content)) content)"

section \<open>An upload under way\<close>

definition under_way ::
  "(string \<Rightarrow> upload_record option) \<Rightarrow> (string \<Rightarrow> string option) \<Rightarrow> bytes option \<Rightarrow> upload_record
    \<Rightarrow> file_state \<Rightarrow> bool" where
  "under_way g owners held r s = (let i = ur_upload_id r; entry = fs_entries (fl_fs s) in
     upload_get (fl_repo s) = g(i \<mapsto> r) \<and> upload_digest_owner (fl_repo s) = owners
     \<and> ur_bucket r = Some ''quarantine'' \<and> upload_id_syntax i
     \<and> entry (''rejected'', i) = None \<and> entry (''clean'', i) = None
     \<and> entry (''quarantine'', i) = map_option (\<lambda>c. RegularFile c True) held)"

definition settled ::
  "(string \<Rightarrow> upload_record option) \<Rightarrow> string \<Rightarrow> bytes \<Rightarrow> string option
    \<Rightarrow> (file_error + upload_record) \<times> file_state \<Rightarrow> bool" where
  "settled g i content verdict res = (\<exists>x s'. res = (Inr x, s')
     \<and> upload_get (fl_repo s') = g(i \<mapsto> x)
     \<and> (case verdict of
          None \<Rightarrow> ur_status x = UP_CLEAN \<and> ur_bucket x = Some ''clean''
            \<and> fs_entries (fl_fs s') (''clean'', i) = Some (RegularFile content True)
        | Some reason \<Rightarrow> ur_status x = UP_REJECTED \<and> ur_rejection_reason x = Some reason
            \<and> fs_entries (fl_fs s') (''clean'', i) = None))"

lemma under_way_path:
  assumes "under_way g owners held r s"
  shows "path_for (fl_fs s) ''quarantine'' (ur_upload_id r) = Inr (''quarantine'', ur_upload_id r)"
    and "path_for (fl_fs s) ''rejected'' (ur_upload_id r) = Inr (''rejected'', ur_upload_id r)"
    and "path_for (fl_fs s) ''clean'' (ur_upload_id r) = Inr (''clean'', ur_upload_id r)"
  using assms by (simp_all add: under_way_def path_for_def UPLOAD_BUCKETS_def Let_def split: option.splits)

lemma update_run:
  assumes "under_way g owners held r s" and "ur_upload_id (changes r) = ur_upload_id r"
  obtains m where "update_upload r changes s
      = (Inr ((changes r)\<lparr>ur_version := ur_version r + 1\<rparr>), s\<lparr>fl_repo := m\<rparr>)"
    and "upload_get m = g(ur_upload_id r \<mapsto> (changes r)\<lparr>ur_version := ur_version r + 1\<rparr>)"
    and "upload_digest_owner m = owners"
proof -
  let ?u = "(changes r)\<lparr>ur_version := ur_version r + 1\<rparr>"
  have get: "upload_get (fl_repo s) = g(ur_upload_id r \<mapsto> r)"
    and own: "upload_digest_owner (fl_repo s) = owners"
    using assms(1) by (simp_all add: under_way_def Let_def)
  have "map_of (um_records (fl_repo s)) (ur_upload_id ?u) = Some r"
    using assms(2) fun_cong [OF get, of "ur_upload_id r"] by (simp add: upload_get_def)
  then obtain m where m: "upload_replace ?u (ur_version r) (fl_repo s) = (Inr (), m)"
    by (simp add: upload_replace_def)
  then have "update_upload r changes s = (Inr ?u, s\<lparr>fl_repo := m\<rparr>)"
    by (simp add: update_upload_Inr)
  moreover have "upload_get m = g(ur_upload_id r \<mapsto> ?u)"
    using upload_store.rep_ok [OF m] get assms(2) by simp
  moreover have "upload_digest_owner m = owners"
    using upload_store.rep_claims [of ?u "ur_version r" "fl_repo s"] m own by simp
  ultimately show ?thesis by (rule that)
qed

lemma update_bind:
  assumes "under_way g owners held r s"
    and "ur_upload_id (changes r) = ur_upload_id r" "ur_bucket (changes r) = ur_bucket r"
    and step: "\<And>u s'. u = (changes r)\<lparr>ur_version := ur_version r + 1\<rparr> \<Longrightarrow> under_way g owners held u s'
      \<Longrightarrow> R (f u s')"
  shows "R (sx_bind (update_upload r changes) f s)"
proof -
  let ?u = "(changes r)\<lparr>ur_version := ur_version r + 1\<rparr>"
  from update_run [where changes = changes, OF assms(1,2)] obtain m where m: "update_upload r changes s = (Inr ?u, s\<lparr>fl_repo := m\<rparr>)"
      "upload_get m = g(ur_upload_id r \<mapsto> ?u)" "upload_digest_owner m = owners" by blast
  have "under_way g owners held ?u (s\<lparr>fl_repo := m\<rparr>)"
    using assms(1-3) m(2,3) by (simp add: under_way_def Let_def)
  with step m(1) show ?thesis by (simp add: sx_bind_def)
qed

lemma reject_settles:
  assumes st: "under_way g owners held r s" and mv: "\<not> df_move (fe_disk env)"
  shows "settled g (ur_upload_id r) content (Some reason) (reject_upload env r reason s)"
proof -
  note path = under_way_path [OF st]
  have bucket: "ur_bucket r = Some ''quarantine''" using st by (simp add: under_way_def Let_def)
  let ?i = "ur_upload_id r"
  let ?tail = "\<lambda>bucket. sx_bind
     (update_upload r (\<lambda>x. x\<lparr>ur_status := UP_REJECTED, ur_bucket := bucket, ur_rejection_reason := Some reason\<rparr>))
     (\<lambda>rejected. sx_bind (emit_upload ''FILE_REJECTED'' rejected) (\<lambda>_. sx_return rejected))"
  have tail: "settled g ?i content (Some reason) (?tail b t)"
    if t: "upload_get (fl_repo t) = g(?i \<mapsto> r)" "fs_entries (fl_fs t) (''clean'', ?i) = None" for b t
  proof -
    let ?u = "r\<lparr>ur_status := UP_REJECTED, ur_bucket := b, ur_rejection_reason := Some reason,
      ur_version := ur_version r + 1\<rparr>"
    have "map_of (um_records (fl_repo t)) (ur_upload_id ?u) = Some r"
      using fun_cong [OF t(1), of ?i] by (simp add: upload_get_def)
    then obtain m where m: "upload_replace ?u (ur_version r) (fl_repo t) = (Inr (), m)"
      by (simp add: upload_replace_def)
    then have "update_upload r (\<lambda>x. x\<lparr>ur_status := UP_REJECTED, ur_bucket := b,
        ur_rejection_reason := Some reason\<rparr>) t = (Inr ?u, t\<lparr>fl_repo := m\<rparr>)"
      by (simp add: update_upload_Inr)
    then have "?tail b t = (Inr ?u, (t\<lparr>fl_repo := m\<rparr>)\<lparr>fl_events := fl_events t @
        [(''FILE_REJECTED'', upload_event_of ?u)]\<rparr>)"
      by (simp add: sx_bind_def emit_upload_def emit_event_def sx_modify_def sx_return_def)
    moreover have "upload_get m = g(?i \<mapsto> ?u)" using upload_store.rep_ok [OF m] t(1) by simp
    ultimately show ?thesis using t(2) by (simp add: settled_def)
  qed
  have run: "reject_upload env r reason s = sx_bind
      (if held \<noteq> None
       then sx_bind (on_fs (quarantine_move (fe_disk env) ?i ''quarantine'' ''rejected''))
              (\<lambda>_. sx_return (Some ''rejected''))
       else sx_return None) ?tail s"
    by (cases held)
      (use st path(1) bucket in \<open>simp_all add: reject_upload_def sx_bind_def [of "\<lambda>s. (h s, s)" for h] quarantine_exists_def under_way_def Let_def\<close>)
  show ?thesis
  proof (cases held)
    case None
    have "reject_upload env r reason s = ?tail None s"
      using run None by (simp add: sx_bind_def sx_return_def)
    with tail [of s None] st show ?thesis by (simp add: under_way_def Let_def)
  next
    case (Some c)
    let ?f = "fs_put (''rejected'', ?i) (Some (RegularFile c True)) (fs_put (''quarantine'', ?i) None (fl_fs s))"
    have "quarantine_move (fe_disk env) ?i ''quarantine'' ''rejected'' (fl_fs s) = (Inr (''rejected'', ?i), ?f)"
      using st Some path mv by (simp add: quarantine_move_def under_way_def Let_def)
    then have "reject_upload env r reason s = ?tail (Some ''rejected'') (s\<lparr>fl_fs := ?f\<rparr>)"
      using run Some by (simp add: sx_bind_def sx_return_def on_fs_def sx_zoom_def)
    with tail [of "s\<lparr>fl_fs := ?f\<rparr>" "Some ''rejected''"] st show ?thesis
      by (simp add: under_way_def Let_def)
  qed
qed

definition owned_elsewhere :: "(string \<Rightarrow> string option) \<Rightarrow> string \<Rightarrow> string \<Rightarrow> bool" where
  "owned_elsewhere owners i d = (owners d \<noteq> None \<and> owners d \<noteq> Some i)"

lemma release_settles:
  assumes st: "under_way g owners (Some content) r s" and mv: "\<not> df_move (fe_disk env)"
  shows "settled g (ur_upload_id r) content
    (if owned_elsewhere owners (ur_upload_id r) d then Some ''DUPLICATE_FILE'' else None)
    (release_upload env d r s)"
proof -
  let ?i = "ur_upload_id r"
  have own: "map_of (um_digests (fl_repo s)) d = owners d"
    using st by (auto simp: under_way_def Let_def upload_digest_owner_def fun_eq_iff)
  obtain b m where c: "upload_claim_sha256 d ?i (fl_repo s) = (b, m)" by fastforce
  have b: "b = (\<not> owned_elsewhere owners ?i d)"
    using c own by (auto simp: upload_claim_sha256_def owned_elsewhere_def split: option.splits)
  have m: "upload_get m = upload_get (fl_repo s)"
    using upload_store.claim_lookup [of d ?i "fl_repo s"] c by simp
  have run: "release_upload env d r s = (if \<not> b then reject_upload env r ''DUPLICATE_FILE'' else
     sx_bind (on_fs (quarantine_move (fe_disk env) ?i ''quarantine'' ''clean'')) (\<lambda>_.
     sx_bind (update_upload r (\<lambda>x. x\<lparr>ur_status := UP_CLEAN, ur_bucket := Some ''clean''\<rparr>)) (\<lambda>clean.
     sx_bind (emit_upload ''FILE_CLEAN'' clean) (\<lambda>_. sx_return clean)))) (s\<lparr>fl_repo := m\<rparr>)"
    unfolding release_upload_def by (rule on_repo_run) (simp add: c)
  have st': "under_way g (upload_digest_owner m) (Some content) r (s\<lparr>fl_repo := m\<rparr>)"
    using st m by (simp add: under_way_def Let_def)
  show ?thesis
  proof (cases b)
    case False
    with reject_settles [OF st' mv, of content "''DUPLICATE_FILE''"] run b show ?thesis by simp
  next
    case True
    let ?f = "fs_put (''clean'', ?i) (Some (RegularFile content True))
      (fs_put (''quarantine'', ?i) None (fl_fs s))"
    let ?u = "r\<lparr>ur_status := UP_CLEAN, ur_bucket := Some ''clean'', ur_version := ur_version r + 1\<rparr>"
    have "quarantine_move (fe_disk env) ?i ''quarantine'' ''clean'' (fl_fs s) = (Inr (''clean'', ?i), ?f)"
      using st under_way_path [OF st] mv by (simp add: quarantine_move_def under_way_def Let_def)
    moreover have get: "upload_get m = g(?i \<mapsto> r)" using st m by (simp add: under_way_def Let_def)
    have "map_of (um_records m) (ur_upload_id ?u) = Some r"
      using fun_cong [OF get, of ?i] by (simp add: upload_get_def)
    then obtain n where n: "upload_replace ?u (ur_version r) m = (Inr (), n)"
      by (simp add: upload_replace_def)
    then have "update_upload r (\<lambda>x. x\<lparr>ur_status := UP_CLEAN, ur_bucket := Some ''clean''\<rparr>)
        (s\<lparr>fl_repo := m, fl_fs := ?f\<rparr>) = (Inr ?u, s\<lparr>fl_repo := n, fl_fs := ?f\<rparr>)"
      by (simp add: update_upload_Inr)
    ultimately have "release_upload env d r s = (Inr ?u, s\<lparr>fl_repo := n, fl_fs := ?f,
        fl_events := fl_events s @ [(''FILE_CLEAN'', upload_event_of ?u)]\<rparr>)"
      using run True
      by (simp add: sx_bind_def on_fs_def sx_zoom_def emit_upload_def emit_event_def sx_modify_def sx_return_def)
    moreover have "upload_get n = g(?i \<mapsto> ?u)" using upload_store.rep_ok [OF n] get by simp
    ultimately show ?thesis using True b by (simp add: settled_def)
  qed
qed

lemma scan_settles:
  assumes st: "under_way g owners (Some content) r s" and mv: "\<not> df_move (fe_disk env)"
  shows "settled g (ur_upload_id r) content
    (case fe_scan env (Inr content) of
       Inl e \<Rightarrow> Some ''ANTIVIRUS_UNAVAILABLE''
     | Inr v \<Rightarrow>
         if v = AV_INFECTED then Some ''ANTIVIRUS_INFECTED''
         else if v \<noteq> AV_CLEAN \<and> fc_clamav_required cfg then Some ''ANTIVIRUS_UNAVAILABLE''
         else if owned_elsewhere owners (ur_upload_id r) d then Some ''DUPLICATE_FILE'' else None)
    (scan_upload cfg env d (Inr content) r s)"
proof (cases "fe_scan env (Inr content)")
  case (Inl e)
  show ?thesis
    unfolding scan_upload_def Inl sum.case
    by (rule update_bind [OF st]) (use reject_settles [OF _ mv] in \<open>fastforce+\<close>)
next
  case (Inr v)
  show ?thesis
    unfolding scan_upload_def Inr sum.case
  proof (rule update_bind [OF st])
    fix u :: upload_record and s'
    assume u: "u = r\<lparr>ur_antivirus_status := Some (av_value v)\<rparr>\<lparr>ur_version := ur_version r + 1\<rparr>"
      and st': "under_way g owners (Some content) u s'"
    then have i: "ur_upload_id u = ur_upload_id r" by simp
    show "settled g (ur_upload_id r) content
      (if v = AV_INFECTED then Some ''ANTIVIRUS_INFECTED''
       else if v \<noteq> AV_CLEAN \<and> fc_clamav_required cfg then Some ''ANTIVIRUS_UNAVAILABLE''
       else if owned_elsewhere owners (ur_upload_id r) d then Some ''DUPLICATE_FILE'' else None)
      ((if v = AV_INFECTED then reject_upload env u ''ANTIVIRUS_INFECTED''
        else if v \<in> {AV_ERROR, AV_UNAVAILABLE} \<and> fc_clamav_required cfg
          then reject_upload env u ''ANTIVIRUS_UNAVAILABLE''
        else release_upload env d u) s')"
      using reject_settles [OF st' mv, of content] release_settles [OF st' mv, of d] i
      by (cases v) (simp_all split: if_split)
  qed simp_all
qed

lemma inspect_settles:
  assumes st: "under_way g owners (Some content) r s" and mv: "\<not> df_move (fe_disk env)"
    and claimed: "ur_claimed_mime r = canonical_mime claimed"
  shows "settled g (ur_upload_id r) content
    (screening_verdict cfg env filename claimed (owned_elsewhere owners (ur_upload_id r) d) content)
    (inspect_upload cfg env filename d r s)"
proof -
  have content: "open_read (fl_fs s) (''quarantine'', ur_upload_id r) = Inr content"
    using st by (simp add: open_read_def under_way_def Let_def)
  show ?thesis
  proof (cases "fe_detect env (Inr content)")
    case (Inl e)
    with reject_settles [OF st mv, of content] under_way_path(1) [OF st] content show ?thesis
      by (simp add: inspect_upload_def screening_verdict_def)
  next
    case (Inr answer)
    let ?mime = "canonical_mime_text answer"
    let ?next = "\<lambda>x. if \<not> allowed_mime cfg (Some ?mime) then reject_upload env x ''MIME_NOT_ALLOWED''
       else if ur_claimed_mime x \<noteq> None \<and> ur_claimed_mime x \<noteq> Some ?mime
         then reject_upload env x ''MIME_MISMATCH''
       else if \<not> extension_matches_mime filename ?mime then reject_upload env x ''EXTENSION_MISMATCH''
       else scan_upload cfg env d (Inr content) x"
    have run: "inspect_upload cfg env filename d r s
        = sx_bind (update_upload r (\<lambda>x. x\<lparr>ur_detected_mime := Some ?mime\<rparr>)) ?next s"
      using under_way_path(1) [OF st] content Inr
      by (simp add: inspect_upload_def canonical_mime_def Let_def cong: if_cong)
    show ?thesis
      unfolding run
    proof (rule update_bind [OF st])
      fix u :: upload_record and s'
      assume u: "u = r\<lparr>ur_detected_mime := Some ?mime\<rparr>\<lparr>ur_version := ur_version r + 1\<rparr>"
        and st': "under_way g owners (Some content) u s'"
      then have i: "ur_upload_id u = ur_upload_id r" "ur_claimed_mime u = canonical_mime claimed"
        using claimed by simp_all
      have allowed: "allowed_mime cfg (Some ?mime)
          \<longleftrightarrow> ?mime \<in> set (map canonical_mime_text (fc_allowed_mime_types cfg))"
        by (simp add: allowed_mime_def)
      show "settled g (ur_upload_id r) content
        (screening_verdict cfg env filename claimed (owned_elsewhere owners (ur_upload_id r) d) content)
        (?next u s')"
        unfolding screening_verdict_def Inr sum.case Let_def allowed [symmetric]
        using reject_settles [OF st' mv, of content] scan_settles [OF st' mv, of cfg d, unfolded i(1)] i
        by (cases "fe_scan env (Inr content)") auto
    qed simp_all
  qed
qed

text \<open>
  The state in which an upload arrives: the identifier is new to the repository and to the tree,
  the clock knows its zone, and the moves of the disk succeed.
\<close>

definition arrival :: "file_env \<Rightarrow> file_state \<Rightarrow> bool" where
  "arrival env s = (upload_id_syntax (fe_upload_id env) \<and> upload_get (fl_repo s) (fe_upload_id env) = None
     \<and> list_all (\<lambda>b. fs_entries (fl_fs s) (b, fe_upload_id env) = None) UPLOAD_BUCKETS
     \<and> (case fe_now env of Aware t \<Rightarrow> True | Naive t \<Rightarrow> False) \<and> \<not> df_move (fe_disk env))"

text \<open>The iterator raises nothing but what the service catches.\<close>

fun caught_chunk :: "upload_chunk \<Rightarrow> bool" where
  "caught_chunk (Chunk c) = True"
| "caught_chunk NotBytes = True"
| "caught_chunk (ChunkFault e) = (e = OSErr \<or> e = TypeErr \<or> e = ValueErr)"

lemma write_chunks_caught:
  "list_all caught_chunk chunks \<Longrightarrow> write_chunks sha n content chunks = (Inl e, c) \<Longrightarrow>
     e = OSErr \<or> e = TypeErr \<or> e = ValueErr \<or> (\<exists>k d. e = SizeLimitExceeded k d)"
  by (induction sha n content chunks rule: write_chunks.induct) (auto simp: Let_def split: if_splits)

lemma emit_run: "sx_bind (emit_upload name r) f s
    = f () (s\<lparr>fl_events := fl_events s @ [(name, upload_event_of r)]\<rparr>)"
  by (simp add: sx_bind_def emit_upload_def emit_event_def sx_modify_def)

lemma try_fs_run: "sx_bind (sx_try (on_fs m)) f s
    = f (fst (m (fl_fs s))) (s\<lparr>fl_fs := snd (m (fl_fs s))\<rparr>)"
  by (simp add: sx_bind_def sx_try_def on_fs_def sx_zoom_def case_prod_beta split: sum.split)

lemma ingest_settles:
  assumes arr: "arrival env s" and name: "sanitize_filename_metadata name = Inr filename"
    and chunks: "list_all caught_chunk chunks"
  shows "settled (upload_get (fl_repo s)) (fe_upload_id env)
      (snd (write_chunks (fc_sha256 cfg) (fc_max_bytes cfg) [] chunks))
      (intake_verdict cfg env filename claimed chunks
         (owned_elsewhere (upload_digest_owner (fl_repo s)) (fe_upload_id env)))
      (ingest cfg env name claimed chunks s)"
proof -
  let ?i = "fe_upload_id env" and ?g = "upload_get (fl_repo s)" and ?o = "upload_digest_owner (fl_repo s)"
    and ?w = "write_chunks (fc_sha256 cfg) (fc_max_bytes cfg) [] chunks"
  from arr obtain now where now: "fe_now env = Aware now" by (cases "fe_now env") (auto simp: arrival_def)
  have fresh: "upload_id_syntax ?i" "?g ?i = None" "\<not> df_move (fe_disk env)"
    "fs_entries (fl_fs s) (''quarantine'', ?i) = None" "fs_entries (fl_fs s) (''clean'', ?i) = None"
    "fs_entries (fl_fs s) (''rejected'', ?i) = None"
    using arr by (simp_all add: arrival_def UPLOAD_BUCKETS_def)
  note mv = fresh(3)
  let ?r = "new_upload cfg ?i filename claimed now"
  obtain m where m: "upload_insert ?r (fl_repo s) = (Inr (), m)"
    using fresh(2) by (simp add: upload_insert_def upload_get_def)
  have get: "upload_get m = ?g(?i \<mapsto> ?r)" using upload_store.ins_ok [OF m] by simp
  have own: "upload_digest_owner m = ?o" using upload_store.ins_claims [of ?r "fl_repo s"] m by simp
  define t where "t = s\<lparr>fl_repo := m, fl_events := fl_events s @ [(''FILE_QUARANTINED'', upload_event_of ?r)]\<rparr>"
  define handle where "handle = (\<lambda>stored.
            case stored of
              Inl (SizeLimitExceeded n d) \<Rightarrow>
                sx_bind (update_upload ?r (\<lambda>x. x\<lparr>ur_size_bytes := n, ur_sha256 := Some d\<rparr>))
                  (\<lambda>x. reject_upload env x ''SIZE_LIMIT_EXCEEDED'')
            | Inl e \<Rightarrow>
                if e = OSErr \<or> e = TypeErr \<or> is_value_error e
                then reject_upload env ?r ''QUARANTINE_WRITE_FAILED'' else sx_raise e
            | Inr (stored_size, digest) \<Rightarrow>
                if stored_size = 0 then
                  sx_bind (update_upload ?r (\<lambda>x. x\<lparr>ur_sha256 := Some digest\<rparr>))
                    (\<lambda>x. reject_upload env x ''EMPTY_FILE'')
                else sx_bind (update_upload ?r (\<lambda>x. x\<lparr>ur_size_bytes := stored_size, ur_sha256 := Some digest\<rparr>))
                  (inspect_upload cfg env filename digest))"
  let ?stored = "quarantine_write (fc_sha256 cfg) (fe_disk env) ?i chunks (fc_max_bytes cfg) (fl_fs s)"
  have run: "ingest cfg env name claimed chunks s = handle (fst ?stored) (t\<lparr>fl_fs := snd ?stored\<rparr>)"
    unfolding ingest_def now name require_aware.simps sum.case Let_def
    by (subst on_repo_run [where f = "upload_insert ?r", OF m])
      (simp only: emit_run try_fs_run handle_def, simp add: t_def)
  have path: "path_for (fl_fs s) ''quarantine'' ?i = Inr (''quarantine'', ?i)"
    using fresh(1,4) by (simp add: path_for_def UPLOAD_BUCKETS_def)
  have started: "under_way ?g ?o held ?r (t\<lparr>fl_fs := fs_put (''quarantine'', ?i)
      (map_option (\<lambda>c. RegularFile c True) held) (fl_fs s)\<rparr>)" for held
    using fresh get own by (simp add: under_way_def t_def new_upload_def Let_def)
  have same: "under_way ?g ?o None ?r (t\<lparr>fl_fs := fl_fs s\<rparr>)"
    using fresh get own by (simp add: under_way_def t_def new_upload_def Let_def)
  have failed: "settled ?g ?i c (Some ''QUARANTINE_WRITE_FAILED'') (handle (Inl e) u)"
    if "under_way ?g ?o held ?r u" "e = OSErr \<or> e = TypeErr \<or> e = ValueErr" for c e held u
    using reject_settles [OF that(1) mv, of c] that(2) by (auto simp: handle_def)
  show ?thesis
  proof (cases "df_open (fe_disk env)")
    case True
    then have "?stored = (Inl OSErr, fl_fs s)" by (simp add: quarantine_write_def path)
    with run failed [OF same] True show ?thesis by (auto simp: intake_verdict_def)
  next
    case open_ok: False
    obtain res content where w: "?w = (res, content)" by fastforce
    show ?thesis
    proof (cases res)
      case (Inl e)
      show ?thesis
      proof (cases "\<exists>k d. e = SizeLimitExceeded k d")
        case True
        then obtain k d where e: "e = SizeLimitExceeded k d" by blast
        have "?stored = (Inl e, fs_put (''quarantine'', ?i) (Some (RegularFile content True)) (fl_fs s))"
          by (simp add: quarantine_write_def path open_ok fresh w Inl e)
        moreover have "settled ?g ?i content (Some ''SIZE_LIMIT_EXCEEDED'')
          (handle (Inl e) (t\<lparr>fl_fs := fs_put (''quarantine'', ?i) (Some (RegularFile content True)) (fl_fs s)\<rparr>))"
          unfolding handle_def e sum.case file_error.case
          by (rule update_bind [OF started [of "Some content", simplified]])
            (use reject_settles [OF _ mv, of ?g ?o "Some content" _ _ content] in \<open>force+\<close>)
        ultimately show ?thesis using run open_ok w Inl e by (auto simp: intake_verdict_def)
      next
        case False
        have e: "e = OSErr \<or> e = TypeErr \<or> e = ValueErr"
          using write_chunks_caught [OF chunks] w Inl False by blast
        then have "?stored = (Inl e, fs_put (''quarantine'', ?i) None (fl_fs s))"
          by (auto simp: quarantine_write_def path open_ok fresh w Inl)
        with run failed [OF started [of None, simplified] e] open_ok w Inl e show ?thesis
          by (auto simp: intake_verdict_def)
      qed
    next
      case (Inr done_value)
      then have Inr: "res = Inr ()" by simp
      show ?thesis
      proof (cases "df_sync (fe_disk env)")
        case True
        then have "?stored = (Inl OSErr, fs_put (''quarantine'', ?i) None (fl_fs s))"
          by (simp add: quarantine_write_def path open_ok fresh w Inr)
        with run failed [OF started [of None, simplified], of OSErr] open_ok w Inr True show ?thesis
          by (auto simp: intake_verdict_def)
      next
        case sync_ok: False
        let ?d = "fc_sha256 cfg content"
        let ?u = "t\<lparr>fl_fs := fs_put (''quarantine'', ?i) (Some (RegularFile content True)) (fl_fs s)\<rparr>"
        have wrote: "?stored = (Inr (int (length content), ?d),
            fs_put (''quarantine'', ?i) (Some (RegularFile content True)) (fl_fs s))"
          by (simp add: quarantine_write_def path open_ok fresh w Inr sync_ok)
        have "settled ?g ?i content
           (if content = [] then Some ''EMPTY_FILE''
            else screening_verdict cfg env filename claimed (owned_elsewhere ?o ?i ?d) content)
           (handle (Inr (int (length content), ?d)) ?u)"
        proof (cases "content = []")
          case True
          have "settled ?g ?i content (Some ''EMPTY_FILE'') (sx_bind (update_upload ?r (\<lambda>x. x\<lparr>ur_sha256 := Some ?d\<rparr>))
              (\<lambda>x. reject_upload env x ''EMPTY_FILE'') ?u)"
            by (rule update_bind [OF started [of "Some content", simplified]])
              (use reject_settles [OF _ mv, of ?g ?o "Some content" _ _ content] in \<open>force+\<close>)
          with True show ?thesis by (simp add: handle_def)
        next
          case False
          have "settled ?g ?i content (screening_verdict cfg env filename claimed (owned_elsewhere ?o ?i ?d) content)
            (sx_bind (update_upload ?r (\<lambda>x. x\<lparr>ur_size_bytes := int (length content), ur_sha256 := Some ?d\<rparr>))
                  (inspect_upload cfg env filename ?d) ?u)"
            by (rule update_bind [OF started [of "Some content", simplified]])
              (use inspect_settles [OF _ mv, of ?g ?o content _ _ claimed cfg filename ?d]
                in \<open>force simp: new_upload_def\<close>)+
          with False show ?thesis by (simp add: handle_def)
        qed
        with run wrote open_ok sync_ok w Inr show ?thesis by (auto simp: intake_verdict_def)
      qed
    qed
  qed
qed

text \<open>C22: Ingestion decides by the screening rule. For an upload that arrives with a new identifier
  and a filename that sanitises, \<open>ingest\<close> always returns a record: clean, in the clean bucket and with
  the whole content when the rule gives no reason, otherwise rejected with exactly the first reason of
  the rule and with nothing in the clean bucket; the records of other uploads stay.\<close>

theorem ingest_matches_screening_rule:
  "\<forall>cfg env name claimed chunks s filename.
     arrival env s \<and> sanitize_filename_metadata name = Inr filename \<and> list_all caught_chunk chunks \<longrightarrow>
     settled (upload_get (fl_repo s)) (fe_upload_id env)
       (snd (write_chunks (fc_sha256 cfg) (fc_max_bytes cfg) [] chunks))
       (intake_verdict cfg env filename claimed chunks
          (owned_elsewhere (upload_digest_owner (fl_repo s)) (fe_upload_id env)))
       (ingest cfg env name claimed chunks s)"
  by (blast intro: ingest_settles)

section \<open>What the disk holds\<close>

lemma write_chunks_bound:
  "write_chunks sha n content chunks = (r, c) \<Longrightarrow> int (length content) \<le> n \<Longrightarrow>
     int (length c) \<le> n + 1 \<and> (r = Inr () \<longrightarrow> int (length c) \<le> n)"
proof (induction sha n content chunks arbitrary: r c rule: write_chunks.induct)
  case (4 sha maximum content c' cs)
  then show ?case by (auto simp: Let_def split: if_splits)
qed auto

fun chunk_bytes :: "upload_chunk \<Rightarrow> bytes" where
  "chunk_bytes (Chunk c) = c"
| "chunk_bytes x = []"

lemma write_chunks_content:
  "write_chunks sha n content chunks = (Inr (), c) \<Longrightarrow> c = content @ concat (map chunk_bytes chunks)"
  by (induction sha n content chunks rule: write_chunks.induct) (auto simp: Let_def split: if_splits)

lemma quarantine_write_cases:
  assumes "quarantine_write sha df i chunks n fs = (r, fs')"
  shows "fs' = fs \<or> (\<exists>path c. path_for fs ''quarantine'' i = Inr path \<and> fs_entries fs path = None \<and>
    ((\<exists>e. r = Inl e \<and> fs' = fs_put path None fs)
     \<or> (\<exists>e w. r = Inl e \<and> write_chunks sha n [] chunks = (w, c)
          \<and> fs' = fs_put path (Some (RegularFile c True)) fs)
     \<or> (write_chunks sha n [] chunks = (Inr (), c) \<and> r = Inr (int (length c), sha c)
          \<and> fs' = fs_put path (Some (RegularFile c True)) fs)))"
proof (cases "path_for fs ''quarantine'' i")
  case (Inl e)
  with assms show ?thesis by (simp add: quarantine_write_def)
next
  case (Inr path)
  obtain w c where w: "write_chunks sha n [] chunks = (w, c)" by fastforce
  show ?thesis
  proof (cases "df_open df \<or> fs_entries fs path \<noteq> None")
    case True
    with assms Inr show ?thesis by (simp add: quarantine_write_def)
  next
    case False
    show ?thesis
    proof (cases w)
      case (Inl e)
      with assms Inr False w show ?thesis by (cases e) (auto simp: quarantine_write_def)
    next
      case ended: (Inr u)
      with assms Inr False w show ?thesis by (cases "df_sync df") (auto simp: quarantine_write_def)
    qed
  qed
qed

text \<open>The quarantine never grows past its limit. Writing an attachment, however it ends, leaves
  every other entry of the tree alone and leaves at its own place either nothing new or a private file
  of at most one byte more than the limit; when it succeeds the file is exactly the chunks, within the
  limit, and the reported size and digest are those of the file.\<close>

theorem quarantine_write_bounded:
  "\<forall>sha df i chunks n fs r fs'. quarantine_write sha df i chunks n fs = (r, fs') \<and> 0 \<le> n \<longrightarrow>
     (fs' = fs \<or> (\<exists>path. path_for fs ''quarantine'' i = Inr path \<and> fs_entries fs path = None
        \<and> (\<forall>p. p \<noteq> path \<longrightarrow> fs_entries fs' p = fs_entries fs p)
        \<and> (case fs_entries fs' path of
             Some (RegularFile c restricted) \<Rightarrow> int (length c) \<le> n + 1 \<and> restricted
               \<and> (\<forall>size digest. r = Inr (size, digest) \<longrightarrow> c = concat (map chunk_bytes chunks)
                    \<and> size = int (length c) \<and> size \<le> n \<and> digest = sha c)
           | e \<Rightarrow> e = None \<and> (\<exists>x. r = Inl x))))"
proof (intro allI impI, elim conjE)
  fix sha df i chunks n fs r fs'
  assume w: "quarantine_write sha df i chunks n fs = (r, fs')" and n: "(0 :: int) \<le> n"
  show "fs' = fs \<or> (\<exists>path. path_for fs ''quarantine'' i = Inr path \<and> fs_entries fs path = None
        \<and> (\<forall>p. p \<noteq> path \<longrightarrow> fs_entries fs' p = fs_entries fs p)
        \<and> (case fs_entries fs' path of
             Some (RegularFile c restricted) \<Rightarrow> int (length c) \<le> n + 1 \<and> restricted
               \<and> (\<forall>size digest. r = Inr (size, digest) \<longrightarrow> c = concat (map chunk_bytes chunks)
                    \<and> size = int (length c) \<and> size \<le> n \<and> digest = sha c)
           | e \<Rightarrow> e = None \<and> (\<exists>x. r = Inl x)))" (is ?thesis)
    using quarantine_write_cases [OF w]
  proof (elim disjE exE conjE)
    fix path k e w'
    assume "path_for fs ''quarantine'' i = Inr path" "fs_entries fs path = None" "r = Inl e"
      "write_chunks sha n [] chunks = (w', k)" "fs' = fs_put path (Some (RegularFile k True)) fs"
    with write_chunks_bound [of sha n "[]" chunks w' k] n show ?thesis by simp
  next
    fix path k
    assume "path_for fs ''quarantine'' i = Inr path" "fs_entries fs path = None"
      "write_chunks sha n [] chunks = (Inr (), k)" "r = Inr (int (length k), sha k)"
      "fs' = fs_put path (Some (RegularFile k True)) fs"
    with write_chunks_bound [of sha n "[]" chunks "Inr ()" k] write_chunks_content [of sha n "[]" chunks k] n
    show ?thesis by simp
  qed simp_all
qed

section \<open>Retention\<close>

definition expired_upload :: "int \<Rightarrow> upload_record \<Rightarrow> bool" where
  "expired_upload current r = (ur_status r \<noteq> UP_DELETED \<and> ur_expires_at r \<le> current)"

definition unlinked :: "upload_fs \<Rightarrow> bool" where
  "unlinked fs = (\<forall>p t. fs_entries fs p \<noteq> Some (SymbolicLink t))"

definition listed :: "file_state \<Rightarrow> upload_record list \<Rightarrow> bool" where
  "listed s rs = (distinct (map ur_upload_id rs)
     \<and> (\<forall>r\<in>set rs. upload_get (fl_repo s) (ur_upload_id r) = Some r))"

lemma delete_unlinked:
  assumes "quarantine_delete b i fs = (Inr u, fs')" and "unlinked fs"
  shows "fs' = fs_put (b, i) None fs"
proof -
  from assms(1) obtain path where p: "path_for fs b i = Inr path" and "fs' = fs_put path None fs"
    by (auto simp: quarantine_delete_def split: sum.splits option.splits fs_entry.splits)
  moreover from path_for_not_linked [OF p] assms(2) have "path = (b, i)" by (auto simp: unlinked_def)
  ultimately show ?thesis by simp
qed

lemma delete_step:
  assumes "(case ob of None \<Rightarrow> sx_return () | Some b \<Rightarrow> on_fs (quarantine_delete b i)) s = (Inr (), t)"
    and "unlinked (fl_fs s)"
  shows "fl_repo t = fl_repo s"
    and "fs_entries (fl_fs t) = (case ob of None \<Rightarrow> fs_entries (fl_fs s)
       | Some b \<Rightarrow> (fs_entries (fl_fs s))((b, i) := None))"
    and "unlinked (fl_fs t)"
proof (atomize (full), cases ob)
  case None
  with assms show "fl_repo t = fl_repo s \<and> fs_entries (fl_fs t) = (case ob of None \<Rightarrow> fs_entries (fl_fs s)
       | Some b \<Rightarrow> (fs_entries (fl_fs s))((b, i) := None)) \<and> unlinked (fl_fs t)"
    by (simp add: sx_return_def)
next
  case (Some b)
  with assms(1) obtain f where f: "quarantine_delete b i (fl_fs s) = (Inr (), f)" "t = s\<lparr>fl_fs := f\<rparr>"
    by (auto simp: on_fs_Inr)
  from delete_unlinked [OF f(1) assms(2)] f(2) Some assms(2)
  show "fl_repo t = fl_repo s \<and> fs_entries (fl_fs t) = (case ob of None \<Rightarrow> fs_entries (fl_fs s)
       | Some b \<Rightarrow> (fs_entries (fl_fs s))((b, i) := None)) \<and> unlinked (fl_fs t)"
    by (simp add: unlinked_def)
qed

text \<open>One turn of the loop.\<close>

lemma purge_one:
  assumes "purge_loop current (r # rs) s = (Inr ids, s')" and "expired_upload current r"
    and "unlinked (fl_fs s)" and get: "upload_get (fl_repo s) (ur_upload_id r) = Some r"
  obtains t ids' where "purge_loop current rs t = (Inr ids', s')" "ids = ur_upload_id r # ids'"
    "upload_get (fl_repo t) = (upload_get (fl_repo s))(ur_upload_id r \<mapsto> purged_record current r)"
    "fs_entries (fl_fs t) = (case ur_bucket r of None \<Rightarrow> fs_entries (fl_fs s)
       | Some b \<Rightarrow> (fs_entries (fl_fs s))((b, ur_upload_id r) := None))" "unlinked (fl_fs t)"
proof -
  let ?u = "purged_record current r"
  from assms(1,2) obtain t0 m ids' where
    d: "(case ur_bucket r of None \<Rightarrow> sx_return ()
          | Some b \<Rightarrow> on_fs (quarantine_delete b (ur_upload_id r))) s = (Inr (), t0)"
    and m: "upload_replace ?u (ur_version r) (fl_repo t0) = (Inr (), m)"
    and l: "purge_loop current rs (t0\<lparr>fl_repo := m, fl_events := fl_events t0 @ [(''FILE_RETENTION_DELETED'',
        [(''upload_id'', PStr (ur_upload_id r)), (''status'', PStr ''DELETED'')])]\<rparr>) = (Inr ids', s')"
    and ids: "ids = ur_upload_id r # ids'"
    by (auto simp: expired_upload_def sx_bind_Inr on_repo_Inr emit_event_def sx_modify_def sx_return_def)
  note repo = delete_step(1) [OF d assms(3)] and fs = delete_step(2,3) [OF d assms(3)]
  have "upload_get m = (upload_get (fl_repo s))(ur_upload_id r \<mapsto> ?u)"
    using upload_store.rep_ok [OF m] repo by (simp add: purged_record_def)
  with fs show ?thesis by (intro that [OF l ids]) simp_all
qed

definition purged_as ::
  "int \<Rightarrow> file_state \<Rightarrow> upload_record list \<Rightarrow> string list \<Rightarrow> file_state \<Rightarrow> bool" where
  "purged_as current s rs ids s' =
     (ids = map ur_upload_id (filter (expired_upload current) rs)
      \<and> (\<forall>k. k \<notin> ur_upload_id ` set rs \<longrightarrow> upload_get (fl_repo s') k = upload_get (fl_repo s) k)
      \<and> (\<forall>r\<in>set rs. upload_get (fl_repo s') (ur_upload_id r)
           = Some (if expired_upload current r then purged_record current r else r))
      \<and> (\<forall>p. fs_entries (fl_fs s') p = None \<or> fs_entries (fl_fs s') p = fs_entries (fl_fs s) p)
      \<and> (\<forall>r\<in>set rs. \<forall>b. expired_upload current r \<and> ur_bucket r = Some b
           \<longrightarrow> fs_entries (fl_fs s') (b, ur_upload_id r) = None))"

lemma purged_as_skip:
  assumes "purged_as current s rs ids s'" and "\<not> expired_upload current r" and "listed s (r # rs)"
  shows "purged_as current s (r # rs) ids s'"
proof -
  have "upload_get (fl_repo s') (ur_upload_id r) = Some r"
    using assms(1,3) by (simp add: purged_as_def listed_def)
  with assms(1,2) show ?thesis by (simp add: purged_as_def)
qed

lemma purged_as_delete:
  assumes rest: "purged_as current t rs ids s'" and "expired_upload current r" and "listed s (r # rs)"
    and get: "upload_get (fl_repo t) = (upload_get (fl_repo s))(ur_upload_id r \<mapsto> purged_record current r)"
    and fs: "fs_entries (fl_fs t) = (case ur_bucket r of None \<Rightarrow> fs_entries (fl_fs s)
       | Some b \<Rightarrow> (fs_entries (fl_fs s))((b, ur_upload_id r) := None))"
  shows "purged_as current s (r # rs) (ur_upload_id r # ids) s'"
proof -
  have other: "ur_upload_id r \<notin> ur_upload_id ` set rs" using assms(3) by (auto simp: listed_def)
  with rest get have "upload_get (fl_repo s') (ur_upload_id r) = Some (purged_record current r)"
    by (simp add: purged_as_def)
  moreover have "fs_entries (fl_fs s') p = None \<or> fs_entries (fl_fs s') p = fs_entries (fl_fs s) p" for p
  proof -
    have "fs_entries (fl_fs s') p = None \<or> fs_entries (fl_fs s') p = fs_entries (fl_fs t) p"
      using rest unfolding purged_as_def by blast
    with fs show ?thesis by (cases "ur_bucket r") (auto split: if_splits)
  qed
  moreover have "fs_entries (fl_fs s') (b, ur_upload_id r) = None" if "ur_bucket r = Some b" for b
  proof -
    have "fs_entries (fl_fs s') (b, ur_upload_id r) = None
        \<or> fs_entries (fl_fs s') (b, ur_upload_id r) = fs_entries (fl_fs t) (b, ur_upload_id r)"
      using rest unfolding purged_as_def by blast
    with fs that show ?thesis by simp
  qed
  moreover have "upload_get (fl_repo s') k = upload_get (fl_repo s) k"
    if "k \<notin> ur_upload_id ` set (r # rs)" for k
    using rest get that by (simp add: purged_as_def)
  ultimately show ?thesis using rest assms(2) by (simp add: purged_as_def)
qed

lemma purge_loop_complete:
  "purge_loop current rs s = (Inr ids, s') \<Longrightarrow> listed s rs \<Longrightarrow> unlinked (fl_fs s)
    \<Longrightarrow> purged_as current s rs ids s'"
proof (induction rs arbitrary: s ids)
  case Nil
  then show ?case by (simp add: purged_as_def sx_return_def)
next
  case (Cons r rs)
  have tail: "listed s rs" using Cons.prems(2) by (simp add: listed_def)
  show ?case
  proof (cases "expired_upload current r")
    case False
    with Cons.prems(1) have "purge_loop current rs s = (Inr ids, s')"
      by (auto simp: expired_upload_def)
    from purged_as_skip [OF Cons.IH [OF this tail Cons.prems(3)] False Cons.prems(2)] show ?thesis .
  next
    case True
    have r: "upload_get (fl_repo s) (ur_upload_id r) = Some r"
      using Cons.prems(2) by (simp add: listed_def)
    from purge_one [OF Cons.prems(1) True Cons.prems(3) r] obtain t ids' where
      t: "purge_loop current rs t = (Inr ids', s')" "ids = ur_upload_id r # ids'"
      "upload_get (fl_repo t) = (upload_get (fl_repo s))(ur_upload_id r \<mapsto> purged_record current r)"
      "fs_entries (fl_fs t) = (case ur_bucket r of None \<Rightarrow> fs_entries (fl_fs s)
         | Some b \<Rightarrow> (fs_entries (fl_fs s))((b, ur_upload_id r) := None))"
      and un: "unlinked (fl_fs t)" by blast
    have other: "ur_upload_id r \<notin> ur_upload_id ` set rs" using Cons.prems(2) by (simp add: listed_def)
    have "listed t rs"
      unfolding listed_def
    proof (intro conjI ballI)
      show "distinct (map ur_upload_id rs)" using tail by (simp add: listed_def)
    next
      fix x assume x: "x \<in> set rs"
      with other have "ur_upload_id x \<noteq> ur_upload_id r" by (metis image_eqI)
      with t(3) tail x show "upload_get (fl_repo t) (ur_upload_id x) = Some x"
        by (simp add: listed_def)
    qed
    then have "purged_as current t rs ids' s'" using un by (rule Cons.IH [OF t(1)])
    from purged_as_delete [OF this True Cons.prems(2) t(3,4)] t(2) show ?thesis by simp
  qed
qed

text \<open>A table whose keys are the identifiers, each once: what the repository builds.\<close>

definition keyed_uploads :: "upload_mem \<Rightarrow> bool" where
  "keyed_uploads m = (distinct (map fst (um_records m)) \<and> (\<forall>(k, r)\<in>set (um_records m). ur_upload_id r = k))"

lemma keyed_listed: "keyed_uploads (fl_repo s) \<Longrightarrow> listed s (upload_list (fl_repo s))"
proof -
  assume k: "keyed_uploads (fl_repo s)"
  then have ids: "map ur_upload_id (upload_list (fl_repo s)) = map fst (um_records (fl_repo s))"
    by (auto simp: keyed_uploads_def upload_list_def)
  show ?thesis
    unfolding listed_def ids
    using k by (auto simp: keyed_uploads_def upload_list_def upload_get_def)
qed

text \<open>Retention is complete and touches nothing else. When a purge over a table keyed by its
  identifiers and a tree without links ends normally, exactly the records that are not deleted and
  have expired by its instant are now deleted records and are reported in table order; their files are
  gone, every other record is as it was, and no entry of the tree has appeared or changed.\<close>

theorem purge_expired_complete:
  "\<forall>s system_now now current ids s'.
     purge_expired system_now now s = (Inr ids, s') \<and> keyed_uploads (fl_repo s) \<and> unlinked (fl_fs s)
     \<and> require_aware ValueErr (case now of None \<Rightarrow> Aware system_now | Some t \<Rightarrow> t) = Inr current
     \<longrightarrow> purged_as current s (upload_list (fl_repo s)) ids s'"
proof (intro allI impI, elim conjE)
  fix s :: file_state and system_now now current ids s'
  assume "purge_expired system_now now s = (Inr ids, s')" and keyed: "keyed_uploads (fl_repo s)"
    and un: "unlinked (fl_fs s)"
    and "require_aware ValueErr (case now of None \<Rightarrow> Aware system_now | Some t \<Rightarrow> t) = Inr current"
  then have "purge_loop current (upload_list (fl_repo s)) s = (Inr ids, s')"
    by (simp add: purge_expired_def)
  then show "purged_as current s (upload_list (fl_repo s)) ids s'"
    using keyed_listed [OF keyed] un by (rule purge_loop_complete)
qed

section \<open>The small service again\<close>

theorem ingest_matches_screening_rule_witness:
  "settled (upload_get (fl_repo demo_files)) demo_upload_id ''%PDF-1.7'' None
     (ingest demo_file_config (demo_file_env demo_upload_id 1) ''a.pdf'' None [Chunk ''%PDF-1.7''] demo_files)
   \<and> settled (upload_get (fl_repo demo_files)) demo_upload_id ''%PDF-1.7'' (Some ''EXTENSION_MISMATCH'')
     (ingest demo_file_config (demo_file_env demo_upload_id 1) ''a.png'' None [Chunk ''%PDF-1.7''] demo_files)"
proof -
  let ?env = "demo_file_env demo_upload_id 1"
  have arr: "arrival ?env demo_files" by code_simp
  have name: "sanitize_filename_metadata ''a.pdf'' = Inr ''a.pdf''"
    "sanitize_filename_metadata ''a.png'' = Inr ''a.png''" by code_simp+
  have chunks: "list_all caught_chunk [Chunk ''%PDF-1.7'']" by simp
  have i: "fe_upload_id ?env = demo_upload_id" by (simp add: demo_file_env_def)
  have w: "snd (write_chunks (fc_sha256 demo_file_config) (fc_max_bytes demo_file_config) []
      [Chunk ''%PDF-1.7'']) = ''%PDF-1.7''" by code_simp
  have v: "intake_verdict demo_file_config ?env ''a.pdf'' None [Chunk ''%PDF-1.7'']
       (owned_elsewhere (upload_digest_owner (fl_repo demo_files)) demo_upload_id) = None"
    "intake_verdict demo_file_config ?env ''a.png'' None [Chunk ''%PDF-1.7'']
       (owned_elsewhere (upload_digest_owner (fl_repo demo_files)) demo_upload_id) = Some ''EXTENSION_MISMATCH''"
    by code_simp+
  show ?thesis
    using ingest_matches_screening_rule [rule_format, OF conjI [OF arr conjI [OF name(1) chunks]],
        of demo_file_config None, unfolded i w v]
      ingest_matches_screening_rule [rule_format, OF conjI [OF arr conjI [OF name(2) chunks]],
        of demo_file_config None, unfolded i w v]
    by blast
qed

theorem quarantine_write_bounded_witness:
  "fst (quarantine_write (\<lambda>c. ''d'') (fe_disk (demo_file_env demo_upload_id 1)) demo_upload_id
     [Chunk ''abc'', Chunk ''def''] 4 empty_upload_fs) = Inl (SizeLimitExceeded 6 ''d'')
   \<and> (\<exists>c restricted. fs_entries (snd (quarantine_write (\<lambda>c. ''d'') (fe_disk (demo_file_env demo_upload_id 1))
        demo_upload_id [Chunk ''abc'', Chunk ''def''] 4 empty_upload_fs)) (''quarantine'', demo_upload_id)
          = Some (RegularFile c restricted) \<and> int (length c) \<le> 4 + 1)"
proof -
  let ?w = "quarantine_write (\<lambda>c. ''d'') (fe_disk (demo_file_env demo_upload_id 1)) demo_upload_id
     [Chunk ''abc'', Chunk ''def''] 4 empty_upload_fs"
  have r: "fst ?w = Inl (SizeLimitExceeded 6 ''d'')" by code_simp
  have path: "path_for empty_upload_fs ''quarantine'' demo_upload_id = Inr (''quarantine'', demo_upload_id)"
    by code_simp
  have new: "case fs_entries (snd ?w) (''quarantine'', demo_upload_id) of
      Some (RegularFile c x) \<Rightarrow> True | _ \<Rightarrow> False" by code_simp
  then have "snd ?w \<noteq> empty_upload_fs" by (auto simp: empty_upload_fs_def)
  then obtain q where q: "path_for empty_upload_fs ''quarantine'' demo_upload_id = Inr q"
    "case fs_entries (snd ?w) q of
       Some (RegularFile c restricted) \<Rightarrow> int (length c) \<le> 4 + 1 \<and> restricted
         \<and> (\<forall>size digest. fst ?w = Inr (size, digest) \<longrightarrow>
              c = concat (map chunk_bytes [Chunk ''abc'', Chunk ''def''])
              \<and> size = int (length c) \<and> size \<le> 4 \<and> digest = ''d'')
     | e \<Rightarrow> e = None \<and> (\<exists>x. fst ?w = Inl x)"
    using quarantine_write_bounded [rule_format, of "\<lambda>c. ''d''" "fe_disk (demo_file_env demo_upload_id 1)"
        demo_upload_id "[Chunk ''abc'', Chunk ''def'']" 4 empty_upload_fs "fst ?w" "snd ?w"]
    by auto
  from q path new r show ?thesis by (auto split: option.splits fs_entry.splits)
qed

definition demo_aged :: file_state where
  "demo_aged = demo_ingested\<lparr>fl_fs := fs_put (''clean'', demo_upload_id)
     (Some (RegularFile ''%PDF-1.7'' True)) empty_upload_fs\<rparr>"

theorem purge_expired_complete_witness:
  "purged_as 100 demo_aged (upload_list (fl_repo demo_aged)) [demo_upload_id]
     (snd (purge_expired 0 (Some (Aware 100)) demo_aged))"
proof -
  have run: "fst (purge_expired 0 (Some (Aware 100)) demo_aged) = Inr [demo_upload_id]" by code_simp
  then have run: "purge_expired 0 (Some (Aware 100)) demo_aged
      = (Inr [demo_upload_id], snd (purge_expired 0 (Some (Aware 100)) demo_aged))"
    by (metis prod.collapse)
  have keyed: "keyed_uploads (fl_repo demo_aged)" by code_simp
  have un: "unlinked (fl_fs demo_aged)"
    by (simp add: unlinked_def demo_aged_def empty_upload_fs_def)
  have clock: "require_aware ValueErr (case Some (Aware 100) of None \<Rightarrow> Aware 0 | Some t \<Rightarrow> t) = Inr (100 :: int)"
    by simp
  show ?thesis
    by (rule purge_expired_complete [rule_format, OF conjI [OF run conjI [OF keyed conjI [OF un clock]]]])
qed

end
