(* ===== verification/QueryPlan.thy ===== *)
theory QueryPlan
  imports PolicyCatalog
begin

text \<open>
  The plan of a conversational HR request (\<^verbatim>\<open>query/plan.py\<close>) with all its validators, and the
  tracker that holds its execution to the declared order and to its budgets
  (\<^verbatim>\<open>query/execution.py\<close>). The types of the fields are strict in the source and are types here; a
  date is its proleptic ordinal. A check returns the message of the first condition that fails.
\<close>

datatype hr_resource =
    EMPLOYEES | EMPLOYEE_SUMMARY | CONTRACTS | ROLES | TIME_ACCESS | MATURATIONS | BALANCES
  | PAYROLLS | DOCUMENTS

datatype hr_query_action =
    ACT_READ | ACT_SEARCH | ACT_FILTER | ACT_JOIN | ACT_AGGREGATE | ACT_SORT | ACT_PROJECT | ACT_EXPORT

datatype entity_resolution_mode = RES_NONE | RES_EXACT_ID | RES_LOCAL_SEARCH | RES_CONTEXT_REFERENCE

datatype filter_operator = OP_EQ | OP_NE | OP_CONTAINS | OP_IN | OP_BETWEEN | OP_EXISTS | OP_NOT_EXISTS

datatype output_format = OUT_EMBED | OUT_TABLE | OUT_CSV | OUT_XLSX | OUT_PDF | OUT_DOCX

datatype delivery_mode = TO_CHANNEL | TO_EPHEMERAL | TO_PRIVATE | TO_EXPORT

text \<open>A filter value of type \<open>Any\<close>: what the validator tells apart.\<close>

datatype filter_item = ItemStr string | ItemInt int | ItemOther

datatype filter_value =
    NoValue | StrValue string | BoolValue bool | IntValue int | DateValue int
  | ListValue "filter_item list" | OtherValue

record hr_date_range =
  dr_date_from :: int
  dr_date_to :: int
  dr_label :: string

record hr_filter =
  hf_field :: string
  hf_operator :: filter_operator
  hf_value :: filter_value

record hr_sort =
  hs_field :: string
  hs_direction :: string

record hr_pagination =
  hp_page :: int
  hp_page_size :: int
  hp_require_complete :: bool

record hr_query_step =
  qs_step_id :: string
  qs_function_id :: string
  qs_resource :: hr_resource
  qs_action :: hr_query_action
  qs_depends_on :: "string list"
  qs_target_entity :: "string option"
  qs_filters :: "hr_filter list"
  qs_projection :: "string list"
  qs_aggregation :: "string option"

record hr_query_plan =
  qp_intent :: string
  qp_resources :: "hr_resource list"
  qp_target_entities :: "string list"
  qp_entity_resolution :: entity_resolution_mode
  qp_filters :: "hr_filter list"
  qp_date_range :: "hr_date_range option"
  qp_joins :: "string list"
  qp_projection :: "string list"
  qp_aggregation :: "string option"
  qp_grouping :: "string list"
  qp_sorting :: "hr_sort list"
  qp_pagination :: hr_pagination
  qp_output_format :: output_format
  qp_delivery_mode :: delivery_mode
  qp_sensitivity :: sensitivity
  qp_clarification_required :: bool
  qp_clarification_question :: "string option"
  qp_steps :: "hr_query_step list"

section \<open>Validators\<close>

text \<open>\<open>if cond: raise ...\<close> lines in sequence.\<close>

fun first_failure :: "(bool \<times> string) list \<Rightarrow> string option" where
  "first_failure [] = None"
| "first_failure ((b, msg) # rest) = (if b then Some msg else first_failure rest)"

lemma first_failure_None: "first_failure gs = None \<longleftrightarrow> list_all (\<lambda>(b, _). \<not> b) gs"
  by (induction gs rule: first_failure.induct) (simp_all split: if_split)

fun first_of :: "string option list \<Rightarrow> string option" where
  "first_of [] = None"
| "first_of (None # rest) = first_of rest"
| "first_of (Some e # rest) = Some e"

lemma first_of_None: "first_of cs = None \<longleftrightarrow> list_all (\<lambda>c. c = None) cs"
  by (induction cs rule: first_of.induct) auto

definition identifier_syntax :: "string \<Rightarrow> bool" where
  "identifier_syntax s = (s \<noteq> [] \<and> is_lower (hd s) \<and> length s \<le> 64
     \<and> list_all (\<lambda>c. is_lower c \<or> is_digit c \<or> c = CHR ''_'') (tl s))"

definition step_id_syntax :: "string \<Rightarrow> bool" where
  "step_id_syntax s = (s \<in> set (map (\<lambda>d. ''step_'' @ [d]) ''12345678''))"

definition entity_placeholder :: "string \<Rightarrow> bool" where
  "entity_placeholder s = (\<exists>p\<in>set [''EMPLOYEE_TARGET_'', ''CONTEXT_RESULT_''].
     starts_with p s \<and> (let d = drop (length p) s in
       d \<noteq> [] \<and> length d \<le> 3 \<and> list_all is_digit d \<and> hd d \<noteq> CHR ''0''))"

definition bounded_text :: "nat \<Rightarrow> nat \<Rightarrow> string \<Rightarrow> bool" where
  "bounded_text lo hi s = (lo \<le> length s \<and> length s \<le> hi)"

definition check_date_range :: "hr_date_range \<Rightarrow> string option" where
  "check_date_range r = first_failure
     [(\<not> bounded_text 1 80 (dr_label r), ''label length''),
      (dr_date_to r < dr_date_from r, ''date range is reversed''),
      (3660 < dr_date_to r - dr_date_from r, ''date range exceeds the bounded horizon'')]"

fun check_filter_value :: "filter_value \<Rightarrow> string option" where
  "check_filter_value NoValue = Some ''filter value is required''"
| "check_filter_value (StrValue s) =
     (if py_strip s = [] \<or> 128 < length s then Some ''invalid filter value'' else None)"
| "check_filter_value (ListValue items) =
     (if \<not> (1 \<le> length items \<and> length items \<le> 24) \<or> ItemOther \<in> set items
      then Some ''invalid filter collection'' else None)"
| "check_filter_value OtherValue = Some ''unsupported filter value''"
| "check_filter_value v = None"

definition check_filter :: "hr_filter \<Rightarrow> string option" where
  "check_filter f =
     (if \<not> bounded_text 1 64 (hf_field f) then Some ''field length''
      else if \<not> identifier_syntax (hf_field f) then Some ''invalid filter field''
      else if hf_operator f = OP_EXISTS \<or> hf_operator f = OP_NOT_EXISTS
        then (if hf_value f \<noteq> NoValue then Some ''existence filter cannot include a value'' else None)
      else check_filter_value (hf_value f))"

definition check_sort :: "hr_sort \<Rightarrow> string option" where
  "check_sort x = first_failure
     [(\<not> bounded_text 1 64 (hs_field x), ''field length''),
      (hs_direction x \<notin> {''asc'', ''desc''}, ''direction pattern'')]"

definition check_pagination :: "hr_pagination \<Rightarrow> string option" where
  "check_pagination p = first_failure
     [(\<not> (1 \<le> hp_page p \<and> hp_page p \<le> 10000), ''page bounds''),
      (\<not> (1 \<le> hp_page_size p \<and> hp_page_size p \<le> 100), ''page size bounds'')]"

definition check_optional_text :: "nat \<Rightarrow> string \<Rightarrow> string option \<Rightarrow> string option" where
  "check_optional_text hi msg t =
     (case t of None \<Rightarrow> None | Some s \<Rightarrow> if hi < length s then Some msg else None)"

definition check_step :: "hr_query_step \<Rightarrow> string option" where
  "check_step s = first_of
     (map check_filter (qs_filters s) @
      [check_optional_text 64 ''aggregation length'' (qs_aggregation s),
       first_failure
         [(\<not> step_id_syntax (qs_step_id s), ''invalid query step identifier''),
          (qs_function_id s \<notin> set READ_FUNCTION_IDS,
             ''query plans may contain only catalogued read functions''),
          (case qs_target_entity s of None \<Rightarrow> False | Some t \<Rightarrow> \<not> entity_placeholder t,
             ''target entity must be an opaque placeholder''),
          (7 < length (qs_depends_on s) \<or> qs_step_id s \<in> set (qs_depends_on s),
             ''invalid query step dependencies''),
          (16 < length (qs_filters s) \<or> 32 < length (qs_projection s),
             ''query step exceeds bounded fields''),
          (list_ex (\<lambda>f. \<not> identifier_syntax f) (qs_projection s), ''invalid projection field'')]])"

text \<open>The loop over the steps with the set of the identifiers seen so far.\<close>

fun check_step_order :: "hr_resource list \<Rightarrow> string list \<Rightarrow> hr_query_step list \<Rightarrow> string option" where
  "check_step_order resources seen [] = None"
| "check_step_order resources seen (s # rest) =
     (if qs_step_id s \<in> set seen \<or> list_ex (\<lambda>d. d \<notin> set seen) (qs_depends_on s)
        then Some ''query plan dependencies are unordered or duplicated''
      else if qs_resource s \<notin> set resources then Some ''query step resource is undeclared''
      else check_step_order resources (qs_step_id s # seen) rest)"

text \<open>A plan with its parts: each part is validated when it is built, then the plan itself.\<close>

definition check_plan :: "hr_query_plan \<Rightarrow> string option" where
  "check_plan p = first_of
     (map check_filter (qp_filters p) @
      [case qp_date_range p of None \<Rightarrow> None | Some r \<Rightarrow> check_date_range r] @
      map check_sort (qp_sorting p) @ [check_pagination (qp_pagination p)] @
      map check_step (qp_steps p) @
      [if bounded_text 1 64 (qp_intent p) then None else Some ''intent length'',
       check_optional_text 64 ''aggregation length'' (qp_aggregation p),
       check_optional_text 300 ''question length'' (qp_clarification_question p),
       first_failure
         [(\<not> identifier_syntax (qp_intent p), ''invalid plan intent''),
          (\<not> (1 \<le> length (qp_resources p) \<and> length (qp_resources p) \<le> 9)
             \<or> \<not> distinct (qp_resources p), ''invalid plan resources''),
          (\<not> (1 \<le> length (qp_steps p) \<and> length (qp_steps p) \<le> 8), ''invalid plan step count''),
          (list_ex (\<lambda>t. \<not> entity_placeholder t) (qp_target_entities p),
             ''target entity must be an opaque placeholder''),
          (qp_clarification_required p \<noteq> (qp_clarification_question p \<noteq> None),
             ''clarification state is inconsistent'')],
       check_step_order (qp_resources p) [] (qp_steps p)])"

section \<open>Well-formed plans\<close>

text \<open>What the order check gives: dependencies point backwards and identifiers are unique.\<close>

lemma check_step_order_sound:
  "check_step_order resources seen steps = None \<Longrightarrow>
     distinct (map qs_step_id steps) \<and> set (map qs_step_id steps) \<inter> set seen = {}
     \<and> (\<forall>i<length steps. qs_resource (steps ! i) \<in> set resources
          \<and> (\<forall>d\<in>set (qs_depends_on (steps ! i)). d \<in> set seen \<or> (\<exists>j<i. qs_step_id (steps ! j) = d)))"
proof (induction resources seen steps rule: check_step_order.induct)
  case (1 resources seen)
  then show ?case by simp
next
  case (2 resources seen s rest)
  then have here: "qs_step_id s \<notin> set seen" "\<forall>d\<in>set (qs_depends_on s). d \<in> set seen"
    "qs_resource s \<in> set resources"
    and rest: "check_step_order resources (qs_step_id s # seen) rest = None"
    by (auto simp: list_ex_iff split: if_splits)
  from 2 here rest have IH: "distinct (map qs_step_id rest)"
    "set (map qs_step_id rest) \<inter> set (qs_step_id s # seen) = {}"
    and nth: "\<And>i. i < length rest \<Longrightarrow> qs_resource (rest ! i) \<in> set resources
       \<and> (\<forall>d\<in>set (qs_depends_on (rest ! i)). d \<in> set (qs_step_id s # seen)
            \<or> (\<exists>j<i. qs_step_id (rest ! j) = d))"
    by (auto simp: list_ex_iff)
  have "qs_resource ((s # rest) ! i) \<in> set resources
      \<and> (\<forall>d\<in>set (qs_depends_on ((s # rest) ! i)). d \<in> set seen
           \<or> (\<exists>j<i. qs_step_id ((s # rest) ! j) = d))" if "i < length (s # rest)" for i
  proof (cases i)
    case 0
    with here show ?thesis by simp
  next
    case (Suc k)
    with that nth [of k] show ?thesis unfolding Suc Ex_less_Suc2 by auto
  qed
  with here IH show ?case by auto
qed

declare first_failure.simps [simp del] first_of.simps [simp del]

lemma check_plan_parts:
  assumes "check_plan p = None"
  shows "\<forall>s\<in>set (qp_steps p). check_step s = None"
    and "check_step_order (qp_resources p) [] (qp_steps p) = None"
    and "1 \<le> length (qp_steps p)" "length (qp_steps p) \<le> 8"
    and "identifier_syntax (qp_intent p)" "distinct (qp_resources p)"
    and "qp_clarification_required p = (qp_clarification_question p \<noteq> None)"
  using assms
  by (simp_all add: check_plan_def first_of_None first_failure_None list_all_iff)

lemma check_step_parts:
  assumes "check_step s = None"
  shows "step_id_syntax (qs_step_id s)" and "qs_function_id s \<in> set READ_FUNCTION_IDS"
    and "length (qs_depends_on s) \<le> 7"
    and "\<forall>t. qs_target_entity s = Some t \<longrightarrow> entity_placeholder t"
  using assms
  by (simp_all add: check_step_def first_of_None first_failure_None split: option.splits)

lemma read_function_ids:
  "READ_FUNCTION_IDS = map fs_function_id (filter (\<lambda>s. \<not> is_write s) SPECS)"
  by (simp add: READ_FUNCTION_IDS_def FUNCTION_CATALOG_eq filter_map comp_def)

lemma read_function_spec:
  "f \<in> set READ_FUNCTION_IDS \<Longrightarrow> \<exists>spec. get_function_spec f = Some spec \<and> \<not> is_write spec"
  by (auto simp: READ_FUNCTION_IDS_def FUNCTION_CATALOG_eq dest: get_function_spec_member)

text \<open>C27: A validated plan is a bounded, ordered, read-only programme. A plan that passes every
  validator has one to eight steps with distinct identifiers; each step runs a read function of the
  catalogue, on a declared resource and on an opaque target only, and depends only on steps before it.\<close>

theorem validated_plan_well_formed:
  "\<forall>p. check_plan p = None \<longrightarrow>
     1 \<le> length (qp_steps p) \<and> length (qp_steps p) \<le> 8 \<and> distinct (map qs_step_id (qp_steps p))
     \<and> distinct (qp_resources p)
     \<and> (\<forall>i<length (qp_steps p). let s = qp_steps p ! i in
          (\<exists>spec. get_function_spec (qs_function_id s) = Some spec \<and> \<not> is_write spec)
          \<and> qs_resource s \<in> set (qp_resources p)
          \<and> (\<forall>t. qs_target_entity s = Some t \<longrightarrow> entity_placeholder t)
          \<and> (\<forall>d\<in>set (qs_depends_on s). \<exists>j<i. qs_step_id (qp_steps p ! j) = d))"
proof (intro allI impI)
  fix p assume p: "check_plan p = None"
  note parts = check_plan_parts [OF p]
  from check_step_order_sound [OF parts(2)] have order: "distinct (map qs_step_id (qp_steps p))"
    and nth: "\<And>i. i < length (qp_steps p) \<Longrightarrow> qs_resource (qp_steps p ! i) \<in> set (qp_resources p)
       \<and> (\<forall>d\<in>set (qs_depends_on (qp_steps p ! i)). \<exists>j<i. qs_step_id (qp_steps p ! j) = d)"
    by auto
  note read = read_function_spec
  have "let s = qp_steps p ! i in
      (\<exists>spec. get_function_spec (qs_function_id s) = Some spec \<and> \<not> is_write spec)
      \<and> qs_resource s \<in> set (qp_resources p)
      \<and> (\<forall>t. qs_target_entity s = Some t \<longrightarrow> entity_placeholder t)
      \<and> (\<forall>d\<in>set (qs_depends_on s). \<exists>j<i. qs_step_id (qp_steps p ! j) = d)"
    if i: "i < length (qp_steps p)" for i
  proof -
    have "check_step (qp_steps p ! i) = None" using parts(1) i by simp
    from check_step_parts [OF this] read nth [OF i] show ?thesis by (simp add: Let_def)
  qed
  with parts(3,4,6) order show "1 \<le> length (qp_steps p) \<and> length (qp_steps p) \<le> 8
     \<and> distinct (map qs_step_id (qp_steps p)) \<and> distinct (qp_resources p)
     \<and> (\<forall>i<length (qp_steps p). let s = qp_steps p ! i in
          (\<exists>spec. get_function_spec (qs_function_id s) = Some spec \<and> \<not> is_write spec)
          \<and> qs_resource s \<in> set (qp_resources p)
          \<and> (\<forall>t. qs_target_entity s = Some t \<longrightarrow> entity_placeholder t)
          \<and> (\<forall>d\<in>set (qs_depends_on s). \<exists>j<i. qs_step_id (qp_steps p ! j) = d))"
    by blast
qed

section \<open>Execution\<close>

text \<open>The three evidence counters may be absent; an exceeded budget keeps the reads it counted.\<close>

record plan_tracker =
  pt_plan_intent :: string
  pt_expected :: "string list"
  pt_completed :: "string list"
  pt_max_resource_reads :: int
  pt_max_source_records :: int
  pt_resource_reads :: int
  pt_source_records :: "int option"
  pt_result_records :: "int option"

record plan_evidence =
  pe_plan_intent :: string
  pe_completed_steps :: "string list"
  pe_resource_reads :: int
  pe_source_records :: int
  pe_result_records :: int
  pe_complete :: bool

datatype execution_error = BudgetNotPositive | ExecutionError string

definition new_tracker :: "hr_query_plan \<Rightarrow> int \<Rightarrow> int \<Rightarrow> execution_error + plan_tracker" where
  "new_tracker p max_resource_reads max_source_records =
     (if max_resource_reads < 1 \<or> max_source_records < 1 then Inl BudgetNotPositive
      else Inr \<lparr>pt_plan_intent = qp_intent p, pt_expected = map qs_step_id (qp_steps p),
        pt_completed = [], pt_max_resource_reads = max_resource_reads,
        pt_max_source_records = max_source_records, pt_resource_reads = 0,
        pt_source_records = None, pt_result_records = None\<rparr>)"

definition complete_step ::
  "string \<Rightarrow> int \<Rightarrow> int option \<Rightarrow> int option \<Rightarrow> (plan_tracker, execution_error, unit) sx" where
  "complete_step step_id resource_reads source_records result_records t =
     (let expected_index = length (pt_completed t) in
      if length (pt_expected t) \<le> expected_index \<or> pt_expected t ! expected_index \<noteq> step_id
        then (Inl (ExecutionError ''query plan step order changed during execution''), t)
      else if resource_reads < 0
        then (Inl (ExecutionError ''query plan reported an invalid read count''), t)
      else let t1 = t\<lparr>pt_resource_reads := pt_resource_reads t + resource_reads\<rparr> in
      if pt_max_resource_reads t1 < pt_resource_reads t1
        then (Inl (ExecutionError ''query plan exceeded the resource-read budget''), t1)
      else case (case source_records of
          None \<Rightarrow> Inr t1
        | Some n \<Rightarrow>
            if n < 0 \<or> pt_max_source_records t1 < n
              then Inl ''query plan exceeded the source-record budget''
            else if pt_source_records t1 \<noteq> None \<and> pt_source_records t1 \<noteq> Some n
              then Inl ''query plan source cardinality changed''
            else Inr (t1\<lparr>pt_source_records := Some n\<rparr>)) of
        Inl msg \<Rightarrow> (Inl (ExecutionError msg), t1)
      | Inr t2 \<Rightarrow>
          (case result_records of
             None \<Rightarrow> (Inr (), t2\<lparr>pt_completed := pt_completed t2 @ [step_id]\<rparr>)
           | Some n \<Rightarrow>
               if n < 0 \<or> pt_max_source_records t2 < n
                 then (Inl (ExecutionError ''query plan result cardinality is invalid''), t2)
               else (Inr (), t2\<lparr>pt_result_records := Some n,
                       pt_completed := pt_completed t2 @ [step_id]\<rparr>)))"

definition verify_plan :: "plan_tracker \<Rightarrow> execution_error + plan_evidence" where
  "verify_plan t =
     (if pt_completed t \<noteq> pt_expected t
        then Inl (ExecutionError ''query plan objective is not fully verified'')
      else case (pt_source_records t, pt_result_records t) of
        (Some source, Some result) \<Rightarrow>
          if source < result
            then Inl (ExecutionError ''query plan result exceeds its verified source'')
          else Inr \<lparr>pe_plan_intent = pt_plan_intent t, pe_completed_steps = pt_completed t,
            pe_resource_reads = pt_resource_reads t, pe_source_records = source,
            pe_result_records = result, pe_complete = True\<rparr>
      | _ \<Rightarrow> Inl (ExecutionError ''query plan cardinality evidence is incomplete''))"

text \<open>A history: the calls an executor makes, whether or not they raise.\<close>

datatype step_report = StepReport string int "int option" "int option"

fun report_step :: "step_report \<Rightarrow> plan_tracker \<Rightarrow> plan_tracker" where
  "report_step (StepReport i n a b) t = snd (complete_step i n a b t)"

fun accepted_steps :: "step_report list \<Rightarrow> plan_tracker \<Rightarrow> (string \<times> int) list" where
  "accepted_steps [] t = []"
| "accepted_steps (StepReport i n a b # rs) t =
     (if ok (complete_step i n a b t) then [(i, n)] else [])
       @ accepted_steps rs (report_step (StepReport i n a b) t)"

text \<open>What a tracker knows of the steps it accepted, at every point of a history.\<close>

definition tracked :: "string list \<Rightarrow> int \<Rightarrow> int \<Rightarrow> (string \<times> int) list \<Rightarrow> plan_tracker \<Rightarrow> bool" where
  "tracked expected reads sources accepted t =
     (pt_expected t = expected \<and> pt_max_resource_reads t = reads \<and> pt_max_source_records t = sources
      \<and> pt_completed t = map fst accepted \<and> sum_list (map snd accepted) \<le> pt_resource_reads t
      \<and> (pt_completed t = expected \<longrightarrow> pt_resource_reads t \<le> reads)
      \<and> (\<forall>n. pt_source_records t = Some n \<longrightarrow> 0 \<le> n \<and> n \<le> sources)
      \<and> (\<forall>n. pt_result_records t = Some n \<longrightarrow> 0 \<le> n \<and> n \<le> sources))"

definition counted :: "plan_tracker \<Rightarrow> int option \<Rightarrow> int option \<Rightarrow> bool" where
  "counted t old new = (new = old \<or> (\<exists>k. new = Some k \<and> 0 \<le> k \<and> k \<le> pt_max_source_records t))"

definition same_plan :: "plan_tracker \<Rightarrow> plan_tracker \<Rightarrow> bool" where
  "same_plan t t' = (pt_plan_intent t' = pt_plan_intent t \<and> pt_expected t' = pt_expected t
     \<and> pt_max_resource_reads t' = pt_max_resource_reads t
     \<and> pt_max_source_records t' = pt_max_source_records t
     \<and> counted t (pt_source_records t) (pt_source_records t')
     \<and> counted t (pt_result_records t) (pt_result_records t'))"

lemma complete_step_ok:
  assumes "complete_step i n a b t = (Inr u, t')"
  shows "same_plan t t' \<and> length (pt_completed t) < length (pt_expected t) \<and> 0 \<le> n
    \<and> pt_resource_reads t' = pt_resource_reads t + n \<and> pt_resource_reads t' \<le> pt_max_resource_reads t
    \<and> pt_completed t' = pt_completed t @ [i]"
  using assms
  by (cases a; cases b)
    (auto simp: complete_step_def Let_def same_plan_def counted_def split: if_splits)

lemma complete_step_error:
  assumes "complete_step i n a b t = (Inl e, t')"
  shows "t' = t \<or> (same_plan t t' \<and> length (pt_completed t) < length (pt_expected t) \<and> 0 \<le> n
    \<and> pt_resource_reads t' = pt_resource_reads t + n \<and> pt_completed t' = pt_completed t)"
  using assms
  by (cases a; cases b)
    (auto simp: complete_step_def Let_def same_plan_def counted_def split: if_splits)

lemma counted_bound:
  "counted t old new \<Longrightarrow> \<forall>n. old = Some n \<longrightarrow> 0 \<le> n \<and> n \<le> pt_max_source_records t
    \<Longrightarrow> \<forall>n. new = Some n \<longrightarrow> 0 \<le> n \<and> n \<le> pt_max_source_records t"
  by (auto simp: counted_def)

lemma tracked_same_plan:
  assumes "tracked expected reads sources accepted t" and "same_plan t t'"
  shows "pt_expected t' = expected \<and> pt_max_resource_reads t' = reads \<and> pt_max_source_records t' = sources
    \<and> (\<forall>n. pt_source_records t' = Some n \<longrightarrow> 0 \<le> n \<and> n \<le> sources)
    \<and> (\<forall>n. pt_result_records t' = Some n \<longrightarrow> 0 \<le> n \<and> n \<le> sources)"
  using assms counted_bound [of t "pt_source_records t" "pt_source_records t'"]
    counted_bound [of t "pt_result_records t" "pt_result_records t'"]
  by (simp add: tracked_def same_plan_def)

lemma tracked_step:
  assumes tr: "tracked expected reads sources accepted t"
  shows "tracked expected reads sources
    (accepted @ (if ok (complete_step i n a b t) then [(i, n)] else []))
    (snd (complete_step i n a b t))"
proof (cases "complete_step i n a b t")
  case (Pair r t')
  show ?thesis
  proof (cases r)
    case (Inl e)
    with Pair have run: "complete_step i n a b t = (Inl e, t')" by simp
    show ?thesis
    proof (cases "t' = t")
      case True
      with tr run show ?thesis by simp
    next
      case False
      with complete_step_error [OF run] have step: "same_plan t t'"
        "length (pt_completed t') < length (pt_expected t)" "0 \<le> n"
        "pt_resource_reads t' = pt_resource_reads t + n" "pt_completed t' = pt_completed t" by auto
      moreover have "pt_completed t' \<noteq> expected" using step(2) tr by (auto simp: tracked_def)
      ultimately show ?thesis using tracked_same_plan [OF tr step(1)] tr run by (simp add: tracked_def)
    qed
  next
    case (Inr u)
    with Pair have run: "complete_step i n a b t = (Inr u, t')" by simp
    from complete_step_ok [OF run] tracked_same_plan [OF tr, of t'] tr run show ?thesis
      by (simp add: tracked_def)
  qed
qed

lemma tracked_run:
  "tracked expected reads sources accepted t \<Longrightarrow>
     tracked expected reads sources (accepted @ accepted_steps rs t) (fold report_step rs t)"
proof (induction rs arbitrary: accepted t)
  case Nil
  then show ?case by simp
next
  case (Cons r rs)
  obtain i n a b where r: "r = StepReport i n a b" by (cases r)
  from Cons.IH [OF tracked_step [OF Cons.prems, of i n a b]] show ?case by (simp add: r)
qed

text \<open>C28: Evidence means the plan was executed as declared. Whatever calls an executor makes, in
  whatever order and however many of them raise, when \<open>verify\<close> returns evidence the accepted steps
  are exactly the steps of the plan in their order, the reads of those steps stay within the reported
  reads and these within the budget, and the result is no larger than the source, which is within its
  own budget.\<close>

theorem evidence_within_budget:
  "\<forall>p reads sources t rs e. new_tracker p reads sources = Inr t
     \<and> verify_plan (fold report_step rs t) = Inr e \<longrightarrow>
     map fst (accepted_steps rs t) = map qs_step_id (qp_steps p)
     \<and> pe_completed_steps e = map qs_step_id (qp_steps p)
     \<and> sum_list (map snd (accepted_steps rs t)) \<le> pe_resource_reads e \<and> pe_resource_reads e \<le> reads
     \<and> 0 \<le> pe_result_records e \<and> pe_result_records e \<le> pe_source_records e
     \<and> pe_source_records e \<le> sources"
proof (intro allI impI, elim conjE)
  fix p reads sources t rs e
  assume new: "new_tracker p reads sources = Inr t" and v: "verify_plan (fold report_step rs t) = Inr e"
  have "tracked (map qs_step_id (qp_steps p)) reads sources [] t"
    using new by (auto simp: new_tracker_def tracked_def split: if_splits)
  from tracked_run [OF this, of rs]
  have run: "tracked (map qs_step_id (qp_steps p)) reads sources (accepted_steps rs t) (fold report_step rs t)"
    by simp
  with v show "map fst (accepted_steps rs t) = map qs_step_id (qp_steps p)
     \<and> pe_completed_steps e = map qs_step_id (qp_steps p)
     \<and> sum_list (map snd (accepted_steps rs t)) \<le> pe_resource_reads e \<and> pe_resource_reads e \<le> reads
     \<and> 0 \<le> pe_result_records e \<and> pe_result_records e \<le> pe_source_records e
     \<and> pe_source_records e \<le> sources"
    by (auto simp: tracked_def verify_plan_def split: if_splits option.splits)
qed

section \<open>A plan of two steps\<close>

definition demo_plan :: hr_query_plan where
  "demo_plan = \<lparr>qp_intent = ''contracts'', qp_resources = [EMPLOYEES, CONTRACTS], qp_target_entities = [],
     qp_entity_resolution = RES_NONE, qp_filters = [], qp_date_range = None, qp_joins = [],
     qp_projection = [], qp_aggregation = None, qp_grouping = [], qp_sorting = [],
     qp_pagination = \<lparr>hp_page = 1, hp_page_size = 25, hp_require_complete = True\<rparr>,
     qp_output_format = OUT_EMBED, qp_delivery_mode = TO_EPHEMERAL, qp_sensitivity = SENS_HIGH,
     qp_clarification_required = False, qp_clarification_question = None,
     qp_steps =
       [\<lparr>qs_step_id = ''step_1'', qs_function_id = ''EMP-READ-001'', qs_resource = EMPLOYEES,
         qs_action = ACT_READ, qs_depends_on = [], qs_target_entity = None, qs_filters = [],
         qs_projection = [], qs_aggregation = None\<rparr>,
        \<lparr>qs_step_id = ''step_2'', qs_function_id = ''EMP-CONTRACT-001'', qs_resource = CONTRACTS,
         qs_action = ACT_JOIN, qs_depends_on = [''step_1''], qs_target_entity = None, qs_filters = [],
         qs_projection = [], qs_aggregation = None\<rparr>]\<rparr>"

theorem validated_plan_well_formed_witness:
  "distinct (map qs_step_id (qp_steps demo_plan)) \<and> length (qp_steps demo_plan) \<le> 8"
proof -
  have "check_plan demo_plan = None" by code_simp
  from validated_plan_well_formed [THEN spec, THEN mp, OF this]
  show ?thesis by (elim conjE) (intro conjI; assumption)
qed

definition demo_reports :: "step_report list" where
  "demo_reports =
     [StepReport ''step_2'' 1 None None, StepReport ''step_1'' 2 (Some 40) None,
      StepReport ''step_2'' 3 (Some 50) None, StepReport ''step_2'' 1 (Some 40) (Some 7)]"

theorem evidence_within_budget_witness:
  "case new_tracker demo_plan 6 100 of
     Inl e \<Rightarrow> False
   | Inr t \<Rightarrow> map fst (accepted_steps demo_reports t) = [''step_1'', ''step_2'']"
proof -
  obtain t where t: "new_tracker demo_plan 6 100 = Inr t" by (simp add: new_tracker_def)
  have "case new_tracker demo_plan 6 100 of Inl e \<Rightarrow> False
     | Inr t \<Rightarrow> (case verify_plan (fold report_step demo_reports t) of Inl e \<Rightarrow> False
         | Inr e \<Rightarrow> pe_resource_reads e = 6)" by code_simp
  then obtain e where "verify_plan (fold report_step demo_reports t) = Inr e"
    by (auto simp: t split: sum.splits)
  from evidence_within_budget [rule_format, OF conjI [OF t this], THEN conjunct1]
  have "map fst (accepted_steps demo_reports t) = map qs_step_id (qp_steps demo_plan)" .
  with t show ?thesis by (simp add: demo_plan_def)
qed

end
