(* ===== verification/RoutingScope.thy ===== *)
theory RoutingScope
  imports QueryPlan "HOL-Library.List_Lexorder" "HOL-Library.Char_ord"
begin

text \<open>
  The narrowing of what the model provider may route to (\<^verbatim>\<open>query/routing_scope.py\<close>). A frozen set of
  Function IDs is a list of them.
\<close>

record provider_routing_scope =
  rs_family :: string
  rs_function_ids :: "string list"

record safe_routing_fallback =
  sf_function_id :: string
  sf_clarification :: "string option"

definition READ_FAMILIES :: "(string \<times> string list \<times> string list) list" where
  "READ_FAMILIES =
     [(''payroll'', [''payroll''], [''EMP-PAY-001'', ''EMP-PAY-002'']),
      (''documents'', [''documents''], [''EMP-DOC-001'']),
      (''contracts'', [''employment_contract''], [''EMP-CONTRACT-001'']),
      (''roles'', [''access_roles''], [''EMP-RBAC-001'']),
      (''time_access'', [''time_access''], [''EMP-TIME-001'']),
      (''maturations'', [''maturations''], [''EMP-MAT-001'']),
      (''balances'', [''balances''], [''EMP-BAL-001'']),
      (''notifications'', [''notifications''], [''EMP-NOTIF-001'']),
      (''employee_search'', [''employee_search''], [''EMP-SEARCH-001'']),
      (''employee_filter'', [''employee_filter''], [''EMP-FILTER-001'']),
      (''employee_sort'', [''employee_sort''], [''EMP-SORT-001'']),
      (''employee_page'', [''employee_page''], [''EMP-PAGE-001'']),
      (''employee_summary'', [''employee_summary''], [''EMP-READ-002'']),
      (''headcount'', [''employee_headcount''], [''EMP-READ-001''])]"

definition SAFE_GENERIC_EMPLOYEE_READS :: "string list" where
  "SAFE_GENERIC_EMPLOYEE_READS = [''EMP-READ-001'', ''EMP-READ-002'', ''EMP-SEARCH-001'']"

definition WRITE_MARKERS :: "string list" where
  "WRITE_MARKERS =
     [''upload_document'', ''download_document'', ''create_action'', ''update_action'',
      ''delete_action'', ''approve_action'', ''reject_action'', ''export_action'',
      ''account_connection'', ''invitation'']"

definition is_disjoint :: "string list \<Rightarrow> string list \<Rightarrow> bool" where
  "is_disjoint xs ys = list_all (\<lambda>x. x \<notin> set ys) xs"

fun join_plus :: "string list \<Rightarrow> string" where
  "join_plus [] = []"
| "join_plus [x] = x"
| "join_plus (x # xs) = x @ ''+'' @ join_plus xs"

text \<open>The loop over the families, then the two generic branches.\<close>

definition matched_families :: "string list \<Rightarrow> (string \<times> string list \<times> string list) list" where
  "matched_families terms = filter (\<lambda>(family, markers, ids). \<not> is_disjoint terms markers) READ_FAMILIES"

definition routing_selection :: "string list \<Rightarrow> string list \<times> string list" where
  "routing_selection terms =
     (let hits = matched_families terms;
          families = map fst hits;
          selected = concat (map (\<lambda>(family, markers, ids). ids) hits) in
      if selected \<noteq> [] then (families, selected)
      else if ''employee_records'' \<in> set terms
        then (families @ [''employees''], SAFE_GENERIC_EMPLOYEE_READS)
      else (families @ [''generic_employee_read''], SAFE_GENERIC_EMPLOYEE_READS))"

definition narrow_provider_routing_scope :: "string \<Rightarrow> string list \<Rightarrow> provider_routing_scope" where
  "narrow_provider_routing_scope minimized_request visible_function_ids =
     (case routing_selection (py_split minimized_request) of (families, selected) \<Rightarrow>
        \<lparr>rs_family = join_plus (take 3 families),
         rs_function_ids =
           take 3 (sort (remdups (filter (\<lambda>f. f \<in> set visible_function_ids) selected)))\<rparr>)"

definition target_reads :: "(string \<times> string) list" where
  "target_reads =
     [(''EMP-READ-002'', ''Indica il nome o l'Employee ID del dipendente.''),
      (''EMP-RBAC-001'', ''Indica il nome o l'Employee ID del dipendente.''),
      (''EMP-TIME-001'', ''Indica il nome o l'Employee ID del dipendente.''),
      (''EMP-MAT-001'', ''Indica il nome o l'Employee ID del dipendente.''),
      (''EMP-BAL-001'', ''Indica il nome o l'Employee ID del dipendente e l'anno.''),
      (''EMP-DOC-001'', ''Indica il nome o l'Employee ID del dipendente.'')]"

definition safe_provider_failure_fallback ::
  "provider_routing_scope \<Rightarrow> string \<Rightarrow> safe_routing_fallback option" where
  "safe_provider_failure_fallback scope minimized_request =
     (let terms = py_split minimized_request; functions = remdups (rs_function_ids scope) in
      if \<not> is_disjoint terms WRITE_MARKERS then None
      else if functions \<noteq> [] \<and> set functions \<subseteq> {''EMP-PAY-001'', ''EMP-PAY-002''}
        then Some \<lparr>sf_function_id = ''EMP-PAY-001'', sf_clarification = Some
          ''Indica il nome o l'Employee ID e il mese della busta paga da consultare.''\<rparr>
      else (case functions of
          [function_id] \<Rightarrow>
            (case map_of target_reads function_id of
               Some text \<Rightarrow> Some \<lparr>sf_function_id = function_id, sf_clarification = Some text\<rparr>
             | None \<Rightarrow>
                 if function_id = ''EMP-NOTIF-001''
                 then Some \<lparr>sf_function_id = function_id, sf_clarification = None\<rparr>
                 else None)
        | _ \<Rightarrow> None))"

section \<open>Only reads are routed\<close>

lemma families_read:
  "list_all (\<lambda>(family, markers, ids). list_all (\<lambda>f. f \<in> set READ_FUNCTION_IDS) ids) READ_FAMILIES"
  "list_all (\<lambda>f. f \<in> set READ_FUNCTION_IDS) SAFE_GENERIC_EMPLOYEE_READS"
  "list_all (\<lambda>(f, text). f \<in> set READ_FUNCTION_IDS) target_reads"
  by code_simp+

lemma selection_read:
  assumes "f \<in> set (snd (routing_selection terms))"
  shows "f \<in> set READ_FUNCTION_IDS"
proof -
  have "set (snd (routing_selection terms)) \<subseteq> set SAFE_GENERIC_EMPLOYEE_READS
      \<union> set (concat (map (\<lambda>(family, markers, ids). ids) (matched_families terms)))"
    by (auto simp: routing_selection_def Let_def split: if_splits)
  with assms families_read(1,2) show ?thesis
    by (fastforce simp: matched_families_def list_all_iff)
qed

lemma routed_functions:
  "set (rs_function_ids (narrow_provider_routing_scope request visible))
     \<subseteq> set visible \<inter> set (snd (routing_selection (py_split request)))"
  "length (rs_function_ids (narrow_provider_routing_scope request visible)) \<le> 3"
  by (auto simp: narrow_provider_routing_scope_def case_prod_beta dest!: in_set_takeD)

lemma fallback_function:
  assumes "safe_provider_failure_fallback scope request = Some fb"
  shows "is_disjoint (py_split request) WRITE_MARKERS \<and> rs_function_ids scope \<noteq> []
    \<and> (sf_function_id fb = ''EMP-PAY-001'' \<or> sf_function_id fb \<in> set (rs_function_ids scope))
    \<and> sf_function_id fb \<in> set (''EMP-PAY-001'' # ''EMP-NOTIF-001'' # map fst target_reads)"
proof -
  have sub: "set (remdups (rs_function_ids scope)) \<subseteq> set (rs_function_ids scope)" by simp
  from assms show ?thesis
    unfolding safe_provider_failure_fallback_def Let_def
    using sub
    by (auto split: if_splits list.splits option.splits simp del: set_remdups
        dest!: map_of_SomeD intro: rev_image_eqI)
qed

text \<open>The provider is offered a few visible reads only. Whatever the request, the routing scope
  names at most three functions, all of them visible to the requester and reads of the catalogue; and
  the fallback after a provider failure is refused for any request with a write marker and otherwise
  names a read function that is in the scope or is the payroll read.\<close>

theorem routing_scope_read_only:
  "\<forall>request visible. let scope = narrow_provider_routing_scope request visible in
     length (rs_function_ids scope) \<le> 3
     \<and> (\<forall>f\<in>set (rs_function_ids scope). f \<in> set visible
          \<and> (\<exists>spec. get_function_spec f = Some spec \<and> \<not> is_write spec))
     \<and> (\<forall>fb. safe_provider_failure_fallback scope request = Some fb \<longrightarrow>
          is_disjoint (py_split request) WRITE_MARKERS
          \<and> (sf_function_id fb = ''EMP-PAY-001'' \<or> sf_function_id fb \<in> set (rs_function_ids scope))
          \<and> (\<exists>spec. get_function_spec (sf_function_id fb) = Some spec \<and> \<not> is_write spec))"
proof (intro allI)
  fix request visible
  let ?scope = "narrow_provider_routing_scope request visible"
  have reads: "list_all (\<lambda>f. f \<in> set READ_FUNCTION_IDS)
      (''EMP-PAY-001'' # ''EMP-NOTIF-001'' # map fst target_reads)" by code_simp
  have "f \<in> set visible \<and> (\<exists>spec. get_function_spec f = Some spec \<and> \<not> is_write spec)"
    if "f \<in> set (rs_function_ids ?scope)" for f
    using that routed_functions(1) selection_read read_function_spec by blast
  moreover have "is_disjoint (py_split request) WRITE_MARKERS
      \<and> (sf_function_id fb = ''EMP-PAY-001'' \<or> sf_function_id fb \<in> set (rs_function_ids ?scope))
      \<and> (\<exists>spec. get_function_spec (sf_function_id fb) = Some spec \<and> \<not> is_write spec)"
    if "safe_provider_failure_fallback ?scope request = Some fb" for fb
    using fallback_function [OF that] reads read_function_spec by (simp only: list_all_iff)
  ultimately show "let scope = ?scope in length (rs_function_ids scope) \<le> 3
     \<and> (\<forall>f\<in>set (rs_function_ids scope). f \<in> set visible
          \<and> (\<exists>spec. get_function_spec f = Some spec \<and> \<not> is_write spec))
     \<and> (\<forall>fb. safe_provider_failure_fallback scope request = Some fb \<longrightarrow>
          is_disjoint (py_split request) WRITE_MARKERS
          \<and> (sf_function_id fb = ''EMP-PAY-001'' \<or> sf_function_id fb \<in> set (rs_function_ids scope))
          \<and> (\<exists>spec. get_function_spec (sf_function_id fb) = Some spec \<and> \<not> is_write spec))"
    using routed_functions(2) by (simp add: Let_def)
qed

theorem routing_scope_read_only_witness:
  "rs_function_ids (narrow_provider_routing_scope ''show payroll now'' [''EMP-PAY-002'', ''EMP-DOC-001''])
     = [''EMP-PAY-002'']
   \<and> (\<exists>spec. get_function_spec ''EMP-PAY-002'' = Some spec \<and> \<not> is_write spec)"
proof -
  have scope: "rs_function_ids (narrow_provider_routing_scope ''show payroll now'' [''EMP-PAY-002'', ''EMP-DOC-001''])
     = [''EMP-PAY-002'']" by code_simp
  with routing_scope_read_only [THEN spec, THEN spec, of "''show payroll now''" "[''EMP-PAY-002'', ''EMP-DOC-001'']"]
  show ?thesis by (simp add: Let_def)
qed

end
