(* ===== verification/ModelUsage.thy ===== *)
theory ModelUsage
  imports Prelude "HOL-Library.List_Lexorder" "HOL-Library.Char_ord"
begin

text \<open>
  The usage of the model providers (\<^verbatim>\<open>model_usage/\<close>): the validated records, the SQL repository with
  its one-way life cycle, and the service. A call is started under a key before the provider is asked and
  completed once, with exact counters or as unavailable or unknown. Each repository call is one step; the
  identifier of a new row is a canonical UUID drawn by the database layer, so the validator of an event
  leaves it as it is.
\<close>

section \<open>Records\<close>

datatype usage_error =
    UsageConflict string
  | UsageValueError string
  | UsageNotStarted
  | UsageValidation string

datatype usage_status = USAGE_STARTED | USAGE_REPORTED | USAGE_UNAVAILABLE | USAGE_UNKNOWN

fun usage_status_value :: "usage_status \<Rightarrow> string" where
  "usage_status_value USAGE_STARTED = ''STARTED''"
| "usage_status_value USAGE_REPORTED = ''REPORTED''"
| "usage_status_value USAGE_UNAVAILABLE = ''UNAVAILABLE''"
| "usage_status_value USAGE_UNKNOWN = ''UNKNOWN''"

definition usage_status_of :: "string \<Rightarrow> usage_status option" where
  "usage_status_of v = find (\<lambda>s. usage_status_value s = v)
     [USAGE_STARTED, USAGE_REPORTED, USAGE_UNAVAILABLE, USAGE_UNKNOWN]"

lemma usage_status_of_value [simp]: "usage_status_of (usage_status_value s) = Some s"
  by (cases s) (simp_all add: usage_status_of_def)

lemma usage_status_value_inj [simp]: "usage_status_value s = usage_status_value r \<longleftrightarrow> s = r"
  by (metis option.inject usage_status_of_value)

record token_usage =
  tu_input :: int
  tu_output :: int
  tu_total :: int

text \<open>\<open>ProviderTokenUsage(\<dots>)\<close>\<close>

definition token_usage_ok :: "token_usage \<Rightarrow> bool" where
  "token_usage_ok u \<longleftrightarrow> 0 \<le> tu_input u \<and> tu_input u \<le> 2 ^ 63 - 1 \<and> 0 \<le> tu_output u
     \<and> tu_output u \<le> 2 ^ 63 - 1 \<and> 0 \<le> tu_total u \<and> tu_total u \<le> 2 ^ 63 - 1
     \<and> tu_total u = tu_input u + tu_output u"

definition make_token_usage :: "int \<Rightarrow> int \<Rightarrow> int \<Rightarrow> usage_error + token_usage" where
  "make_token_usage i out t =
     (let u = \<lparr>tu_input = i, tu_output = out, tu_total = t\<rparr> in
      if token_usage_ok u then Inr u else Inl (UsageValidation ''ProviderTokenUsage''))"

definition ZERO_TOKEN_USAGE :: token_usage where
  "ZERO_TOKEN_USAGE = \<lparr>tu_input = 0, tu_output = 0, tu_total = 0\<rparr>"

record usage_key =
  uk_correlation_id :: string
  uk_purpose :: string
  uk_ordinal :: int

text \<open>The text fields are stripped first (\<open>str_strip_whitespace\<close>); the patterns are over ASCII.\<close>

definition make_usage_key :: "string \<Rightarrow> string \<Rightarrow> int \<Rightarrow> usage_error + usage_key" where
  "make_usage_key correlation_id purpose ordinal =
     (let c = model_trim correlation_id; p = model_trim purpose in
      if 8 \<le> length c \<and> length c \<le> 64 \<and> list_all (\<lambda>x. is_alnum x \<or> x \<in> set ''._:-'') c
         \<and> 1 \<le> length p \<and> length p \<le> 64 \<and> is_lower (hd p)
         \<and> list_all (\<lambda>x. is_lower x \<or> is_digit x \<or> x \<in> set ''_.-'') (tl p) \<and> 1 \<le> ordinal
      then Inr \<lparr>uk_correlation_id = c, uk_purpose = p, uk_ordinal = ordinal\<rparr>
      else Inl (UsageValidation ''ModelUsageKey''))"

record usage_start =
  us_key :: usage_key
  us_provider :: string
  us_model :: string

definition token_like :: "string \<Rightarrow> bool" where
  "token_like v = (let w = py_lower v in
     \<exists>p\<in>set [''bearer'', ''sk-'', ''gsk_'', ''ghp_'', ''gho_'', ''ghu_'', ''ghs_'', ''ghr_'',
        ''github_pat_'', ''xoxb-'', ''xoxa-'', ''xoxp-'', ''xoxr-'', ''xoxs-'']. starts_with p w)"

definition make_usage_start :: "usage_key \<Rightarrow> string \<Rightarrow> string \<Rightarrow> usage_error + usage_start" where
  "make_usage_start key provider model =
     (let p = model_trim provider; m = model_trim model in
      if 1 \<le> length p \<and> length p \<le> 32 \<and> is_lower (hd p)
         \<and> list_all (\<lambda>x. is_lower x \<or> is_digit x \<or> x \<in> set ''_-'') (tl p)
         \<and> 1 \<le> length m \<and> length m \<le> 120 \<and> is_alnum (hd m)
         \<and> list_all (\<lambda>x. is_alnum x \<or> x \<in> set ''._/+:-'') (tl m) \<and> \<not> token_like m
      then Inr \<lparr>us_key = key, us_provider = p, us_model = m\<rparr>
      else Inl (UsageValidation ''ModelUsageStart''))"

record usage_event =
  ue_usage_id :: string
  ue_key :: usage_key
  ue_provider :: string
  ue_model :: string
  ue_status :: usage_status
  ue_usage :: "token_usage option"
  ue_created_at :: int
  ue_completed_at :: "int option"

text \<open>\<open>validate_lifecycle\<close>\<close>

definition lifecycle_error :: "usage_event \<Rightarrow> string option" where
  "lifecycle_error e =
     (if ue_status e = USAGE_STARTED then
        (if ue_completed_at e \<noteq> None \<or> ue_usage e \<noteq> None then Some ''STARTED usage must not be completed''
         else None)
      else case ue_completed_at e of
        None \<Rightarrow> Some ''terminal usage requires completed_at''
      | Some t \<Rightarrow>
          if t < ue_created_at e then Some ''completed_at cannot precede created_at''
          else if ue_status e = USAGE_REPORTED then
            (if ue_usage e = None then Some ''REPORTED usage requires exact counters'' else None)
          else if ue_usage e \<noteq> None then Some ''unreported usage must not contain counters''
          else None)"

definition make_usage_event :: "usage_event \<Rightarrow> usage_error + usage_event" where
  "make_usage_event e =
     (if \<not> (1 \<le> length (ue_provider e) \<and> length (ue_provider e) \<le> 32
          \<and> 1 \<le> length (ue_model e) \<and> length (ue_model e) \<le> 120)
      then Inl (UsageValidation ''ModelUsageEvent'')
      else case lifecycle_error e of Some m \<Rightarrow> Inl (UsageValidation m) | None \<Rightarrow> Inr e)"

record usage_totals =
  ut_total_calls :: int
  ut_started_calls :: int
  ut_reported_calls :: int
  ut_unavailable_calls :: int
  ut_unknown_calls :: int
  ut_usage :: token_usage
  ut_first_recorded_at :: "int option"
  ut_last_completed_at :: "int option"

definition make_usage_totals :: "usage_totals \<Rightarrow> usage_error + usage_totals" where
  "make_usage_totals t =
     (if \<not> (0 \<le> ut_total_calls t \<and> 0 \<le> ut_started_calls t \<and> 0 \<le> ut_reported_calls t
          \<and> 0 \<le> ut_unavailable_calls t \<and> 0 \<le> ut_unknown_calls t)
      then Inl (UsageValidation ''ModelUsageTotals'')
      else if ut_started_calls t + ut_reported_calls t + ut_unavailable_calls t + ut_unknown_calls t
          \<noteq> ut_total_calls t
      then Inl (UsageValidation ''status call counts must equal total_calls'')
      else if ut_total_calls t = 0 \<and> (ut_first_recorded_at t \<noteq> None \<or> ut_last_completed_at t \<noteq> None)
      then Inl (UsageValidation ''empty aggregates must not contain timestamps'')
      else Inr t)"

section \<open>The repository\<close>

record usage_row =
  mr_usage_id :: string
  mr_correlation_id :: string
  mr_purpose :: string
  mr_ordinal :: int
  mr_provider :: string
  mr_model :: string
  mr_status :: string
  mr_input_tokens :: "int option"
  mr_output_tokens :: "int option"
  mr_total_tokens :: "int option"
  mr_created_at :: py_datetime
  mr_completed_at :: "py_datetime option"

record usage_env =
  um_driver :: column_driver
  um_now :: int
  um_uuid :: string

type_synonym usage_table = "usage_row list"

definition row_has_key :: "usage_key \<Rightarrow> usage_row \<Rightarrow> bool" where
  "row_has_key k w \<longleftrightarrow> mr_correlation_id w = uk_correlation_id k \<and> mr_purpose w = uk_purpose k
     \<and> mr_ordinal w = uk_ordinal k"

text \<open>The check constraints of the table.\<close>

definition usage_row_accepted :: "usage_row \<Rightarrow> bool" where
  "usage_row_accepted w \<longleftrightarrow> 1 \<le> mr_ordinal w
     \<and> (mr_status w = ''STARTED'' \<and> mr_completed_at w = None \<and> mr_input_tokens w = None
          \<and> mr_output_tokens w = None \<and> mr_total_tokens w = None
        \<or> mr_status w = ''REPORTED'' \<and> mr_completed_at w \<noteq> None
          \<and> (case (mr_input_tokens w, mr_output_tokens w) of
                 (Some i, Some out) \<Rightarrow> 0 \<le> i \<and> 0 \<le> out \<and> mr_total_tokens w = Some (i + out)
               | _ \<Rightarrow> False)
        \<or> mr_status w \<in> {''UNAVAILABLE'', ''UNKNOWN''} \<and> mr_completed_at w \<noteq> None
          \<and> mr_input_tokens w = None \<and> mr_output_tokens w = None \<and> mr_total_tokens w = None)"

definition usage_to_domain :: "usage_row \<Rightarrow> usage_error + usage_event" where
  "usage_to_domain w =
     (let counters = (if mr_status w = ''REPORTED'' then
          (case (mr_input_tokens w, mr_output_tokens w, mr_total_tokens w) of
             (Some i, Some out, Some t) \<Rightarrow>
               (case make_token_usage i out t of Inl e \<Rightarrow> Inl e | Inr u \<Rightarrow> Inr (Some u))
           | _ \<Rightarrow> Inl (UsageValueError ''reported model usage counters are incomplete''))
        else Inr None) in
      case counters of
        Inl e \<Rightarrow> Inl e
      | Inr usage \<Rightarrow>
          (case as_utc (Some (mr_created_at w)) of
             None \<Rightarrow> Inl (UsageValueError ''model usage created_at is missing'')
           | Some created_at \<Rightarrow>
               (case make_usage_key (mr_correlation_id w) (mr_purpose w) (mr_ordinal w) of
                  Inl e \<Rightarrow> Inl e
                | Inr key \<Rightarrow>
                    (case usage_status_of (mr_status w) of
                       None \<Rightarrow> Inl (UsageValueError ''ModelUsageStatus'')
                     | Some status \<Rightarrow> make_usage_event
                         \<lparr>ue_usage_id = mr_usage_id w, ue_key = key, ue_provider = model_trim (mr_provider w),
                          ue_model = model_trim (mr_model w), ue_status = status, ue_usage = usage,
                          ue_created_at = created_at,
                          ue_completed_at = as_utc (mr_completed_at w)\<rparr>))))"

definition usage_get :: "usage_key \<Rightarrow> (usage_table, usage_error, usage_event option) sx" where
  "usage_get k = (\<lambda>t. (case find (row_has_key k) t of
     None \<Rightarrow> Inr None
   | Some w \<Rightarrow> (case usage_to_domain w of Inl e \<Rightarrow> Inl e | Inr ev \<Rightarrow> Inr (Some ev)), t))"

definition started_row :: "usage_env \<Rightarrow> usage_start \<Rightarrow> usage_row" where
  "started_row env r =
     \<lparr>mr_usage_id = um_uuid env, mr_correlation_id = uk_correlation_id (us_key r),
      mr_purpose = uk_purpose (us_key r), mr_ordinal = uk_ordinal (us_key r),
      mr_provider = us_provider r, mr_model = us_model r, mr_status = ''STARTED'',
      mr_input_tokens = None, mr_output_tokens = None, mr_total_tokens = None,
      mr_created_at = Aware (um_now env), mr_completed_at = None\<rparr>"

text \<open>What a later query reads of a row: the time as the driver hands it back.\<close>

definition stored_row :: "column_driver \<Rightarrow> usage_row \<Rightarrow> usage_row" where
  "stored_row drv w = w\<lparr>mr_created_at := column_time drv
     (case mr_created_at w of Aware t \<Rightarrow> t | Naive t \<Rightarrow> t)\<rparr>"

definition usage_start_call :: "usage_env \<Rightarrow> usage_start \<Rightarrow> (usage_table, usage_error, usage_event) sx" where
  "usage_start_call env r = (\<lambda>t. let w = started_row env r in
     if (\<exists>x\<in>set t. row_has_key (us_key r) x \<or> mr_usage_id x = um_uuid env) \<or> \<not> usage_row_accepted w then
       sx_bind (usage_get (us_key r)) (\<lambda>existing. case existing of
         None \<Rightarrow> sx_raise (UsageConflict ''model usage start conflicted'')
       | Some ev \<Rightarrow>
           if ue_provider ev \<noteq> us_provider r \<or> ue_model ev \<noteq> us_model r
           then sx_raise (UsageConflict ''model usage key metadata conflicted'')
           else sx_return ev) t
     else sx_lift (usage_to_domain w) (t @ [stored_row (um_driver env) w]))"

definition completed_row :: "usage_env \<Rightarrow> usage_status \<Rightarrow> token_usage option \<Rightarrow> usage_row \<Rightarrow> usage_row" where
  "completed_row env status usage w = w\<lparr>mr_status := usage_status_value status,
     mr_completed_at := Some (column_time (um_driver env) (um_now env)),
     mr_input_tokens := map_option tu_input usage, mr_output_tokens := map_option tu_output usage,
     mr_total_tokens := map_option tu_total usage\<rparr>"

definition open_row :: "usage_key \<Rightarrow> usage_row \<Rightarrow> bool" where
  "open_row k w \<longleftrightarrow> row_has_key k w \<and> mr_status w = ''STARTED''"

definition usage_complete ::
  "usage_env \<Rightarrow> usage_key \<Rightarrow> usage_status \<Rightarrow> token_usage option \<Rightarrow> (usage_table, usage_error, usage_event) sx" where
  "usage_complete env k status usage =
     sx_bind (raise_if (status = USAGE_STARTED) (UsageValueError ''completion status must be terminal'')) (\<lambda>_.
     sx_bind (raise_if ((status = USAGE_REPORTED) \<noteq> (usage \<noteq> None))
       (UsageValueError ''only REPORTED completion accepts exact counters'')) (\<lambda>_.
     sx_bind (sx_gets (\<lambda>t. length (filter (open_row k) t) = 1)) (\<lambda>changed.
     sx_bind (sx_modify (map (\<lambda>w. if open_row k w then completed_row env status usage w else w))) (\<lambda>_.
     sx_bind (usage_get k) (\<lambda>current. case current of
       None \<Rightarrow> sx_raise UsageNotStarted
     | Some ev \<Rightarrow>
         if changed then sx_return ev
         else if ue_status ev = status \<and> ue_usage ev = usage then sx_return ev
         else sx_raise (UsageConflict ''model usage call is already terminal''))))))"

definition sum_column :: "(usage_row \<Rightarrow> int option) \<Rightarrow> usage_row list \<Rightarrow> int" where
  "sum_column col rows = (\<Sum>w\<leftarrow>rows. if mr_status w = ''REPORTED''
     then (case col w of None \<Rightarrow> 0 | Some n \<Rightarrow> n) else 0)"

definition count_status :: "string \<Rightarrow> usage_row list \<Rightarrow> int" where
  "count_status v rows = int (length (filter (\<lambda>w. mr_status w = v) rows))"

definition extreme :: "(int \<Rightarrow> int \<Rightarrow> int) \<Rightarrow> int list \<Rightarrow> int option" where
  "extreme f ts = (case ts of [] \<Rightarrow> None | x # xs \<Rightarrow> Some (foldl f x xs))"

definition usage_totals_of :: "string option \<Rightarrow> usage_table \<Rightarrow> usage_error + usage_totals" where
  "usage_totals_of correlation_id t =
     (let rows = (case correlation_id of None \<Rightarrow> t
          | Some c \<Rightarrow> filter (\<lambda>w. mr_correlation_id w = c) t);
          total_calls = int (length rows) in
      case (if total_calls = 0 then Inr ZERO_TOKEN_USAGE
            else make_token_usage (sum_column mr_input_tokens rows) (sum_column mr_output_tokens rows)
              (sum_column mr_total_tokens rows)) of
        Inl e \<Rightarrow> Inl e
      | Inr usage \<Rightarrow> make_usage_totals
          \<lparr>ut_total_calls = total_calls, ut_started_calls = count_status ''STARTED'' rows,
           ut_reported_calls = count_status ''REPORTED'' rows,
           ut_unavailable_calls = count_status ''UNAVAILABLE'' rows,
           ut_unknown_calls = count_status ''UNKNOWN'' rows, ut_usage = usage,
           ut_first_recorded_at = extreme min (List.map_filter (\<lambda>w. as_utc (Some (mr_created_at w))) rows),
           ut_last_completed_at = extreme max (List.map_filter (\<lambda>w. as_utc (mr_completed_at w)) rows)\<rparr>)"

text \<open>\<open>ORDER BY created_at DESC, completed_at DESC, usage_id DESC LIMIT 1\<close>; SQLite sorts a null below
  every value.\<close>

definition row_before :: "usage_row \<Rightarrow> usage_row \<Rightarrow> bool" where
  "row_before v w = (case (as_utc (Some (mr_created_at v)), as_utc (Some (mr_created_at w))) of
     (Some a, Some b) \<Rightarrow> a < b \<or> a = b \<and>
       (case (as_utc (mr_completed_at v), as_utc (mr_completed_at w)) of
          (None, Some _) \<Rightarrow> True
        | (Some _, None) \<Rightarrow> False
        | (None, None) \<Rightarrow> mr_usage_id v < mr_usage_id w
        | (Some x, Some y) \<Rightarrow> x < y \<or> x = y \<and> mr_usage_id v < mr_usage_id w)
   | _ \<Rightarrow> False)"

definition usage_latest :: "(usage_table, usage_error, usage_event option) sx" where
  "usage_latest = (\<lambda>t. (case t of [] \<Rightarrow> Inr None
     | w # ws \<Rightarrow> (case usage_to_domain (foldl (\<lambda>v u. if row_before v u then u else v) w ws) of
         Inl e \<Rightarrow> Inl e | Inr ev \<Rightarrow> Inr (Some ev)), t))"

section \<open>The service\<close>

definition service_complete ::
  "usage_env \<Rightarrow> usage_key \<Rightarrow> bool \<Rightarrow> token_usage option \<Rightarrow> (usage_table, usage_error, usage_event) sx" where
  "service_complete env k response_received usage =
     sx_bind (raise_if (usage \<noteq> None \<and> \<not> response_received)
       (UsageValueError ''usage counters require a completed provider response'')) (\<lambda>_.
     usage_complete env k
       (if usage \<noteq> None then USAGE_REPORTED else if response_received then USAGE_UNAVAILABLE else USAGE_UNKNOWN)
       usage)"

section \<open>Histories\<close>

datatype usage_call =
    StartCall usage_env usage_start
  | CompleteCall usage_env usage_key bool "token_usage option"

fun usage_step :: "usage_call \<Rightarrow> usage_table \<Rightarrow> usage_table" where
  "usage_step (StartCall env r) t = snd (usage_start_call env r t)"
| "usage_step (CompleteCall env k received usage) t = snd (service_complete env k received usage t)"

abbreviation usage_run :: "usage_call list \<Rightarrow> usage_table \<Rightarrow> usage_table" where
  "usage_run calls t \<equiv> fold usage_step calls t"

lemma usage_get_state [simp]: "snd (usage_get k t) = t"
  by (simp add: usage_get_def)

lemma start_table:
  "snd (usage_start_call env r t) = t
   \<or> (\<forall>x\<in>set t. \<not> row_has_key (us_key r) x \<and> mr_usage_id x \<noteq> um_uuid env)
     \<and> usage_row_accepted (started_row env r)
     \<and> snd (usage_start_call env r t) = t @ [stored_row (um_driver env) (started_row env r)]"
proof -
  have "snd (sx_bind (usage_get k) (\<lambda>existing. case existing of None \<Rightarrow> sx_raise e
      | Some ev \<Rightarrow> if P ev then sx_raise f else sx_return ev) t) = t" for k e f P
    by (auto simp: sx_simps usage_get_def split: sum.splits option.splits)
  then show ?thesis by (auto simp: usage_start_call_def Let_def sx_lift_def)
qed

definition completion :: "bool \<Rightarrow> token_usage option \<Rightarrow> usage_status" where
  "completion received usage = (if usage \<noteq> None then USAGE_REPORTED
     else if received then USAGE_UNAVAILABLE else USAGE_UNKNOWN)"

lemma complete_table:
  "snd (service_complete env k received usage t) = t
   \<or> (usage \<noteq> None \<longrightarrow> received) \<and> snd (service_complete env k received usage t)
      = map (\<lambda>w. if open_row k w then completed_row env (completion received usage) usage w else w) t"
  by (auto simp: service_complete_def usage_complete_def completion_def sx_simps usage_get_def
      split: option.splits sum.splits)

lemma completed_row_simps [simp]:
  "mr_usage_id (completed_row env s u w) = mr_usage_id w"
  "mr_correlation_id (completed_row env s u w) = mr_correlation_id w"
  "mr_purpose (completed_row env s u w) = mr_purpose w" "mr_ordinal (completed_row env s u w) = mr_ordinal w"
  "mr_provider (completed_row env s u w) = mr_provider w" "mr_model (completed_row env s u w) = mr_model w"
  "mr_created_at (completed_row env s u w) = mr_created_at w"
  "mr_status (completed_row env s u w) = usage_status_value s"
  "row_has_key k (completed_row env s u w) = row_has_key k w"
  by (simp_all add: completed_row_def row_has_key_def)

text \<open>A row may only be completed.\<close>

definition grows :: "usage_row \<Rightarrow> usage_row \<Rightarrow> bool" where
  "grows w v \<longleftrightarrow> mr_usage_id v = mr_usage_id w \<and> mr_correlation_id v = mr_correlation_id w
     \<and> mr_purpose v = mr_purpose w \<and> mr_ordinal v = mr_ordinal w \<and> mr_provider v = mr_provider w
     \<and> mr_model v = mr_model w \<and> mr_created_at v = mr_created_at w
     \<and> (mr_status w \<noteq> ''STARTED'' \<longrightarrow> v = w)"

lemma grows_refl [simp]: "grows w w"
  by (simp add: grows_def)

lemma grows_trans: "grows u v \<Longrightarrow> grows v w \<Longrightarrow> grows u w"
  by (auto simp: grows_def)

lemma step_grows: "\<exists>new. list_all2 grows t (take (length t) (usage_step c t)) \<and> usage_step c t
    = take (length t) (usage_step c t) @ new"
proof (cases c)
  case (StartCall env r)
  then show ?thesis using start_table [of env r t] by (auto simp: list_all2_refl)
next
  case (CompleteCall env k received usage)
  let ?f = "\<lambda>w. if open_row k w then completed_row env (completion received usage) usage w else w"
  have "grows w (?f w)" for w by (simp add: grows_def open_row_def)
  then have "list_all2 grows t (map ?f t)" by (simp add: list_all2_map2 list_all2_refl)
  then show ?thesis using CompleteCall complete_table [of env k received usage t]
    by (auto simp: list_all2_refl)
qed

lemma step_grows_row: "w \<in> set t \<Longrightarrow> \<exists>v\<in>set (usage_step c t). grows w v"
  using step_grows [of t c] by (metis Un_iff in_set_conv_nth list_all2_conv_all_nth set_append)

lemma run_grows_row: "w \<in> set t \<Longrightarrow> \<exists>v\<in>set (usage_run calls t). grows w v"
proof (induction calls arbitrary: t w)
  case (Cons c calls)
  then obtain u where "u \<in> set (usage_step c t)" "grows w u" using step_grows_row by blast
  moreover from this obtain v where "v \<in> set (usage_run calls (usage_step c t))" "grows u v"
    using Cons.IH by blast
  ultimately show ?case by (auto intro: grows_trans)
next
  case Nil
  then show ?case by (intro bexI [where x = w]) simp_all
qed

definition row_key :: "usage_row \<Rightarrow> string \<times> string \<times> int" where
  "row_key w = (mr_correlation_id w, mr_purpose w, mr_ordinal w)"

definition keys_distinct :: "usage_table \<Rightarrow> bool" where
  "keys_distinct t \<longleftrightarrow> distinct (map row_key t)
     \<and> distinct (map mr_usage_id t)"

lemma distinct_map_snoc: "distinct (map f (xs @ [x])) \<longleftrightarrow> distinct (map f xs) \<and> (\<forall>y\<in>set xs. f y \<noteq> f x)"
  by (auto simp: image_iff)

lemma step_distinct: "keys_distinct t \<Longrightarrow> keys_distinct (usage_step c t)"
proof (cases c)
  case (StartCall env r)
  assume t: "keys_distinct t"
  define w where "w = stored_row (um_driver env) (started_row env r)"
  have w: "mr_usage_id w = um_uuid env" "row_has_key (us_key r) x \<longleftrightarrow> row_key x = row_key w" for x
    by (auto simp: w_def stored_row_def started_row_def row_has_key_def row_key_def)
  from start_table [of env r t] consider (same) "usage_step c t = t"
    | (new) "\<forall>x\<in>set t. row_key x \<noteq> row_key w \<and> mr_usage_id x \<noteq> mr_usage_id w" "usage_step c t = t @ [w]"
    unfolding w w_def [symmetric] StartCall by auto
  then show ?thesis
  proof cases
    case new
    then show ?thesis
      unfolding new(2) keys_distinct_def distinct_map_snoc using t by (simp add: keys_distinct_def)
  qed (use t in simp)
next
  case (CompleteCall env k received usage)
  assume t: "keys_distinct t"
  let ?f = "\<lambda>s w. if open_row k w then completed_row env s usage w else w"
  have "row_key (?f s w) = row_key w" "mr_usage_id (?f s w) = mr_usage_id w" for s w
    by (simp_all add: row_key_def)
  then have "map row_key (map (?f s) t) = map row_key t" "map mr_usage_id (map (?f s) t) = map mr_usage_id t" for s
    by (simp_all only: map_map o_def)
  then show ?thesis using t CompleteCall complete_table [of env k received usage t]
    by (elim disjE conjE) (simp_all only: keys_distinct_def usage_step.simps CompleteCall)
qed

lemma run_distinct: "keys_distinct t \<Longrightarrow> keys_distinct (usage_run calls t)"
  by (induction calls arbitrary: t) (auto dest: step_distinct)

text \<open>The rows that calls with validated arguments write.\<close>

definition valid_start :: "usage_start \<Rightarrow> bool" where
  "valid_start r \<longleftrightarrow> make_usage_key (uk_correlation_id (us_key r)) (uk_purpose (us_key r)) (uk_ordinal (us_key r))
       = Inr (us_key r)
     \<and> make_usage_start (us_key r) (us_provider r) (us_model r) = Inr r"

fun valid_call :: "usage_call \<Rightarrow> bool" where
  "valid_call (StartCall env r) = valid_start r"
| "valid_call (CompleteCall env k received usage) =
     (case usage of None \<Rightarrow> True | Some u \<Rightarrow> token_usage_ok u)"

definition row_valid :: "usage_row \<Rightarrow> bool" where
  "row_valid w \<longleftrightarrow> usage_row_accepted w
     \<and> (\<exists>k. make_usage_key (mr_correlation_id w) (mr_purpose w) (mr_ordinal w) = Inr k \<and> row_has_key k w)
     \<and> model_trim (mr_provider w) = mr_provider w \<and> model_trim (mr_model w) = mr_model w
     \<and> 1 \<le> length (mr_provider w) \<and> length (mr_provider w) \<le> 32
     \<and> 1 \<le> length (mr_model w) \<and> length (mr_model w) \<le> 120
     \<and> (\<forall>n. mr_total_tokens w = Some n \<longrightarrow> n \<le> 2 ^ 63 - 1)"

lemma reported_counters:
  "row_valid w \<Longrightarrow> mr_status w = ''REPORTED'' \<Longrightarrow>
    \<exists>i out. mr_input_tokens w = Some i \<and> mr_output_tokens w = Some out \<and> mr_total_tokens w = Some (i + out)"
  by (auto simp: row_valid_def usage_row_accepted_def split: option.splits)

text \<open>The constructors leave a validated record as it is.\<close>

lemma make_usage_key_stable:
  "make_usage_key c p n = Inr k \<Longrightarrow> make_usage_key (uk_correlation_id k) (uk_purpose k) (uk_ordinal k) = Inr k"
  by (auto simp: make_usage_key_def Let_def split: if_splits)

lemma make_usage_start_valid:
  assumes "make_usage_key c p n = Inr k" "make_usage_start k pr m = Inr r"
  shows "valid_start r"
  using assms(2) make_usage_key_stable [OF assms(1)]
  by (auto simp: valid_start_def make_usage_start_def Let_def split: if_splits)

lemma row_key_has: "row_has_key k w \<longleftrightarrow> row_key w = (uk_correlation_id k, uk_purpose k, uk_ordinal k)"
  by (auto simp: row_has_key_def row_key_def)

lemma one_row: "keys_distinct t \<Longrightarrow> length (filter (row_has_key k) t) \<le> 1"
proof -
  have "distinct (map f t) \<Longrightarrow> length (filter (\<lambda>w. f w = x) t) \<le> 1" for f :: "usage_row \<Rightarrow> string \<times> string \<times> int" and x
  proof (induction t)
    case (Cons a t)
    then have "f a = x \<Longrightarrow> filter (\<lambda>w. f w = x) t = []" by (auto simp: filter_empty_conv image_iff)
    with Cons show ?case by (cases "f a = x") simp_all
  qed simp
  moreover have "row_has_key k = (\<lambda>w. row_key w = (uk_correlation_id k, uk_purpose k, uk_ordinal k))"
    by (simp add: fun_eq_iff row_key_has)
  ultimately show "keys_distinct t \<Longrightarrow> ?thesis" by (simp add: keys_distinct_def)
qed

section \<open>Totals\<close>

lemma valid_start_fields:
  assumes "valid_start r"
  shows "model_trim (us_provider r) = us_provider r \<and> model_trim (us_model r) = us_model r
    \<and> 1 \<le> length (us_provider r) \<and> length (us_provider r) \<le> 32
    \<and> 1 \<le> length (us_model r) \<and> length (us_model r) \<le> 120"
  using assms by (cases r) (auto simp: valid_start_def make_usage_start_def Let_def split: if_splits)

lemma step_valid: "list_all row_valid t \<Longrightarrow> valid_call c \<Longrightarrow> list_all row_valid (usage_step c t)"
proof (cases c)
  case (StartCall env r)
  assume t: "list_all row_valid t" and "valid_call c"
  then have r: "valid_start r" using StartCall by simp
  have "row_valid (stored_row d (started_row env r))" if "usage_row_accepted (started_row env r)" for d
    using that r valid_start_fields [OF r]
    by (auto simp: row_valid_def valid_start_def stored_row_def started_row_def usage_row_accepted_def
        row_has_key_def)
  then show ?thesis using t StartCall start_table [of env r t] by auto
next
  case (CompleteCall env k received usage)
  assume t: "list_all row_valid t" and "valid_call c"
  then have usage: "\<And>u. usage = Some u \<Longrightarrow> token_usage_ok u" using CompleteCall by simp
  have "row_valid (completed_row env (completion received usage) usage w)"
    if "row_valid w" "usage \<noteq> None \<longrightarrow> received" for w
    using that usage
    by (cases usage; cases received)
      (auto simp: row_valid_def completed_row_def completion_def usage_row_accepted_def row_has_key_def
        token_usage_ok_def split: option.splits)
  then show ?thesis using t CompleteCall complete_table [of env k received usage t]
    by (auto simp: list_all_iff)
qed

lemma run_valid: "list_all row_valid t \<Longrightarrow> list_all valid_call calls \<Longrightarrow> list_all row_valid (usage_run calls t)"
  by (induction calls arbitrary: t) (auto dest: step_valid)

text \<open>The exact counters of the reported rows.\<close>

definition reported :: "usage_row list \<Rightarrow> usage_row list" where
  "reported rows = filter (\<lambda>w. mr_status w = ''REPORTED'') rows"

lemma sum_column_reported: "sum_column col rows = (\<Sum>w\<leftarrow>reported rows. case col w of None \<Rightarrow> 0 | Some n \<Rightarrow> n)"
  by (induction rows) (simp_all add: sum_column_def reported_def)

lemma counts_partition:
  "list_all row_valid rows \<Longrightarrow> count_status ''STARTED'' rows + count_status ''REPORTED'' rows
     + count_status ''UNAVAILABLE'' rows + count_status ''UNKNOWN'' rows = int (length rows)"
  by (induction rows) (auto simp: count_status_def row_valid_def usage_row_accepted_def)

lemma sums_add:
  "list_all row_valid rows \<Longrightarrow> 0 \<le> sum_column mr_input_tokens rows \<and> 0 \<le> sum_column mr_output_tokens rows
     \<and> sum_column mr_total_tokens rows = sum_column mr_input_tokens rows + sum_column mr_output_tokens rows"
  by (induction rows) (auto simp: sum_column_def row_valid_def usage_row_accepted_def split: option.splits)

lemma extreme_empty: "extreme f (List.map_filter g []) = None"
  by (simp add: extreme_def List.map_filter_def)

text \<open>A completion recorded by a clock that went back makes its row unreadable: the constraints of the
  table accept it, and every later read of the key fails the validation of the event.\<close>

lemma backward_clock_unreadable:
  assumes "row_valid w" "row_has_key k w" "mr_status w = ''STARTED''" "as_utc (Some (mr_created_at w)) = Some t"
    and "um_now env < t"
  shows "\<exists>v. usage_complete env k USAGE_UNKNOWN None [w] = (Inl (UsageValidation ''completed_at cannot precede created_at''), [v])
    \<and> usage_row_accepted v
    \<and> fst (usage_get k [v]) = Inl (UsageValidation ''completed_at cannot precede created_at'')"
proof -
  let ?v = "completed_row env USAGE_UNKNOWN None w"
  have w: "open_row k w" using assms(2,3) by (simp add: open_row_def)
  obtain key where key: "make_usage_key (mr_correlation_id w) (mr_purpose w) (mr_ordinal w) = Inr key"
    using assms(1) by (auto simp: row_valid_def)
  have "usage_status_of ''UNKNOWN'' = Some USAGE_UNKNOWN" using usage_status_of_value [of USAGE_UNKNOWN] by simp
  then have read: "usage_to_domain ?v = Inl (UsageValidation ''completed_at cannot precede created_at'')"
    using assms key
    by (simp add: usage_to_domain_def completed_row_def make_usage_event_def lifecycle_error_def row_valid_def)
  then have get: "usage_get k [?v] = (Inl (UsageValidation ''completed_at cannot precede created_at''), [?v])"
    using assms(2) by (simp add: usage_get_def)
  then have "usage_complete env k USAGE_UNKNOWN None [w]
      = (Inl (UsageValidation ''completed_at cannot precede created_at''), [?v])"
    using w by (simp add: usage_complete_def sx_simps)
  moreover have "usage_row_accepted ?v"
    using assms(1) by (auto simp: row_valid_def usage_row_accepted_def completed_row_def)
  ultimately show ?thesis using get by auto
qed

section \<open>The promises\<close>

text \<open>C34: One call, one outcome. Over any sequence of calls of the service, with any arguments and clocks,
  there is one row for a key, and whatever comes later a row keeps its key, provider, model and start, and
  once completed it never changes.\<close>

theorem usage_recorded_once:
  "length (filter (row_has_key k) (usage_run calls [])) \<le> 1
   \<and> (\<forall>w\<in>set (usage_run calls []). \<exists>v\<in>set (usage_run (calls @ later) []).
        row_key v = row_key w \<and> mr_provider v = mr_provider w \<and> mr_model v = mr_model w
        \<and> mr_created_at v = mr_created_at w \<and> (mr_status w \<noteq> ''STARTED'' \<longrightarrow> v = w))"
proof (intro conjI ballI)
  have "keys_distinct []" by (simp add: keys_distinct_def)
  then show "length (filter (row_has_key k) (usage_run calls [])) \<le> 1"
    by (intro one_row run_distinct)
  fix w
  assume "w \<in> set (usage_run calls [])"
  then obtain v where "v \<in> set (usage_run later (usage_run calls []))" "grows w v"
    using run_grows_row by blast
  then show "\<exists>v\<in>set (usage_run (calls @ later) []). row_key v = row_key w \<and> mr_provider v = mr_provider w
      \<and> mr_model v = mr_model w \<and> mr_created_at v = mr_created_at w \<and> (mr_status w \<noteq> ''STARTED'' \<longrightarrow> v = w)"
    by (intro bexI [where x = v]) (simp_all add: grows_def row_key_def)
qed

theorem usage_recorded_once_witness:
  "\<exists>k env r. valid_start r \<and> length (usage_run [StartCall env r, CompleteCall env k True None] []) = 1
     \<and> (\<forall>w\<in>set (usage_run [StartCall env r, CompleteCall env k True None] []). mr_status w = ''UNAVAILABLE''
          \<and> w \<in> set (usage_run ([StartCall env r, CompleteCall env k True None] @ [StartCall env r,
              CompleteCall env k False None]) []))"
proof -
  define k where "k = \<lparr>uk_correlation_id = ''corr-0001'', uk_purpose = ''route'', uk_ordinal = 1\<rparr>"
  define env where "env = \<lparr>um_driver = DropsZone, um_now = 5, um_uuid = ''u1''\<rparr>"
  define r where "r = \<lparr>us_key = k, us_provider = ''openai'', us_model = ''gpt-5''\<rparr>"
  have "valid_start r" unfolding r_def k_def by code_simp
  moreover have one: "length (usage_run [StartCall env r, CompleteCall env k True None] []) = 1
     \<and> (\<forall>w\<in>set (usage_run [StartCall env r, CompleteCall env k True None] []). mr_status w = ''UNAVAILABLE'')"
    unfolding r_def k_def env_def by code_simp
  moreover have "w \<in> set (usage_run ([StartCall env r, CompleteCall env k True None] @ [StartCall env r,
              CompleteCall env k False None]) [])"
    if w: "w \<in> set (usage_run [StartCall env r, CompleteCall env k True None] [])" for w
  proof -
    have "mr_status w \<noteq> ''STARTED''" using one w by simp
    then show ?thesis
      using usage_recorded_once [of k "[StartCall env r, CompleteCall env k True None]"
        "[StartCall env r, CompleteCall env k False None]"] w by blast
  qed
  ultimately show ?thesis by blast
qed

text \<open>C35: The totals are exact. Over any calls with validated arguments, the totals of all calls or of one
  request are returned unless the reported tokens exceed 64-bit counters, and then every call is counted
  under exactly one status and the counters are the sums over the reported calls.\<close>

theorem usage_totals_exact:
  assumes "list_all valid_call calls"
    and "rows = filter (\<lambda>w. c = None \<or> c = Some (mr_correlation_id w)) (usage_run calls [])"
  shows "if sum_list (map (\<lambda>w. the (mr_total_tokens w)) (reported rows)) \<le> 2 ^ 63 - 1
    then \<exists>T. usage_totals_of c (usage_run calls []) = Inr T \<and> ut_total_calls T = int (length rows)
      \<and> ut_started_calls T + ut_reported_calls T + ut_unavailable_calls T + ut_unknown_calls T = ut_total_calls T
      \<and> ut_reported_calls T = int (length (reported rows))
      \<and> tu_input (ut_usage T) = sum_list (map (\<lambda>w. the (mr_input_tokens w)) (reported rows))
      \<and> tu_output (ut_usage T) = sum_list (map (\<lambda>w. the (mr_output_tokens w)) (reported rows))
      \<and> tu_total (ut_usage T) = sum_list (map (\<lambda>w. the (mr_total_tokens w)) (reported rows))
    else \<exists>e. usage_totals_of c (usage_run calls []) = Inl e"
proof -
  have valid: "list_all row_valid rows"
    using run_valid [OF _ assms(1), of "[]"] assms(2) by (auto simp: list_all_iff)
  have chosen: "(case c of None \<Rightarrow> usage_run calls [] | Some c \<Rightarrow> filter (\<lambda>w. mr_correlation_id w = c) (usage_run calls []))
      = rows"
    by (cases c) (auto simp: assms(2) intro!: filter_cong)
  have some: "(case col w of None \<Rightarrow> 0 | Some n \<Rightarrow> n) = the (col w)"
    if "w \<in> set (reported rows)" "col \<in> {mr_input_tokens, mr_output_tokens, mr_total_tokens}" for col w
    using that reported_counters [of w] valid by (auto simp: list_all_iff reported_def)
  have sums: "sum_column col rows = sum_list (map (\<lambda>w. the (col w)) (reported rows))"
    if "col \<in> {mr_input_tokens, mr_output_tokens, mr_total_tokens}" for col
    unfolding sum_column_reported using some [OF _ that] by (intro arg_cong [where f = sum_list] map_cong) auto
  let ?I = "sum_column mr_input_tokens rows" and ?O = "sum_column mr_output_tokens rows"
  have add: "0 \<le> ?I" "0 \<le> ?O" "sum_column mr_total_tokens rows = ?I + ?O"
    using sums_add [OF valid] by simp_all
  have usage: "(if int (length rows) = 0 then Inr ZERO_TOKEN_USAGE
      else make_token_usage ?I ?O (sum_column mr_total_tokens rows))
    = (if ?I + ?O \<le> 2 ^ 63 - 1 then Inr \<lparr>tu_input = ?I, tu_output = ?O, tu_total = ?I + ?O\<rparr>
       else Inl (UsageValidation ''ProviderTokenUsage''))"
    using add by (cases rows) (auto simp: make_token_usage_def token_usage_ok_def ZERO_TOKEN_USAGE_def sum_column_def)
  note parts = counts_partition [OF valid]
  have counts: "0 \<le> count_status v rows" "count_status ''REPORTED'' rows = int (length (reported rows))" for v
    by (simp_all add: count_status_def reported_def)
  have total: "?I + ?O = sum_list (map (\<lambda>w. the (mr_total_tokens w)) (reported rows))"
    using sums [of mr_total_tokens] add(3) by simp
  show ?thesis
    unfolding usage_totals_of_def Let_def chosen usage total [symmetric]
    using parts counts sums [of mr_input_tokens] sums [of mr_output_tokens]
    by (cases rows) (auto simp: make_usage_totals_def extreme_def List.map_filter_def)
qed

theorem usage_totals_exact_witness:
  "\<exists>calls T. list_all valid_call calls \<and> usage_totals_of None (usage_run calls []) = Inr T
     \<and> ut_total_calls T = 1 \<and> tu_total (ut_usage T) = 12"
proof -
  define k where "k = \<lparr>uk_correlation_id = ''corr-0001'', uk_purpose = ''route'', uk_ordinal = 1\<rparr>"
  define env where "env = \<lparr>um_driver = DropsZone, um_now = 5, um_uuid = ''u1''\<rparr>"
  define r where "r = \<lparr>us_key = k, us_provider = ''openai'', us_model = ''gpt-5''\<rparr>"
  define calls where "calls = [StartCall env r,
    CompleteCall env k True (Some \<lparr>tu_input = 10, tu_output = 2, tu_total = 12\<rparr>)]"
  have "list_all valid_call calls" unfolding calls_def r_def k_def env_def by code_simp
  moreover have "map (\<lambda>w. the (mr_total_tokens w)) (reported (usage_run calls [])) = [12]
      \<and> length (usage_run calls []) = 1"
    unfolding calls_def r_def k_def env_def by code_simp
  ultimately show ?thesis
    using usage_totals_exact [of calls "usage_run calls []" None] by fastforce
qed

end
