(* ===== verification/EmployeePages.thy ===== *)
theory EmployeePages
  imports DicModels
begin

text \<open>
  The paginated reads of the service boundary (\<open>list_all_employees\<close> and \<open>find_employees_with_payroll\<close>
  of \<^verbatim>\<open>services/dic_service.py\<close>). The adapter is an argument: a call may change its state and may
  raise. A listing is complete or it is an error; nothing in between is returned.
\<close>

type_synonym 's list_adapter = "employee_list_query \<Rightarrow> ('s, dic_error, employee_list_result) sx"

type_synonym 's payroll_adapter = "string \<Rightarrow> int \<Rightarrow> ('s, dic_error, payroll_metadata list) sx"

section \<open>Reading every page\<close>

text \<open>The items of a page are added one by one; an identifier seen before is an error.\<close>

fun add_items :: "employee_list_item list \<Rightarrow> employee_list_item list \<Rightarrow> dic_error + employee_list_item list" where
  "add_items items [] = Inr items"
| "add_items items (item # rest) =
     (if ei_employee_id item \<in> set (map ei_employee_id items)
      then Inl (DicValidationError ''employee pagination returned a duplicate identifier'')
      else add_items (items @ [item]) rest)"

definition LIMIT_EXCEEDED :: dic_error where
  "LIMIT_EXCEEDED = DicValidationError ''employee result exceeds the configured safety limit''"

text \<open>What is checked of one answer: its page, its total, its items and the limit.\<close>

definition accept_page :: "int \<Rightarrow> int \<Rightarrow> int option \<Rightarrow> employee_list_item list \<Rightarrow> employee_list_result
    \<Rightarrow> dic_error + int \<times> employee_list_item list" where
  "accept_page max_records page expected_total items current =
     (if el_page current \<noteq> page
      then Inl (DicValidationError ''employee pagination returned an unexpected page'')
      else case expected_total of
        None \<Rightarrow> if max_records < el_total current then Inl LIMIT_EXCEEDED else
          (case add_items items (el_items current) of Inl e \<Rightarrow> Inl e
           | Inr items \<Rightarrow> if max_records < int (length items) then Inl LIMIT_EXCEEDED
               else Inr (el_total current, items))
      | Some tot \<Rightarrow> if el_total current \<noteq> tot
          then Inl (DicValidationError ''employee total changed while reading all pages'') else
          (case add_items items (el_items current) of Inl e \<Rightarrow> Inl e
           | Inr items \<Rightarrow> if max_records < int (length items) then Inl LIMIT_EXCEEDED
               else Inr (tot, items)))"

text \<open>The loop ends: a page that is not the last is followed by one within the page limit.\<close>

function read_pages :: "'s list_adapter \<Rightarrow> employee_list_query \<Rightarrow> int \<Rightarrow> int \<Rightarrow> int \<Rightarrow> int option
    \<Rightarrow> employee_list_item list \<Rightarrow> ('s, dic_error, int \<times> employee_list_item list) sx" where
  "read_pages adapter base max_pages max_records page expected_total items s =
     (case adapter (base\<lparr>eq_page := page\<rparr>) s of
        (Inl e, s') \<Rightarrow> (Inl e, s')
      | (Inr current, s') \<Rightarrow>
          (case accept_page max_records page expected_total items current of
             Inl e \<Rightarrow> (Inl e, s')
           | Inr (tot, items) \<Rightarrow>
               if \<not> el_has_next current then (Inr (tot, items), s')
               else if max_pages < page + 1
               then (Inl (DicValidationError ''employee pagination exceeded the configured page limit''), s')
               else read_pages adapter base max_pages max_records (page + 1) (Some tot) items s'))"
  by pat_completeness auto
termination
  by (relation "measure (\<lambda>(adapter, base, max_pages, max_records, page, tot, items, s).
      nat (max_pages - page))") auto

declare read_pages.simps [simp del]

definition list_all_employees ::
  "'s list_adapter \<Rightarrow> employee_list_query \<Rightarrow> int \<Rightarrow> int \<Rightarrow> ('s, dic_error, employee_list_result) sx" where
  "list_all_employees adapter query max_pages max_records =
     (if max_pages < 1 \<or> max_records < 1
      then sx_raise (DicValueError ''employee pagination bounds must be positive'')
      else sx_bind (read_pages adapter (query\<lparr>eq_page := 1, eq_page_size := 100\<rparr>) max_pages max_records
             1 None []) (\<lambda>(tot, items).
        if int (length items) \<noteq> tot
        then sx_raise (DicValidationError ''employee pagination did not match the reported total'')
        else sx_return \<lparr>el_items = items, el_page = 1, el_page_size = max 1 (int (length items)),
          el_total = tot, el_has_next = False\<rparr>))"

section \<open>Who has a payroll of a month\<close>

record payroll_presence =
  pp_year :: int
  pp_month :: int
  pp_scanned :: int
  pp_employees :: "employee_list_item list"

definition PAYROLL_PRESENCE_MAX_EMPLOYEES :: int where
  "PAYROLL_PRESENCE_MAX_EMPLOYEES = 500"

definition payroll_mismatch :: "string \<Rightarrow> int \<Rightarrow> payroll_metadata \<Rightarrow> bool" where
  "payroll_mismatch employee_id year record =
     (pm_employee_id record \<noteq> employee_id \<or> pm_year record \<noteq> year)"

fun payroll_loop :: "'s payroll_adapter \<Rightarrow> int \<Rightarrow> int \<Rightarrow> employee_list_item list \<Rightarrow> employee_list_item list
    \<Rightarrow> ('s, dic_error, employee_list_item list) sx" where
  "payroll_loop payrolls year month [] matches = sx_return matches"
| "payroll_loop payrolls year month (employee # rest) matches =
     sx_bind (payrolls (ei_employee_id employee) year) (\<lambda>records.
       if list_ex (payroll_mismatch (ei_employee_id employee) year) records
       then sx_raise (DicValidationError ''payroll metadata does not match the requested employee'')
       else payroll_loop payrolls year month rest
         (if list_ex (\<lambda>record. pm_month record = Some month) records then matches @ [employee] else matches))"

definition all_employees_query :: employee_list_query where
  "all_employees_query = \<lparr>eq_query = None, eq_employee_filter = FILTER_ALL, eq_sort_by = SORT_NAME,
     eq_sort_direction = SORT_ASC, eq_page = 1, eq_page_size = 25\<rparr>"

definition find_employees_with_payroll :: "'s list_adapter \<Rightarrow> 's payroll_adapter \<Rightarrow> int \<Rightarrow> int
    \<Rightarrow> ('s, dic_error, payroll_presence) sx" where
  "find_employees_with_payroll adapter payrolls year month =
     (if \<not> (2000 \<le> year \<and> year \<le> 2200)
      then sx_raise (DicValidationError ''payroll year must be between 2000 and 2200'')
      else if \<not> (1 \<le> month \<and> month \<le> 12)
      then sx_raise (DicValidationError ''payroll month must be between 1 and 12'')
      else sx_bind (list_all_employees adapter all_employees_query 500 PAYROLL_PRESENCE_MAX_EMPLOYEES)
        (\<lambda>employees. sx_bind (payroll_loop payrolls year month (el_items employees) []) (\<lambda>matches.
        sx_return \<lparr>pp_year = year, pp_month = month, pp_scanned = el_total employees,
          pp_employees = matches\<rparr>)))"

section \<open>What a complete listing is made of\<close>

lemma add_items_Inr: "add_items items new = Inr r \<longleftrightarrow>
    r = items @ new \<and> (distinct (map ei_employee_id items) \<longrightarrow> distinct (map ei_employee_id r))
    \<and> set (map ei_employee_id items) \<inter> set (map ei_employee_id new) = {} \<and> distinct (map ei_employee_id new)"
  by (induction new arbitrary: items) auto

text \<open>The answers to the pages from one on, as the adapter gives them to calls in this order.\<close>

fun answers :: "'s list_adapter \<Rightarrow> employee_list_query \<Rightarrow> int \<Rightarrow> nat \<Rightarrow> 's \<Rightarrow> (employee_list_result list \<times> 's) option"
where
  "answers adapter base page 0 s = Some ([], s)"
| "answers adapter base page (Suc n) s =
     (case adapter (base\<lparr>eq_page := page\<rparr>) s of
        (Inl e, s') \<Rightarrow> None
      | (Inr current, s') \<Rightarrow> (case answers adapter base (page + 1) n s' of
            None \<Rightarrow> None | Some (rs, t) \<Rightarrow> Some (current # rs, t)))"

text \<open>The pages from \<open>p\<close> on are numbered, all but the last have a successor, and agree on the total.\<close>

fun page_run :: "int \<Rightarrow> int \<Rightarrow> employee_list_result list \<Rightarrow> bool" where
  "page_run page tot [] = False"
| "page_run page tot [r] = (el_page r = page \<and> el_total r = tot \<and> \<not> el_has_next r)"
| "page_run page tot (r # q # rs) = (el_page r = page \<and> el_total r = tot \<and> el_has_next r
     \<and> page_run (page + 1) tot (q # rs))"

lemma page_run_Cons: "page_run page tot (r # rs) \<longleftrightarrow> el_page r = page \<and> el_total r = tot
    \<and> (if rs = [] then \<not> el_has_next r else el_has_next r \<and> page_run (page + 1) tot rs)"
  by (cases rs) auto

lemma accept_page_Inr: "accept_page max_records page expected items current = Inr (tot, r) \<longleftrightarrow>
    el_page current = page \<and> el_total current = tot
    \<and> (case expected of None \<Rightarrow> tot \<le> max_records | Some t \<Rightarrow> tot = t)
    \<and> add_items items (el_items current) = Inr r \<and> int (length r) \<le> max_records"
  by (auto simp: accept_page_def split: option.splits sum.splits if_splits)

lemma read_pages_step:
  assumes "adapter (base\<lparr>eq_page := page\<rparr>) s = (Inr current, s1)"
    and "accept_page max_records page expected items current = Inr (n, items1)"
  shows "read_pages adapter base max_pages max_records page expected items s =
    (if \<not> el_has_next current then (Inr (n, items1), s1)
     else if max_pages < page + 1
     then (Inl (DicValidationError ''employee pagination exceeded the configured page limit''), s1)
     else read_pages adapter base max_pages max_records (page + 1) (Some n) items1 s1)"
  by (subst read_pages.simps) (simp add: assms)

lemma read_pages_Inr:
  assumes "read_pages adapter base max_pages max_records page expected items s = (Inr (tot, r), t)"
    and "distinct (map ei_employee_id items)"
  shows "\<exists>rs. answers adapter base page (length rs) s = Some (rs, t) \<and> page_run page tot rs
    \<and> r = items @ concat (map el_items rs) \<and> distinct (map ei_employee_id r)
    \<and> (length rs \<noteq> 1 \<longrightarrow> page + int (length rs) - 1 \<le> max_pages) \<and> int (length r) \<le> max_records
    \<and> (case expected of None \<Rightarrow> tot \<le> max_records | Some n \<Rightarrow> tot = n)"
  using assms
proof (induction adapter base max_pages max_records page expected items s arbitrary: t
    rule: read_pages.induct)
  case (1 adapter base max_pages max_records page expected items s)
  from "1.prems"(1) obtain current s1 where call: "adapter (base\<lparr>eq_page := page\<rparr>) s = (Inr current, s1)"
    by (subst (asm) read_pages.simps) (auto split: prod.splits sum.splits)
  with "1.prems"(1) obtain n items1 where
    accept: "accept_page max_records page expected items current = Inr (n, items1)"
    by (subst (asm) read_pages.simps) (auto split: sum.splits)
  from accept have page: "el_page current = page" "el_total current = n" "int (length items1) \<le> max_records"
    "case expected of None \<Rightarrow> n \<le> max_records | Some t \<Rightarrow> n = t"
    and added: "add_items items (el_items current) = Inr items1" by (simp_all add: accept_page_Inr)
  from added "1.prems"(2) have items1: "items1 = items @ el_items current" "distinct (map ei_employee_id items1)"
    by (simp_all add: add_items_Inr)
  from "1.prems"(1) read_pages_step [where adapter = adapter and base = base, OF call accept]
  have step: "(if \<not> el_has_next current then (Inr (n, items1), s1)
     else if max_pages < page + 1
     then (Inl (DicValidationError ''employee pagination exceeded the configured page limit''), s1)
     else read_pages adapter base max_pages max_records (page + 1) (Some n) items1 s1) = (Inr (tot, r), t)"
    by metis
  show ?case
  proof (cases "el_has_next current")
    case False
    with step have "tot = n" "r = items1" "t = s1" by simp_all
    with False call page items1 show ?thesis by (intro exI [of _ "[current]"]) (simp split: option.splits)
  next
    case True
    with step have more: "\<not> max_pages < page + 1"
      "read_pages adapter base max_pages max_records (page + 1) (Some n) items1 s1 = (Inr (tot, r), t)"
      by (simp_all split: if_splits)
    from True have "\<not> \<not> el_has_next current" by simp
    from "1.IH" [OF call [symmetric] refl accept refl this more(1,2) items1(2)] obtain rs where
      rs: "answers adapter base (page + 1) (length rs) s1 = Some (rs, t)" "page_run (page + 1) tot rs"
        "r = items1 @ concat (map el_items rs)" "distinct (map ei_employee_id r)"
        "length rs \<noteq> 1 \<longrightarrow> page + 1 + int (length rs) - 1 \<le> max_pages" "int (length r) \<le> max_records"
        "tot = n" unfolding option.case by blast
    from rs(2) have "rs \<noteq> []" by auto
    with rs call page True items1 more(1) show ?thesis
      by (intro exI [of _ "current # rs"]) (auto simp: page_run_Cons split: option.splits)
  qed
qed

section \<open>An adapter that pages a list\<close>

text \<open>
  The contract of a listing that does not change while it is read: page \<open>p\<close> of size \<open>k\<close> is the slice of
  the rows that start at \<open>(p - 1) * k\<close>, with the whole count and whether a row follows.
\<close>

definition slice :: "employee_list_item list \<Rightarrow> employee_list_query \<Rightarrow> employee_list_result" where
  "slice rows q = (let start = (eq_page q - 1) * eq_page_size q in
     \<lparr>el_items = take (nat (eq_page_size q)) (drop (nat start) rows), el_page = eq_page q,
      el_page_size = eq_page_size q, el_total = int (length rows),
      el_has_next = start + eq_page_size q < int (length rows)\<rparr>)"

locale paged_listing =
  fixes adapter :: "'s list_adapter"
    and rows :: "'s \<Rightarrow> employee_list_query \<Rightarrow> employee_list_item list"
    and ready :: "'s \<Rightarrow> bool"
  assumes answers_slice: "ready s \<Longrightarrow> adapter q s = (Inr (slice (rows s q) q), s)"
    and rows_page [simp]: "rows s (q\<lparr>eq_page := p, eq_page_size := k\<rparr>) = rows s q"
    and rows_distinct: "ready s \<Longrightarrow> distinct (map ei_employee_id (rows s q))"
begin

lemma rows_page_only [simp]: "rows s (q\<lparr>eq_page := p\<rparr>) = rows s q"
  using rows_page [where s = s and q = q and p = p and k = "eq_page_size q"] by simp

lemma read_pages_complete:
  assumes "ready s" and size: "eq_page_size base = 100" and page: "1 \<le> page" "page \<le> max_pages"
    and items: "items = take (100 * nat (page - 1)) (rows s base)"
    and fits: "int (length (rows s base)) \<le> max_records" "int (length (rows s base)) \<le> 100 * max_pages"
    and expected: "expected = None \<or> expected = Some (int (length (rows s base)))"
  shows "read_pages adapter base max_pages max_records page expected items s
    = (Inr (int (length (rows s base)), rows s base), s)"
  using page items expected
proof (induction "nat (max_pages - page)" arbitrary: page items expected rule: less_induct)
  case less
  let ?rows = "rows s base" and ?start = "100 * nat (page - 1)"
  let ?current = "slice ?rows (base\<lparr>eq_page := page\<rparr>)"
  have call: "adapter (base\<lparr>eq_page := page\<rparr>) s = (Inr ?current, s)"
    using answers_slice [OF assms(1)] by simp
  have start: "nat ((page - 1) * 100) = ?start" using less.prems(1) by simp
  have current: "el_items ?current = take 100 (drop ?start ?rows)" "el_page ?current = page"
    "el_total ?current = int (length ?rows)" "el_has_next ?current = (?start + 100 < length ?rows)"
    using start less.prems(1) by (simp_all add: slice_def size Let_def) (linarith)
  have joined: "items @ take 100 (drop ?start ?rows) = take (?start + 100) ?rows"
    using less.prems(3) by (simp add: take_add)
  have "distinct (map ei_employee_id (take (?start + 100) ?rows))"
    using rows_distinct [OF assms(1), of base] by (simp add: distinct_take flip: take_map)
  then have "add_items items (el_items ?current) = Inr (take (?start + 100) ?rows)"
    unfolding current(1) add_items_Inr joined [symmetric] by simp
  then have accept: "accept_page max_records page expected items ?current
      = Inr (int (length ?rows), take (?start + 100) ?rows)"
    using current less.prems(4) fits(1) by (auto simp: accept_page_Inr)
  note step = read_pages_step [where adapter = adapter and base = base, OF call accept, of max_pages]
  show ?case
  proof (cases "?start + 100 < length ?rows")
    case False
    then show ?thesis using step current(4) by simp
  next
    case True
    then have more: "page + 1 \<le> max_pages" using fits(2) less.prems(1) by linarith
    have next_items: "take (?start + 100) ?rows = take (100 * nat (page + 1 - 1)) ?rows"
      using less.prems(1) by (intro arg_cong2 [of _ _ _ _ take]) auto
    from less.hyps [OF _ _ more next_items, of "Some (int (length ?rows))"] less.prems(1) more
    show ?thesis using step current(4) True by simp
  qed
qed

text \<open>A listing that fits the limits is returned whole, in its order.\<close>

lemma listing_complete:
  assumes "ready s" and "1 \<le> max_pages" "1 \<le> max_records"
    and "int (length (rows s q)) \<le> max_records" "int (length (rows s q)) \<le> 100 * max_pages"
  shows "list_all_employees adapter q max_pages max_records s
    = (Inr \<lparr>el_items = rows s q, el_page = 1, el_page_size = max 1 (int (length (rows s q))),
        el_total = int (length (rows s q)), el_has_next = False\<rparr>, s)"
proof -
  let ?base = "q\<lparr>eq_page := 1, eq_page_size := 100\<rparr>"
  have "read_pages adapter ?base max_pages max_records 1 None [] s
      = (Inr (int (length (rows s q)), rows s q), s)"
    using read_pages_complete [of s ?base 1 max_pages "[]" max_records None] assms by simp
  with assms(2,3) show ?thesis
    by (simp add: list_all_employees_def sx_bind_def sx_return_def)
qed

end

section \<open>Who has a payroll\<close>

text \<open>The payroll answers for the employees in turn.\<close>

fun payroll_answers :: "'s payroll_adapter \<Rightarrow> int \<Rightarrow> employee_list_item list \<Rightarrow> 's
    \<Rightarrow> (payroll_metadata list list \<times> 's) option" where
  "payroll_answers payrolls year [] s = Some ([], s)"
| "payroll_answers payrolls year (employee # rest) s =
     (case payrolls (ei_employee_id employee) year s of
        (Inl e, s') \<Rightarrow> None
      | (Inr records, s') \<Rightarrow> (case payroll_answers payrolls year rest s' of
            None \<Rightarrow> None | Some (rss, t) \<Rightarrow> Some (records # rss, t)))"

definition paid_in :: "int \<Rightarrow> employee_list_item \<times> payroll_metadata list \<Rightarrow> bool" where
  "paid_in month = (\<lambda>(employee, records). list_ex (\<lambda>record. pm_month record = Some month) records)"

lemma payroll_loop_Inr:
  "payroll_loop payrolls year month employees matches s = (Inr r, t) \<Longrightarrow>
    \<exists>rss. payroll_answers payrolls year employees s = Some (rss, t)
      \<and> r = matches @ map fst (filter (paid_in month) (zip employees rss))
      \<and> list_all2 (\<lambda>employee records. \<forall>record\<in>set records.
           pm_employee_id record = ei_employee_id employee \<and> pm_year record = year) employees rss"
proof (induction employees arbitrary: matches s)
  case Nil
  then show ?case by (simp add: sx_return_def)
next
  case (Cons employee rest)
  from Cons.prems obtain records s1 where
    call: "payrolls (ei_employee_id employee) year s = (Inr records, s1)"
    and ok: "\<not> list_ex (payroll_mismatch (ei_employee_id employee) year) records"
    and loop: "payroll_loop payrolls year month rest (if list_ex (\<lambda>record. pm_month record = Some month) records
        then matches @ [employee] else matches) s1 = (Inr r, t)"
    by (auto simp: sx_bind_Inr sx_raise_def split: if_splits)
  from Cons.IH [OF loop] call ok show ?case
    by (fastforce simp: paid_in_def payroll_mismatch_def list_ex_iff)
qed

lemma list_all_Inr:
  assumes "list_all_employees adapter q max_pages max_records s = (Inr r, t)"
  shows "\<exists>rs. answers adapter (q\<lparr>eq_page := 1, eq_page_size := 100\<rparr>) 1 (length rs) s = Some (rs, t)
    \<and> page_run 1 (el_total r) rs \<and> int (length rs) \<le> max_pages
    \<and> el_items r = concat (map el_items rs) \<and> distinct (map ei_employee_id (el_items r))
    \<and> int (length (el_items r)) = el_total r \<and> el_total r \<le> max_records \<and> \<not> el_has_next r"
proof -
  let ?base = "q\<lparr>eq_page := 1, eq_page_size := 100\<rparr>"
  from assms obtain n items where bounds: "1 \<le> max_pages"
    and reads: "read_pages adapter ?base max_pages max_records 1 None [] s = (Inr (n, items), t)"
    and r: "int (length items) = n" "el_items r = items" "el_total r = n" "\<not> el_has_next r"
    by (auto simp: list_all_employees_def sx_bind_Inr sx_raise_def sx_return_def split: if_splits)
  from read_pages_Inr [OF reads] obtain rs where
    "answers adapter ?base 1 (length rs) s = Some (rs, t)" "page_run 1 n rs" "items = concat (map el_items rs)"
    "distinct (map ei_employee_id items)" "length rs \<noteq> 1 \<longrightarrow> int (length rs) \<le> max_pages"
    "n \<le> max_records" by auto
  with bounds r show ?thesis by (intro exI [of _ rs]) auto
qed

section \<open>A concrete adapter\<close>

text \<open>Three people, one to a page.\<close>

definition demo_item :: "nat \<Rightarrow> employee_list_item" where
  "demo_item n = \<lparr>ei_employee_id = replicate (Suc n) CHR ''E'', ei_display_name = None, ei_first_name = None,
     ei_last_name = None, ei_display_name_redacted = ''A. E.'', ei_email_redacted = None,
     ei_tax_code_redacted = None, ei_job_title = None, ei_group_name = None, ei_payroll_number = None,
     ei_contract_label = None, ei_contract_state = None, ei_contract_period = None,
     ei_schedule_model = None, ei_workplace = None, ei_account_state = ACCOUNT_UNKNOWN,
     ei_employee_state = EMPLOYEE_ACTIVE, ei_current_contract_valid_from = None,
     ei_current_contract_valid_to = None\<rparr>"

definition demo_adapter :: "unit list_adapter" where
  "demo_adapter q s = (Inr (slice (map demo_item [0, 1, 2]) (q\<lparr>eq_page_size := 1\<rparr>)), s)"

lemma demo_listing:
  "map_sum id el_total (fst (list_all_employees demo_adapter all_employees_query 500 500 ())) = Inr 3"
  by code_simp

section \<open>Properties\<close>

text \<open>A listing is complete or an error. When reading all employees succeeds, over any adapter, the
  answers were the pages one, two and so on up to the first without a successor, at most as many as the
  page limit, all with the same total; the result is their items in order, without a repeated identifier,
  as many as the total says and no more than the record limit.\<close>

theorem listing_complete_or_error:
  assumes "list_all_employees adapter q max_pages max_records s = (Inr r, t)"
  shows "\<exists>rs. answers adapter (q\<lparr>eq_page := 1, eq_page_size := 100\<rparr>) 1 (length rs) s = Some (rs, t)
    \<and> page_run 1 (el_total r) rs \<and> int (length rs) \<le> max_pages
    \<and> el_items r = concat (map el_items rs) \<and> distinct (map ei_employee_id (el_items r))
    \<and> int (length (el_items r)) = el_total r \<and> el_total r \<le> max_records \<and> \<not> el_has_next r"
  using list_all_Inr [OF assms] .

theorem listing_complete_or_error_witness:
  "\<exists>r (rs :: employee_list_result list). list_all_employees demo_adapter all_employees_query 500 500 () = (Inr r, ()) \<and> el_total r = 3
     \<and> el_items r = concat (map el_items rs) \<and> int (length (el_items r)) = 3"
proof -
  obtain r where r: "list_all_employees demo_adapter all_employees_query 500 500 () = (Inr r, ())" "el_total r = 3"
    using demo_listing
    by (cases "list_all_employees demo_adapter all_employees_query 500 500 ()";
        cases "fst (list_all_employees demo_adapter all_employees_query 500 500 ())") auto
  from listing_complete_or_error [OF r(1)] obtain rs :: "employee_list_result list" where
    rs: "el_items r = concat (map el_items rs)" "int (length (el_items r)) = el_total r" by blast
  show ?thesis
    by (rule exI [of _ r], rule exI [of _ rs], intro conjI r rs(1)) (simp only: rs(2) r(2))
qed

text \<open>The payroll comparison is exact. A successful search returns, out of a complete listing of at most
  500 people, exactly those for whom the payroll view of the year has the month, in the order of the
  listing; every record that was read belongs to the person and the year it was asked for.\<close>

lemma payroll_search_exact:
  assumes "find_employees_with_payroll adapter payrolls year month s = (Inr r, t)"
  shows "\<exists>listing u rss. list_all_employees adapter all_employees_query 500 500 s = (Inr listing, u)
    \<and> payroll_answers payrolls year (el_items listing) u = Some (rss, t)
    \<and> pp_employees r = map fst (filter (paid_in month) (zip (el_items listing) rss))
    \<and> list_all2 (\<lambda>employee records. \<forall>record\<in>set records.
         pm_employee_id record = ei_employee_id employee \<and> pm_year record = year) (el_items listing) rss
    \<and> pp_scanned r = int (length (el_items listing)) \<and> pp_scanned r \<le> 500
    \<and> 2000 \<le> year \<and> year \<le> 2200 \<and> 1 \<le> month \<and> month \<le> 12"
proof -
  from assms obtain listing u matches where
    listing: "list_all_employees adapter all_employees_query 500 500 s = (Inr listing, u)"
    and loop: "payroll_loop payrolls year month (el_items listing) [] u = (Inr matches, t)"
    and r: "pp_employees r = matches" "pp_scanned r = el_total listing"
      "2000 \<le> year" "year \<le> 2200" "1 \<le> month" "month \<le> 12"
    by (auto simp: find_employees_with_payroll_def sx_bind_Inr sx_raise_def sx_return_def
        PAYROLL_PRESENCE_MAX_EMPLOYEES_def split: if_splits)
  have "int (length (el_items listing)) = el_total listing" "el_total listing \<le> 500"
    using list_all_Inr [OF listing] by blast+
  with payroll_loop_Inr [OF loop] listing r show ?thesis by auto
qed

end
