(* ===== verification/DicRecords.thy ===== *)
theory DicRecords
  imports DicModels Json ScalarValues
begin

text \<open>
  The records of the single reads of an adapter (\<^verbatim>\<open>dic/models.py\<close>): a summary, contracts, roles,
  access to time recording, maturations, balances, notifications and documents. A record that is built
  from text of a request goes through its constructor here, which trims each text and checks the
  constraints of its fields; \<open>model_dump(mode="json")\<close> is its value as JSON.
\<close>

section \<open>The records\<close>

record employee_summary =
  es_employee_id :: string
  es_first_name_redacted :: "string option"
  es_last_name_redacted :: "string option"
  es_payroll_number :: "string option"
  es_tax_code_redacted :: "string option"
  es_birth_date_redacted :: "string option"
  es_iban_redacted :: "string option"
  es_job_title :: "string option"
  es_phone_redacted :: "string option"
  es_business_email_redacted :: "string option"
  es_address_redacted :: "string option"
  es_workplace :: "string option"
  es_notes_redacted :: "string option"
  es_state :: employee_state

record role_assignment =
  ra_name :: string
  ra_enabled :: bool

record roles_result =
  ro_employee_id :: string
  ro_groups :: "string list"
  ro_roles :: "role_assignment list"

record time_access_result =
  ta_employee_id :: string
  ta_timestamping_enabled :: "bool option"
  ta_attendance_sheet_access :: "bool option"
  ta_shift_management :: "bool option"
  ta_expense_access :: "bool option"

record contract_record =
  cr_contract_id :: string
  cr_employee_id :: string
  cr_stable_identifier :: bool
  cr_actionable :: bool
  cr_schedule :: "string option"
  cr_flexibility :: "string option"
  cr_permanent :: "bool option"
  cr_start_date :: "string option"
  cr_end_date :: "string option"
  cr_ccnl_level :: "string option"
  cr_work_regime :: "string option"
  cr_description :: "string option"
  cr_contract_type :: "string option"
  cr_status :: "string option"
  cr_period :: "string option"

record maturation_record =
  mr_maturation_id :: string
  mr_employee_id :: string
  mr_category :: string
  mr_valid_from :: "string option"
  mr_valid_to :: "string option"
  mr_status :: "string option"

record balance_line =
  bl_category :: string
  bl_counter_id :: "string option"
  bl_month :: "int option"
  bl_balance :: "string option"
  bl_maturation :: "string option"
  bl_utilization :: "string option"
  bl_projection :: "string option"
  bl_previous_year :: "string option"
  bl_previous_month :: "string option"
  bl_accrued :: "string option"
  bl_used :: "string option"
  bl_corrections :: "string option"
  bl_current_residual :: "string option"

record balance_result =
  br_employee_id :: string
  br_year :: int
  br_lines :: "balance_line list"

record balance_correction_state =
  bc_employee_id :: string
  bc_year :: int
  bc_month :: int
  bc_category :: string
  bc_current_value :: string

record notification_record =
  nr_notification_id :: int
  nr_notification_type :: string
  nr_text :: string
  nr_additional_text :: "string option"
  nr_created_at :: string
  nr_read :: bool

record notification_list_result =
  nl_items :: "notification_record list"
  nl_total :: int

datatype document_state = DOC_UPLOADED | DOC_PENDING | DOC_UNKNOWN

record document_metadata =
  dm_document_id :: string
  dm_employee_id :: string
  dm_stable_identifier :: bool
  dm_actionable :: bool
  dm_title_redacted :: string
  dm_category :: "string option"
  dm_expiry_date :: "string option"
  dm_uploaded_at :: "string option"
  dm_uploaded_by_redacted :: "string option"
  dm_state :: document_state

text \<open>A query of documents; no \<open>dq_state\<close> is the literal \<open>"all"\<close>.\<close>

record document_query =
  dq_query :: "string option"
  dq_state :: "document_state option"
  dq_category :: "string option"

datatype session_state = SESSION_AUTHENTICATED | SESSION_EXPIRED | SESSION_MISSING | SESSION_UNKNOWN

section \<open>Constructors\<close>

text \<open>\<^verbatim>\<open>^[A-Za-z0-9][A-Za-z0-9_.:-]{0,191}$\<close>, by a matcher whose \<open>$\<close> is the end of the text.\<close>

definition record_id_syntax :: "string \<Rightarrow> bool" where
  "record_id_syntax s = (s \<noteq> [] \<and> is_alnum (hd s) \<and> length s \<le> 192
     \<and> list_all (\<lambda>c. is_alnum c \<or> c \<in> {CHR ''_'', CHR ''.'', CHR '':'', CHR ''-''}) (tl s))"

text \<open>The first text that is longer than its field allows.\<close>

definition too_long :: "(string \<times> nat \<times> string option) list \<Rightarrow> dic_error option" where
  "too_long texts = map_option (\<lambda>(n, _). ModelValidationError n)
     (find (\<lambda>(n, limit, v). case v of None \<Rightarrow> False | Some s \<Rightarrow> limit < length s) texts)"

abbreviation trim_opt :: "string option \<Rightarrow> string option" where
  "trim_opt \<equiv> map_option model_trim"

definition new_employee_summary :: "employee_summary \<Rightarrow> dic_error + employee_summary" where
  "new_employee_summary r = (let r =
      \<lparr>es_employee_id = model_trim (es_employee_id r),
       es_first_name_redacted = trim_opt (es_first_name_redacted r),
       es_last_name_redacted = trim_opt (es_last_name_redacted r),
       es_payroll_number = trim_opt (es_payroll_number r),
       es_tax_code_redacted = trim_opt (es_tax_code_redacted r),
       es_birth_date_redacted = trim_opt (es_birth_date_redacted r),
       es_iban_redacted = trim_opt (es_iban_redacted r), es_job_title = trim_opt (es_job_title r),
       es_phone_redacted = trim_opt (es_phone_redacted r),
       es_business_email_redacted = trim_opt (es_business_email_redacted r),
       es_address_redacted = trim_opt (es_address_redacted r), es_workplace = trim_opt (es_workplace r),
       es_notes_redacted = trim_opt (es_notes_redacted r), es_state = es_state r\<rparr>
     in if \<not> employee_id_syntax (es_employee_id r) then Inl (ModelValidationError ''employee_id'')
        else case too_long
          [(''first_name_redacted'', 128, es_first_name_redacted r),
           (''last_name_redacted'', 128, es_last_name_redacted r),
           (''payroll_number'', 64, es_payroll_number r),
           (''tax_code_redacted'', 32, es_tax_code_redacted r),
           (''birth_date_redacted'', 32, es_birth_date_redacted r),
           (''iban_redacted'', 64, es_iban_redacted r), (''job_title'', 128, es_job_title r),
           (''phone_redacted'', 64, es_phone_redacted r),
           (''business_email_redacted'', 320, es_business_email_redacted r),
           (''address_redacted'', 256, es_address_redacted r), (''workplace'', 128, es_workplace r),
           (''notes_redacted'', 256, es_notes_redacted r)] of
        Some e \<Rightarrow> Inl e | None \<Rightarrow> Inr r)"

definition new_employee_list_item :: "employee_list_item \<Rightarrow> dic_error + employee_list_item" where
  "new_employee_list_item r = (let r =
      \<lparr>ei_employee_id = model_trim (ei_employee_id r), ei_display_name = ei_display_name r,
       ei_first_name = ei_first_name r, ei_last_name = ei_last_name r,
       ei_display_name_redacted = model_trim (ei_display_name_redacted r),
       ei_email_redacted = trim_opt (ei_email_redacted r),
       ei_tax_code_redacted = trim_opt (ei_tax_code_redacted r), ei_job_title = trim_opt (ei_job_title r),
       ei_group_name = trim_opt (ei_group_name r), ei_payroll_number = trim_opt (ei_payroll_number r),
       ei_contract_label = trim_opt (ei_contract_label r),
       ei_contract_state = trim_opt (ei_contract_state r),
       ei_contract_period = trim_opt (ei_contract_period r),
       ei_schedule_model = trim_opt (ei_schedule_model r), ei_workplace = trim_opt (ei_workplace r),
       ei_account_state = ei_account_state r, ei_employee_state = ei_employee_state r,
       ei_current_contract_valid_from = ei_current_contract_valid_from r,
       ei_current_contract_valid_to = ei_current_contract_valid_to r\<rparr>
     in if \<not> employee_id_syntax (ei_employee_id r) then Inl (ModelValidationError ''employee_id'')
        else case too_long
          [(''display_name'', 256, ei_display_name r), (''first_name'', 128, ei_first_name r),
           (''last_name'', 128, ei_last_name r),
           (''display_name_redacted'', 128, Some (ei_display_name_redacted r)),
           (''email_redacted'', 320, ei_email_redacted r),
           (''tax_code_redacted'', 32, ei_tax_code_redacted r), (''job_title'', 128, ei_job_title r),
           (''group_name'', 128, ei_group_name r), (''payroll_number'', 64, ei_payroll_number r),
           (''contract_label'', 128, ei_contract_label r), (''contract_state'', 64, ei_contract_state r),
           (''contract_period'', 128, ei_contract_period r),
           (''schedule_model'', 128, ei_schedule_model r), (''workplace'', 128, ei_workplace r)] of
        Some e \<Rightarrow> Inl e | None \<Rightarrow> Inr r)"

definition new_contract_record :: "contract_record \<Rightarrow> dic_error + contract_record" where
  "new_contract_record r = (let r =
      \<lparr>cr_contract_id = model_trim (cr_contract_id r), cr_employee_id = model_trim (cr_employee_id r),
       cr_stable_identifier = cr_stable_identifier r, cr_actionable = cr_actionable r,
       cr_schedule = trim_opt (cr_schedule r), cr_flexibility = trim_opt (cr_flexibility r),
       cr_permanent = cr_permanent r, cr_start_date = trim_opt (cr_start_date r),
       cr_end_date = trim_opt (cr_end_date r), cr_ccnl_level = trim_opt (cr_ccnl_level r),
       cr_work_regime = trim_opt (cr_work_regime r), cr_description = trim_opt (cr_description r),
       cr_contract_type = trim_opt (cr_contract_type r), cr_status = trim_opt (cr_status r),
       cr_period = trim_opt (cr_period r)\<rparr>
     in if \<not> record_id_syntax (cr_contract_id r) then Inl (ModelValidationError ''contract_id'')
        else if \<not> employee_id_syntax (cr_employee_id r) then Inl (ModelValidationError ''employee_id'')
        else case too_long
          [(''schedule'', 128, cr_schedule r), (''flexibility'', 128, cr_flexibility r),
           (''start_date'', 32, cr_start_date r), (''end_date'', 32, cr_end_date r),
           (''ccnl_level'', 128, cr_ccnl_level r), (''work_regime'', 128, cr_work_regime r),
           (''description'', 256, cr_description r), (''contract_type'', 128, cr_contract_type r),
           (''status'', 64, cr_status r), (''period'', 128, cr_period r)] of
        Some e \<Rightarrow> Inl e
      | None \<Rightarrow>
          if cr_actionable r \<and> \<not> cr_stable_identifier r
          then Inl (ModelValidationError ''an actionable contract requires a stable DOM identifier'')
          else Inr r)"

definition new_maturation_record :: "maturation_record \<Rightarrow> dic_error + maturation_record" where
  "new_maturation_record r = (let r =
      \<lparr>mr_maturation_id = model_trim (mr_maturation_id r), mr_employee_id = model_trim (mr_employee_id r),
       mr_category = model_trim (mr_category r), mr_valid_from = trim_opt (mr_valid_from r),
       mr_valid_to = trim_opt (mr_valid_to r), mr_status = trim_opt (mr_status r)\<rparr>
     in if \<not> record_id_syntax (mr_maturation_id r) then Inl (ModelValidationError ''maturation_id'')
        else if \<not> employee_id_syntax (mr_employee_id r) then Inl (ModelValidationError ''employee_id'')
        else case too_long
          [(''category'', 128, Some (mr_category r)), (''valid_from'', 32, mr_valid_from r),
           (''valid_to'', 32, mr_valid_to r), (''status'', 64, mr_status r)] of
        Some e \<Rightarrow> Inl e | None \<Rightarrow> Inr r)"

definition new_document_metadata :: "document_metadata \<Rightarrow> dic_error + document_metadata" where
  "new_document_metadata r = (let r =
      \<lparr>dm_document_id = model_trim (dm_document_id r), dm_employee_id = model_trim (dm_employee_id r),
       dm_stable_identifier = dm_stable_identifier r, dm_actionable = dm_actionable r,
       dm_title_redacted = model_trim (dm_title_redacted r), dm_category = trim_opt (dm_category r),
       dm_expiry_date = trim_opt (dm_expiry_date r), dm_uploaded_at = trim_opt (dm_uploaded_at r),
       dm_uploaded_by_redacted = trim_opt (dm_uploaded_by_redacted r), dm_state = dm_state r\<rparr>
     in if \<not> record_id_syntax (dm_document_id r) then Inl (ModelValidationError ''document_id'')
        else if \<not> employee_id_syntax (dm_employee_id r) then Inl (ModelValidationError ''employee_id'')
        else case too_long
          [(''title_redacted'', 256, Some (dm_title_redacted r)), (''category'', 128, dm_category r),
           (''expiry_date'', 32, dm_expiry_date r), (''uploaded_at'', 64, dm_uploaded_at r),
           (''uploaded_by_redacted'', 128, dm_uploaded_by_redacted r)] of
        Some e \<Rightarrow> Inl e
      | None \<Rightarrow>
          if dm_actionable r \<and> \<not> dm_stable_identifier r
          then Inl (ModelValidationError ''an actionable document requires a stable DOM identifier'')
          else Inr r)"

section \<open>The records as JSON\<close>

definition json_text :: "string option \<Rightarrow> json" where
  "json_text v = (case v of None \<Rightarrow> JNull | Some s \<Rightarrow> JStr s)"

definition json_flag :: "bool option \<Rightarrow> json" where
  "json_flag v = (case v of None \<Rightarrow> JNull | Some b \<Rightarrow> JBool b)"

text \<open>A \<open>SecretStr\<close> is written as asterisks, an empty one as nothing.\<close>

definition json_secret :: "string option \<Rightarrow> json" where
  "json_secret v = (case v of None \<Rightarrow> JNull | Some s \<Rightarrow> JStr (if s = [] then [] else ''**********''))"

definition json_date :: "(nat \<times> nat \<times> nat) option \<Rightarrow> json" where
  "json_date v = (case v of None \<Rightarrow> JNull | Some d \<Rightarrow> JStr (isoformat d))"

fun account_state_text :: "account_state \<Rightarrow> string" where
  "account_state_text ACCOUNT_CONNECTED = ''connected''"
| "account_state_text ACCOUNT_INVITED = ''invited''"
| "account_state_text ACCOUNT_NOT_CONNECTED = ''not_connected''"
| "account_state_text ACCOUNT_UNKNOWN = ''unknown''"

fun employee_state_text :: "employee_state \<Rightarrow> string" where
  "employee_state_text EMPLOYEE_ACTIVE = ''active''"
| "employee_state_text EMPLOYEE_INACTIVE = ''inactive''"
| "employee_state_text EMPLOYEE_UNKNOWN = ''unknown''"

fun document_state_text :: "document_state \<Rightarrow> string" where
  "document_state_text DOC_UPLOADED = ''uploaded''"
| "document_state_text DOC_PENDING = ''pending''"
| "document_state_text DOC_UNKNOWN = ''unknown''"

definition employee_list_item_json :: "employee_list_item \<Rightarrow> json" where
  "employee_list_item_json r = JObj
     [(''employee_id'', JStr (ei_employee_id r)), (''display_name'', json_secret (ei_display_name r)),
      (''first_name'', json_secret (ei_first_name r)), (''last_name'', json_secret (ei_last_name r)),
      (''display_name_redacted'', JStr (ei_display_name_redacted r)),
      (''email_redacted'', json_text (ei_email_redacted r)),
      (''tax_code_redacted'', json_text (ei_tax_code_redacted r)),
      (''job_title'', json_text (ei_job_title r)), (''group_name'', json_text (ei_group_name r)),
      (''payroll_number'', json_text (ei_payroll_number r)),
      (''contract_label'', json_text (ei_contract_label r)),
      (''contract_state'', json_text (ei_contract_state r)),
      (''contract_period'', json_text (ei_contract_period r)),
      (''schedule_model'', json_text (ei_schedule_model r)), (''workplace'', json_text (ei_workplace r)),
      (''account_state'', JStr (account_state_text (ei_account_state r))),
      (''employee_state'', JStr (employee_state_text (ei_employee_state r))),
      (''current_contract_valid_from'', json_date (ei_current_contract_valid_from r)),
      (''current_contract_valid_to'', json_date (ei_current_contract_valid_to r))]"

definition employee_summary_json :: "employee_summary \<Rightarrow> json" where
  "employee_summary_json r = JObj
     [(''employee_id'', JStr (es_employee_id r)),
      (''first_name_redacted'', json_text (es_first_name_redacted r)),
      (''last_name_redacted'', json_text (es_last_name_redacted r)),
      (''payroll_number'', json_text (es_payroll_number r)),
      (''tax_code_redacted'', json_text (es_tax_code_redacted r)),
      (''birth_date_redacted'', json_text (es_birth_date_redacted r)),
      (''iban_redacted'', json_text (es_iban_redacted r)), (''job_title'', json_text (es_job_title r)),
      (''phone_redacted'', json_text (es_phone_redacted r)),
      (''business_email_redacted'', json_text (es_business_email_redacted r)),
      (''address_redacted'', json_text (es_address_redacted r)),
      (''workplace'', json_text (es_workplace r)), (''notes_redacted'', json_text (es_notes_redacted r)),
      (''state'', JStr (employee_state_text (es_state r)))]"

definition role_assignment_json :: "role_assignment \<Rightarrow> json" where
  "role_assignment_json r = JObj [(''name'', JStr (ra_name r)), (''enabled'', JBool (ra_enabled r))]"

definition roles_result_json :: "roles_result \<Rightarrow> json" where
  "roles_result_json r = JObj
     [(''employee_id'', JStr (ro_employee_id r)), (''groups'', JList (map JStr (ro_groups r))),
      (''roles'', JList (map role_assignment_json (ro_roles r)))]"

definition time_access_result_json :: "time_access_result \<Rightarrow> json" where
  "time_access_result_json r = JObj
     [(''employee_id'', JStr (ta_employee_id r)),
      (''timestamping_enabled'', json_flag (ta_timestamping_enabled r)),
      (''attendance_sheet_access'', json_flag (ta_attendance_sheet_access r)),
      (''shift_management'', json_flag (ta_shift_management r)),
      (''expense_access'', json_flag (ta_expense_access r))]"

definition contract_record_json :: "contract_record \<Rightarrow> json" where
  "contract_record_json r = JObj
     [(''contract_id'', JStr (cr_contract_id r)), (''employee_id'', JStr (cr_employee_id r)),
      (''stable_identifier'', JBool (cr_stable_identifier r)), (''actionable'', JBool (cr_actionable r)),
      (''schedule'', json_text (cr_schedule r)), (''flexibility'', json_text (cr_flexibility r)),
      (''permanent'', json_flag (cr_permanent r)), (''start_date'', json_text (cr_start_date r)),
      (''end_date'', json_text (cr_end_date r)), (''ccnl_level'', json_text (cr_ccnl_level r)),
      (''work_regime'', json_text (cr_work_regime r)), (''description'', json_text (cr_description r)),
      (''contract_type'', json_text (cr_contract_type r)), (''status'', json_text (cr_status r)),
      (''period'', json_text (cr_period r))]"

definition maturation_record_json :: "maturation_record \<Rightarrow> json" where
  "maturation_record_json r = JObj
     [(''maturation_id'', JStr (mr_maturation_id r)), (''employee_id'', JStr (mr_employee_id r)),
      (''category'', JStr (mr_category r)), (''valid_from'', json_text (mr_valid_from r)),
      (''valid_to'', json_text (mr_valid_to r)), (''status'', json_text (mr_status r))]"

definition balance_line_json :: "balance_line \<Rightarrow> json" where
  "balance_line_json r = JObj
     [(''category'', JStr (bl_category r)), (''counter_id'', json_text (bl_counter_id r)),
      (''month'', case bl_month r of None \<Rightarrow> JNull | Some n \<Rightarrow> JInt n),
      (''balance'', json_text (bl_balance r)), (''maturation'', json_text (bl_maturation r)),
      (''utilization'', json_text (bl_utilization r)), (''projection'', json_text (bl_projection r)),
      (''previous_year'', json_text (bl_previous_year r)),
      (''previous_month'', json_text (bl_previous_month r)), (''accrued'', json_text (bl_accrued r)),
      (''used'', json_text (bl_used r)), (''corrections'', json_text (bl_corrections r)),
      (''current_residual'', json_text (bl_current_residual r))]"

definition balance_result_json :: "balance_result \<Rightarrow> json" where
  "balance_result_json r = JObj
     [(''employee_id'', JStr (br_employee_id r)), (''year'', JInt (br_year r)),
      (''lines'', JList (map balance_line_json (br_lines r)))]"

definition notification_record_json :: "notification_record \<Rightarrow> json" where
  "notification_record_json r = JObj
     [(''notification_id'', JInt (nr_notification_id r)),
      (''notification_type'', JStr (nr_notification_type r)), (''text'', JStr (nr_text r)),
      (''additional_text'', json_text (nr_additional_text r)), (''created_at'', JStr (nr_created_at r)),
      (''read'', JBool (nr_read r))]"

definition document_metadata_json :: "document_metadata \<Rightarrow> json" where
  "document_metadata_json r = JObj
     [(''document_id'', JStr (dm_document_id r)), (''employee_id'', JStr (dm_employee_id r)),
      (''stable_identifier'', JBool (dm_stable_identifier r)), (''actionable'', JBool (dm_actionable r)),
      (''title_redacted'', JStr (dm_title_redacted r)), (''category'', json_text (dm_category r)),
      (''expiry_date'', json_text (dm_expiry_date r)), (''uploaded_at'', json_text (dm_uploaded_at r)),
      (''uploaded_by_redacted'', json_text (dm_uploaded_by_redacted r)),
      (''state'', JStr (document_state_text (dm_state r)))]"

end
