(* ===== verification/Exports.thy ===== *)
theory Exports
  imports EmployeePages DicRecords DicService Sanitization ScalarValues
begin

text \<open>
  Reports of employees (\<^verbatim>\<open>exports/service.py\<close>, \<open>_generate_employee_export\<close> of \<^verbatim>\<open>application.py\<close>): the
  rows of a report, its text cells, the table sent to Discord and its splitting into messages, and the
  bounded generation of a document. The writers of the document formats are third-party libraries and an
  argument.
\<close>

section \<open>Cells\<close>

datatype export_format = EXPORT_PDF | EXPORT_DOCX | EXPORT_XLSX

fun export_format_value :: "export_format \<Rightarrow> string" where
  "export_format_value EXPORT_PDF = ''pdf''"
| "export_format_value EXPORT_DOCX = ''docx''"
| "export_format_value EXPORT_XLSX = ''xlsx''"

definition export_format_of :: "string \<Rightarrow> export_format option" where
  "export_format_of v = find (\<lambda>f. export_format_value f = v) [EXPORT_PDF, EXPORT_DOCX, EXPORT_XLSX]"

datatype export_error =
    ExportGenerationError string
  | ExportValueError string
  | ExportApplicationError string
  | ExportTypeError
  | ExportDic dic_error

text \<open>A finite \<open>Decimal\<close>: its sign, its digits as a number, its exponent.\<close>

record py_decimal =
  dec_negative :: bool
  dec_digits :: nat
  dec_exponent :: int

record employee_export_row =
  er_first_name :: "string option"
  er_last_name :: "string option"
  er_employee_id :: string
  er_status :: string
  er_contract_expiry :: "(nat \<times> nat \<times> nat) option"
  er_contract_type :: "string option"
  er_monthly_net :: "py_decimal option"

definition HEADERS :: "string list" where
  "HEADERS = [''Nome'', ''Cognome'', ''ID DiC'', ''Stato'', ''Scadenza contratto'',
     ''Tipologia contratto'', ''Netto mensile'']"

definition text_cell :: "string option \<Rightarrow> string" where
  "text_cell v = (case v of None \<Rightarrow> ''N/D'' | Some s \<Rightarrow> if s = [] then ''N/D'' else s)"

definition padded2 :: "nat \<Rightarrow> string" where
  "padded2 n = [digit_char (n div 10), digit_char n]"

definition four_digits_text :: "nat \<Rightarrow> string" where
  "four_digits_text y = [digit_char (y div 1000), digit_char (y div 100), digit_char (y div 10), digit_char y]"

text \<open>\<open>strftime("%d/%m/%Y")\<close>, for years of four digits.\<close>

definition date_cell :: "(nat \<times> nat \<times> nat) option \<Rightarrow> string" where
  "date_cell v = (case v of None \<Rightarrow> ''N/D''
     | Some (y, m, d) \<Rightarrow> padded2 d @ ''/'' @ padded2 m @ ''/'' @ four_digits_text y)"

text \<open>\<open>f"{value:,.2f}"\<close>: rounded half to even to hundredths, the integer part in groups of three.\<close>

definition hundredths :: "py_decimal \<Rightarrow> nat" where
  "hundredths v = (if - 2 \<le> dec_exponent v then dec_digits v * 10 ^ nat (dec_exponent v + 2)
     else let k = 10 ^ nat (- dec_exponent v - 2); q = dec_digits v div k; r = dec_digits v mod k in
       if 2 * r < k \<or> (2 * r = k \<and> even q) then q else q + 1)"

fun group_thousands :: "string \<Rightarrow> string" where
  "group_thousands reversed = (if length reversed \<le> 3 then reversed
     else take 3 reversed @ '','' @ group_thousands (drop 3 reversed))"

declare group_thousands.simps [simp del]

definition format_amount :: "py_decimal \<Rightarrow> string" where
  "format_amount v = (let c = hundredths v in
     (if dec_negative v then ''-'' else []) @ rev (group_thousands (rev (nat_text (c div 100)))) @ ''.''
       @ padded2 (c mod 100))"

definition money_cell :: "py_decimal option \<Rightarrow> string" where
  "money_cell v = (case v of None \<Rightarrow> ''N/D''
     | Some a \<Rightarrow> ''EUR '' @ py_replace ''_'' ''.'' (py_replace ''.'' '','' (py_replace '','' ''_'' (format_amount a))))"

definition safe_excel_text :: "string \<Rightarrow> string" where
  "safe_excel_text v = (if v \<noteq> [] \<and> hd v \<in> set ''=+-@'' then CHR 0x27 # v else v)"

lemma safe_excel_text_inert: "safe_excel_text v \<noteq> [] \<Longrightarrow> hd (safe_excel_text v) \<notin> set ''=+-@''"
  by (auto simp: safe_excel_text_def)

definition export_cells :: "employee_export_row \<Rightarrow> string list" where
  "export_cells r = [text_cell (er_first_name r), text_cell (er_last_name r), er_employee_id r, er_status r,
     date_cell (er_contract_expiry r), text_cell (er_contract_type r), money_cell (er_monthly_net r)]"

section \<open>The table\<close>

fun join_with :: "string \<Rightarrow> string list \<Rightarrow> string" where
  "join_with sep [] = []"
| "join_with sep [x] = x"
| "join_with sep (x # y # xs) = x @ sep @ join_with sep (y # xs)"

definition newline :: string where
  "newline = [char_of (10 :: nat)]"

definition widen :: "nat list \<Rightarrow> string list \<Rightarrow> nat list" where
  "widen widths cells = map2 (\<lambda>w c. max w (length c)) widths cells"

definition pad_cell :: "nat \<Rightarrow> string \<Rightarrow> string" where
  "pad_cell width c = '' '' @ c @ replicate (width - length c) CHR '' '' @ '' ''"

definition table_line :: "nat list \<Rightarrow> string list \<Rightarrow> string" where
  "table_line widths cells = ''|'' @ join_with ''|'' (map2 pad_cell widths cells) @ ''|''"

definition table_border :: "nat list \<Rightarrow> string" where
  "table_border widths = ''+'' @ join_with ''+'' (map (\<lambda>w. replicate (w + 2) CHR ''-'') widths) @ ''+''"

definition table_widths :: "employee_export_row list \<Rightarrow> nat list" where
  "table_widths rows = foldl widen (map length HEADERS) (map export_cells rows)"

definition table_lines :: "employee_export_row list \<Rightarrow> string list" where
  "table_lines rows = (let widths = table_widths rows; border = table_border widths in
     [border, table_line widths HEADERS, border] @ map (\<lambda>r. table_line widths (export_cells r)) rows @ [border])"

definition ascii_table :: "employee_export_row list \<Rightarrow> string" where
  "ascii_table rows = join_with newline (table_lines rows)"

text \<open>\<open>str.splitlines()\<close>: the line boundaries up to U+00FF; a carriage return takes a line feed with it.\<close>

definition line_boundary :: "char \<Rightarrow> bool" where
  "line_boundary c \<longleftrightarrow> code_point c \<in> {10, 11, 12, 13, 28, 29, 30, 133}"

fun split_lines :: "string \<Rightarrow> string \<Rightarrow> string list" where
  "split_lines line [] = (if line = [] then [] else [line])"
| "split_lines line (c # cs) =
     (if line_boundary c then line # (case cs of [] \<Rightarrow> []
        | d # ds \<Rightarrow> if code_point c = 13 \<and> code_point d = 10 then split_lines [] ds else split_lines [] cs)
      else split_lines (line @ [c]) cs)"

definition py_splitlines :: "string \<Rightarrow> string list" where
  "py_splitlines s = split_lines [] s"

text \<open>The loop of \<open>split_ascii_for_discord\<close>: full chunks, the open chunk and its size.\<close>

fun split_chunks :: "nat \<Rightarrow> string list \<Rightarrow> string list list \<Rightarrow> string list \<Rightarrow> nat
    \<Rightarrow> export_error + string list list" where
  "split_chunks maximum [] chunks current current_size =
     Inr (if current \<noteq> [] then chunks @ [current] else chunks)"
| "split_chunks maximum (line # rest) chunks current current_size =
     (let addition = length line + 1 in
      if maximum - 8 < addition
      then Inl (ExportGenerationError ''one table row exceeds the Discord message limit'')
      else if current \<noteq> [] \<and> maximum - 8 < current_size + addition
      then split_chunks maximum rest (chunks @ [current]) [line] addition
      else split_chunks maximum rest chunks (current @ [line]) (current_size + addition))"

definition fence :: string where
  "fence = replicate 3 CHR 0x60"

definition code_block :: "string list \<Rightarrow> string" where
  "code_block lines = fence @ ''text'' @ newline @ join_with newline lines @ newline @ fence"

definition split_ascii_for_discord :: "string \<Rightarrow> nat \<Rightarrow> export_error + string list" where
  "split_ascii_for_discord table maximum =
     (if maximum < 256 then Inl (ExportValueError ''Discord table chunk limit is too small'')
      else case split_chunks maximum (py_splitlines table) [] [] 0 of
        Inl e \<Rightarrow> Inl e
      | Inr chunks \<Rightarrow> Inr (map code_block chunks))"

section \<open>Documents\<close>

record local_time =
  lt_date :: "nat \<times> nat \<times> nat"
  lt_hour :: nat
  lt_minute :: nat
  lt_second :: nat
  lt_zone :: string

record generated_export =
  ge_filename :: string
  ge_media_type :: string
  ge_content :: bytes
  ge_record_count :: nat

definition file_timestamp :: "local_time \<Rightarrow> string" where
  "file_timestamp t = isoformat (lt_date t) @ ''_'' @ padded2 (lt_hour t) @ padded2 (lt_minute t)
     @ padded2 (lt_second t)"

definition metadata_lines :: "local_time \<Rightarrow> string \<Rightarrow> string \<Rightarrow> nat \<Rightarrow> string list" where
  "metadata_lines t requester filters record_count =
     [''Generato: '' @ date_cell (Some (lt_date t)) @ '' '' @ padded2 (lt_hour t) @ '':''
        @ padded2 (lt_minute t) @ '':'' @ padded2 (lt_second t) @ '' '' @ lt_zone t,
      ''Richiedente: '' @ requester, ''Filtri: '' @ filters, ''Record: '' @ nat_text record_count,
      ''Fonte: Dipendenti in Cloud'']"

text \<open>\<open>re.sub("[^a-z0-9._-]+", "_", s)\<close>\<close>

definition filename_char :: "char \<Rightarrow> bool" where
  "filename_char c \<longleftrightarrow> is_lower c \<or> is_digit c \<or> c \<in> set ''._-''"

function sub_unsafe :: "string \<Rightarrow> string" where
  "sub_unsafe [] = []"
| "sub_unsafe (c # cs) = (if filename_char c then c # sub_unsafe cs
     else CHR ''_'' # sub_unsafe (dropWhile (\<lambda>x. \<not> filename_char x) cs))"
  by pat_completeness auto
termination
  by (relation "measure length") (auto simp: less_Suc_eq_le length_dropWhile_le)

definition strip_chars :: "string \<Rightarrow> string \<Rightarrow> string" where
  "strip_chars cs s = rev (dropWhile (\<lambda>c. c \<in> set cs) (rev (dropWhile (\<lambda>c. c \<in> set cs) s)))"

definition one_line :: "string \<Rightarrow> nat \<Rightarrow> string \<Rightarrow> string" where
  "one_line s limit default_text = (let t = take limit (join_with '' '' (py_split s)) in
     if t = [] then default_text else t)"

text \<open>What a writer is given: the rows, the title, the time, the requester and the filters.\<close>

type_synonym document_writer = "export_format \<Rightarrow> employee_export_row list \<Rightarrow> string \<Rightarrow> local_time \<Rightarrow> string
    \<Rightarrow> string \<Rightarrow> export_error + bytes"

definition media_type_of :: "export_format \<Rightarrow> string" where
  "media_type_of f = (case f of
     EXPORT_PDF \<Rightarrow> ''application/pdf''
   | EXPORT_DOCX \<Rightarrow> ''application/vnd.openxmlformats-officedocument.wordprocessingml.document''
   | EXPORT_XLSX \<Rightarrow> ''application/vnd.openxmlformats-officedocument.spreadsheetml.sheet'')"

definition export_stem :: "string \<Rightarrow> string" where
  "export_stem safe_title = (let s = strip_chars ''._-'' (sub_unsafe (py_casefold safe_title)) in
     take 80 (if s = [] then ''dipendenti'' else s))"

definition generate_employees :: "document_writer \<Rightarrow> nat \<Rightarrow> employee_export_row list \<Rightarrow> export_format
    \<Rightarrow> local_time \<Rightarrow> string \<Rightarrow> string \<Rightarrow> string \<Rightarrow> export_error + generated_export" where
  "generate_employees write_document max_bytes rows f created_at requester filters title =
     (let safe_title = one_line title 160 ''Elenco dipendenti'';
          safe_requester = one_line requester 128 ''N/D'';
          safe_filters = one_line filters 512 ''Nessuno'' in
      case write_document f rows safe_title created_at safe_requester safe_filters of
        Inl e \<Rightarrow> Inl e
      | Inr content \<Rightarrow>
          if content = [] \<or> max_bytes < length content
          then Inl (ExportGenerationError ''generated export exceeds the configured size limit'')
          else Inr \<lparr>ge_filename = export_stem safe_title @ ''_'' @ file_timestamp created_at @ ''.''
                      @ export_format_value f,
                    ge_media_type = media_type_of f, ge_content = content, ge_record_count = length rows\<rparr>)"

section \<open>The rows of a report\<close>

definition employee_display_name :: "employee_list_item \<Rightarrow> string" where
  "employee_display_name item = (case ei_display_name item of
     None \<Rightarrow> ei_display_name_redacted item
   | Some name \<Rightarrow> (case normalize_text name 256 False of
       Inl e \<Rightarrow> ei_display_name_redacted item
     | Inr v \<Rightarrow> if v = [] then ei_display_name_redacted item else v))"

definition non_empty :: "string option \<Rightarrow> string option" where
  "non_empty v = (if v = Some [] then None else v)"

definition employee_export_row_of :: "employee_list_item \<Rightarrow> employee_export_row" where
  "employee_export_row_of item =
     (let first = map_option py_strip (ei_first_name item); last_name = map_option py_strip (ei_last_name item);
          first = (if non_empty first = None \<and> non_empty last_name = None \<and> ei_display_name item \<noteq> None
            then Some (employee_display_name item) else first);
          parts = List.map_filter (\<lambda>v. case v of None \<Rightarrow> None | Some t \<Rightarrow> if py_strip t = [] then None else Some t)
            [ei_contract_state item, ei_contract_label item] in
      \<lparr>er_first_name = non_empty first, er_last_name = non_empty last_name,
       er_employee_id = ei_employee_id item, er_status = employee_state_text (ei_employee_state item),
       er_contract_expiry = ei_current_contract_valid_to item,
       er_contract_type = non_empty (Some (join_with ('' '' @ [char_of (183 :: nat)] @ '' '') parts)),
       er_monthly_net = None\<rparr>)"

definition text_or_empty :: "string option \<Rightarrow> string" where
  "text_or_empty v = (case v of None \<Rightarrow> [] | Some s \<Rightarrow> s)"

text \<open>\<open>rows.sort(key=\<dots>)\<close> by last name, first name and identifier: three stable sorts, the first key last.\<close>

definition sort_rows :: "employee_export_row list \<Rightarrow> employee_export_row list" where
  "sort_rows rows = sort_key (\<lambda>r. py_casefold (text_or_empty (er_last_name r)))
     (sort_key (\<lambda>r. py_casefold (text_or_empty (er_first_name r))) (sort_key er_employee_id rows))"

definition employee_export_rows :: "employee_list_item list \<Rightarrow> employee_export_row list" where
  "employee_export_rows items = sort_rows (map employee_export_row_of items)"

definition employee_filter_of :: "string \<Rightarrow> employee_filter option" where
  "employee_filter_of v = (if v = ''active'' then Some FILTER_ACTIVE else if v = ''inactive'' then Some FILTER_INACTIVE
     else if v = ''all'' then Some FILTER_ALL else None)"

fun employee_filter_value :: "employee_filter \<Rightarrow> string" where
  "employee_filter_value FILTER_ACTIVE = ''active''"
| "employee_filter_value FILTER_INACTIVE = ''inactive''"
| "employee_filter_value FILTER_ALL = ''all''"

fun date_order :: "nat \<times> nat \<times> nat \<Rightarrow> nat \<times> nat \<times> nat \<Rightarrow> bool" where
  "date_order (y, m, d) (y', m', d') \<longleftrightarrow> y < y' \<or> y = y' \<and> (m < m' \<or> m = m' \<and> d \<le> d')"

definition expires_within :: "(nat \<times> nat \<times> nat) option \<Rightarrow> (nat \<times> nat \<times> nat) option \<Rightarrow> employee_export_row \<Rightarrow> bool" where
  "expires_within start stop r = (case er_contract_expiry r of
     None \<Rightarrow> False
   | Some e \<Rightarrow> (case start of None \<Rightarrow> True | Some s \<Rightarrow> date_order s e)
       \<and> (case stop of None \<Rightarrow> True | Some t \<Rightarrow> date_order e t))"

text \<open>A bound of the interval: absent, a date, or an error.\<close>

definition interval_bound :: "(py_value \<Rightarrow> string) \<Rightarrow> py_mapping \<Rightarrow> string \<Rightarrow> export_error + (nat \<times> nat \<times> nat) option" where
  "interval_bound repr ps name = (case map_of ps name of
     None \<Rightarrow> Inr None
   | Some PNone \<Rightarrow> Inr None
   | Some v \<Rightarrow> (case parse_date (py_str repr v) of
       None \<Rightarrow> Inl (ExportApplicationError ''export contract date interval is invalid'')
     | Some d \<Rightarrow> Inr (Some d)))"

definition bound_text :: "(nat \<times> nat \<times> nat) option \<Rightarrow> string" where
  "bound_text d = (case d of None \<Rightarrow> ''qualsiasi'' | Some x \<Rightarrow> isoformat x)"

datatype export_dataset = DATASET_EMPLOYEES | DATASET_CONTRACTS

definition export_dataset_of :: "py_mapping \<Rightarrow> export_error + export_dataset" where
  "export_dataset_of ps = (case map_of ps ''dataset'' of
     Some (PStr v) \<Rightarrow> if v = ''employees'' then Inr DATASET_EMPLOYEES
       else if v = ''contracts_expiring'' then Inr DATASET_CONTRACTS
       else Inl (ExportApplicationError ''export dataset is invalid'')
   | Some (PList xs) \<Rightarrow> Inl ExportTypeError
   | Some (PDict ms) \<Rightarrow> Inl ExportTypeError
   | _ \<Rightarrow> Inl (ExportApplicationError ''export dataset is invalid''))"

definition export_choice :: "(py_value \<Rightarrow> string) \<Rightarrow> py_mapping \<Rightarrow> export_error + export_format \<times> employee_filter" where
  "export_choice repr ps = (case (map_of ps ''format'', map_of ps ''status'') of
     (Some f, Some st) \<Rightarrow> (case (export_format_of (py_str repr f), employee_filter_of (py_str repr st)) of
         (Some ef, Some flt) \<Rightarrow> Inr (ef, flt)
       | _ \<Rightarrow> Inl (ExportApplicationError ''export parameters are invalid''))
   | _ \<Rightarrow> Inl (ExportApplicationError ''export parameters are invalid''))"

definition export_query :: "employee_filter \<Rightarrow> employee_list_query" where
  "export_query flt = \<lparr>eq_query = None, eq_employee_filter = flt, eq_sort_by = SORT_NAME,
     eq_sort_direction = SORT_ASC, eq_page = 1, eq_page_size = 100\<rparr>"

definition export_rows_of :: "(py_value \<Rightarrow> string) \<Rightarrow> py_mapping \<Rightarrow> export_dataset \<Rightarrow> employee_filter
    \<Rightarrow> employee_list_item list \<Rightarrow> export_error + employee_export_row list \<times> string \<times> string" where
  "export_rows_of repr ps dataset flt items =
     (let rows = employee_export_rows items; base = ''stato='' @ employee_filter_value flt in
      case dataset of
        DATASET_EMPLOYEES \<Rightarrow> Inr (rows, base, ''Elenco dipendenti'')
      | DATASET_CONTRACTS \<Rightarrow>
          (case interval_bound repr ps ''date_from'' of Inl e \<Rightarrow> Inl e
           | Inr start \<Rightarrow> (case interval_bound repr ps ''date_to'' of Inl e \<Rightarrow> Inl e
             | Inr stop \<Rightarrow> Inr (filter (expires_within start stop) rows,
                 join_with ''; '' [base, ''scadenza_da='' @ bound_text start, ''scadenza_a='' @ bound_text stop],
                 ''Contratti in scadenza''))))"

definition generate_employee_export ::
  "(py_value \<Rightarrow> string) \<Rightarrow> (document_writer \<times> nat) option \<Rightarrow> local_time \<Rightarrow> 's list_adapter
     \<Rightarrow> py_mapping \<Rightarrow> ('s, export_error, generated_export) sx" where
  "generate_employee_export repr exports now adapter ps = (case exports of
     None \<Rightarrow> sx_raise (ExportApplicationError ''export generation boundary is unavailable'')
   | Some (write_document, max_bytes) \<Rightarrow>
     sx_bind (sx_lift (export_choice repr ps)) (\<lambda>(f, flt).
     sx_bind (sx_lift (export_dataset_of ps)) (\<lambda>dataset.
     sx_bind (sx_try (list_all_employees adapter (export_query flt) 500 50000)) (\<lambda>r. case r of
       Inl e \<Rightarrow> sx_raise (ExportDic e)
     | Inr result \<Rightarrow>
         sx_bind (sx_lift (export_rows_of repr ps dataset flt (el_items result))) (\<lambda>(rows, filters, title).
         sx_lift (generate_employees write_document max_bytes rows f now ''Utente Discord autorizzato''
           filters title))))))"

section \<open>The lines of a table come back from its messages\<close>

abbreviation plain_line :: "string \<Rightarrow> bool" where
  "plain_line \<equiv> list_all (\<lambda>c. \<not> line_boundary c)"

lemma split_lines_newline: "split_lines acc (newline @ rest) = acc # split_lines [] rest"
  by (cases rest) (simp_all add: newline_def line_boundary_def)

lemma split_lines_plain: "plain_line line \<Longrightarrow> split_lines acc (line @ rest) = split_lines (acc @ line) rest"
  by (induction line arbitrary: acc) simp_all

lemma py_splitlines_join:
  assumes "list_all plain_line ls" "ls \<noteq> []" "last ls \<noteq> []"
  shows "py_splitlines (join_with newline ls) = ls"
proof -
  have "split_lines [] (join_with newline ls) = ls"
    using assms
  proof (induction ls rule: induct_list012)
    case (2 x)
    then show ?case using split_lines_plain [of x "[]" "[]"] by simp
  next
    case (3 x y zs)
    then show ?case by (simp add: split_lines_plain split_lines_newline)
  qed simp
  then show ?thesis by (simp add: py_splitlines_def)
qed

lemma join_with_Cons: "xs \<noteq> [] \<Longrightarrow> join_with sep (x # xs) = x @ sep @ join_with sep xs"
  by (cases xs) simp_all

lemma join_with_snoc: "xs \<noteq> [] \<Longrightarrow> join_with sep (xs @ [x]) = join_with sep xs @ sep @ x"
  by (induction sep xs rule: join_with.induct) (simp_all add: join_with_Cons)

text \<open>A message without its fence.\<close>

definition message_lines :: "string \<Rightarrow> string list" where
  "message_lines m = butlast (tl (py_splitlines m))"

lemma code_block_join: "c \<noteq> [] \<Longrightarrow> code_block c = join_with newline ((fence @ ''text'') # c @ [fence])"
  by (simp add: code_block_def join_with_Cons join_with_snoc)

lemma plain_fence: "plain_line fence" "plain_line (fence @ ''text'')"
  by (simp_all add: fence_def line_boundary_def list_all_iff)

lemma message_lines_code_block: "c \<noteq> [] \<Longrightarrow> list_all plain_line c \<Longrightarrow> message_lines (code_block c) = c"
  using py_splitlines_join [of "(fence @ ''text'') # c @ [fence]"] plain_fence
  by (simp add: message_lines_def code_block_join butlast_append fence_def)

section \<open>Chunks\<close>

definition lines_size :: "string list \<Rightarrow> nat" where
  "lines_size ls = sum_list (map (\<lambda>l. length l + 1) ls)"

lemma length_join_newline: "ls \<noteq> [] \<Longrightarrow> length (join_with newline ls) + 1 = lines_size ls"
  by (induction ls rule: induct_list012) (simp_all add: newline_def lines_size_def)

lemma length_code_block: "c \<noteq> [] \<Longrightarrow> length (code_block c) = lines_size c + 11"
  using length_join_newline [of c] by (simp add: code_block_def fence_def newline_def)

definition fits :: "nat \<Rightarrow> string list \<Rightarrow> bool" where
  "fits maximum c \<longleftrightarrow> c \<noteq> [] \<and> lines_size c \<le> maximum - 8"

lemma split_chunks_exact:
  assumes "n = lines_size current" "current \<noteq> [] \<Longrightarrow> fits maximum current" "\<forall>c\<in>set chunks. fits maximum c"
  shows "(case split_chunks maximum ls chunks current n of
      Inl e \<Rightarrow> e = ExportGenerationError ''one table row exceeds the Discord message limit''
        \<and> (\<exists>l\<in>set ls. maximum - 8 < length l + 1)
    | Inr r \<Rightarrow> concat r = concat chunks @ current @ ls \<and> (\<forall>c\<in>set r. fits maximum c)
        \<and> (\<forall>l\<in>set ls. length l + 1 \<le> maximum - 8))"
  using assms
proof (induction maximum ls chunks current n rule: split_chunks.induct)
  case (2 maximum line rest chunks current n)
  show ?case
  proof (cases "maximum - 8 < length line + 1")
    case False
    show ?thesis
    proof (cases "current \<noteq> [] \<and> maximum - 8 < n + (length line + 1)")
      case True
      with 2(1) [OF refl False True] 2(3-) False show ?thesis
        by (simp add: lines_size_def fits_def split: sum.splits)
    next
      case join: False
      then have step: "split_chunks maximum (line # rest) chunks current n
          = split_chunks maximum rest chunks (current @ [line]) (n + (length line + 1))"
        using False by (simp only: split_chunks.simps Let_def if_False)
      have "fits maximum (current @ [line])"
        using join False 2(3,4) by (cases "current = []") (simp_all add: fits_def lines_size_def)
      with 2(2) [OF refl False join] 2(3-) False show ?thesis unfolding step
        by (simp add: lines_size_def split: sum.splits)
    qed
  qed simp
qed auto

section \<open>Every line of a table has one width\<close>

lemma length_join_with: "map length xs = map length ys \<Longrightarrow> length sep = length sep' \<Longrightarrow>
    length (join_with sep xs) = length (join_with sep' ys)"
proof (induction xs arbitrary: ys rule: induct_list012)
  case (2 x)
  then show ?case by (cases ys) auto
next
  case (3 x x' xs)
  then obtain y y' zs where "ys = y # y' # zs" by (cases ys; cases "tl ys") auto
  with 3 show ?case by auto
qed simp

definition fits_widths :: "nat list \<Rightarrow> string list \<Rightarrow> bool" where
  "fits_widths widths cells = list_all2 (\<lambda>w c. length c \<le> w) widths cells"

lemma length_table_line: "fits_widths widths cells \<Longrightarrow> length (table_line widths cells) = length (table_border widths)"
  unfolding table_line_def table_border_def fits_widths_def
  by (simp add: length_join_with [of _ "map (\<lambda>w. replicate (w + 2) CHR ''-'') widths" "''|''" "''+''"]
      list_all2_conv_all_nth list_eq_iff_nth_eq pad_cell_def)

lemma widen_fits: "length cells = length widths \<Longrightarrow> fits_widths (widen widths cells) cells"
  "length cells = length widths \<Longrightarrow> fits_widths widths cells' \<Longrightarrow> fits_widths (widen widths cells) cells'"
  by (auto simp: fits_widths_def widen_def list_all2_conv_all_nth intro: max.coboundedI1)

lemma length_widen: "length cells = length widths \<Longrightarrow> length (widen widths cells) = length widths"
  by (simp add: widen_def)

lemma widths_fit:
  assumes "\<forall>cells\<in>set cs. length cells = length widths"
  shows "length (foldl widen widths cs) = length widths
    \<and> (\<forall>cells. fits_widths widths cells \<or> cells \<in> set cs \<longrightarrow> fits_widths (foldl widen widths cs) cells)"
  using assms
proof (induction cs arbitrary: widths)
  case (Cons c cs)
  from Cons.IH [of "widen widths c"] Cons.prems show ?case
    by (simp add: length_widen) (metis widen_fits)
qed simp

lemma table_widths_fit: "fits_widths (table_widths rows) HEADERS"
  "r \<in> set rows \<Longrightarrow> fits_widths (table_widths rows) (export_cells r)" "length (table_widths rows) = 7"
proof -
  have "\<forall>cells\<in>set (map export_cells rows). length cells = length (map length HEADERS)"
    by (simp add: export_cells_def HEADERS_def)
  note w = widths_fit [OF this]
  have "fits_widths (map length HEADERS) HEADERS" by (simp add: fits_widths_def list_all2_conv_all_nth)
  with w show "fits_widths (table_widths rows) HEADERS" by (simp add: table_widths_def)
  from w show "r \<in> set rows \<Longrightarrow> fits_widths (table_widths rows) (export_cells r)"
    by (simp add: table_widths_def)
  from w show "length (table_widths rows) = 7" by (simp add: table_widths_def) (simp add: HEADERS_def)
qed

definition table_width :: "employee_export_row list \<Rightarrow> nat" where
  "table_width rows = sum_list (table_widths rows) + 22"

lemma length_table_border: "length (table_border ws) = sum_list ws + 3 * length ws + (if ws = [] then 2 else 1)"
proof -
  have "length (join_with ''+'' (map (\<lambda>w. replicate (w + 2) CHR ''-'') ws))
      = (if ws = [] then 0 else sum_list ws + 3 * length ws - 1)"
    by (induction ws rule: induct_list012) simp_all
  then show ?thesis by (cases ws) (simp_all add: table_border_def)
qed

lemma table_lines_width: "l \<in> set (table_lines rows) \<Longrightarrow> length l = table_width rows"
  using table_widths_fit [where rows = rows] length_table_border [of "table_widths rows"]
  by (auto simp: table_lines_def Let_def length_table_line table_width_def)

lemma split_lines_are_plain: "plain_line acc \<Longrightarrow> list_all plain_line (split_lines acc s)"
  by (induction acc s rule: split_lines.induct) (auto split: list.splits)

text \<open>Whatever the text, its lines come back from the messages in order, or some line is too long.\<close>

lemma split_ascii_exact:
  assumes "256 \<le> maximum"
  shows "if \<forall>l\<in>set (py_splitlines table). length l + 9 \<le> maximum
    then \<exists>ms. split_ascii_for_discord table maximum = Inr ms \<and> concat (map message_lines ms) = py_splitlines table
      \<and> (\<forall>m\<in>set ms. message_lines m \<noteq> [] \<and> length m \<le> maximum + 3)
    else split_ascii_for_discord table maximum
      = Inl (ExportGenerationError ''one table row exceeds the Discord message limit'')"
proof -
  note exact = split_chunks_exact [of 0 "[]" maximum "[]" "py_splitlines table"]
  show ?thesis
  proof (cases "split_chunks maximum (py_splitlines table) [] [] 0")
    case (Inl e)
    with exact have e: "e = ExportGenerationError ''one table row exceeds the Discord message limit''"
      and "\<exists>l\<in>set (py_splitlines table). maximum - 8 < length l + 1" by (simp_all add: lines_size_def)
    then have "\<not> (\<forall>l\<in>set (py_splitlines table). length l + 9 \<le> maximum)" by fastforce
    with Inl e assms show ?thesis by (simp add: split_ascii_for_discord_def)
  next
    case (Inr r)
    with exact have r: "concat r = py_splitlines table" "\<forall>c\<in>set r. fits maximum c"
      "\<forall>l\<in>set (py_splitlines table). length l + 1 \<le> maximum - 8"
      by (simp_all add: lines_size_def)
    have plain: "list_all plain_line (py_splitlines table)"
      by (simp add: py_splitlines_def split_lines_are_plain)
    have block: "message_lines (code_block c) = c" "length (code_block c) \<le> maximum + 3" "c \<noteq> []"
      if c: "c \<in> set r" for c
    proof -
      from r(2) c have f: "fits maximum c" by blast
      then show "c \<noteq> []" by (simp add: fits_def)
      from plain c have "list_all plain_line c" unfolding r(1) [symmetric] by (auto simp: list_all_iff)
      with f show "message_lines (code_block c) = c" by (intro message_lines_code_block) (simp add: fits_def)
      from f have "length (code_block c) = lines_size c + 11" "lines_size c \<le> maximum - 8"
        by (simp_all add: fits_def length_code_block)
      with assms show "length (code_block c) \<le> maximum + 3" by linarith
    qed
    then have "map (message_lines \<circ> code_block) r = r" by (simp add: map_idI)
    with r block have "concat (map message_lines (map code_block r)) = py_splitlines table"
      "\<forall>m\<in>set (map code_block r). message_lines m \<noteq> [] \<and> length m \<le> maximum + 3" by simp_all
    moreover have "split_ascii_for_discord table maximum = Inr (map code_block r)"
      using Inr assms by (simp add: split_ascii_for_discord_def)
    moreover have "\<forall>l\<in>set (py_splitlines table). length l + 9 \<le> maximum" using r(3) assms by fastforce
    ultimately show ?thesis by auto
  qed
qed

lemma table_chars [simp]: "\<not> line_boundary CHR ''|''" "\<not> line_boundary CHR ''+''" "\<not> line_boundary CHR ''-''"
  "\<not> line_boundary CHR '' ''"
  by (simp_all add: line_boundary_def)

lemma plain_replicate [simp]: "plain_line (replicate n c) \<longleftrightarrow> n = 0 \<or> \<not> line_boundary c"
  by (auto simp: list_all_iff)

lemma plain_join: "plain_line sep \<Longrightarrow> list_all plain_line ls \<Longrightarrow> plain_line (join_with sep ls)"
  by (induction sep ls rule: join_with.induct) simp_all

lemma plain_table_line:
  assumes "list_all plain_line cells"
  shows "plain_line (table_line widths cells)"
proof -
  have "list_all plain_line (map2 pad_cell widths cells)"
    using assms by (auto simp: list_all_iff [of plain_line] pad_cell_def dest: set_zip_rightD)
  then show ?thesis by (simp add: table_line_def plain_join)
qed

lemma plain_table_border: "plain_line (table_border widths)"
proof -
  have "list_all plain_line (map (\<lambda>w. replicate (w + 2) CHR ''-'') widths)"
    by (simp add: list_all_iff [of plain_line])
  then show ?thesis by (simp add: table_border_def plain_join del: replicate.simps)
qed

lemma splitlines_ascii_table:
  assumes "\<forall>r\<in>set rows. list_all plain_line (export_cells r)"
  shows "py_splitlines (ascii_table rows) = table_lines rows"
proof -
  have "list_all plain_line HEADERS" by (simp add: HEADERS_def line_boundary_def)
  with assms have "list_all plain_line (table_lines rows)"
    by (auto simp: table_lines_def Let_def list_all_iff [of plain_line] plain_table_border intro: plain_table_line)
  moreover have "table_lines rows \<noteq> []" "last (table_lines rows) \<noteq> []"
    by (simp_all add: table_lines_def Let_def table_border_def)
  ultimately show ?thesis by (simp add: ascii_table_def py_splitlines_join)
qed

text \<open>The limit is on the size of a message less 8, but a fence takes 12 characters more than the lines and
  their separators: a message can be three characters longer than its maximum.\<close>

lemma message_over_its_maximum:
  "\<exists>m. split_ascii_for_discord (replicate 247 CHR ''x'') 256 = Inr [m] \<and> length m = 259"
proof -
  have plain: "plain_line (replicate n CHR ''x'')" for n
    by (simp add: list_all_iff line_boundary_def)
  have "split_lines [] (replicate 247 CHR ''x'' @ []) = split_lines ([] @ replicate 247 CHR ''x'') []"
    by (rule split_lines_plain [OF plain])
  then have "py_splitlines (replicate 247 CHR ''x'') = [replicate 247 CHR ''x'']"
    by (simp add: py_splitlines_def)
  then show ?thesis
    using length_code_block [of "[replicate 247 CHR ''x'']"]
    by (simp add: split_ascii_for_discord_def lines_size_def)
qed

text \<open>C37: The table sent to Discord. With cells of one line each, all lines of a table have the same
  width; the table is split exactly when that width leaves nine characters, and then every message has at
  least one line, exceeds the maximum by three characters at most, and the lines of the messages in order
  are the lines of the table.\<close>

theorem table_messages_lossless:
  assumes "256 \<le> maximum" and "\<forall>r\<in>set rows. list_all (list_all (\<lambda>c. \<not> line_boundary c)) (export_cells r)"
  shows "(\<forall>l\<in>set (table_lines rows). length l = table_width rows)
    \<and> (if table_width rows + 9 \<le> maximum
       then \<exists>ms. split_ascii_for_discord (ascii_table rows) maximum = Inr ms
         \<and> concat (map message_lines ms) = table_lines rows
         \<and> (\<forall>m\<in>set ms. message_lines m \<noteq> [] \<and> length m \<le> maximum + 3)
       else split_ascii_for_discord (ascii_table rows) maximum
         = Inl (ExportGenerationError ''one table row exceeds the Discord message limit''))"
proof -
  have "table_border (table_widths rows) \<in> set (table_lines rows)" by (simp add: table_lines_def Let_def)
  then have "(\<forall>l\<in>set (table_lines rows). length l + 9 \<le> maximum) = (table_width rows + 9 \<le> maximum)"
    by (auto simp: table_lines_width)
  with split_ascii_exact [OF assms(1), of "ascii_table rows", unfolded splitlines_ascii_table [OF assms(2)]]
  show ?thesis by (simp only: table_lines_width simp_thms ball_simps cong: if_cong) (simp add: table_lines_width)
qed

definition demo_report_row :: employee_export_row where
  "demo_report_row = \<lparr>er_first_name = Some ''Ada'', er_last_name = None, er_employee_id = ''42'', er_status = ''active'',
     er_contract_expiry = Some (2026, 3, 1), er_contract_type = None,
     er_monthly_net = None\<rparr>"

theorem table_messages_lossless_witness:
  "\<exists>ms. split_ascii_for_discord (ascii_table [demo_report_row]) 256 = Inr ms
     \<and> concat (map message_lines ms) = table_lines [demo_report_row]"
proof -
  have "list_all (list_all (\<lambda>c. \<not> line_boundary c)) (export_cells demo_report_row)"
    by (simp add: demo_report_row_def export_cells_def text_cell_def date_cell_def money_cell_def padded2_def
        four_digits_text_def digit_char_def line_boundary_def of_char_of)
  moreover have "table_width [demo_report_row] + 9 \<le> 256"
    by (simp add: table_width_def table_widths_def widen_def HEADERS_def demo_report_row_def export_cells_def text_cell_def
        date_cell_def money_cell_def padded2_def four_digits_text_def)
  ultimately show ?thesis using table_messages_lossless [of 256 "[demo_report_row]"] by auto
qed

section \<open>Documents\<close>

lemma sub_unsafe_safe: "list_all filename_char (sub_unsafe s)"
  by (induction s rule: sub_unsafe.induct) (simp_all add: filename_char_def)

lemma set_strip_chars: "set (strip_chars cs s) \<subseteq> set s"
proof -
  have "set (strip_chars cs s) \<subseteq> set (dropWhile (\<lambda>c. c \<in> set cs) s)"
    unfolding strip_chars_def set_rev by (metis set_dropWhileD set_rev subsetI)
  then show ?thesis using set_dropWhileD [of _ "\<lambda>c. c \<in> set cs" s] by blast
qed

lemma hd_strip_chars: "strip_chars cs s \<noteq> [] \<Longrightarrow> hd (strip_chars cs s) \<notin> set cs"
proof -
  let ?t = "dropWhile (\<lambda>c. c \<in> set cs) s"
  assume ne: "strip_chars cs s \<noteq> []"
  have t: "?t \<noteq> []"
  proof
    assume "?t = []"
    then have "strip_chars cs s = []" unfolding strip_chars_def by (simp only: rev.simps dropWhile.simps)
    with ne show False by simp
  qed
  then have hd: "hd ?t \<notin> set cs" by (rule hd_dropWhile)
  have "hd (strip_chars cs s) = hd ?t"
  proof -
    have "?t = strip_chars cs s @ rev (takeWhile (\<lambda>c. c \<in> set cs) (rev ?t))"
      unfolding strip_chars_def by (metis rev_append rev_rev_ident takeWhile_dropWhile_id)
    with ne show ?thesis by (metis hd_append2)
  qed
  with hd show ?thesis by simp
qed

lemma export_stem_safe: "list_all filename_char (export_stem t)" "export_stem t \<noteq> []"
  "hd (export_stem t) \<notin> set ''._-''" "length (export_stem t) \<le> 80"
proof -
  let ?s = "strip_chars ''._-'' (sub_unsafe (py_casefold t))"
  have "list_all filename_char ?s"
    using sub_unsafe_safe [of "py_casefold t"] set_strip_chars [of "''._-''" "sub_unsafe (py_casefold t)"]
    by (auto simp: list_all_iff)
  moreover have "list_all filename_char ''dipendenti''" by code_simp
  ultimately show "list_all filename_char (export_stem t)"
    by (auto simp: export_stem_def Let_def list_all_iff dest: in_set_takeD)
  show "export_stem t \<noteq> []" "length (export_stem t) \<le> 80" by (simp_all add: export_stem_def Let_def)
  show "hd (export_stem t) \<notin> set ''._-''"
    using hd_strip_chars [of "''._-''" "sub_unsafe (py_casefold t)"] by (auto simp: export_stem_def Let_def)
qed

lemma filename_digit: "filename_char (digit_char n)"
  by (simp add: filename_char_def is_digit_def code_point_digit_char less_Suc_eq_le [symmetric])

lemma file_timestamp_safe: "list_all filename_char (file_timestamp t)" "length (file_timestamp t) = 17"
  by (cases "lt_date t"; simp add: file_timestamp_def isoformat_def padded2_def filename_digit;
      simp add: filename_char_def)+

text \<open>A report that is generated is not empty and within its limit, and its file name is a plain name.\<close>

definition plain_file_name :: "string \<Rightarrow> bool" where
  "plain_file_name n \<longleftrightarrow> n \<noteq> [] \<and> list_all filename_char n \<and> hd n \<notin> set ''._-'' \<and> length n \<le> 103"

lemma generated_export_bounded:
  assumes "generate_employees write_document max_bytes rows f t requester filters title = Inr e"
  shows "plain_file_name (ge_filename e) \<and> ge_record_count e = length rows \<and> ge_content e \<noteq> []
    \<and> length (ge_content e) \<le> max_bytes \<and> ge_media_type e = media_type_of f"
proof -
  from assms obtain stem content where
    stem: "stem = export_stem (one_line title 160 ''Elenco dipendenti'')"
    and content: "content \<noteq> []" "length content \<le> max_bytes"
    and e: "e = \<lparr>ge_filename = stem @ ''_'' @ file_timestamp t @ ''.'' @ export_format_value f,
      ge_media_type = media_type_of f, ge_content = content, ge_record_count = length rows\<rparr>"
    unfolding generate_employees_def Let_def by (auto split: sum.splits if_splits)
  have f: "list_all filename_char (export_format_value f)" "length (export_format_value f) \<le> 4"
    by (cases f; simp add: filename_char_def is_lower_def)+
  have "filename_char CHR ''_''" "filename_char CHR ''.''" by (simp_all add: filename_char_def)
  moreover have "hd (stem @ rest) = hd stem" "stem @ rest \<noteq> []" for rest
    using export_stem_safe(2) unfolding stem by simp_all
  ultimately have "plain_file_name (ge_filename e)"
    using f export_stem_safe [of "one_line title 160 ''Elenco dipendenti''", folded stem] file_timestamp_safe [of t]
    unfolding e plain_file_name_def by (simp del: hd_append2)
  with content show ?thesis by (simp add: e)
qed

end
