(* ===== verification/MockDic.thy ===== *)
theory MockDic
  imports EmployeePages DicRecords PolicyCatalog "HOL-Library.Product_Lexorder"
begin

text \<open>
  The deterministic adapter of the safe mode (\<open>MockDicAdapter\<close> of \<^verbatim>\<open>dic/mock.py\<close>): its tables, what
  it is seeded with and its reads. Each \<open>dict\<close> is an association list in insertion order. The bytes
  behind the key of the state digest are an argument of the seed.
\<close>

section \<open>The tables\<close>

record mock_dic =
  mk_state_digest_key :: bytes
  mk_closed :: bool
  mk_authenticated :: bool
  mk_items :: "(string \<times> employee_list_item) list"
  mk_summaries :: "(string \<times> employee_summary) list"
  mk_raw_summaries :: "(string \<times> (string \<times> string) list) list"
  mk_contracts :: "(string \<times> contract_record list) list"
  mk_roles :: "(string \<times> roles_result) list"
  mk_time_access :: "(string \<times> time_access_result) list"
  mk_maturations :: "(string \<times> maturation_record list) list"
  mk_balances :: "((string \<times> int) \<times> balance_result) list"
  mk_balance_corrections :: "((string \<times> int \<times> int \<times> string) \<times> string) list"
  mk_payrolls :: "(string \<times> payroll_metadata list) list"
  mk_documents :: "(string \<times> document_metadata list) list"
  mk_notifications :: "(int \<times> notification_record) list"
  mk_executions :: "(string \<times> execution_result) list"
  mk_effect_targets :: "(string \<times> string) list"
  mk_effect_events :: "string list"

type_synonym 'a mock_op = "(mock_dic, dic_error, 'a) sx"

definition seed_employee :: string where
  "seed_employee = ''EMP-SYNTH-001''"

definition seed_item :: employee_list_item where
  "seed_item = \<lparr>ei_employee_id = seed_employee, ei_display_name = None, ei_first_name = None,
     ei_last_name = None, ei_display_name_redacted = ''A. E.'',
     ei_email_redacted = Some ''a***@example.invalid'', ei_tax_code_redacted = Some ''************000X'',
     ei_job_title = Some ''Synthetic tester'', ei_group_name = Some ''Quality'',
     ei_payroll_number = Some ''SYN-001'', ei_contract_label = Some ''Contratto indeterminato'',
     ei_contract_state = Some ''active'', ei_contract_period = Some ''dal 2024-01-01'',
     ei_schedule_model = Some ''Full time synthetic'', ei_workplace = Some ''Synthetic office'',
     ei_account_state = ACCOUNT_CONNECTED, ei_employee_state = EMPLOYEE_ACTIVE,
     ei_current_contract_valid_from = None, ei_current_contract_valid_to = None\<rparr>"

definition seed_summary :: employee_summary where
  "seed_summary = \<lparr>es_employee_id = seed_employee, es_first_name_redacted = Some ''A.'',
     es_last_name_redacted = Some ''E.'', es_payroll_number = Some ''SYN-001'',
     es_tax_code_redacted = Some ''************000X'', es_birth_date_redacted = Some ''****-**-01'',
     es_iban_redacted = Some ''IT** **** **** **** **** ***'', es_job_title = Some ''Synthetic tester'',
     es_phone_redacted = Some ''+39 *** *** 0000'', es_business_email_redacted = Some ''a***@example.invalid'',
     es_address_redacted = Some ''[REDACTED]'', es_workplace = Some ''Synthetic office'',
     es_notes_redacted = Some ''[REDACTED]'', es_state = EMPLOYEE_ACTIVE\<rparr>"

definition seed_raw_summary :: "(string \<times> string) list" where
  "seed_raw_summary =
     [(''first_name'', ''Alice''), (''last_name'', ''Example''), (''payroll_number'', ''SYN-001''),
      (''tax_code'', ''SYNTHETIC000X''), (''birth_date'', ''2000-01-01''),
      (''iban'', ''IT00SYNTHETIC0000000000000''), (''job_title'', ''Synthetic tester''),
      (''phone'', ''+390000000000''), (''business_email'', ''alice@example.invalid''),
      (''address'', ''Synthetic address''), (''workplace'', ''Synthetic office''),
      (''notes'', ''Synthetic notes'')]"

definition seed_contract :: contract_record where
  "seed_contract = \<lparr>cr_contract_id = ''CON-SYNTH-001'', cr_employee_id = seed_employee,
     cr_stable_identifier = True, cr_actionable = True, cr_schedule = Some ''40h'',
     cr_flexibility = Some ''none'', cr_permanent = Some True, cr_start_date = Some ''2024-01-01'',
     cr_end_date = None, cr_ccnl_level = Some ''Synthetic level'', cr_work_regime = Some ''full-time'',
     cr_description = Some ''Synthetic contract'', cr_contract_type = Some ''indeterminato'',
     cr_status = Some ''active'', cr_period = Some ''2024-present''\<rparr>"

definition seed_balance_line :: balance_line where
  "seed_balance_line = \<lparr>bl_category = ''Ferie'', bl_counter_id = None, bl_month = None, bl_balance = None,
     bl_maturation = None, bl_utilization = None, bl_projection = None, bl_previous_year = Some ''0'',
     bl_previous_month = Some ''8'', bl_accrued = Some ''4'', bl_used = Some ''2'',
     bl_corrections = Some ''0'', bl_current_residual = Some ''10''\<rparr>"

definition seed :: "bytes \<Rightarrow> mock_dic" where
  "seed state_digest_key = \<lparr>mk_state_digest_key = state_digest_key, mk_closed = False,
     mk_authenticated = True, mk_items = [(seed_employee, seed_item)],
     mk_summaries = [(seed_employee, seed_summary)],
     mk_raw_summaries = [(seed_employee, seed_raw_summary)],
     mk_contracts = [(seed_employee, [seed_contract])],
     mk_roles = [(seed_employee, \<lparr>ro_employee_id = seed_employee, ro_groups = [''Quality''],
       ro_roles = [\<lparr>ra_name = ''Employee'', ra_enabled = True\<rparr>]\<rparr>)],
     mk_time_access = [(seed_employee, \<lparr>ta_employee_id = seed_employee, ta_timestamping_enabled = Some True,
       ta_attendance_sheet_access = Some True, ta_shift_management = Some False,
       ta_expense_access = Some False\<rparr>)],
     mk_maturations = [(seed_employee, [\<lparr>mr_maturation_id = ''MAT-SYNTH-001'',
       mr_employee_id = seed_employee, mr_category = ''Ferie'', mr_valid_from = Some ''2026-01-01'',
       mr_valid_to = Some ''2026-12-31'', mr_status = Some ''valid''\<rparr>])],
     mk_balances = [((seed_employee, 2026), \<lparr>br_employee_id = seed_employee, br_year = 2026,
       br_lines = [seed_balance_line]\<rparr>)],
     mk_balance_corrections = [((seed_employee, 2026, 8, ''ferie''), ''0'')],
     mk_payrolls = [(seed_employee, [\<lparr>pm_payroll_id = ''PAY-SYNTH-001'', pm_employee_id = seed_employee,
       pm_year = 2026, pm_month = Some 1, pm_status = Some ''published'',
       pm_published_at = Some ''2026-02-01'', pm_net_cents = None, pm_attachment_filename = None,
       pm_attachment_url = None\<rparr>])],
     mk_documents = [(seed_employee, [\<lparr>dm_document_id = ''DOC-SYNTH-001'', dm_employee_id = seed_employee,
       dm_stable_identifier = True, dm_actionable = True,
       dm_title_redacted = ''Documento sintetico [REDACTED]'', dm_category = Some ''CV'',
       dm_expiry_date = None, dm_uploaded_at = Some ''2026-01-15'', dm_uploaded_by_redacted = Some ''A. A.'',
       dm_state = DOC_UPLOADED\<rparr>])],
     mk_notifications = [(1, \<lparr>nr_notification_id = 1, nr_notification_type = ''synthetic'',
       nr_text = ''Notifica DIC sintetica'', nr_additional_text = None,
       nr_created_at = ''2026-08-20T10:00:00+00:00'', nr_read = False\<rparr>)],
     mk_executions = [], mk_effect_targets = [], mk_effect_events = []\<rparr>"

text \<open>\<open>__init__\<close>; without a key, the digest of a constant is the key.\<close>

definition new_mock :: "bytes \<Rightarrow> bytes option \<Rightarrow> dic_error + mock_dic" where
  "new_mock synthetic_key state_digest_key =
     (case state_digest_key of
        None \<Rightarrow> Inr (seed synthetic_key)
      | Some key \<Rightarrow> if length key < 32
          then Inl (DicConfigurationError ''DIC state digest key must contain at least 32 bytes'')
          else Inr (seed key))"

section \<open>Reads\<close>

definition require_open :: "mock_dic \<Rightarrow> dic_error option" where
  "require_open s = (if mk_closed s then Some (DicValidationError ''mock adapter is closed'') else None)"

definition require_employee :: "mock_dic \<Rightarrow> string \<Rightarrow> dic_error option" where
  "require_employee s employee_id =
     (if map_of (mk_items s) employee_id = None then Some (DicNotFoundError ''employee not found'') else None)"

text \<open>A read of an employee: the employee exists, or it is an error; the tables stay as they are.\<close>

definition employee_read :: "string \<Rightarrow> (mock_dic \<Rightarrow> dic_error + 'a) \<Rightarrow> 'a mock_op" where
  "employee_read employee_id f s =
     ((case require_employee s employee_id of Some e \<Rightarrow> Inl e | None \<Rightarrow> f s), s)"

definition ensure_authenticated :: "session_state mock_op" where
  "ensure_authenticated s =
     (case require_open s of Some e \<Rightarrow> (Inl e, s)
      | None \<Rightarrow> (Inr SESSION_AUTHENTICATED, s\<lparr>mk_authenticated := True\<rparr>))"

definition session_status :: "mock_dic \<Rightarrow> session_state" where
  "session_status s = (if mk_authenticated s then SESSION_AUTHENTICATED else SESSION_MISSING)"

record health_status =
  hs_ready :: bool
  hs_authenticated :: bool
  hs_browser_available :: bool
  hs_detail :: string

definition health :: "mock_dic \<Rightarrow> health_status" where
  "health s = \<lparr>hs_ready = \<not> mk_closed s, hs_authenticated = mk_authenticated s,
     hs_browser_available = False, hs_detail = ''synthetic mock adapter''\<rparr>"

definition query_matches :: "string \<Rightarrow> employee_list_item \<Rightarrow> bool" where
  "query_matches needle item =
     (contains_text needle (py_casefold (ei_employee_id item))
      \<or> contains_text needle (py_casefold (ei_display_name_redacted item))
      \<or> (case ei_payroll_number item of None \<Rightarrow> False | Some n \<Rightarrow> contains_text needle (py_casefold n)))"

definition selected_items :: "mock_dic \<Rightarrow> employee_list_query \<Rightarrow> employee_list_item list" where
  "selected_items s query = (let
       items = map snd (mk_items s);
       items = (case eq_employee_filter query of
           FILTER_ACTIVE \<Rightarrow> filter (\<lambda>i. ei_employee_state i = EMPLOYEE_ACTIVE) items
         | FILTER_INACTIVE \<Rightarrow> filter (\<lambda>i. ei_employee_state i = EMPLOYEE_INACTIVE) items
         | FILTER_ALL \<Rightarrow> items)
     in case eq_query query of
          None \<Rightarrow> items
        | Some text \<Rightarrow> if text = [] then items else filter (query_matches (py_casefold text)) items)"

definition or_empty :: "string option \<Rightarrow> string" where
  "or_empty v = (case v of None \<Rightarrow> [] | Some s \<Rightarrow> s)"

definition sort_text :: "employee_sort \<Rightarrow> employee_list_item \<Rightarrow> string" where
  "sort_text by item = (case by of
       SORT_NAME \<Rightarrow> py_casefold (ei_display_name_redacted item)
     | SORT_PAYROLL_NUMBER \<Rightarrow> py_casefold (or_empty (ei_payroll_number item))
     | SORT_STATUS \<Rightarrow> employee_state_text (ei_employee_state item)
     | SORT_CONTRACT \<Rightarrow> py_casefold (or_empty (ei_contract_label item)))"

text \<open>\<open>items.sort(key=..., reverse=...)\<close>: stable in both directions.\<close>

definition stable_sort :: "('a \<Rightarrow> 'k::linorder) \<Rightarrow> bool \<Rightarrow> 'a list \<Rightarrow> 'a list" where
  "stable_sort key descending items =
     (if descending then rev (sort_key key (rev items)) else sort_key key items)"

definition sorted_items :: "mock_dic \<Rightarrow> employee_list_query \<Rightarrow> employee_list_item list" where
  "sorted_items s query = stable_sort (sort_text (eq_sort_by query)) (eq_sort_direction query = SORT_DESC)
     (selected_items s query)"

definition list_employees :: "employee_list_query \<Rightarrow> employee_list_result mock_op" where
  "list_employees query s =
     (case require_open s of Some e \<Rightarrow> (Inl e, s)
      | None \<Rightarrow> (let
            items = sorted_items s query;
            start = (eq_page query - 1) * eq_page_size query
          in (Inr \<lparr>el_items = take (nat (eq_page_size query)) (drop (nat start) items),
                el_page = eq_page query, el_page_size = eq_page_size query, el_total = int (length items),
                el_has_next = start + eq_page_size query < int (length items)\<rparr>, s)))"

definition find_key :: "('k \<times> 'v) list \<Rightarrow> 'k \<Rightarrow> ('k \<Rightarrow> string) \<Rightarrow> dic_error + 'v" where
  "find_key table k text = (case map_of table k of None \<Rightarrow> Inl (PyKeyError (text k)) | Some v \<Rightarrow> Inr v)"

definition get_list :: "(string \<times> 'v list) list \<Rightarrow> string \<Rightarrow> 'v list" where
  "get_list table k = (case map_of table k of None \<Rightarrow> [] | Some vs \<Rightarrow> vs)"

definition get_employee_summary :: "string \<Rightarrow> employee_summary mock_op" where
  "get_employee_summary employee_id = employee_read employee_id (\<lambda>s. find_key (mk_summaries s) employee_id id)"

definition get_contracts :: "string \<Rightarrow> contract_record list mock_op" where
  "get_contracts employee_id = employee_read employee_id (\<lambda>s. Inr (get_list (mk_contracts s) employee_id))"

definition get_roles :: "string \<Rightarrow> roles_result mock_op" where
  "get_roles employee_id = employee_read employee_id (\<lambda>s. Inr (case map_of (mk_roles s) employee_id of
       None \<Rightarrow> \<lparr>ro_employee_id = employee_id, ro_groups = [], ro_roles = []\<rparr> | Some r \<Rightarrow> r))"

definition get_time_access :: "string \<Rightarrow> time_access_result mock_op" where
  "get_time_access employee_id = employee_read employee_id (\<lambda>s. Inr (case map_of (mk_time_access s) employee_id of
       None \<Rightarrow> \<lparr>ta_employee_id = employee_id, ta_timestamping_enabled = None,
         ta_attendance_sheet_access = None, ta_shift_management = None, ta_expense_access = None\<rparr>
     | Some r \<Rightarrow> r))"

definition get_maturations :: "string \<Rightarrow> maturation_record list mock_op" where
  "get_maturations employee_id = employee_read employee_id (\<lambda>s. Inr (get_list (mk_maturations s) employee_id))"

text \<open>The default of \<open>get\<close> is built first, so a year out of range is an error.\<close>

definition balance_of :: "mock_dic \<Rightarrow> string \<Rightarrow> int \<Rightarrow> dic_error + balance_result" where
  "balance_of s employee_id year =
     (if year < 2000 \<or> 2200 < year then Inl (ModelValidationError ''year'')
      else Inr (case map_of (mk_balances s) (employee_id, year) of
          None \<Rightarrow> \<lparr>br_employee_id = employee_id, br_year = year, br_lines = []\<rparr> | Some r \<Rightarrow> r))"

definition get_balance :: "string \<Rightarrow> int \<Rightarrow> balance_result mock_op" where
  "get_balance employee_id year = employee_read employee_id (\<lambda>s. balance_of s employee_id year)"

definition folded :: "string \<Rightarrow> string" where
  "folded s = py_casefold (py_strip s)"

definition get_balance_correction_state ::
  "string \<Rightarrow> int \<Rightarrow> int \<Rightarrow> string \<Rightarrow> balance_correction_state mock_op" where
  "get_balance_correction_state employee_id year month category = employee_read employee_id (\<lambda>s.
     if \<not> (1 \<le> month \<and> month \<le> 12) then Inl (DicValidationError ''month must be between 1 and 12'')
     else res_bind (balance_of s employee_id year) (\<lambda>balance.
       case filter (\<lambda>line. folded (bl_category line) = folded category) (br_lines balance) of
         [line] \<Rightarrow>
           (case map_of (mk_balance_corrections s) (employee_id, year, month, folded category) of
              None \<Rightarrow> Inl (DicValidationError ''balance month/category correction is unavailable'')
            | Some current \<Rightarrow>
                (case canonical_decimal_text current 9 4 of
                   None \<Rightarrow> Inl (DicValueError ''decimal value must use canonical base-10 notation'')
                 | Some text \<Rightarrow>
                     if bl_category line = [] then Inl (ModelValidationError ''category'')
                     else Inr \<lparr>bc_employee_id = employee_id, bc_year = year, bc_month = month,
                       bc_category = bl_category line, bc_current_value = text\<rparr>))
       | _ \<Rightarrow> Inl (DicValidationError ''balance category must identify exactly one row'')))"

definition get_payroll_metadata :: "string \<Rightarrow> int option \<Rightarrow> payroll_metadata list mock_op" where
  "get_payroll_metadata employee_id year = employee_read employee_id (\<lambda>s. Inr
     (filter (\<lambda>r. case year of None \<Rightarrow> True | Some y \<Rightarrow> pm_year r = y) (get_list (mk_payrolls s) employee_id)))"

definition list_notifications :: "notification_list_result mock_op" where
  "list_notifications s =
     (case require_open s of Some e \<Rightarrow> (Inl e, s)
      | None \<Rightarrow> (let items = stable_sort (\<lambda>r. (nr_created_at r, nr_notification_id r)) True
            (map snd (mk_notifications s))
          in (if 5000 < length items then Inl (ModelValidationError ''total'')
              else Inr \<lparr>nl_items = items, nl_total = int (length items)\<rparr>, s)))"

definition document_selected :: "document_query \<Rightarrow> document_metadata \<Rightarrow> bool" where
  "document_selected query r =
     ((case dq_state query of None \<Rightarrow> True | Some st \<Rightarrow> dm_state r = st)
      \<and> (case dq_category query of None \<Rightarrow> True | Some c \<Rightarrow> c = [] \<or> dm_category r = Some c)
      \<and> (case dq_query query of None \<Rightarrow> True
         | Some q \<Rightarrow> q = [] \<or> contains_text (py_casefold q) (py_casefold (dm_title_redacted r))))"

definition get_document_metadata :: "string \<Rightarrow> document_query \<Rightarrow> document_metadata list mock_op" where
  "get_document_metadata employee_id query = employee_read employee_id (\<lambda>s. Inr
     (filter (document_selected query) (get_list (mk_documents s) employee_id)))"

definition close :: "unit mock_op" where
  "close s = (Inr (), s\<lparr>mk_closed := True\<rparr>)"

end
