(* ===== verification/MockWrites.thy ===== *)
theory MockWrites
  imports MockDic
begin

text \<open>
  The writes of the mock adapter (\<open>execute_prepared\<close>, its postconditions, \<open>reconcile\<close> and the state
  digest of \<^verbatim>\<open>dic/mock.py\<close>). The tables an operation changed before it raised stay changed. A loop
  over a set of field names follows the order of the list here, which decides only which of several
  errors is raised. HMAC-SHA256, as hexadecimal text, is an argument.
\<close>

section \<open>Parameters and comparisons\<close>

definition MOCK_EMPLOYEE_FIELDS :: "string list" where
  "MOCK_EMPLOYEE_FIELDS = [''first_name'', ''last_name'', ''payroll_number'', ''tax_code'', ''birth_date'',
     ''iban'', ''job_title'', ''phone'', ''business_email'', ''address'', ''workplace'', ''notes'']"

definition CONTRACT_FIELDS :: "string list" where
  "CONTRACT_FIELDS = [''schedule'', ''flexibility'', ''permanent'', ''start_date'', ''end_date'',
     ''ccnl_level'', ''work_regime'', ''description'', ''contract_type'']"

definition UPLOAD_INTERNAL_FIELDS :: "string list" where
  "UPLOAD_INTERNAL_FIELDS = [''safe_local_path'', ''safe_local_sha256'', ''safe_local_size'', ''detected_mime'']"

definition MUTATING_FUNCTIONS :: "string list" where
  "MUTATING_FUNCTIONS = filter (\<lambda>f. case get_function_spec f of None \<Rightarrow> False | Some spec \<Rightarrow> fs_adapter_managed spec)
     WRITE_FUNCTION_IDS"

definition FORBIDDEN_FUNCTIONS :: "string list" where
  "FORBIDDEN_FUNCTIONS = map fst (filter (\<lambda>(k, spec). fs_adapter_managed spec \<and> fs_destructive spec
     \<and> \<not> fs_expose_to_model spec) FUNCTION_CATALOG)"

text \<open>\<open>f"{key!r}"\<close> and \<open>f"{sorted(names)}"\<close> of parameter names, which need no escape.\<close>

definition quoted :: "string \<Rightarrow> string" where
  "quoted s = CHR 0x27 # s @ [CHR 0x27]"

fun comma_separated :: "string list \<Rightarrow> string" where
  "comma_separated [] = []"
| "comma_separated [s] = s"
| "comma_separated (s # t # ss) = s @ '', '' @ comma_separated (t # ss)"

definition names_text :: "string list \<Rightarrow> string" where
  "names_text names = CHR ''['' # comma_separated (map quoted (sort names)) @ '']''"

abbreviation parameter :: "dic_action \<Rightarrow> string \<Rightarrow> py_value option" where
  "parameter a key \<equiv> map_of (da_parameters a) key"

abbreviation parameter_names :: "dic_action \<Rightarrow> string list" where
  "parameter_names a \<equiv> map fst (da_parameters a)"

definition blank_error :: "string \<Rightarrow> dic_error" where
  "blank_error key = DicValidationError (''parameter '' @ quoted key @ '' must be a non-empty string'')"

definition string_parameter :: "dic_action \<Rightarrow> string \<Rightarrow> bool \<Rightarrow> dic_error + string option" where
  "string_parameter a key required = (let value = (case parameter a key of None \<Rightarrow> PNone | Some v \<Rightarrow> v) in
     if value = PNone \<and> \<not> required then Inr None
     else case value of
       PStr s \<Rightarrow> if py_strip s = [] then Inl (blank_error key) else Inr (Some (py_strip s))
     | _ \<Rightarrow> Inl (blank_error key))"

text \<open>\<open>cast(str, ...)\<close> of a required parameter.\<close>

definition required_string :: "dic_action \<Rightarrow> string \<Rightarrow> dic_error + string" where
  "required_string a key = res_bind (string_parameter a key True) (\<lambda>v. Inr (or_empty v))"

text \<open>\<open>==\<close> of a field of a record, which is a text, a flag or \<open>None\<close>, with a JSON value.\<close>

fun field_equals :: "py_value \<Rightarrow> py_value \<Rightarrow> bool" where
  "field_equals (PBool b) (PInt i) = (i = (if b then 1 else 0))"
| "field_equals (PBool b) (PFloat (FiniteFloat t)) = (t \<in> (if b then {''1.0''} else {''0.0'', ''-0.0''}))"
| "field_equals a b = (a = b)"

definition matches :: "py_value \<Rightarrow> py_value \<Rightarrow> bool" where
  "matches actual expected = (case (actual, expected) of
       (PStr a, PStr b) \<Rightarrow> folded a = folded b
     | _ \<Rightarrow> field_equals actual expected)"

definition optional_value :: "string option \<Rightarrow> py_value" where
  "optional_value v = (case v of None \<Rightarrow> PNone | Some s \<Rightarrow> PStr s)"

text \<open>\<open>raw.get(key)\<close> and \<open>getattr(record, key)\<close>.\<close>

definition raw_value :: "(string \<times> string) list \<Rightarrow> string \<Rightarrow> py_value" where
  "raw_value raw key = optional_value (map_of raw key)"

definition contract_attributes :: "contract_record \<Rightarrow> (string \<times> py_value) list" where
  "contract_attributes r =
     [(''contract_id'', PStr (cr_contract_id r)), (''employee_id'', PStr (cr_employee_id r)),
      (''stable_identifier'', PBool (cr_stable_identifier r)), (''actionable'', PBool (cr_actionable r)),
      (''schedule'', optional_value (cr_schedule r)), (''flexibility'', optional_value (cr_flexibility r)),
      (''permanent'', case cr_permanent r of None \<Rightarrow> PNone | Some b \<Rightarrow> PBool b),
      (''start_date'', optional_value (cr_start_date r)), (''end_date'', optional_value (cr_end_date r)),
      (''ccnl_level'', optional_value (cr_ccnl_level r)),
      (''work_regime'', optional_value (cr_work_regime r)),
      (''description'', optional_value (cr_description r)),
      (''contract_type'', optional_value (cr_contract_type r)), (''status'', optional_value (cr_status r)),
      (''period'', optional_value (cr_period r))]"

definition maturation_attributes :: "maturation_record \<Rightarrow> (string \<times> py_value) list" where
  "maturation_attributes r =
     [(''maturation_id'', PStr (mr_maturation_id r)), (''employee_id'', PStr (mr_employee_id r)),
      (''category'', PStr (mr_category r)), (''valid_from'', optional_value (mr_valid_from r)),
      (''valid_to'', optional_value (mr_valid_to r)), (''status'', optional_value (mr_status r))]"

definition document_attributes :: "document_metadata \<Rightarrow> (string \<times> py_value) list" where
  "document_attributes r =
     [(''document_id'', PStr (dm_document_id r)), (''employee_id'', PStr (dm_employee_id r)),
      (''stable_identifier'', PBool (dm_stable_identifier r)), (''actionable'', PBool (dm_actionable r)),
      (''title_redacted'', PStr (dm_title_redacted r)), (''category'', optional_value (dm_category r)),
      (''expiry_date'', optional_value (dm_expiry_date r)),
      (''uploaded_at'', optional_value (dm_uploaded_at r)),
      (''uploaded_by_redacted'', optional_value (dm_uploaded_by_redacted r)),
      (''state'', PStr (document_state_text (dm_state r)))]"

definition attribute_matches :: "(string \<times> py_value) list \<Rightarrow> string \<times> py_value \<Rightarrow> dic_error + bool" where
  "attribute_matches attributes = (\<lambda>(key, value). case map_of attributes key of
     None \<Rightarrow> Inl (PyAttributeError key) | Some actual \<Rightarrow> Inr (matches actual value))"

section \<open>Employees\<close>

definition set_employee_state :: "string \<Rightarrow> employee_state \<Rightarrow> unit mock_op" where
  "set_employee_state employee_id st s =
     (case map_of (mk_items s) employee_id of None \<Rightarrow> (Inl (PyKeyError employee_id), s)
      | Some item \<Rightarrow> (let s = s\<lparr>mk_items := AList.update employee_id (item\<lparr>ei_employee_state := st\<rparr>) (mk_items s)\<rparr> in
          case map_of (mk_summaries s) employee_id of None \<Rightarrow> (Inl (PyKeyError employee_id), s)
          | Some summary \<Rightarrow> (Inr (), s\<lparr>mk_summaries :=
              AList.update employee_id (summary\<lparr>es_state := st\<rparr>) (mk_summaries s)\<rparr>)))"

definition set_account_state :: "string \<Rightarrow> account_state \<Rightarrow> unit mock_op" where
  "set_account_state employee_id st s =
     (case map_of (mk_items s) employee_id of None \<Rightarrow> (Inl (PyKeyError employee_id), s)
      | Some item \<Rightarrow> (Inr (), s\<lparr>mk_items :=
          AList.update employee_id (item\<lparr>ei_account_state := st\<rparr>) (mk_items s)\<rparr>))"

definition raw_text :: "(string \<times> string) list \<Rightarrow> string \<Rightarrow> dic_error + string" where
  "raw_text raw key = find_key raw key id"

text \<open>\<open>f"{raw[key][0].upper()}."\<close> and \<open>raw[key][-n:]\<close>\<close>

definition raw_initial :: "(string \<times> string) list \<Rightarrow> string \<Rightarrow> dic_error + string" where
  "raw_initial raw key = res_bind (raw_text raw key) (\<lambda>s. case s of
     [] \<Rightarrow> Inl PyIndexError | c # _ \<Rightarrow> Inr (py_upper [c] @ ''.''))"

definition last_chars :: "nat \<Rightarrow> string \<Rightarrow> string" where
  "last_chars n s = drop (length s - n) s"

definition masked_tail :: "nat \<Rightarrow> string \<Rightarrow> string" where
  "masked_tail n s = replicate n CHR ''*'' @ last_chars 4 s"

text \<open>The summary and the list item that an update writes, from the raw texts.\<close>

definition updated_summary :: "(string \<times> string) list \<Rightarrow> employee_summary \<Rightarrow> dic_error + employee_summary" where
  "updated_summary raw summary =
     res_bind (raw_initial raw ''first_name'') (\<lambda>first_initial.
     res_bind (raw_initial raw ''last_name'') (\<lambda>last_initial.
     res_bind (raw_text raw ''payroll_number'') (\<lambda>payroll_number.
     res_bind (raw_text raw ''tax_code'') (\<lambda>tax_code.
     res_bind (raw_text raw ''birth_date'') (\<lambda>birth_date.
     res_bind (raw_text raw ''iban'') (\<lambda>iban.
     res_bind (raw_text raw ''job_title'') (\<lambda>job_title.
     res_bind (raw_text raw ''phone'') (\<lambda>phone.
     res_bind (raw_text raw ''workplace'') (\<lambda>workplace.
     new_employee_summary (summary\<lparr>
       es_first_name_redacted := Some first_initial, es_last_name_redacted := Some last_initial,
       es_payroll_number := Some payroll_number, es_tax_code_redacted := Some (masked_tail 12 tax_code),
       es_birth_date_redacted := Some (''****-**-'' @ last_chars 2 birth_date),
       es_iban_redacted := Some (masked_tail 22 iban), es_job_title := Some job_title,
       es_phone_redacted := Some (masked_tail 8 phone),
       es_business_email_redacted := Some ''***@example.invalid'',
       es_address_redacted := Some ''[REDACTED]'', es_workplace := Some workplace,
       es_notes_redacted := Some ''[REDACTED]''\<rparr>))))))))))"

definition updated_item :: "(string \<times> string) list \<Rightarrow> employee_list_item \<Rightarrow> dic_error + employee_list_item" where
  "updated_item raw item =
     res_bind (raw_initial raw ''first_name'') (\<lambda>first_initial.
     res_bind (raw_initial raw ''last_name'') (\<lambda>last_initial.
     res_bind (raw_text raw ''tax_code'') (\<lambda>tax_code.
     res_bind (raw_text raw ''job_title'') (\<lambda>job_title.
     res_bind (raw_text raw ''payroll_number'') (\<lambda>payroll_number.
     res_bind (raw_text raw ''workplace'') (\<lambda>workplace.
     new_employee_list_item (item\<lparr>
       ei_display_name_redacted := first_initial @ '' '' @ last_initial,
       ei_email_redacted := Some ''***@example.invalid'',
       ei_tax_code_redacted := Some (masked_tail 12 tax_code), ei_job_title := Some job_title,
       ei_payroll_number := Some payroll_number, ei_workplace := Some workplace\<rparr>)))))))"

text \<open>The loop over the parameters writes each text into the raw table as it goes.\<close>

fun update_raw :: "string \<Rightarrow> py_mapping \<Rightarrow> unit mock_op" where
  "update_raw employee_id [] s = (Inr (), s)"
| "update_raw employee_id ((key, value) # rest) s =
     (case value of
        PStr text \<Rightarrow>
          if py_strip text = [] then (Inl (blank_error key), s)
          else update_raw employee_id rest (s\<lparr>mk_raw_summaries := AList.update employee_id
            (AList.update key (py_strip text) (get_list (mk_raw_summaries s) employee_id)) (mk_raw_summaries s)\<rparr>)
      | _ \<Rightarrow> (Inl (blank_error key), s))"

definition raw_matches :: "(string \<times> string) list \<Rightarrow> string \<times> py_value \<Rightarrow> bool" where
  "raw_matches raw = (\<lambda>(key, value). matches (raw_value raw key) value)"

definition execute_update :: "dic_action \<Rightarrow> string \<Rightarrow> unit mock_op" where
  "execute_update a employee_id =
     (let unknown = filter (\<lambda>k. k \<notin> set MOCK_EMPLOYEE_FIELDS) (parameter_names a) in
     if unknown \<noteq> [] then sx_raise (DicValidationError (''unsupported employee fields: '' @ names_text unknown))
     else if da_parameters a = []
     then sx_raise (DicValidationError ''employee update requires at least one field'')
     else sx_bind (\<lambda>s. (find_key (mk_raw_summaries s) employee_id id, s)) (\<lambda>raw.
       if list_all (raw_matches raw) (da_parameters a)
       then sx_raise (DicValidationError ''employee update would not change state'')
       else sx_bind (update_raw employee_id (da_parameters a)) (\<lambda>_.
         sx_bind (\<lambda>s. (find_key (mk_summaries s) employee_id id, s)) (\<lambda>summary.
         sx_bind (\<lambda>s. (updated_summary (get_list (mk_raw_summaries s) employee_id) summary, s)) (\<lambda>summary.
         sx_bind (sx_modify (\<lambda>s. s\<lparr>mk_summaries := AList.update employee_id summary (mk_summaries s)\<rparr>)) (\<lambda>_.
         sx_bind (\<lambda>s. (find_key (mk_items s) employee_id id, s)) (\<lambda>item.
         sx_bind (\<lambda>s. (updated_item (get_list (mk_raw_summaries s) employee_id) item, s)) (\<lambda>item.
         sx_modify (\<lambda>s. s\<lparr>mk_items := AList.update employee_id item (mk_items s)\<rparr>)))))))))"

definition add_event :: "string \<Rightarrow> unit mock_op" where
  "add_event key = sx_modify (\<lambda>s. s\<lparr>mk_effect_events := List.insert key (mk_effect_events s)\<rparr>)"

definition add_target :: "string \<Rightarrow> string \<Rightarrow> unit mock_op" where
  "add_target key target = sx_modify (\<lambda>s. s\<lparr>mk_effect_targets := AList.update key target (mk_effect_targets s)\<rparr>)"

definition role_named :: "string \<Rightarrow> role_assignment \<Rightarrow> bool" where
  "role_named name r = (py_casefold (ra_name r) = py_casefold name)"

definition positions :: "('a \<Rightarrow> bool) \<Rightarrow> 'a list \<Rightarrow> nat list" where
  "positions P xs = filter (\<lambda>i. P (xs ! i)) [0..<length xs]"

definition execute_role :: "dic_action \<Rightarrow> string \<Rightarrow> unit mock_op" where
  "execute_role a employee_id =
     (if set (parameter_names a) \<noteq> {''role_name'', ''enabled''}
      then sx_raise (DicValidationError ''role update requires only role_name and enabled'')
      else sx_bind (sx_lift (required_string a ''role_name'')) (\<lambda>role_name.
        case parameter a ''enabled'' of
          Some (PBool enabled) \<Rightarrow>
            sx_bind (\<lambda>s. (find_key (mk_roles s) employee_id id, s)) (\<lambda>current.
              case positions (role_named role_name) (ro_roles current) of
                [i] \<Rightarrow>
                  if ra_enabled (ro_roles current ! i) = enabled
                  then sx_raise (DicValidationError ''role state already matches requested value'')
                  else sx_modify (\<lambda>s. s\<lparr>mk_roles := AList.update employee_id
                    \<lparr>ro_employee_id = employee_id, ro_groups = ro_groups current,
                      ro_roles = (ro_roles current)[i := \<lparr>ra_name = ra_name (ro_roles current ! i),
                        ra_enabled = enabled\<rparr>]\<rparr> (mk_roles s)\<rparr>)
              | _ \<Rightarrow> sx_raise (DicValidationError ''role_name must identify exactly one role''))
        | _ \<Rightarrow> sx_raise (DicValidationError ''enabled must be boolean'')))"

definition drop_employee :: "string \<Rightarrow> mock_dic \<Rightarrow> mock_dic" where
  "drop_employee e s = s\<lparr>
     mk_items := AList.delete e (mk_items s), mk_summaries := AList.delete e (mk_summaries s),
     mk_raw_summaries := AList.delete e (mk_raw_summaries s), mk_contracts := AList.delete e (mk_contracts s),
     mk_roles := AList.delete e (mk_roles s), mk_time_access := AList.delete e (mk_time_access s),
     mk_maturations := AList.delete e (mk_maturations s), mk_payrolls := AList.delete e (mk_payrolls s),
     mk_documents := AList.delete e (mk_documents s),
     mk_balances := filter (\<lambda>(k, _). fst k \<noteq> e) (mk_balances s),
     mk_balance_corrections := filter (\<lambda>(k, _). fst k \<noteq> e) (mk_balance_corrections s)\<rparr>"

definition PARAMETERLESS :: "string list" where
  "PARAMETERLESS = [''EMP-CONNECT-001'', ''EMP-CONNECT-002'', ''EMP-INVITE-001'', ''EMP-INVITE-002'',
     ''EMP-STATUS-001'', ''EMP-STATUS-002'', ''EMP-DELETE-001'']"

definition execute_employee_write :: "dic_action \<Rightarrow> string \<Rightarrow> unit mock_op" where
  "execute_employee_write a e = (let f = da_function_id a in
     if f \<in> set PARAMETERLESS \<and> da_parameters a \<noteq> []
     then sx_raise (DicValidationError ''action does not accept parameters'')
     else if f = ''EMP-UPDATE-001'' then execute_update a e
     else if f = ''EMP-CONNECT-001'' then set_account_state e ACCOUNT_CONNECTED
     else if f = ''EMP-CONNECT-002'' then set_account_state e ACCOUNT_NOT_CONNECTED
     else if f = ''EMP-INVITE-001'' then
       sx_bind (set_account_state e ACCOUNT_INVITED) (\<lambda>_. add_event (da_idempotency_key a))
     else if f = ''EMP-INVITE-002'' then set_account_state e ACCOUNT_NOT_CONNECTED
     else if f = ''EMP-STATUS-001'' then set_employee_state e EMPLOYEE_INACTIVE
     else if f = ''EMP-STATUS-002'' then set_employee_state e EMPLOYEE_ACTIVE
     else if f = ''EMP-RBAC-002'' then execute_role a e
     else if f = ''EMP-DELETE-001'' then sx_modify (drop_employee e)
     else sx_return ())"

end
