(* ===== verification/MockExecution.thy ===== *)
theory MockExecution
  imports MockWrites
begin

text \<open>
  The writes of the mock adapter that create or change related records, the postconditions, and the
  calls of the adapter itself: \<open>execute_prepared\<close>, \<open>reconcile\<close> and \<open>get_state_digest\<close>.
\<close>

section \<open>Creation\<close>

definition present_text :: "string \<Rightarrow> string option" where
  "present_text s = (if s = [] then None else Some s)"

fun create_texts :: "dic_action \<Rightarrow> string list \<Rightarrow> dic_error + (string \<times> string) list" where
  "create_texts a [] = Inr []"
| "create_texts a (key # keys) = res_bind (string_parameter a key False) (\<lambda>v.
     res_bind (create_texts a keys) (\<lambda>raw. Inr ((key, or_empty v) # raw)))"

definition upper_prefix :: "nat \<Rightarrow> dic_action \<Rightarrow> string" where
  "upper_prefix n a = py_upper (take n (da_request_fingerprint a))"

definition created_id :: "dic_action \<Rightarrow> string" where
  "created_id a = ''EMP-MOCK-'' @ upper_prefix 8 a"

definition masked_text :: "nat \<Rightarrow> string \<Rightarrow> string option" where
  "masked_text n s = (if s = [] then None else Some (masked_tail n s))"

definition created_item :: "string \<Rightarrow> (string \<times> string) list \<Rightarrow> dic_error + employee_list_item" where
  "created_item employee_id raw =
     res_bind (raw_initial raw ''first_name'') (\<lambda>first_initial.
     res_bind (raw_initial raw ''last_name'') (\<lambda>last_initial.
     res_bind (raw_text raw ''business_email'') (\<lambda>business_email.
     res_bind (raw_text raw ''tax_code'') (\<lambda>tax_code.
     res_bind (raw_text raw ''job_title'') (\<lambda>job_title.
     res_bind (raw_text raw ''payroll_number'') (\<lambda>payroll_number.
     res_bind (raw_text raw ''workplace'') (\<lambda>workplace.
     new_employee_list_item \<lparr>ei_employee_id = employee_id, ei_display_name = None, ei_first_name = None,
       ei_last_name = None, ei_display_name_redacted = first_initial @ '' '' @ last_initial,
       ei_email_redacted = (if business_email = [] then None else Some ''***@example.invalid''),
       ei_tax_code_redacted = masked_text 12 tax_code, ei_job_title = present_text job_title,
       ei_group_name = None, ei_payroll_number = present_text payroll_number, ei_contract_label = None,
       ei_contract_state = None, ei_contract_period = None, ei_schedule_model = None,
       ei_workplace = present_text workplace, ei_account_state = ACCOUNT_NOT_CONNECTED,
       ei_employee_state = EMPLOYEE_ACTIVE, ei_current_contract_valid_from = None,
       ei_current_contract_valid_to = None\<rparr>)))))))"

definition created_summary :: "string \<Rightarrow> (string \<times> string) list \<Rightarrow> dic_error + employee_summary" where
  "created_summary employee_id raw =
     res_bind (raw_initial raw ''first_name'') (\<lambda>first_initial.
     res_bind (raw_initial raw ''last_name'') (\<lambda>last_initial.
     res_bind (raw_text raw ''payroll_number'') (\<lambda>payroll_number.
     res_bind (raw_text raw ''tax_code'') (\<lambda>tax_code.
     res_bind (raw_text raw ''birth_date'') (\<lambda>birth_date.
     res_bind (raw_text raw ''iban'') (\<lambda>iban.
     res_bind (raw_text raw ''job_title'') (\<lambda>job_title.
     res_bind (raw_text raw ''phone'') (\<lambda>phone.
     res_bind (raw_text raw ''business_email'') (\<lambda>business_email.
     res_bind (raw_text raw ''address'') (\<lambda>address.
     res_bind (raw_text raw ''workplace'') (\<lambda>workplace.
     res_bind (raw_text raw ''notes'') (\<lambda>notes.
     new_employee_summary \<lparr>es_employee_id = employee_id, es_first_name_redacted = Some first_initial,
       es_last_name_redacted = Some last_initial, es_payroll_number = present_text payroll_number,
       es_tax_code_redacted = masked_text 12 tax_code,
       es_birth_date_redacted = (if birth_date = [] then None
         else Some (''****-**-'' @ last_chars 2 birth_date)),
       es_iban_redacted = masked_text 22 iban, es_job_title = present_text job_title,
       es_phone_redacted = masked_text 8 phone,
       es_business_email_redacted = (if business_email = [] then None else Some ''***@example.invalid''),
       es_address_redacted = (if address = [] then None else Some ''[REDACTED]''),
       es_workplace = present_text workplace,
       es_notes_redacted = (if notes = [] then None else Some ''[REDACTED]''),
       es_state = EMPLOYEE_ACTIVE\<rparr>))))))))))))"

text \<open>The rows of a new employee; the raw texts are written before the item is validated.\<close>

definition create_rows :: "dic_action \<Rightarrow> string \<Rightarrow> string \<Rightarrow> string mock_op" where
  "create_rows a given family s = (let employee_id = created_id a in
     if map_of (mk_items s) employee_id \<noteq> None
     then (Inl (DicValidationError ''employee already exists''), s)
     else sx_bind (sx_lift (create_texts a MOCK_EMPLOYEE_FIELDS)) (\<lambda>raw.
       (let raw = AList.update ''last_name'' family (AList.update ''first_name'' given raw) in
       sx_bind (sx_modify (\<lambda>s. s\<lparr>mk_raw_summaries := AList.update employee_id raw (mk_raw_summaries s)\<rparr>)) (\<lambda>_.
       sx_bind (sx_lift (created_item employee_id raw)) (\<lambda>item.
       sx_bind (sx_modify (\<lambda>s. s\<lparr>mk_items := AList.update employee_id item (mk_items s)\<rparr>)) (\<lambda>_.
       sx_bind (sx_lift (created_summary employee_id raw)) (\<lambda>summary.
       sx_bind (sx_modify (\<lambda>s. s\<lparr>mk_summaries := AList.update employee_id summary (mk_summaries s)\<rparr>)) (\<lambda>_.
       sx_return employee_id))))))) s)"

definition execute_create :: "dic_action \<Rightarrow> string mock_op" where
  "execute_create a =
     (let unknown = filter (\<lambda>k. k \<notin> set (''creation_mode'' # MOCK_EMPLOYEE_FIELDS)) (parameter_names a) in
     if unknown \<noteq> [] then sx_raise (DicValidationError (''unsupported create fields: '' @ names_text unknown))
     else if \<not> (case parameter a ''creation_mode'' of None \<Rightarrow> True | Some v \<Rightarrow> v = PStr ''manual'')
     then sx_raise (DicValidationError ''only deterministic manual creation is implemented'')
     else sx_bind (sx_lift (required_string a ''first_name'')) (\<lambda>given.
       sx_bind (sx_lift (required_string a ''last_name'')) (\<lambda>family.
       create_rows a given family)))"

section \<open>Contracts\<close>

definition set_contract_field :: "string \<Rightarrow> py_value \<Rightarrow> contract_record \<Rightarrow> contract_record" where
  "set_contract_field key v r = (case v of
       PBool b \<Rightarrow> r\<lparr>cr_permanent := Some b\<rparr>
     | PStr s \<Rightarrow>
         if key = ''schedule'' then r\<lparr>cr_schedule := Some s\<rparr>
         else if key = ''flexibility'' then r\<lparr>cr_flexibility := Some s\<rparr>
         else if key = ''start_date'' then r\<lparr>cr_start_date := Some s\<rparr>
         else if key = ''end_date'' then r\<lparr>cr_end_date := Some s\<rparr>
         else if key = ''ccnl_level'' then r\<lparr>cr_ccnl_level := Some s\<rparr>
         else if key = ''work_regime'' then r\<lparr>cr_work_regime := Some s\<rparr>
         else if key = ''description'' then r\<lparr>cr_description := Some s\<rparr>
         else if key = ''contract_type'' then r\<lparr>cr_contract_type := Some s\<rparr>
         else r
     | _ \<Rightarrow> r)"

fun contract_values :: "dic_action \<Rightarrow> string list \<Rightarrow> contract_record \<Rightarrow> dic_error + contract_record" where
  "contract_values a [] r = Inr r"
| "contract_values a (field # rest) r =
     (case parameter a field of
        None \<Rightarrow> contract_values a rest r
      | Some PNone \<Rightarrow> contract_values a rest r
      | Some v \<Rightarrow>
          if field = ''permanent''
          then (case v of PBool b \<Rightarrow> contract_values a rest (set_contract_field field v r)
                | _ \<Rightarrow> Inl (DicValidationError ''permanent must be boolean''))
          else (case v of
                  PStr s \<Rightarrow> if py_strip s = [] then Inl (blank_error field)
                      else contract_values a rest (set_contract_field field v r)
                | _ \<Rightarrow> Inl (blank_error field)))"

text \<open>The mapping an update starts from: the dumped record, or nothing and the default status.\<close>

definition blank_contract :: contract_record where
  "blank_contract = \<lparr>cr_contract_id = [], cr_employee_id = [], cr_stable_identifier = True,
     cr_actionable = True, cr_schedule = None, cr_flexibility = None, cr_permanent = None,
     cr_start_date = None, cr_end_date = None, cr_ccnl_level = None, cr_work_regime = None,
     cr_description = None, cr_contract_type = None, cr_status = Some ''active'', cr_period = None\<rparr>"

text \<open>\<open>parameters.items()\<close> that name a field of a contract.\<close>

definition contract_expected :: "py_mapping \<Rightarrow> py_mapping" where
  "contract_expected ps = filter (\<lambda>(k, v). k \<in> set CONTRACT_FIELDS) ps"

definition contract_unchanged :: "contract_record \<Rightarrow> py_mapping \<Rightarrow> dic_error + bool" where
  "contract_unchanged r ps = all_checked (attribute_matches (contract_attributes r)) (contract_expected ps)"

definition find_contract :: "dic_action \<Rightarrow> contract_record list \<Rightarrow> string option
    \<Rightarrow> dic_error + (nat \<times> contract_record) option" where
  "find_contract a contracts contract_id =
     (case contract_id of
        None \<Rightarrow> Inr None
      | Some c \<Rightarrow>
          (case positions (\<lambda>r. cr_contract_id r = c) contracts of
             [i] \<Rightarrow>
               if \<not> cr_actionable (contracts ! i)
               then Inl (DicNotFoundError ''stable actionable contract not found'')
               else res_bind (contract_unchanged (contracts ! i) (da_parameters a)) (\<lambda>unchanged.
                 if contract_expected (da_parameters a) \<noteq> [] \<and> unchanged
                 then Inl (DicValidationError ''contract update would not change state'')
                 else Inr (Some (i, contracts ! i)))
           | _ \<Rightarrow> Inl (DicNotFoundError ''stable actionable contract not found'')))"

definition execute_contract :: "dic_action \<Rightarrow> string \<Rightarrow> unit mock_op" where
  "execute_contract a e =
     (let unknown = filter (\<lambda>k. k \<notin> set (''contract_id'' # CONTRACT_FIELDS)) (parameter_names a) in
     if unknown \<noteq> [] then sx_raise (DicValidationError (''unsupported contract fields: '' @ names_text unknown))
     else sx_bind (sx_lift (string_parameter a ''contract_id'' False)) (\<lambda>contract_id.
       sx_bind (sx_modify (\<lambda>s. s\<lparr>mk_contracts :=
           AList.update e (get_list (mk_contracts s) e) (mk_contracts s)\<rparr>)) (\<lambda>_. \<lambda>s.
         (let contracts = get_list (mk_contracts s) e in
         sx_bind (sx_lift (find_contract a contracts contract_id)) (\<lambda>existing.
         sx_bind (sx_lift (contract_values a CONTRACT_FIELDS
             (case existing of None \<Rightarrow> blank_contract | Some (i, r) \<Rightarrow> r))) (\<lambda>r.
         sx_bind (sx_lift (new_contract_record (r\<lparr>
             cr_contract_id := (case contract_id of None \<Rightarrow> ''CON-'' @ upper_prefix 12 a | Some c \<Rightarrow> c),
             cr_employee_id := e, cr_stable_identifier := True, cr_actionable := True\<rparr>))) (\<lambda>r.
         sx_bind (sx_modify (\<lambda>s. s\<lparr>mk_contracts := AList.update e
             (case existing of None \<Rightarrow> contracts @ [r] | Some (i, _) \<Rightarrow> contracts[i := r]) (mk_contracts s)\<rparr>)) (\<lambda>_.
         add_target (da_idempotency_key a) (cr_contract_id r))))) s))))"

definition execute_contract_delete :: "dic_action \<Rightarrow> string \<Rightarrow> unit mock_op" where
  "execute_contract_delete a e =
     (if set (parameter_names a) \<noteq> {''contract_id''}
      then sx_raise (DicValidationError ''contract delete requires only contract_id'')
      else sx_bind (sx_lift (required_string a ''contract_id'')) (\<lambda>contract_id. \<lambda>s.
        (let contracts = get_list (mk_contracts s) e;
             remaining = filter (\<lambda>r. cr_contract_id r \<noteq> contract_id) contracts
         in if length remaining = length contracts
            then (Inl (DicNotFoundError ''contract not found''), s)
            else (Inr (), s\<lparr>mk_contracts := AList.update e remaining (mk_contracts s)\<rparr>))))"

section \<open>Maturations, documents and balances\<close>

definition execute_maturation :: "dic_action \<Rightarrow> string \<Rightarrow> unit mock_op" where
  "execute_maturation a e =
     (if \<not> set (parameter_names a) \<subseteq> {''category'', ''valid_from'', ''valid_to''}
      then sx_raise (DicValidationError ''maturation contains unsupported fields'')
      else sx_bind (sx_lift (required_string a ''category'')) (\<lambda>category.
        sx_bind (sx_lift (string_parameter a ''valid_from'' False)) (\<lambda>valid_from.
        sx_bind (sx_lift (string_parameter a ''valid_to'' False)) (\<lambda>valid_to.
        sx_bind (sx_lift (new_maturation_record \<lparr>mr_maturation_id = ''MAT-'' @ upper_prefix 12 a,
            mr_employee_id = e, mr_category = category, mr_valid_from = valid_from,
            mr_valid_to = valid_to, mr_status = Some ''valid''\<rparr>)) (\<lambda>r.
        sx_bind (sx_modify (\<lambda>s. s\<lparr>mk_maturations :=
            AList.update e (get_list (mk_maturations s) e @ [r]) (mk_maturations s)\<rparr>)) (\<lambda>_.
        add_target (da_idempotency_key a) (mr_maturation_id r)))))))"

definition execute_upload :: "dic_action \<Rightarrow> string \<Rightarrow> unit mock_op" where
  "execute_upload a e =
     (if \<not> set (parameter_names a) \<subseteq> set ([''upload_id'', ''category'', ''expiry_date''] @ UPLOAD_INTERNAL_FIELDS)
      then sx_raise (DicValidationError ''document upload contains unsupported metadata'')
      else sx_bind (sx_lift (required_string a ''category'')) (\<lambda>category.
        sx_bind (sx_lift (string_parameter a ''expiry_date'' False)) (\<lambda>expiry_date.
        sx_bind (sx_lift (new_document_metadata \<lparr>dm_document_id = ''DOC-'' @ upper_prefix 12 a,
            dm_employee_id = e, dm_stable_identifier = True, dm_actionable = True,
            dm_title_redacted = ''Documento caricato [REDACTED]'', dm_category = Some category,
            dm_expiry_date = expiry_date, dm_uploaded_at = None, dm_uploaded_by_redacted = None,
            dm_state = DOC_UPLOADED\<rparr>)) (\<lambda>r.
        sx_bind (sx_modify (\<lambda>s. s\<lparr>mk_documents :=
            AList.update e (get_list (mk_documents s) e @ [r]) (mk_documents s)\<rparr>)) (\<lambda>_.
        add_target (da_idempotency_key a) (dm_document_id r))))))"

definition execute_download :: "dic_action \<Rightarrow> string \<Rightarrow> unit mock_op" where
  "execute_download a e =
     (if set (parameter_names a) \<noteq> {''document_id''}
      then sx_raise (DicValidationError ''document download requires only document_id'')
      else sx_bind (sx_lift (required_string a ''document_id'')) (\<lambda>document_id. \<lambda>s.
        if length (filter (\<lambda>r. dm_document_id r = document_id \<and> dm_actionable r) (get_list (mk_documents s) e)) \<noteq> 1
        then (Inl (DicNotFoundError ''stable actionable document not found''), s)
        else add_event (da_idempotency_key a) s))"

definition or_else :: "string option \<Rightarrow> string option \<Rightarrow> string option" where
  "or_else v w = (case v of None \<Rightarrow> w | Some s \<Rightarrow> v)"

definition execute_document_update :: "dic_action \<Rightarrow> string \<Rightarrow> unit mock_op" where
  "execute_document_update a e =
     (if \<not> set (parameter_names a) \<subseteq> {''document_id'', ''category'', ''expiry_date''}
      then sx_raise (DicValidationError ''document update contains unsupported metadata'')
      else if {''category'', ''expiry_date''} \<inter> set (parameter_names a) = {}
      then sx_raise (DicValidationError ''document update requires category or expiry_date'')
      else sx_bind (sx_lift (required_string a ''document_id'')) (\<lambda>document_id.
        sx_bind (sx_lift (string_parameter a ''category'' False)) (\<lambda>category.
        sx_bind (sx_lift (string_parameter a ''expiry_date'' False)) (\<lambda>expiry_date. \<lambda>s.
          (let documents = get_list (mk_documents s) e in
           case positions (\<lambda>r. dm_document_id r = document_id) documents of
             [] \<Rightarrow> (Inl (DicNotFoundError ''document not found''), s)
           | i # _ \<Rightarrow>
               (case new_document_metadata ((documents ! i)\<lparr>
                    dm_category := or_else category (dm_category (documents ! i)),
                    dm_expiry_date := or_else expiry_date (dm_expiry_date (documents ! i))\<rparr>) of
                  Inl err \<Rightarrow> (Inl err, s)
                | Inr r \<Rightarrow> (Inr (), s\<lparr>mk_documents :=
                    AList.update e (documents[i := r]) (mk_documents s)\<rparr>)))))))"

definition execute_document_delete :: "dic_action \<Rightarrow> string \<Rightarrow> unit mock_op" where
  "execute_document_delete a e =
     (if set (parameter_names a) \<noteq> {''document_id''}
      then sx_raise (DicValidationError ''document delete requires only document_id'')
      else sx_bind (sx_lift (required_string a ''document_id'')) (\<lambda>document_id. \<lambda>s.
        (let documents = get_list (mk_documents s) e;
             remaining = filter (\<lambda>r. dm_document_id r \<noteq> document_id) documents
         in if length remaining = length documents
            then (Inl (DicNotFoundError ''document not found''), s)
            else (Inr (), s\<lparr>mk_documents := AList.update e remaining (mk_documents s)\<rparr>))))"

definition decimal_text :: "string \<Rightarrow> dic_error + string" where
  "decimal_text s = (case canonical_decimal_text s 9 4 of
     None \<Rightarrow> Inl (DicValidationError ''balance values must be canonical decimals'') | Some t \<Rightarrow> Inr t)"

text \<open>The tables of a corrected balance: the line of the category and the correction of the month.\<close>

definition correct_balance :: "string \<Rightarrow> int \<Rightarrow> int \<Rightarrow> string \<Rightarrow> string \<Rightarrow> string \<Rightarrow> unit mock_op" where
  "correct_balance e year month category expected amount s =
     (case map_of (mk_balance_corrections s) (e, year, month, py_casefold category) of
        None \<Rightarrow> (Inl (DicValidationError ''balance correction target is unavailable''), s)
      | Some current \<Rightarrow>
          (case canonical_decimal_text current 9 4 of
             None \<Rightarrow> (Inl (DicValueError ''decimal value must use canonical base-10 notation''), s)
           | Some text \<Rightarrow>
               if text \<noteq> expected
               then (Inl (DicValidationError ''balance correction precondition changed''), s)
               else sx_bind (\<lambda>s. (balance_of s e year, s)) (\<lambda>balance.
                 case positions (\<lambda>l. py_casefold (bl_category l) = py_casefold category) (br_lines balance) of
                   [i] \<Rightarrow> sx_modify (\<lambda>s. s\<lparr>
                     mk_balances := AList.update (e, year) \<lparr>br_employee_id = e, br_year = year,
                       br_lines = (br_lines balance)[i := (br_lines balance ! i)\<lparr>bl_corrections := Some amount\<rparr>]\<rparr>
                       (mk_balances s),
                     mk_balance_corrections := AList.update (e, year, month, py_casefold category) amount
                       (mk_balance_corrections s)\<rparr>)
                 | _ \<Rightarrow> sx_raise (DicValidationError ''balance category must identify exactly one row'')) s))"

definition execute_balance :: "dic_action \<Rightarrow> string \<Rightarrow> unit mock_op" where
  "execute_balance a e =
     (if set (parameter_names a) \<noteq> {''year'', ''month'', ''category'', ''previous_value'', ''amount''}
      then sx_raise (DicValidationError ''balance correction parameter set is invalid'')
      else sx_bind (sx_lift (required_string a ''category'')) (\<lambda>category.
        sx_bind (sx_lift (required_string a ''previous_value'')) (\<lambda>previous_value.
        sx_bind (sx_lift (required_string a ''amount'')) (\<lambda>amount.
          case parameter a ''year'' of
            Some (PInt year) \<Rightarrow>
              (case parameter a ''month'' of
                 Some (PInt month) \<Rightarrow>
                   if \<not> (1 \<le> month \<and> month \<le> 12)
                   then sx_raise (DicValidationError ''month must be between 1 and 12'')
                   else sx_bind (sx_lift (decimal_text previous_value)) (\<lambda>expected.
                     sx_bind (sx_lift (decimal_text amount)) (\<lambda>canonical_amount.
                     correct_balance e year month category expected canonical_amount))
               | _ \<Rightarrow> sx_raise (DicValidationError ''month must be between 1 and 12''))
          | _ \<Rightarrow> sx_raise (DicValidationError ''year must be an integer'')))))"

definition execute_related_write :: "dic_action \<Rightarrow> string \<Rightarrow> unit mock_op" where
  "execute_related_write a e = (let f = da_function_id a in
     if f = ''EMP-CONTRACT-002'' then execute_contract a e
     else if f = ''EMP-CONTRACT-003'' then execute_contract_delete a e
     else if f = ''EMP-MAT-002'' then execute_maturation a e
     else if f = ''EMP-DOC-002'' then execute_upload a e
     else if f = ''EMP-BAL-002'' then execute_balance a e
     else if f = ''EMP-DOC-003'' then execute_download a e
     else if f = ''EMP-DOC-004'' then execute_document_update a e
     else if f = ''EMP-DOC-005'' then execute_document_delete a e
     else sx_return ())"

section \<open>Postconditions\<close>

definition without :: "string list \<Rightarrow> py_mapping \<Rightarrow> py_mapping" where
  "without names ps = filter (\<lambda>(k, v). k \<notin> set names) ps"

text \<open>A single record has the attributes the parameters name.\<close>

definition single_matches :: "('r \<Rightarrow> (string \<times> py_value) list) \<Rightarrow> 'r list \<Rightarrow> py_mapping \<Rightarrow> dic_error + bool" where
  "single_matches attributes records ps = (case records of
     [r] \<Rightarrow> all_checked (attribute_matches (attributes r)) ps | _ \<Rightarrow> Inr False)"

definition is_target :: "string option \<Rightarrow> string \<Rightarrow> bool" where
  "is_target target i = (target = Some i)"

text \<open>A deleted identifier, which any JSON value may stand for.\<close>

definition names_record :: "py_value option \<Rightarrow> string \<Rightarrow> bool" where
  "names_record v i = (v = Some (PStr i))"

definition related_postcondition :: "dic_action \<Rightarrow> string \<Rightarrow> mock_dic \<Rightarrow> dic_error + bool" where
  "related_postcondition a e s = (let f = da_function_id a; ps = da_parameters a;
       target = map_of (mk_effect_targets s) (da_idempotency_key a) in
     if f = ''EMP-RBAC-002'' then
       (case (parameter a ''role_name'', parameter a ''enabled'') of
          (Some (PStr role_name), Some (PBool enabled)) \<Rightarrow>
            res_bind (find_key (mk_roles s) e id) (\<lambda>r.
              Inr (length (filter (\<lambda>x. role_named role_name x \<and> ra_enabled x = enabled) (ro_roles r)) = 1))
        | _ \<Rightarrow> Inr False)
     else if f = ''EMP-CONTRACT-002'' then
       single_matches contract_attributes
         (filter (\<lambda>r. is_target target (cr_contract_id r)) (get_list (mk_contracts s) e))
         (without [''contract_id''] ps)
     else if f = ''EMP-CONTRACT-003'' then
       Inr (list_all (\<lambda>r. \<not> names_record (parameter a ''contract_id'') (cr_contract_id r)) (get_list (mk_contracts s) e))
     else if f = ''EMP-MAT-002'' then
       single_matches maturation_attributes
         (filter (\<lambda>r. is_target target (mr_maturation_id r)) (get_list (mk_maturations s) e)) ps
     else if f = ''EMP-BAL-002'' then
       (case (parameter a ''year'', parameter a ''month'', parameter a ''category'') of
          (Some (PInt year), Some (PInt month), Some (PStr category)) \<Rightarrow>
            Inr (case parameter a ''amount'' of
                Some (PStr amount) \<Rightarrow> (case canonical_decimal_text amount 9 4 of None \<Rightarrow> False
                  | Some expected \<Rightarrow> map_of (mk_balance_corrections s) (e, year, month, py_casefold category)
                      = Some expected)
              | _ \<Rightarrow> False)
        | _ \<Rightarrow> Inr False)
     else if f = ''EMP-DOC-002'' then
       single_matches document_attributes
         (filter (\<lambda>r. is_target target (dm_document_id r)) (get_list (mk_documents s) e))
         (without (''upload_id'' # UPLOAD_INTERNAL_FIELDS) ps)
     else if f = ''EMP-DOC-003'' then Inr (da_idempotency_key a \<in> set (mk_effect_events s))
     else if f = ''EMP-DOC-004'' then
       single_matches document_attributes
         (filter (\<lambda>r. names_record (parameter a ''document_id'') (dm_document_id r)) (get_list (mk_documents s) e))
         (without [''document_id''] ps)
     else if f = ''EMP-DOC-005'' then
       Inr (list_all (\<lambda>r. \<not> names_record (parameter a ''document_id'') (dm_document_id r)) (get_list (mk_documents s) e))
     else Inr False)"

definition account_postcondition :: "string \<Rightarrow> account_state option" where
  "account_postcondition f =
     (if f = ''EMP-CONNECT-001'' then Some ACCOUNT_CONNECTED
      else if f = ''EMP-CONNECT-002'' \<or> f = ''EMP-INVITE-002'' then Some ACCOUNT_NOT_CONNECTED else None)"

definition employee_postcondition :: "string \<Rightarrow> employee_state option" where
  "employee_postcondition f =
     (if f = ''EMP-STATUS-001'' then Some EMPLOYEE_INACTIVE
      else if f = ''EMP-STATUS-002'' then Some EMPLOYEE_ACTIVE else None)"

definition notification_postcondition :: "dic_action \<Rightarrow> mock_dic \<Rightarrow> bool" where
  "notification_postcondition a s =
     (case (parameter a ''notification_id'', parameter a ''read'') of
        (Some (PInt n), Some (PBool is_read)) \<Rightarrow>
          (case map_of (mk_notifications s) n of None \<Rightarrow> False | Some r \<Rightarrow> nr_read r = is_read)
      | _ \<Rightarrow> False)"

definition create_postcondition :: "dic_action \<Rightarrow> mock_dic \<Rightarrow> bool" where
  "create_postcondition a s =
     (case map_of (mk_effect_targets s) (da_idempotency_key a) of
        None \<Rightarrow> False
      | Some target \<Rightarrow> (case map_of (mk_raw_summaries s) target of
            None \<Rightarrow> False
          | Some raw \<Rightarrow> list_all (raw_matches raw) (without [''creation_mode''] (da_parameters a))))"

definition postcondition_applied :: "dic_action \<Rightarrow> mock_dic \<Rightarrow> dic_error + bool" where
  "postcondition_applied a s = (let f = da_function_id a in
     if f = ''EMP-NOTIF-002'' then Inr (notification_postcondition a s)
     else if f = ''EMP-CREATE-001'' then Inr (create_postcondition a s)
     else if f = ''EMP-EXPORT-001'' then Inr (da_idempotency_key a \<in> set (mk_effect_events s))
     else case da_employee_id a of
       None \<Rightarrow> Inr False
     | Some e \<Rightarrow>
         (case map_of (mk_items s) e of
            None \<Rightarrow> Inr (f = ''EMP-DELETE-001'')
          | Some item \<Rightarrow>
              if f = ''EMP-DELETE-001'' then Inr False
              else if f = ''EMP-UPDATE-001'' then
                res_bind (find_key (mk_raw_summaries s) e id) (\<lambda>raw.
                  Inr (list_all (raw_matches raw) (da_parameters a)))
              else if account_postcondition f \<noteq> None then Inr (Some (ei_account_state item) = account_postcondition f)
              else if f = ''EMP-INVITE-001''
              then Inr (da_idempotency_key a \<in> set (mk_effect_events s) \<and> ei_account_state item = ACCOUNT_INVITED)
              else if employee_postcondition f \<noteq> None
              then Inr (Some (ei_employee_state item) = employee_postcondition f)
              else related_postcondition a e s))"

end
