(* ===== verification/MockAdapter.thy ===== *)
theory MockAdapter
  imports MockExecution
begin

text \<open>
  The calls of the mock adapter: \<open>execute_prepared\<close>, \<open>reconcile\<close> and \<open>get_state_digest\<close>. The marker that
  tells whether a write changed anything is the JSON value whose text the code compares. HMAC-SHA256,
  as hexadecimal text, is an argument.
\<close>

section \<open>The state marker\<close>

definition keyed :: "('v \<Rightarrow> json) \<Rightarrow> (string \<times> 'v) list \<Rightarrow> json" where
  "keyed f table = JObj (map (\<lambda>(k, v). (k, f v)) table)"

definition listed :: "('v \<Rightarrow> json) \<Rightarrow> 'v list \<Rightarrow> json" where
  "listed f vs = JList (map f vs)"

definition correction_entry :: "(string \<times> int \<times> int \<times> string) \<times> string \<Rightarrow> json" where
  "correction_entry = (\<lambda>((e, year, month, category), value).
     JList [JList [JStr e, JInt year, JInt month, JStr category], JStr value])"

definition state_marker :: "mock_dic \<Rightarrow> json" where
  "state_marker s = json_canon (JObj
     [(''items'', keyed employee_list_item_json (mk_items s)),
      (''summaries'', keyed employee_summary_json (mk_summaries s)),
      (''raw_summaries'', keyed (keyed JStr) (mk_raw_summaries s)),
      (''contracts'', keyed (listed contract_record_json) (mk_contracts s)),
      (''roles'', keyed roles_result_json (mk_roles s)),
      (''maturations'', keyed (listed maturation_record_json) (mk_maturations s)),
      (''documents'', keyed (listed document_metadata_json) (mk_documents s)),
      (''notifications'', keyed notification_record_json
        (map (\<lambda>(n, r). (int_text n, r)) (mk_notifications s))),
      (''corrections'', listed correction_entry (sort_key fst (mk_balance_corrections s))),
      (''events'', listed JStr (sort (mk_effect_events s)))])"

section \<open>Executing a prepared action\<close>

definition execute_notification :: "dic_action \<Rightarrow> unit mock_op" where
  "execute_notification a s =
     (case (parameter a ''notification_id'', parameter a ''read'') of
        (Some (PInt n), Some (PBool is_read)) \<Rightarrow>
          (case map_of (mk_notifications s) n of
             None \<Rightarrow> (Inl (DicValidationError ''notification state parameters are invalid''), s)
           | Some r \<Rightarrow>
               if nr_read r = is_read
               then (Inl (DicValidationError ''notification already has the requested read state''), s)
               else (Inr (), s\<lparr>mk_notifications := AList.update n (r\<lparr>nr_read := is_read\<rparr>) (mk_notifications s)\<rparr>))
      | _ \<Rightarrow> (Inl (DicValidationError ''notification state parameters are invalid''), s))"

text \<open>The effect of a function, and the details of its result.\<close>

definition apply_effect :: "dic_action \<Rightarrow> (string \<times> string) list mock_op" where
  "apply_effect a = (let f = da_function_id a in
     if f = ''EMP-CREATE-001'' then
       sx_bind (execute_create a) (\<lambda>employee_id.
       sx_bind (add_target (da_idempotency_key a) employee_id) (\<lambda>_.
       sx_return [(''employee_id'', employee_id)]))
     else if f = ''EMP-EXPORT-001'' then
       if \<not> set (parameter_names a) \<subseteq> {''scope'', ''year''}
       then sx_raise (DicValidationError ''export contains unsupported parameters'')
       else sx_bind (add_event (da_idempotency_key a)) (\<lambda>_.
         sx_return [(''artifact_id'', ''EXPORT-'' @ upper_prefix 12 a)])
     else if f = ''EMP-NOTIF-002'' then sx_bind (execute_notification a) (\<lambda>_. sx_return [])
     else case da_employee_id a of
       None \<Rightarrow> sx_raise (DicValidationError ''employee_id is required'')
     | Some e \<Rightarrow> \<lambda>s. (case require_employee s e of
          Some err \<Rightarrow> (Inl err, s)
        | None \<Rightarrow> sx_bind (execute_employee_write a e) (\<lambda>_. sx_bind (execute_related_write a e) (\<lambda>_.
            sx_return (if f = ''EMP-DOC-003''
              then [(''artifact_id'', ''DOCUMENT-'' @ upper_prefix 12 a)] else []))) s))"

text \<open>The postcondition is checked after the effect; a failure leaves the effect in the tables.\<close>

definition verified_effect :: "dic_action \<Rightarrow> (string \<times> string) list mock_op" where
  "verified_effect a = sx_bind (apply_effect a) (\<lambda>details. \<lambda>s.
     (case postcondition_applied a s of
        Inl e \<Rightarrow> (Inl e, s)
      | Inr b \<Rightarrow> if b then (Inr details, s)
          else (Inl (DicValidationError ''synthetic postcondition could not be verified''), s)))"

definition effect_changed :: "dic_action \<Rightarrow> mock_dic \<Rightarrow> mock_dic \<Rightarrow> bool" where
  "effect_changed a s s' = (state_marker s' \<noteq> state_marker s
     \<and> da_function_id a \<notin> {''EMP-DOC-003'', ''EMP-EXPORT-001''})"

definition succeeded :: "dic_action \<Rightarrow> bool \<Rightarrow> (string \<times> string) list \<Rightarrow> execution_result" where
  "succeeded a changed details = \<lparr>er_action_id = da_action_id a, er_function_id = da_function_id a,
     er_status = OP_SUCCEEDED, er_changed = changed, er_postcondition_verified = True,
     er_message = (if changed then ''synthetic operation applied'' else ''synthetic protected artifact prepared''),
     er_correlation_id = da_correlation_id a, er_details = details\<rparr>"

definition execute_prepared :: "dic_action \<Rightarrow> execution_result mock_op" where
  "execute_prepared a s =
     (case require_open s of
        Some e \<Rightarrow> (Inl e, s)
      | None \<Rightarrow>
          (case map_of (mk_executions s) (da_idempotency_key a) of
             Some result \<Rightarrow> (Inr result, s)
           | None \<Rightarrow>
               if da_function_id a \<notin> set (MUTATING_FUNCTIONS @ FORBIDDEN_FUNCTIONS)
               then (Inl (DicValidationError ''read functions cannot be executed as prepared writes''), s)
               else (case verified_effect a s of
                   (Inl e, s') \<Rightarrow> (Inl e, s')
                 | (Inr details, s') \<Rightarrow>
                     (let result = succeeded a (effect_changed a s s') details in
                      (Inr result, s'\<lparr>mk_executions :=
                        AList.update (da_idempotency_key a) result (mk_executions s')\<rparr>)))))"

definition reconcile :: "dic_action \<Rightarrow> mock_dic \<Rightarrow> dic_error + reconciliation_result" where
  "reconcile a s =
     (case map_of (mk_executions s) (da_idempotency_key a) of
        None \<Rightarrow> Inr \<lparr>rr_action_id = da_action_id a, rr_state = REC_CONFIRMED_NOT_APPLIED,
          rr_detail = ''idempotency key has no synthetic execution''\<rparr>
      | Some _ \<Rightarrow> res_bind (postcondition_applied a s) (\<lambda>verified.
          Inr \<lparr>rr_action_id = da_action_id a,
            rr_state = (if verified then REC_CONFIRMED_APPLIED else REC_UNKNOWN),
            rr_detail = (if verified then ''synthetic postcondition is currently present''
              else ''synthetic state no longer proves the recorded postcondition'')\<rparr>))"

section \<open>The digest of the state of a resource\<close>

definition SUMMARY_STATE_FUNCTIONS :: "string list" where
  "SUMMARY_STATE_FUNCTIONS = [''EMP-UPDATE-001'', ''EMP-CONNECT-001'', ''EMP-CONNECT-002'', ''EMP-INVITE-001'',
     ''EMP-INVITE-002'', ''EMP-STATUS-001'', ''EMP-STATUS-002'', ''EMP-DELETE-001'']"

text \<open>A JSON value as the value a comparison of parameters sees.\<close>

fun of_json :: "json \<Rightarrow> py_value" where
  "of_json JNull = PNone"
| "of_json (JBool b) = PBool b"
| "of_json (JInt i) = PInt i"
| "of_json (JFloat t) = PFloat (if t \<in> {''NaN'', ''Infinity'', ''-Infinity''} then NonFiniteFloat else FiniteFloat t)"
| "of_json (JStr s) = PStr s"
| "of_json (JList vs) = PList (map of_json vs)"
| "of_json (JObj ms) = PDict (map (\<lambda>(k, v). (PStr k, of_json v)) ms)"

definition summary_material :: "mock_dic \<Rightarrow> string \<Rightarrow> string \<Rightarrow> py_mapping \<Rightarrow> dic_error + json" where
  "summary_material s f e ps =
     (case require_employee s e of Some err \<Rightarrow> Inl err
      | None \<Rightarrow> res_bind
          (if f \<noteq> ''EMP-UPDATE-001'' then Inr ()
           else if ps = [] \<or> \<not> set (map fst ps) \<subseteq> set MOCK_EMPLOYEE_FIELDS
           then Inl (DicValidationError ''employee update state cannot be verified'')
           else res_bind (find_key (mk_raw_summaries s) e id) (\<lambda>raw.
             if list_all (raw_matches raw) ps
             then Inl (DicValidationError ''employee update would not change state'') else Inr ())) (\<lambda>_.
          res_bind (find_key (mk_items s) e id) (\<lambda>item.
          res_bind (find_key (mk_raw_summaries s) e id) (\<lambda>raw.
          res_bind (find_key (mk_summaries s) e id) (\<lambda>summary.
            Inr (JObj [(''item'', employee_list_item_json item), (''raw_summary'', keyed JStr raw),
              (''summary'', employee_summary_json summary)]))))))"

definition contract_material :: "mock_dic \<Rightarrow> string \<Rightarrow> string \<Rightarrow> py_mapping \<Rightarrow> dic_error + json" where
  "contract_material s f e ps =
     (case require_employee s e of Some err \<Rightarrow> Inl err
      | None \<Rightarrow> (let contracts = get_list (mk_contracts s) e in res_bind
          (case map_of ps ''contract_id'' of
             Some (PStr contract_id) \<Rightarrow>
               (case filter (\<lambda>r. cr_contract_id r = contract_id) contracts of
                  [r] \<Rightarrow>
                    if \<not> cr_stable_identifier r \<or> \<not> cr_actionable r
                    then Inl (DicValidationError ''contract target is not stable and actionable'')
                    else if f \<noteq> ''EMP-CONTRACT-002'' then Inr ()
                    else if contract_expected ps = []
                    then Inl (DicValidationError ''contract update state cannot be verified'')
                    else res_bind (contract_unchanged r ps) (\<lambda>unchanged.
                      if unchanged then Inl (DicValidationError ''contract update would not change state'')
                      else Inr ())
                | _ \<Rightarrow> Inl (DicValidationError ''contract target is not stable and actionable''))
           | _ \<Rightarrow> Inr ()) (\<lambda>_. Inr (listed contract_record_json contracts))))"

definition document_material :: "mock_dic \<Rightarrow> string \<Rightarrow> py_mapping \<Rightarrow> dic_error + json" where
  "document_material s e ps =
     (case require_employee s e of Some err \<Rightarrow> Inl err
      | None \<Rightarrow> (let documents = get_list (mk_documents s) e in res_bind
          (case map_of ps ''document_id'' of
             Some (PStr document_id) \<Rightarrow>
               (case filter (\<lambda>r. dm_document_id r = document_id) documents of
                  [r] \<Rightarrow> if \<not> dm_stable_identifier r \<or> \<not> dm_actionable r
                    then Inl (DicValidationError ''document target is not stable and actionable'') else Inr ()
                | _ \<Rightarrow> Inl (DicValidationError ''document target is not stable and actionable''))
           | _ \<Rightarrow> Inr ()) (\<lambda>_. Inr (listed document_metadata_json documents))))"

definition employee_material :: "mock_dic \<Rightarrow> string \<Rightarrow> (mock_dic \<Rightarrow> dic_error + json) \<Rightarrow> dic_error + json" where
  "employee_material s e f = (case require_employee s e of Some err \<Rightarrow> Inl err | None \<Rightarrow> f s)"

definition balance_material :: "mock_dic \<Rightarrow> string \<Rightarrow> json" where
  "balance_material s e = JObj
     [(''balances'', JList (map (\<lambda>(k, v). balance_result_json v)
        (filter (\<lambda>(k, v). fst k = e) (sort_key fst (mk_balances s))))),
      (''corrections'', JList (map (\<lambda>((_, year, month, category), value).
          JList [JList [JInt year, JInt month, JStr category], JStr value])
        (filter (\<lambda>(k, v). fst k = e) (sort_key fst (mk_balance_corrections s)))))]"

definition state_material :: "mock_dic \<Rightarrow> string \<Rightarrow> string option \<Rightarrow> py_mapping \<Rightarrow> dic_error + json" where
  "state_material s f employee_id ps =
     (if f = ''EMP-NOTIF-002'' then
        (case (map_of ps ''notification_id'', map_of ps ''read'') of
           (Some (PInt n), Some (PBool _)) \<Rightarrow>
             (case map_of (mk_notifications s) n of
                None \<Rightarrow> Inl (DicValidationError ''notification state parameters are invalid'')
              | Some r \<Rightarrow> Inr (notification_record_json r))
         | _ \<Rightarrow> Inl (DicValidationError ''notification state parameters are invalid''))
      else if f \<in> {''EMP-CREATE-001'', ''EMP-EXPORT-001''} then
        Inr (listed employee_list_item_json (map snd (sort_key fst (mk_items s))))
      else case employee_id of
        None \<Rightarrow> Inl (DicValidationError ''mutation state digest requires employee_id'')
      | Some e \<Rightarrow>
          if f = ''EMP-DELETE-001'' \<and> map_of (mk_items s) e = None
          then Inr (JObj [(''employee_id'', JStr e), (''state'', JStr ''missing'')])
          else if f \<in> set SUMMARY_STATE_FUNCTIONS then summary_material s f e ps
          else if f \<in> {''EMP-CONTRACT-002'', ''EMP-CONTRACT-003''} then contract_material s f e ps
          else if f = ''EMP-MAT-002'' then
            employee_material s e (\<lambda>s. Inr (listed maturation_record_json (get_list (mk_maturations s) e)))
          else if f = ''EMP-BAL-002'' then employee_material s e (\<lambda>s. Inr (balance_material s e))
          else if f = ''EMP-RBAC-002'' then employee_material s e (\<lambda>s.
            res_bind (find_key (mk_roles s) e id) (\<lambda>r. res_bind (find_key (mk_time_access s) e id) (\<lambda>t.
              Inr (JObj [(''roles'', roles_result_json r), (''time_access'', time_access_result_json t)]))))
          else if f \<in> {''EMP-DOC-002'', ''EMP-DOC-003'', ''EMP-DOC-004'', ''EMP-DOC-005''}
          then document_material s e ps
          else Inl (DicValidationError ''function has no mutation state digest plan''))"

definition digest_envelope :: "string \<Rightarrow> string option \<Rightarrow> (string \<times> json) list \<Rightarrow> json \<Rightarrow> json" where
  "digest_envelope f employee_id parameters material = JObj
     [(''employee_id'', json_text employee_id), (''function_id'', JStr f), (''parameters'', JObj parameters),
      (''schema'', JStr ''bh-dic-mock-state-v1''), (''state'', material)]"

definition get_state_digest :: "(bytes \<Rightarrow> bytes \<Rightarrow> string) \<Rightarrow> mock_dic \<Rightarrow> string \<Rightarrow> string option
    \<Rightarrow> (string \<times> json) list \<Rightarrow> dic_error + string" where
  "get_state_digest hmac s f employee_id parameters = (let
       clean = filter (\<lambda>(k, v). k \<notin> set UPLOAD_INTERNAL_FIELDS) parameters
     in res_bind (state_material s f employee_id (map (\<lambda>(k, v). (k, of_json v)) clean)) (\<lambda>material.
       Inr (hmac (mk_state_digest_key s) (utf8 (json_dumps (digest_envelope f employee_id clean material))))))"

section \<open>Runs\<close>

datatype mock_call =
    MockExecute dic_action
  | MockReconcile dic_action
  | MockList employee_list_query
  | MockAuthenticate
  | MockClose

fun mock_step :: "mock_call \<Rightarrow> mock_dic \<Rightarrow> mock_dic" where
  "mock_step (MockExecute a) s = snd (execute_prepared a s)"
| "mock_step (MockReconcile a) s = s"
| "mock_step (MockList q) s = snd (list_employees q s)"
| "mock_step MockAuthenticate s = snd (ensure_authenticated s)"
| "mock_step MockClose s = snd (close s)"

end
