(* ===== verification/MockFrame.thy ===== *)
theory MockFrame
  imports MockAdapter
begin

text \<open>
  What the writes of the mock adapter change. A predicate of the tables that survives a change of the
  rows of one employee survives every operation on that employee: two locales state which changes it has
  to survive, and the operations are walked through once, inside them.
\<close>

section \<open>Rules\<close>

declare keeps_lift [triple_intros]

lemma keeps_read [triple_intros]: "keeps I (\<lambda>s. (f s, s))"
  by (rule keeps_pure) simp

lemma keeps_option [triple_intros]:
  "keeps I m \<Longrightarrow> (\<And>x. keeps I (f x)) \<Longrightarrow> keeps I (case v of None \<Rightarrow> m | Some x \<Rightarrow> f x)"
  by (cases v) simp_all

lemma keeps_single [triple_intros]:
  "keeps I m \<Longrightarrow> (\<And>x. keeps I (f x)) \<Longrightarrow> keeps I (case xs of [] \<Rightarrow> m | [x] \<Rightarrow> f x | x # y # ys \<Rightarrow> m)"
  by (simp split: list.split)

lemma keeps_value [triple_intros]:
  "keeps I m \<Longrightarrow> (\<And>b. keeps I (f b)) \<Longrightarrow> keeps I (case v of PBool b \<Rightarrow> f b | _ \<Rightarrow> m)"
  "keeps I m \<Longrightarrow> (\<And>i. keeps I (g i)) \<Longrightarrow> keeps I (case v of PInt i \<Rightarrow> g i | _ \<Rightarrow> m)"
  by (simp_all split: py_value.split)

lemma keeps_branch: "keeps I m \<Longrightarrow> keeps I (\<lambda>s. if P s then (R s, s) else m s)"
  by (simp add: keeps_snd)

lemma keeps_check: "keeps I m \<Longrightarrow> keeps I (\<lambda>s. case v s of Some x \<Rightarrow> (Inl x, s) | None \<Rightarrow> m s)"
  by (simp add: keeps_snd split: option.split)

lemma keeps_at: "(\<And>s. keeps I (f s)) \<Longrightarrow> keeps I (\<lambda>s. f s s)"
  by (simp add: keeps_snd)

lemmas frame_rules = triple_intros keeps_modify

section \<open>Rows related to an employee\<close>

locale related_frame =
  fixes I :: "mock_dic \<Rightarrow> bool" and k :: string
  assumes contracts: "I s \<Longrightarrow> I (s\<lparr>mk_contracts := AList.update k c (mk_contracts s)\<rparr>)"
    and roles: "I s \<Longrightarrow> I (s\<lparr>mk_roles := AList.update k r (mk_roles s)\<rparr>)"
    and maturations: "I s \<Longrightarrow> I (s\<lparr>mk_maturations := AList.update k m (mk_maturations s)\<rparr>)"
    and documents: "I s \<Longrightarrow> I (s\<lparr>mk_documents := AList.update k d (mk_documents s)\<rparr>)"
    and balances: "I s \<Longrightarrow> I (s\<lparr>mk_balances := AList.update (k, y) b (mk_balances s),
      mk_balance_corrections := AList.update (k, y, month, category) t (mk_balance_corrections s)\<rparr>)"
    and targets: "I s \<Longrightarrow> I (s\<lparr>mk_effect_targets := ts\<rparr>)"
    and events: "I s \<Longrightarrow> I (s\<lparr>mk_effect_events := evs\<rparr>)"
    and notifications: "I s \<Longrightarrow> I (s\<lparr>mk_notifications := ns\<rparr>)"
begin

lemma add_event: "keeps I (add_event key)"
  unfolding add_event_def by (intro keeps_modify events)

lemma add_target: "keeps I (add_target key target)"
  unfolding add_target_def by (intro keeps_modify targets)

lemma role: "keeps I (execute_role a k)"
  unfolding execute_role_def by (intro frame_rules roles)

lemma contract: "keeps I (execute_contract a k)"
  unfolding execute_contract_def Let_def
  by (intro frame_rules keeps_at [where f = "\<lambda>s. sx_bind (F s) (G s)" for F G] add_target contracts)

lemma contract_delete: "keeps I (execute_contract_delete a k)"
  unfolding execute_contract_delete_def
  by (intro frame_rules) (auto simp: keeps_snd Let_def intro: contracts)

lemma maturation: "keeps I (execute_maturation a k)"
  unfolding execute_maturation_def by (intro frame_rules add_target maturations)

lemma upload: "keeps I (execute_upload a k)"
  unfolding execute_upload_def by (intro frame_rules add_target documents)

lemma download: "keeps I (execute_download a k)"
  unfolding execute_download_def by (intro frame_rules keeps_branch add_event)

lemma document_update: "keeps I (execute_document_update a k)"
  unfolding execute_document_update_def
  by (intro frame_rules) (auto simp: keeps_snd Let_def intro: documents split: list.split sum.split)

lemma document_delete: "keeps I (execute_document_delete a k)"
  unfolding execute_document_delete_def
  by (intro frame_rules) (auto simp: keeps_snd Let_def intro: documents)

lemma correction: "keeps I (correct_balance k y month category expected amount)"
  unfolding correct_balance_def keeps_snd
  by (simp add: sx_defs balances split: option.split sum.split list.split)

lemma balance: "keeps I (execute_balance a k)"
  unfolding execute_balance_def by (intro frame_rules correction)

lemma related_write: "keeps I (execute_related_write a k)"
  unfolding execute_related_write_def Let_def
  by (intro triple_if triple_return contract contract_delete maturation upload balance download document_update
      document_delete)

lemma notification: "keeps I (execute_notification a)"
  unfolding execute_notification_def keeps_snd
  by (simp add: notifications split: option.split py_value.split)

end

section \<open>The rows of an employee\<close>

locale employee_frame = related_frame +
  assumes items: "I s \<Longrightarrow> I (s\<lparr>mk_items := AList.update k i (mk_items s)\<rparr>)"
    and summaries: "I s \<Longrightarrow> I (s\<lparr>mk_summaries := AList.update k es (mk_summaries s)\<rparr>)"
    and raw_summaries: "I s \<Longrightarrow> I (s\<lparr>mk_raw_summaries := AList.update k rs (mk_raw_summaries s)\<rparr>)"
    and dropped: "I s \<Longrightarrow> I (drop_employee k s)"
begin

lemma raw_update: "keeps I (update_raw k ps)"
proof (induction ps)
  case (Cons p ps)
  obtain key v where p: "p = (key, v)" by (cases p)
  from Cons show ?case unfolding p keeps_snd by (cases v) (simp_all add: raw_summaries)
qed (simp add: keeps_snd)

lemma account_state: "keeps I (set_account_state k st)"
  unfolding set_account_state_def keeps_snd by (simp add: items split: option.split)

lemma employee_state: "keeps I (set_employee_state k st)"
  unfolding set_employee_state_def keeps_snd Let_def
  by (simp add: items summaries [OF items, simplified] split: option.split)

lemma update: "keeps I (execute_update a k)"
  unfolding execute_update_def Let_def by (intro frame_rules raw_update summaries items)

lemma employee_write: "keeps I (execute_employee_write a k)"
  unfolding execute_employee_write_def Let_def
  by (intro frame_rules account_state employee_state update role add_event dropped)

lemma create:
  assumes "created_id a = k"
  shows "keeps I (execute_create a)"
proof -
  have "keeps I (create_rows a given family)" for given family
    unfolding create_rows_def [abs_def] Let_def assms
    by (intro frame_rules keeps_branch raw_summaries items summaries)
  then show ?thesis unfolding execute_create_def Let_def by (intro frame_rules)
qed

text \<open>The employee a write is about: its target, or the one it creates.\<close>

lemma effect:
  assumes "if da_function_id a = ''EMP-CREATE-001'' then created_id a = k
    else case da_employee_id a of None \<Rightarrow> True | Some e \<Rightarrow> e = k"
  shows "keeps I (apply_effect a)"
proof (cases "da_function_id a = ''EMP-CREATE-001''")
  case True
  with assms have "created_id a = k" by simp
  with True show ?thesis
    unfolding apply_effect_def Let_def by (simp, intro frame_rules create add_target)
next
  case False
  show ?thesis
  proof (cases "da_employee_id a")
    case None
    show ?thesis unfolding apply_effect_def Let_def None option.case if_not_P [OF False]
      by (intro frame_rules notification add_event)
  next
    case (Some e)
    with False assms have e: "e = k" by simp
    show ?thesis unfolding apply_effect_def Let_def Some option.case if_not_P [OF False] e
      by (intro triple_if keeps_bind keeps_check triple_return triple_raise notification add_event
          employee_write related_write)
  qed
qed

end

text \<open>What an effect keeps, the check of its postcondition keeps.\<close>

lemma keeps_verified: "keeps I (apply_effect a) \<Longrightarrow> keeps I (verified_effect a)"
  unfolding verified_effect_def
  by (intro triple_intros) (simp_all add: keeps_snd split: sum.split)

text \<open>The rows an effect is about when its function has no target are no one's.\<close>

definition about :: "dic_action \<Rightarrow> string" where
  "about a = (if da_function_id a = ''EMP-CREATE-001'' then created_id a else or_empty (da_employee_id a))"

lemma effect_about:
  assumes "employee_frame I (about a)"
  shows "keeps I (verified_effect a)"
  by (rule keeps_verified, rule employee_frame.effect [OF assms])
    (simp add: about_def or_empty_def split: option.split)

end
