(* ===== verification/MockProperties.thy ===== *)
theory MockProperties
  imports MockFrame
begin

text \<open>
  What the mock adapter promises its client: a write touches its own employee only, an idempotency key
  takes effect once, reconciliation tells the truth about a recorded execution, and a listing is complete.
\<close>

section \<open>A concrete run\<close>

text \<open>The seeded employee is put out of service, and a colleague is created.\<close>

definition demo_write :: "string \<Rightarrow> string option \<Rightarrow> py_mapping \<Rightarrow> string \<Rightarrow> dic_action" where
  "demo_write function_id employee_id parameters idempotency_key = \<lparr>
     da_action_id = ''00000000-0000-4000-8000-000000000000'', da_function_id = function_id,
     da_employee_id = employee_id, da_parameters = parameters, da_idempotency_key = idempotency_key,
     da_correlation_id = ''correlation'', da_request_fingerprint = replicate 64 CHR ''a'', da_preview = [],
     da_required_approvals = 1, da_created_at = 0, da_expires_at = 1\<rparr>"

definition demo_deactivate :: dic_action where
  "demo_deactivate = demo_write ''EMP-STATUS-001'' (Some seed_employee) [] ''key-00001''"

definition demo_create :: dic_action where
  "demo_create = demo_write ''EMP-CREATE-001'' None
     [(''first_name'', PStr ''Bruno''), (''last_name'', PStr ''Verdi'')] ''key-00002''"

definition demo_run :: "mock_call list" where
  "demo_run = [MockExecute demo_deactivate, MockExecute demo_create]"

lemma ok_execute: "ok (execute_prepared a s) \<longleftrightarrow> \<not> mk_closed s
    \<and> (map_of (mk_executions s) (da_idempotency_key a) \<noteq> None
       \<or> da_function_id a \<in> set (MUTATING_FUNCTIONS @ FORBIDDEN_FUNCTIONS) \<and> ok (verified_effect a s))"
  by (cases "verified_effect a s"; cases "fst (verified_effect a s)")
    (auto simp: execute_prepared_def require_open_def Let_def split: option.split)

lemma demo_functions: "set [''EMP-STATUS-001'', ''EMP-CREATE-001''] \<subseteq> set (MUTATING_FUNCTIONS @ FORBIDDEN_FUNCTIONS)"
  by code_simp

lemma demo_deactivate_ok: "ok (execute_prepared demo_deactivate (seed []))"
proof -
  have "ok (verified_effect demo_deactivate (seed []))" by code_simp
  with demo_functions show ?thesis unfolding ok_execute
    by (simp add: seed_def demo_deactivate_def demo_write_def)
qed

lemma demo_create_ok: "ok (execute_prepared demo_create (seed []))"
proof -
  have "ok (verified_effect demo_create (seed []))" by code_simp
  with demo_functions show ?thesis unfolding ok_execute
    by (simp add: seed_def demo_create_def demo_write_def)
qed

section \<open>A write touches its own employee only\<close>

record employee_data =
  ed_item :: "employee_list_item option"
  ed_summary :: "employee_summary option"
  ed_raw :: "(string \<times> string) list option"
  ed_contracts :: "contract_record list"
  ed_roles :: "roles_result option"
  ed_time_access :: "time_access_result option"
  ed_maturations :: "maturation_record list"
  ed_balances :: "((string \<times> int) \<times> balance_result) list"
  ed_corrections :: "((string \<times> int \<times> int \<times> string) \<times> string) list"
  ed_payrolls :: "payroll_metadata list"
  ed_documents :: "document_metadata list"

text \<open>All that the tables hold of one employee.\<close>

definition employee_data :: "string \<Rightarrow> mock_dic \<Rightarrow> employee_data" where
  "employee_data e s = \<lparr>ed_item = map_of (mk_items s) e, ed_summary = map_of (mk_summaries s) e,
     ed_raw = map_of (mk_raw_summaries s) e, ed_contracts = get_list (mk_contracts s) e,
     ed_roles = map_of (mk_roles s) e, ed_time_access = map_of (mk_time_access s) e,
     ed_maturations = get_list (mk_maturations s) e,
     ed_balances = filter (\<lambda>(k, v). fst k = e) (mk_balances s),
     ed_corrections = filter (\<lambda>(k, v). fst k = e) (mk_balance_corrections s),
     ed_payrolls = get_list (mk_payrolls s) e, ed_documents = get_list (mk_documents s) e\<rparr>"

lemma get_list_update: "get_list (AList.update k v al) k' = (if k' = k then v else get_list al k')"
  by (simp add: get_list_def)

lemma filter_update_other:
  "\<not> P k \<Longrightarrow> filter (\<lambda>(k, v). P k) (AList.update k v al) = filter (\<lambda>(k, v). P k) al"
  by (induction al) auto

lemma get_list_delete: "k' \<noteq> k \<Longrightarrow> get_list (AList.delete k al) k' = get_list al k'"
  by (simp add: get_list_def delete_conv')

named_theorems table_simps "what a change of one table leaves of the data of another employee"

lemma table_updates [table_simps]:
  "e \<noteq> k \<Longrightarrow> employee_data e (s\<lparr>mk_items := AList.update k i (mk_items s)\<rparr>) = employee_data e s"
  "e \<noteq> k \<Longrightarrow> employee_data e (s\<lparr>mk_summaries := AList.update k es (mk_summaries s)\<rparr>) = employee_data e s"
  "e \<noteq> k \<Longrightarrow> employee_data e (s\<lparr>mk_raw_summaries := AList.update k rs (mk_raw_summaries s)\<rparr>) = employee_data e s"
  "e \<noteq> k \<Longrightarrow> employee_data e (s\<lparr>mk_contracts := AList.update k c (mk_contracts s)\<rparr>) = employee_data e s"
  "e \<noteq> k \<Longrightarrow> employee_data e (s\<lparr>mk_roles := AList.update k r (mk_roles s)\<rparr>) = employee_data e s"
  "e \<noteq> k \<Longrightarrow> employee_data e (s\<lparr>mk_maturations := AList.update k m (mk_maturations s)\<rparr>) = employee_data e s"
  "e \<noteq> k \<Longrightarrow> employee_data e (s\<lparr>mk_documents := AList.update k d (mk_documents s)\<rparr>) = employee_data e s"
  "e \<noteq> k \<Longrightarrow> employee_data e (s\<lparr>mk_balances := AList.update (k, y) b (mk_balances s),
      mk_balance_corrections := AList.update (k, c2) t (mk_balance_corrections s)\<rparr>) = employee_data e s"
  "employee_data e (s\<lparr>mk_effect_events := ev\<rparr>) = employee_data e s"
  "employee_data e (s\<lparr>mk_effect_targets := ts\<rparr>) = employee_data e s"
  "employee_data e (s\<lparr>mk_executions := ex\<rparr>) = employee_data e s"
  "employee_data e (s\<lparr>mk_notifications := ns\<rparr>) = employee_data e s"
  "e \<noteq> k \<Longrightarrow> employee_data e (drop_employee k s) = employee_data e s"
  by (simp_all add: employee_data_def get_list_update filter_update_other [where P = "\<lambda>k. fst k = e"]
      get_list_delete drop_employee_def delete_conv' filter_filter case_prod_beta conj_commute cong: conj_cong)
    (auto intro!: filter_cong)

interpretation other: employee_frame "\<lambda>s. e \<noteq> k \<longrightarrow> employee_data e s = d" k for e k d
  by unfold_locales (simp_all add: table_simps)

text \<open>C26: Whatever a call of \<open>execute_prepared\<close> ends in, an error included, all that the tables hold of an
  employee other than the one the action targets or creates is as before.
\<close>

theorem write_touches_own_employee:
  assumes "e \<noteq> about a"
  shows "employee_data e (snd (execute_prepared a s)) = employee_data e s"
proof -
  have "keeps (\<lambda>s'. e \<noteq> about a \<longrightarrow> employee_data e s' = employee_data e s) (verified_effect a)"
    by (rule effect_about) (rule other.employee_frame_axioms)
  from keepsD [OF this, of s] assms show ?thesis
    by (simp add: execute_prepared_def require_open_def Let_def case_prod_beta table_simps
        split: option.split sum.split)
qed

theorem write_touches_own_employee_witness:
  "employee_data seed_employee (snd (execute_prepared demo_create (seed []))) = employee_data seed_employee (seed [])"
proof -
  have "seed_employee \<noteq> about demo_create" by code_simp
  then show ?thesis by (rule write_touches_own_employee)
qed

section \<open>An idempotency key takes effect once\<close>

text \<open>What an effect does not touch: the recorded executions, the session and the key of the digest.\<close>

definition adapter_part :: "mock_dic \<Rightarrow> (string \<times> execution_result) list \<times> bool \<times> bool \<times> bytes" where
  "adapter_part s = (mk_executions s, mk_closed s, mk_authenticated s, mk_state_digest_key s)"

interpretation fixed: employee_frame "\<lambda>s. adapter_part s = c" k for c k
  by unfold_locales (simp_all add: adapter_part_def drop_employee_def)

lemma verified_effect_adapter: "adapter_part (snd (verified_effect a s)) = adapter_part s"
proof -
  have "keeps (\<lambda>s'. adapter_part s' = adapter_part s) (verified_effect a)"
    by (rule effect_about) (rule fixed.employee_frame_axioms)
  then show ?thesis by (rule keepsD) simp
qed

lemmas verified_effect_executions = verified_effect_adapter [unfolded adapter_part_def prod.inject]

lemma execute_executions:
  "mk_executions (snd (execute_prepared a s)) = (case execute_prepared a s of
     (Inl e, _) \<Rightarrow> mk_executions s
   | (Inr r, _) \<Rightarrow> if map_of (mk_executions s) (da_idempotency_key a) = None
       then AList.update (da_idempotency_key a) r (mk_executions s) else mk_executions s)"
  using verified_effect_executions [of a s]
  by (simp add: execute_prepared_def require_open_def Let_def case_prod_beta split: option.split sum.split)

lemma recorded_step:
  "map_of (mk_executions s) key = Some r \<Longrightarrow> map_of (mk_executions (mock_step call s)) key = Some r"
  by (cases call) (auto simp: execute_executions list_employees_def ensure_authenticated_def close_def Let_def
      split: option.split sum.split prod.split)

lemma recorded_for_good:
  "map_of (mk_executions s) key = Some r \<Longrightarrow> map_of (mk_executions (fold mock_step calls s)) key = Some r"
  by (induction calls arbitrary: s) (simp_all add: recorded_step)

lemma executed_recorded:
  assumes "execute_prepared a s = (Inr r, s')"
  shows "map_of (mk_executions s') (da_idempotency_key a) = Some r"
  using assms execute_executions [of a s]
  by (auto simp: execute_prepared_def split: option.splits if_splits)

text \<open>C25: Once an action was carried out under an idempotency key, any later call with that key returns the
  recorded result and changes nothing, whatever calls come between.
\<close>

theorem key_takes_effect_once:
  assumes "execute_prepared a s = (Inr r, s1)" and "s2 = fold mock_step calls s1"
    and "da_idempotency_key b = da_idempotency_key a" and "\<not> mk_closed s2"
  shows "execute_prepared b s2 = (Inr r, s2)"
proof -
  from executed_recorded [OF assms(1)] have "map_of (mk_executions s2) (da_idempotency_key b) = Some r"
    unfolding assms(2,3) by (rule recorded_for_good)
  with assms(4) show ?thesis by (simp add: execute_prepared_def require_open_def)
qed

lemma execute_open: "mk_closed (snd (execute_prepared a s)) = mk_closed s"
  using verified_effect_executions [of a s]
  by (simp add: execute_prepared_def require_open_def Let_def case_prod_beta split: option.split sum.split)

theorem key_takes_effect_once_witness:
  "\<exists>r s1. execute_prepared demo_deactivate (seed []) = (Inr r, s1)
     \<and> execute_prepared demo_deactivate (fold mock_step [MockExecute demo_create] s1)
       = (Inr r, fold mock_step [MockExecute demo_create] s1)"
proof -
  from demo_deactivate_ok obtain r s1 where run: "execute_prepared demo_deactivate (seed []) = (Inr r, s1)"
    by (rule ok_cases)
  have "\<not> mk_closed (seed [])" by (simp add: seed_def)
  then have "\<not> mk_closed s1" using execute_open [of demo_deactivate "seed []"] run by simp
  then have "\<not> mk_closed (fold mock_step [MockExecute demo_create] s1)" by (simp add: execute_open)
  from key_takes_effect_once [OF run refl refl this] run show ?thesis by blast
qed

section \<open>Reconciliation\<close>

text \<open>The keys under which a run carried an action out.\<close>

fun carried_out :: "mock_call list \<Rightarrow> mock_dic \<Rightarrow> string set" where
  "carried_out [] s = {}"
| "carried_out (call # calls) s =
     (case call of MockExecute a \<Rightarrow> if ok (execute_prepared a s) then {da_idempotency_key a} else {} | _ \<Rightarrow> {})
     \<union> carried_out calls (mock_step call s)"

lemma recorded_keys_step: "dom (map_of (mk_executions (mock_step call s))) = dom (map_of (mk_executions s))
    \<union> (case call of MockExecute a \<Rightarrow> if ok (execute_prepared a s) then {da_idempotency_key a} else {} | _ \<Rightarrow> {})"
  by (cases call)
    (auto simp: execute_executions list_employees_def ensure_authenticated_def close_def Let_def ok_def
      split: option.splits sum.splits prod.splits)

lemma recorded_keys:
  "dom (map_of (mk_executions (fold mock_step calls s))) = dom (map_of (mk_executions s)) \<union> carried_out calls s"
proof (induction calls arbitrary: s)
  case (Cons call calls)
  then show ?case using recorded_keys_step [of call s] by auto
qed simp

lemma postcondition_recorded:
  "postcondition_applied a (t\<lparr>mk_executions := ex\<rparr>) = postcondition_applied a t"
proof -
  let ?t = "t\<lparr>mk_executions := ex\<rparr>"
  have tables: "mk_items ?t = mk_items t" "mk_raw_summaries ?t = mk_raw_summaries t"
    "mk_contracts ?t = mk_contracts t" "mk_roles ?t = mk_roles t" "mk_maturations ?t = mk_maturations t"
    "mk_balance_corrections ?t = mk_balance_corrections t" "mk_documents ?t = mk_documents t"
    "mk_notifications ?t = mk_notifications t" "mk_effect_targets ?t = mk_effect_targets t"
    "mk_effect_events ?t = mk_effect_events t" by simp_all
  show ?thesis
    unfolding postcondition_applied_def notification_postcondition_def create_postcondition_def
      related_postcondition_def Let_def tables ..
qed

lemma execute_new:
  assumes "execute_prepared a s = (Inr r, s')" "map_of (mk_executions s) (da_idempotency_key a) = None"
  shows "\<exists>details t. verified_effect a s = (Inr details, t)
    \<and> s' = t\<lparr>mk_executions := AList.update (da_idempotency_key a) r (mk_executions t)\<rparr>"
proof -
  obtain v t where v: "verified_effect a s = (v, t)" by (cases "verified_effect a s")
  show ?thesis
  proof (cases v)
    case (Inl e)
    with assms v show ?thesis by (simp add: execute_prepared_def require_open_def split: if_splits)
  next
    case (Inr details)
    with assms v show ?thesis by (intro exI [of _ details] exI [of _ t])
      (simp add: execute_prepared_def require_open_def Let_def split: if_splits, metis)
  qed
qed

lemma executed_postcondition:
  assumes "execute_prepared a s = (Inr r, s')" "map_of (mk_executions s) (da_idempotency_key a) = None"
  shows "postcondition_applied a s' = Inr True"
proof -
  from execute_new [OF assms] obtain details t where t: "verified_effect a s = (Inr details, t)"
    and s': "s' = t\<lparr>mk_executions := AList.update (da_idempotency_key a) r (mk_executions t)\<rparr>" by blast
  from t obtain d u where u: "(case postcondition_applied a u of Inl e \<Rightarrow> (Inl e, u) | Inr b \<Rightarrow> if b
      then (Inr d, u) else (Inl (DicValidationError ''synthetic postcondition could not be verified''), u))
      = (Inr details, t)" unfolding verified_effect_def sx_bind_Inr by blast
  have "postcondition_applied a t = Inr True"
  proof (cases "postcondition_applied a u")
    case (Inr b)
    with u show ?thesis by (cases b) simp_all
  qed (use u in simp)
  then show ?thesis unfolding s' by (simp only: postcondition_recorded)
qed

text \<open>C24: \<open>reconcile\<close> tells the truth. After any run from the seeded tables it answers "not applied" exactly
  when no call of the run carried out an action under the key, "applied" only while the postcondition of
  the action holds, and "applied" right after the first call that carried it out.
\<close>

theorem reconcile_truthful:
  fixes calls :: "mock_call list" and key :: bytes
  defines "s \<equiv> fold mock_step calls (seed key)"
  shows "((\<exists>rr. reconcile a s = Inr rr \<and> rr_state rr = REC_CONFIRMED_NOT_APPLIED)
        \<longleftrightarrow> da_idempotency_key a \<notin> carried_out calls (seed key))
    \<and> (\<forall>rr. reconcile a s = Inr rr \<longrightarrow> rr_state rr = REC_CONFIRMED_APPLIED \<longrightarrow> postcondition_applied a s = Inr True)
    \<and> (\<forall>r s'. execute_prepared a s = (Inr r, s') \<longrightarrow> da_idempotency_key a \<notin> carried_out calls (seed key)
        \<longrightarrow> (\<exists>rr. reconcile a s' = Inr rr \<and> rr_state rr = REC_CONFIRMED_APPLIED))"
proof -
  have "mk_executions (seed key) = []" by (simp add: seed_def)
  then have keys: "map_of (mk_executions s) k = None \<longleftrightarrow> k \<notin> carried_out calls (seed key)" for k
    using arg_cong [OF recorded_keys [of calls "seed key"], of "\<lambda>K. k \<in> K"] unfolding s_def by (auto simp: dom_def)
  have applied: "postcondition_applied a s = Inr True"
    if "reconcile a s = Inr rr" "rr_state rr = REC_CONFIRMED_APPLIED" for rr
    using that by (auto simp: reconcile_def res_bind_Inr split: option.splits if_splits)
  have absent: "(\<exists>rr. reconcile a s = Inr rr \<and> rr_state rr = REC_CONFIRMED_NOT_APPLIED)
      \<longleftrightarrow> map_of (mk_executions s) (da_idempotency_key a) = None"
    by (auto simp: reconcile_def res_bind_Inr split: option.split)
  have "\<exists>rr. reconcile a s' = Inr rr \<and> rr_state rr = REC_CONFIRMED_APPLIED"
    if "execute_prepared a s = (Inr r, s')" "map_of (mk_executions s) (da_idempotency_key a) = None" for r s'
    using executed_postcondition [OF that] executed_recorded [OF that(1)] by (simp add: reconcile_def)
  with applied absent show ?thesis unfolding keys [symmetric] by blast
qed

theorem reconcile_truthful_witness:
  "\<exists>r s' rr. execute_prepared demo_deactivate (seed []) = (Inr r, s')
     \<and> reconcile demo_deactivate s' = Inr rr \<and> rr_state rr = REC_CONFIRMED_APPLIED"
proof -
  from demo_deactivate_ok obtain r s' where "execute_prepared demo_deactivate (seed []) = (Inr r, s')"
    by (rule ok_cases)
  then show ?thesis using reconcile_truthful [of demo_deactivate "[]" "[]"] by auto
qed

section \<open>A created employee has no roles\<close>

text \<open>\<open>get_roles\<close> answers with a default, but a write of its roles ends in a \<open>KeyError\<close>.\<close>

lemma role_write_after_create:
  "fst (verified_effect (demo_write ''EMP-RBAC-002'' (Some (created_id demo_create))
      [(''role_name'', PStr ''Employee''), (''enabled'', PBool True)] ''key-00003'')
    (snd (verified_effect demo_create (seed [])))) = Inl (PyKeyError (created_id demo_create))"
  by code_simp

end
