(* ===== verification/MockListing.thy ===== *)
theory MockListing
  imports MockProperties "HOL-Library.Multiset"
begin

text \<open>
  The invariant of the mock adapter's employee rows, and what follows for the paginated listing of the
  service: over this adapter it is complete.
\<close>

declare map_of_eq_Some_iff [simp del]

section \<open>The rows of an employee belong together\<close>

definition full_raw :: "(string \<times> string) list \<Rightarrow> bool" where
  "full_raw raw = (set MOCK_EMPLOYEE_FIELDS \<subseteq> dom (map_of raw)
     \<and> (\<forall>key\<in>{''first_name'', ''last_name''}. map_of raw key \<noteq> Some []))"

definition row_sound :: "mock_dic \<Rightarrow> string \<Rightarrow> employee_list_item \<Rightarrow> bool" where
  "row_sound s k item = (ei_employee_id item = k \<and> employee_id_syntax k \<and> map_of (mk_summaries s) k \<noteq> None
     \<and> (\<exists>raw. map_of (mk_raw_summaries s) k = Some raw \<and> full_raw raw))"

definition tables_sound :: "mock_dic \<Rightarrow> bool" where
  "tables_sound s = (distinct (map fst (mk_items s))
     \<and> (\<forall>k item. map_of (mk_items s) k = Some item \<longrightarrow> row_sound s k item))"

interpretation sound: related_frame tables_sound k for k
  by unfold_locales (simp_all add: tables_sound_def row_sound_def)

lemma not_trim_space: "is_alnum c \<Longrightarrow> trim_space c = False" "trim_space CHR ''_'' = False"
  "trim_space CHR ''-'' = False"
  by (auto simp: trim_space_def is_alnum_def is_digit_def is_upper_def is_lower_def Let_def)

lemma dropWhile_none: "list_all (\<lambda>c. \<not> P c) xs \<Longrightarrow> dropWhile P xs = xs"
  by (cases xs) auto

lemma model_trim_none: "list_all (\<lambda>c. \<not> trim_space c) s \<Longrightarrow> model_trim s = s"
  by (simp add: model_trim_def dropWhile_none)

lemma model_trim_employee: "employee_id_syntax k \<Longrightarrow> model_trim k = k"
  by (rule model_trim_none, cases k) (auto simp: employee_id_syntax_def list_all_iff not_trim_space)

lemma item_built: "new_employee_list_item r = Inr i \<Longrightarrow>
    ei_employee_id i = model_trim (ei_employee_id r) \<and> employee_id_syntax (ei_employee_id i)"
  by (auto simp: new_employee_list_item_def Let_def split: if_splits option.splits)

lemma updated_item_id: "updated_item raw item = Inr i \<Longrightarrow> ei_employee_id i = model_trim (ei_employee_id item)"
  by (auto simp: updated_item_def res_bind_Inr dest!: item_built)

lemma created_item_id:
  "created_item e raw = Inr i \<Longrightarrow> ei_employee_id i = model_trim e \<and> employee_id_syntax (ei_employee_id i)"
  by (auto simp: created_item_def res_bind_Inr dest!: item_built)

lemma sound_row:
  assumes "tables_sound s" "map_of (mk_items s) k = Some item"
  shows "ei_employee_id item = k" "employee_id_syntax k" "\<exists>y. map_of (mk_summaries s) k = Some y"
    "full_raw (get_list (mk_raw_summaries s) k)"
proof -
  from assms have "row_sound s k item" unfolding tables_sound_def by blast
  then show "ei_employee_id item = k" "employee_id_syntax k" "\<exists>y. map_of (mk_summaries s) k = Some y"
    "full_raw (get_list (mk_raw_summaries s) k)" by (auto simp: row_sound_def get_list_def)
qed

text \<open>A row whose identifier stays is sound when its tables are.\<close>

lemma tables_sound_item:
  assumes "tables_sound s" "map_of (mk_items s) k = Some item" "ei_employee_id item' = k"
  shows "tables_sound (s\<lparr>mk_items := AList.update k item' (mk_items s)\<rparr>)"
  using assms by (simp add: tables_sound_def row_sound_def distinct_update)

lemma tables_sound_summary:
  "tables_sound s \<Longrightarrow> tables_sound (s\<lparr>mk_summaries := AList.update k es (mk_summaries s)\<rparr>)"
  by (auto simp: tables_sound_def row_sound_def)

lemma tables_sound_raw:
  "tables_sound s \<Longrightarrow> full_raw raw \<Longrightarrow> tables_sound (s\<lparr>mk_raw_summaries := AList.update k raw (mk_raw_summaries s)\<rparr>)"
  by (auto simp: tables_sound_def row_sound_def)

lemma account_state_sound: "keeps tables_sound (set_account_state k st)"
  unfolding set_account_state_def keeps_snd
  by (simp add: tables_sound_item sound_row split: option.split)

lemma employee_state_sound: "keeps tables_sound (set_employee_state k st)"
  unfolding set_employee_state_def keeps_snd Let_def
  by (simp add: tables_sound_item sound_row tables_sound_summary [OF tables_sound_item, simplified]
      split: option.split)

text \<open>Texts of a full row stay non-empty where they have to, whatever the loop ends in.\<close>

lemma full_raw_update: "full_raw raw \<Longrightarrow> t \<noteq> [] \<Longrightarrow> full_raw (AList.update key t raw)"
  by (auto simp: full_raw_def)

lemma update_raw_sound:
  "keeps (\<lambda>s. tables_sound s \<and> (\<exists>item. map_of (mk_items s) k = Some item)) (update_raw k ps)"
proof (induction ps)
  case (Cons p ps)
  obtain key v where p: "p = (key, v)" by (cases p)
  show ?case
  proof (cases v)
    case (PStr t)
    {
      fix s item
      assume s: "tables_sound s" "map_of (mk_items s) k = Some item" and t: "py_strip t \<noteq> []"
      then have "full_raw (get_list (mk_raw_summaries s) k)" by (simp add: sound_row)
      from tables_sound_raw [OF s(1) full_raw_update [OF this t]] s(2)
      have "tables_sound (snd (update_raw k ps (s\<lparr>mk_raw_summaries := AList.update k
          (AList.update key (py_strip t) (get_list (mk_raw_summaries s) k)) (mk_raw_summaries s)\<rparr>)))
        \<and> (\<exists>item. map_of (mk_items (snd (update_raw k ps (s\<lparr>mk_raw_summaries := AList.update k
          (AList.update key (py_strip t) (get_list (mk_raw_summaries s) k)) (mk_raw_summaries s)\<rparr>)))) k = Some item)"
        by (intro keepsD [OF Cons]) simp
    }
    then show ?thesis unfolding p PStr keeps_snd by auto
  qed (simp_all add: p keeps_snd)
qed (simp add: keeps_snd)

lemma execute_update_sound:
  "triple (\<lambda>s. tables_sound s \<and> (\<exists>item. map_of (mk_items s) k = Some item)) (execute_update a k)
     (\<lambda>_. tables_sound) (\<lambda>_. tables_sound)"
proof -
  let ?I = "\<lambda>s. tables_sound s \<and> (\<exists>item. map_of (mk_items s) k = Some item)"
  let ?J = "\<lambda>item s. tables_sound s \<and> map_of (mk_items s) k = Some item"
  have weaken: "triple ?I m (\<lambda>_. tables_sound) (\<lambda>_. tables_sound)" if "keeps ?I m" for m :: "'a mock_op"
    using that unfolding triple_def by (auto split: prod.splits sum.splits)
  have raise: "triple ?I (sx_raise e) (\<lambda>_. tables_sound) (\<lambda>_. tables_sound)" for e
    by (intro triple_raise) simp
  have read: "triple ?I (\<lambda>s. (f s, s)) (\<lambda>_. ?I) (\<lambda>_. tables_sound)" for f :: "mock_dic \<Rightarrow> dic_error + 'b"
    by (simp add: triple_def split: sum.split)
  have loop: "triple ?I (update_raw k ps) (\<lambda>_. ?I) (\<lambda>_. tables_sound)" for ps
    using update_raw_sound [of k ps] unfolding triple_def by (fastforce split: prod.splits sum.splits)
  have put: "triple ?I (sx_modify (\<lambda>s. s\<lparr>mk_summaries := AList.update k es (mk_summaries s)\<rparr>)) (\<lambda>_. ?I)
      (\<lambda>_. tables_sound)" for es
    by (simp add: triple_def sx_modify_def tables_sound_summary)
  have get: "triple ?I (\<lambda>s. (find_key (mk_items s) k id, s)) ?J (\<lambda>_. tables_sound)"
    by (auto simp: triple_def find_key_def split: option.split)
  have item: "triple (?J old) (\<lambda>s. (updated_item (get_list (mk_raw_summaries s) k) old, s))
      (\<lambda>new s. ?J old s \<and> ei_employee_id new = k) (\<lambda>_. tables_sound)" for old
    by (simp add: triple_def sound_row model_trim_employee split: sum.split)
      (metis sound_row(1,2) updated_item_id model_trim_employee)
  have store: "triple (\<lambda>s. ?J old s \<and> ei_employee_id new = k)
      (sx_modify (\<lambda>s. s\<lparr>mk_items := AList.update k new (mk_items s)\<rparr>)) (\<lambda>_. tables_sound) (\<lambda>_. tables_sound)" for old new
    by (simp add: triple_def sx_modify_def tables_sound_item)
  show ?thesis
    unfolding execute_update_def Let_def
    by (intro triple_if raise triple_bind [OF read] triple_bind [OF loop] triple_bind [OF put]
        triple_bind [OF get] triple_bind [OF item] store)
qed

text \<open>A created employee gets all its rows: what the list item accepts, the summary accepts.\<close>

lemma create_texts_dom: "create_texts a keys = Inr raw \<Longrightarrow> map fst raw = keys"
  by (induction keys arbitrary: raw) (auto simp: res_bind_Inr)

lemma string_parameter_nonempty: "string_parameter a key True = Inr v \<Longrightarrow> \<exists>s. v = Some s \<and> s \<noteq> []"
  by (auto simp: string_parameter_def Let_def split: option.splits py_value.splits if_splits)

lemma required_string_nonempty: "required_string a key = Inr s \<Longrightarrow> s \<noteq> []"
  by (auto simp: required_string_def res_bind_Inr or_empty_def dest!: string_parameter_nonempty)

lemma created_raw_full:
  assumes "create_texts a MOCK_EMPLOYEE_FIELDS = Inr raw" "given \<noteq> []" "family \<noteq> []"
  shows "full_raw (AList.update ''last_name'' family (AList.update ''first_name'' given raw))"
proof -
  from create_texts_dom [OF assms(1)] have "set MOCK_EMPLOYEE_FIELDS = dom (map_of raw)"
    by (metis dom_map_of_conv_image_fst list.set_map)
  with assms(2,3) show ?thesis by (auto simp: full_raw_def)
qed

lemma too_long_None: "too_long ts = None \<longleftrightarrow> (\<forall>(n, limit, v)\<in>set ts. case v of None \<Rightarrow> True | Some s \<Rightarrow> length s \<le> limit)"
  by (auto simp: too_long_def find_None_iff not_less split: option.splits)

lemma length_model_trim: "length (model_trim s) \<le> length s"
proof -
  have "length (dropWhile trim_space xs) \<le> length xs" for xs by (rule length_dropWhile_le)
  then show ?thesis unfolding model_trim_def length_rev by (metis le_trans length_rev)
qed

lemma trimmed_bound: "length s \<le> n \<Longrightarrow> length (model_trim s) \<le> n"
  using length_model_trim [of s] by linarith

lemma trimmed_option: "(case trim_opt v of None \<Rightarrow> True | Some s \<Rightarrow> length s \<le> n)
    \<longleftrightarrow> (\<forall>t. v = Some t \<longrightarrow> length (model_trim t) \<le> n)"
  by (cases v) simp_all

lemma length_masked_tail: "length (masked_tail n s) \<le> n + 4"
  by (simp add: masked_tail_def last_chars_def)

lemma guarded_Inr:
  "(if \<not> P then Inl e else case T of Some e' \<Rightarrow> Inl e' | None \<Rightarrow> Inr r) = Inr i \<longleftrightarrow> P \<and> T = None \<and> r = i"
  by (auto split: option.split)

lemma item_texts:
  "new_employee_list_item r = Inr i \<Longrightarrow> employee_id_syntax (model_trim (ei_employee_id r))
    \<and> (\<forall>t. ei_job_title r = Some t \<longrightarrow> length (model_trim t) \<le> 128)
    \<and> (\<forall>t. ei_payroll_number r = Some t \<longrightarrow> length (model_trim t) \<le> 64)
    \<and> (\<forall>t. ei_workplace r = Some t \<longrightarrow> length (model_trim t) \<le> 128)"
  unfolding new_employee_list_item_def Let_def guarded_Inr too_long_None by (elim conjE, hypsubst, intro conjI allI impI; simp)

lemma length_upper_char: "length (upper_char c) \<le> 2"
  by (simp add: upper_char_def Let_def)

lemma raw_initial_bound: "raw_initial raw key = Inr t \<Longrightarrow> length t \<le> 3"
proof -
  assume t: "raw_initial raw key = Inr t"
  then obtain w where "(case w of [] \<Rightarrow> Inl PyIndexError | c # x \<Rightarrow> Inr (py_upper [c] @ ''.'')) = (Inr t :: dic_error + string)"
    unfolding raw_initial_def res_bind_Inr by blast
  then obtain c where "t = upper_char c @ ''.''" by (cases w) (auto simp: py_upper_def)
  then show ?thesis using length_upper_char [of c] by simp
qed

lemma created_summary_ok:
  assumes "created_item e raw = Inr i" "full_raw raw"
  shows "\<exists>summary. created_summary e raw = Inr summary"
proof -
  from assms(2) have texts: "\<exists>t. raw_text raw key = Inr t" if "key \<in> set MOCK_EMPLOYEE_FIELDS" for key
    using that by (auto simp: full_raw_def raw_text_def find_key_def)
  obtain birth iban phone address memo where rest: "raw_text raw ''birth_date'' = Inr birth"
    "raw_text raw ''iban'' = Inr iban" "raw_text raw ''phone'' = Inr phone"
    "raw_text raw ''address'' = Inr address" "raw_text raw ''notes'' = Inr memo"
    using texts [of "''birth_date''"] texts [of "''iban''"] texts [of "''phone''"] texts [of "''address''"]
      texts [of "''notes''"] by (auto simp: MOCK_EMPLOYEE_FIELDS_def)
  from assms(1) obtain given family email tax job payroll work where
    got: "raw_initial raw ''first_name'' = Inr given" "raw_initial raw ''last_name'' = Inr family"
      "raw_text raw ''business_email'' = Inr email" "raw_text raw ''tax_code'' = Inr tax"
      "raw_text raw ''job_title'' = Inr job" "raw_text raw ''payroll_number'' = Inr payroll"
      "raw_text raw ''workplace'' = Inr work"
    and ok: "employee_id_syntax (model_trim e)" "\<forall>t. present_text job = Some t \<longrightarrow> length (model_trim t) \<le> 128"
      "\<forall>t. present_text payroll = Some t \<longrightarrow> length (model_trim t) \<le> 64"
      "\<forall>t. present_text work = Some t \<longrightarrow> length (model_trim t) \<le> 128"
    unfolding created_item_def res_bind_Inr by (auto dest!: item_texts)
  have bounds: "length (model_trim given) \<le> 128" "length (model_trim family) \<le> 128"
    "length (model_trim (masked_tail 12 t)) \<le> 32" "length (model_trim (masked_tail 22 t)) \<le> 64"
    "length (model_trim (masked_tail 8 t)) \<le> 64" "length (model_trim (''****-**-'' @ last_chars 2 t)) \<le> 32" for t
    using raw_initial_bound [OF got(1)] raw_initial_bound [OF got(2)] length_masked_tail [of 12 t]
      length_masked_tail [of 22 t] length_masked_tail [of 8 t]
    by (intro trimmed_bound; simp add: last_chars_def)+
  have constants: "length (model_trim ''***@example.invalid'') \<le> 320" "length (model_trim ''[REDACTED]'') \<le> 256"
    by (intro trimmed_bound; simp)+
  show ?thesis
    unfolding created_summary_def got rest res_bind_simps new_employee_summary_def Let_def guarded_Inr too_long_None
      employee_summary.select_convs list.set ball_simps prod.case trimmed_option
    by (intro exI conjI refl) (use ok bounds constants in \<open>simp_all add: masked_text_def\<close>)
qed

lemma created_id_syntax:
  assumes "sha256_text (da_request_fingerprint a)"
  shows "employee_id_syntax (created_id a)"
proof -
  have letters: "\<forall>c\<in>set (py_upper t). is_alnum c" if "list_all is_hex_lower t" for t
    using that by (induction t)
      (auto simp: py_upper_def upper_char_def is_hex_lower_def is_alnum_def is_digit_def is_upper_def Let_def)
  have "length (py_upper t) \<le> 2 * length t" for t
    using length_upper_char by (induction t) (simp_all add: py_upper_def add_le_mono [of _ 2, simplified])
  from this [of "take 8 (da_request_fingerprint a)"]
  have "length (py_upper (take 8 (da_request_fingerprint a))) \<le> 16" by simp
  moreover have "list_all is_hex_lower (take 8 (da_request_fingerprint a))"
    using assms by (auto simp: sha256_text_def list_all_iff dest: in_set_takeD)
  then have "\<forall>c\<in>set (py_upper (take 8 (da_request_fingerprint a))). is_alnum c" by (rule letters)
  ultimately show ?thesis
    by (simp add: employee_id_syntax_def created_id_def upper_prefix_def list_all_iff)
      (simp add: is_alnum_def is_digit_def is_upper_def is_lower_def)
qed

lemma created_tables_sound:
  assumes "tables_sound s" "map_of (mk_items s) e = None" "created_item e raw = Inr i" "full_raw raw"
    "employee_id_syntax e"
  shows "tables_sound (s\<lparr>mk_raw_summaries := AList.update e raw (mk_raw_summaries s),
    mk_items := AList.update e i (mk_items s), mk_summaries := AList.update e es (mk_summaries s)\<rparr>)"
proof -
  from created_item_id [OF assms(3)] model_trim_employee [OF assms(5)] have "ei_employee_id i = e" by simp
  with assms show ?thesis by (auto simp: tables_sound_def row_sound_def distinct_update)
qed

lemma create_rows_sound:
  assumes "sha256_text (da_request_fingerprint a)" "given \<noteq> []" "family \<noteq> []"
  shows "keeps tables_sound (create_rows a given family)"
  unfolding keeps_snd
proof (intro allI impI)
  fix s
  assume s: "tables_sound s"
  let ?e = "created_id a"
  show "tables_sound (snd (create_rows a given family s))"
  proof (cases "create_texts a MOCK_EMPLOYEE_FIELDS")
    case (Inl err)
    with s show ?thesis by (simp add: create_rows_def sx_defs Let_def)
  next
    case texts: (Inr raw0)
    define raw where "raw = AList.update ''last_name'' family (AList.update ''first_name'' given raw0)"
    have full: "full_raw raw" unfolding raw_def by (rule created_raw_full [OF texts assms(2,3)])
    show ?thesis
    proof (cases "created_item ?e raw")
      case (Inl err)
      with texts s full show ?thesis by (simp add: create_rows_def sx_defs Let_def raw_def [symmetric] tables_sound_raw)
    next
      case item: (Inr i)
      from created_summary_ok [OF item full] obtain es where es: "created_summary ?e raw = Inr es" by blast
      show ?thesis using created_tables_sound [OF s _ item full created_id_syntax [OF assms(1)]] item es s texts
        by (simp add: create_rows_def sx_defs Let_def raw_def [symmetric])
    qed
  qed
qed

lemma create_sound:
  assumes "sha256_text (da_request_fingerprint a)"
  shows "keeps tables_sound (execute_create a)"
proof -
  have named: "keeps tables_sound (sx_bind (sx_lift (required_string a key)) f)"
    if "\<And>v. v \<noteq> [] \<Longrightarrow> keeps tables_sound (f v)" for key and f :: "string \<Rightarrow> 'b mock_op"
    using that required_string_nonempty [of a key]
    by (cases "required_string a key") (simp_all add: keeps_snd sx_bind_def sx_lift_def)
  show ?thesis
    unfolding execute_create_def Let_def
    by (intro triple_if triple_raise named create_rows_sound assms)
qed

section \<open>The invariant over any run\<close>

lemma drop_sound: "tables_sound s \<Longrightarrow> tables_sound (drop_employee k s)"
  by (auto simp: tables_sound_def row_sound_def drop_employee_def delete_conv' distinct_delete split: if_splits)

lemma employee_write_sound:
  "triple (\<lambda>s. tables_sound s \<and> (\<exists>item. map_of (mk_items s) k = Some item)) (execute_employee_write a k)
     (\<lambda>_. tables_sound) (\<lambda>_. tables_sound)"
proof -
  let ?I = "\<lambda>s. tables_sound s \<and> (\<exists>item. map_of (mk_items s) k = Some item)"
  have weaken: "triple ?I m (\<lambda>_. tables_sound) (\<lambda>_. tables_sound)" if "keeps tables_sound m" for m :: "unit mock_op"
    using that by (simp add: triple_def)
  have raise: "keeps tables_sound (sx_raise e)" "keeps tables_sound (sx_return x)" for e and x :: unit
    by (intro triple_raise triple_return, assumption)+
  show ?thesis
    unfolding execute_employee_write_def Let_def
    by (intro triple_if) (rule execute_update_sound | rule weaken, (intro raise account_state_sound
        employee_state_sound keeps_bind sound.add_event sound.role keeps_modify drop_sound; assumption?))+
qed

lemma effect_sound:
  assumes "sha256_text (da_request_fingerprint a)"
  shows "keeps tables_sound (apply_effect a)"
proof -
  have target: "keeps tables_sound (\<lambda>s. (case require_employee s k of
          Some err \<Rightarrow> (Inl err, s)
        | None \<Rightarrow> sx_bind (execute_employee_write a k) (\<lambda>_. sx_bind (execute_related_write a k) (\<lambda>_.
            sx_return D)) s))" for k D
  proof -
    have "triple (\<lambda>s. tables_sound s \<and> (\<exists>item. map_of (mk_items s) k = Some item))
        (sx_bind (execute_employee_write a k) (\<lambda>_. sx_bind (execute_related_write a k) (\<lambda>_. sx_return D)))
        (\<lambda>_. tables_sound) (\<lambda>_. tables_sound)"
      by (intro triple_bind [OF employee_write_sound] keeps_bind sound.related_write triple_return)
    then show ?thesis
      by (simp add: triple_def require_employee_def split: option.split)
  qed
  show ?thesis
    unfolding apply_effect_def Let_def
    by (intro triple_if keeps_option keeps_bind create_sound assms sound.add_target sound.add_event
        sound.notification target triple_raise triple_return)
qed

text \<open>A run is given actions that were validated when they were prepared.\<close>

fun prepared_call :: "mock_call \<Rightarrow> bool" where
  "prepared_call (MockExecute a) = (new_dic_action a = Inr a)"
| "prepared_call _ = True"

lemma new_dic_action_fingerprint: "new_dic_action r = Inr a \<Longrightarrow> sha256_text (da_request_fingerprint a)"
  by (auto simp: new_dic_action_def Let_def split: if_splits option.splits)

lemma step_sound:
  assumes "tables_sound s" "prepared_call call"
  shows "tables_sound (mock_step call s)"
proof (cases call)
  case (MockExecute a)
  with assms(2) have "sha256_text (da_request_fingerprint a)" by (simp add: new_dic_action_fingerprint)
  from keepsD [OF keeps_verified [OF effect_sound [OF this]] assms(1)]
  have "tables_sound (snd (verified_effect a s))" .
  then show ?thesis using assms(1) unfolding MockExecute
    by (simp add: execute_prepared_def require_open_def Let_def case_prod_beta tables_sound_def row_sound_def
        split: option.split sum.split)
qed (use assms(1) in \<open>auto simp: list_employees_def ensure_authenticated_def close_def Let_def tables_sound_def
    row_sound_def split: option.split\<close>)

lemma seed_sound: "tables_sound (seed key)"
  by (simp add: tables_sound_def row_sound_def seed_def seed_item_def full_raw_def seed_raw_summary_def
      MOCK_EMPLOYEE_FIELDS_def) (simp add: seed_employee_def employee_id_syntax_def is_alnum_def is_digit_def
      is_upper_def is_lower_def)

lemma run_sound: "tables_sound s \<Longrightarrow> list_all prepared_call calls \<Longrightarrow> tables_sound (fold mock_step calls s)"
  by (induction calls arbitrary: s) (simp_all add: step_sound)

text \<open>
  In every state that a run of prepared actions reaches from the seeded tables, whatever its calls
  ended in, the employees have distinct identifiers, each row is filed under the identifier it holds and
  has its summary and its raw texts, and the names among them are not empty.
\<close>

lemma mock_tables_sound:
  assumes "list_all prepared_call calls"
  shows "tables_sound (fold mock_step calls (seed key))"
  using seed_sound assms by (rule run_sound)

lemma demo_tables_sound: "tables_sound (fold mock_step demo_run (seed []))"
proof (rule mock_tables_sound)
  show "list_all prepared_call demo_run" by code_simp
qed

section \<open>The adapter pages its listing\<close>

lemma mset_stable_sort: "mset (stable_sort key descending xs) = mset xs"
  by (simp add: stable_sort_def)

lemma sorted_items_distinct:
  assumes "tables_sound s"
  shows "distinct (map ei_employee_id (sorted_items s q))"
proof -
  have "map ei_employee_id (map snd (mk_items s)) = map fst (mk_items s)"
    using assms unfolding tables_sound_def row_sound_def
    by (auto simp: map_eq_conv intro!: map_of_is_SomeI)
  moreover have "distinct (map fst (mk_items s))" using assms by (simp add: tables_sound_def)
  ultimately have "distinct (map ei_employee_id (map snd (mk_items s)))" by metis
  then have "distinct (map ei_employee_id (selected_items s q))"
    unfolding selected_items_def Let_def
    by (auto intro!: distinct_map_filter split: option.split employee_filter.split)
  moreover have "mset (map ei_employee_id (sorted_items s q)) = mset (map ei_employee_id (selected_items s q))"
    by (simp only: mset_map sorted_items_def mset_stable_sort)
  ultimately show ?thesis by (metis mset_eq_imp_distinct_iff)
qed

interpretation mock: paged_listing list_employees sorted_items "\<lambda>s. \<not> mk_closed s \<and> tables_sound s"
  by unfold_locales
    (simp add: list_employees_def require_open_def slice_def Let_def,
     simp add: sorted_items_def selected_items_def, simp add: sorted_items_distinct)

text \<open>
  Over the mock adapter, after any run of prepared actions, reading all employees returns the employees
  the query selects, each once and in the order the query asks for, whenever the adapter is open and they
  fit the limits; the read changes nothing.
\<close>

lemma mock_listing_exact:
  fixes calls :: "mock_call list" and key :: bytes
  defines "s \<equiv> fold mock_step calls (seed key)"
  assumes "list_all prepared_call calls" and "\<not> mk_closed s" and "1 \<le> max_pages" "1 \<le> max_records"
    and "int (length (selected_items s q)) \<le> max_records" "int (length (selected_items s q)) \<le> 100 * max_pages"
  shows "\<exists>r. list_all_employees list_employees q max_pages max_records s = (Inr r, s)
    \<and> mset (el_items r) = mset (selected_items s q) \<and> distinct (map ei_employee_id (el_items r))
    \<and> (if eq_sort_direction q = SORT_DESC then sorted (rev (map (sort_text (eq_sort_by q)) (el_items r)))
       else sorted (map (sort_text (eq_sort_by q)) (el_items r)))"
proof -
  have ready: "\<not> mk_closed s \<and> tables_sound s"
    using assms(3) mock_tables_sound [OF assms(2), of key] unfolding s_def by simp
  have "length (sorted_items s q) = length (selected_items s q)"
    by (metis mset_stable_sort size_mset sorted_items_def)
  with mock.listing_complete [OF ready assms(4,5), of q] assms(6,7) sorted_items_distinct [of s q] ready
  show ?thesis by (auto simp: sorted_items_def mset_stable_sort) (simp_all add: stable_sort_def rev_map)
qed

lemma seed_open: "\<not> mk_closed (seed key)" and seed_items: "mk_items (seed key) = [(seed_employee, seed_item)]"
  by (simp_all add: seed_def)

section \<open>The payroll comparison over the mock adapter\<close>

definition payrolls_sound :: "mock_dic \<Rightarrow> bool" where
  "payrolls_sound s = (\<forall>k p. p \<in> set (get_list (mk_payrolls s) k) \<longrightarrow> pm_employee_id p = k)"

interpretation payrolls: employee_frame payrolls_sound k for k
  by unfold_locales
    (auto simp: payrolls_sound_def drop_employee_def get_list_def delete_conv' split: option.splits if_splits)

lemma payrolls_step: "payrolls_sound s \<Longrightarrow> payrolls_sound (mock_step call s)"
proof (cases call)
  case (MockExecute a)
  assume s: "payrolls_sound s"
  have "keeps payrolls_sound (verified_effect a)"
    by (rule effect_about) (rule payrolls.employee_frame_axioms)
  from keepsD [OF this s] have "payrolls_sound (snd (verified_effect a s))" .
  with s show ?thesis unfolding MockExecute
    by (simp add: execute_prepared_def require_open_def Let_def case_prod_beta payrolls_sound_def
        split: option.split sum.split)
qed (auto simp: list_employees_def ensure_authenticated_def close_def Let_def payrolls_sound_def split: option.split)

lemma seed_payrolls: "payrolls_sound (seed key)"
  by (simp add: payrolls_sound_def seed_def get_list_def)

lemma payrolls_run: "payrolls_sound s \<Longrightarrow> payrolls_sound (fold mock_step calls s)"
  by (induction calls arbitrary: s) (simp_all add: payrolls_step)

text \<open>The adapter of the comparison: the payroll records of one year.\<close>

definition payrolls_of_year :: "mock_dic payroll_adapter" where
  "payrolls_of_year employee_id year = get_payroll_metadata employee_id (Some year)"

definition paid :: "mock_dic \<Rightarrow> int \<Rightarrow> int \<Rightarrow> employee_list_item \<Rightarrow> bool" where
  "paid s year month employee = list_ex (\<lambda>p. pm_year p = year \<and> pm_month p = Some month)
     (get_list (mk_payrolls s) (ei_employee_id employee))"

lemma payrolls_of_year:
  assumes "map_of (mk_items s) e \<noteq> None"
  shows "payrolls_of_year e year s = (Inr (filter (\<lambda>p. pm_year p = year) (get_list (mk_payrolls s) e)), s)"
  using assms by (simp add: payrolls_of_year_def get_payroll_metadata_def employee_read_def require_employee_def)

lemma payroll_loop_exact:
  assumes "payrolls_sound s" "\<forall>i\<in>set employees. map_of (mk_items s) (ei_employee_id i) \<noteq> None"
  shows "payroll_loop payrolls_of_year year month employees found s
    = (Inr (found @ filter (paid s year month) employees), s)"
  using assms(2)
proof (induction employees arbitrary: found)
  case (Cons i rest)
  let ?records = "filter (\<lambda>p. pm_year p = year) (get_list (mk_payrolls s) (ei_employee_id i))"
  have "\<not> list_ex (payroll_mismatch (ei_employee_id i) year) ?records"
    using assms(1) by (auto simp: payrolls_sound_def payroll_mismatch_def list_ex_iff)
  moreover have "list_ex (\<lambda>p. pm_month p = Some month) ?records = paid s year month i"
    by (auto simp: paid_def list_ex_iff)
  ultimately show ?case
    using Cons payrolls_of_year [of s "ei_employee_id i" year] by (simp add: sx_bind_def)
qed (simp add: sx_return_def)

lemma listed_exists: "tables_sound s \<Longrightarrow> i \<in> set (sorted_items s q) \<Longrightarrow> map_of (mk_items s) (ei_employee_id i) \<noteq> None"
proof -
  assume s: "tables_sound s" and "i \<in> set (sorted_items s q)"
  then have "i \<in> set (selected_items s q)" by (metis mset_stable_sort set_mset_mset sorted_items_def)
  then obtain k where k: "(k, i) \<in> set (mk_items s)"
    by (auto simp: selected_items_def Let_def split: option.splits employee_filter.splits if_splits)
  with s have "map_of (mk_items s) k = Some i" by (auto simp: tables_sound_def intro: map_of_is_SomeI)
  with sound_row(1) [OF s this] show ?thesis by simp
qed

text \<open>C23: The payroll comparison over the mock adapter is exact. After any run of prepared actions that leaves
  it open with at most 500 employees, comparing a valid month returns precisely the employees whose payroll
  table holds a record of that month, in the order of the listing, out of all employees, and changes nothing.
\<close>

theorem mock_payroll_comparison_exact:
  fixes calls :: "mock_call list" and key :: bytes
  defines "s \<equiv> fold mock_step calls (seed key)"
  assumes "list_all prepared_call calls" and "\<not> mk_closed s" and "length (mk_items s) \<le> 500"
    and "2000 \<le> year" "year \<le> 2200" "1 \<le> month" "month \<le> 12"
  shows "\<exists>r. find_employees_with_payroll list_employees payrolls_of_year year month s = (Inr r, s)
    \<and> pp_employees r = filter (paid s year month) (sorted_items s all_employees_query)
    \<and> pp_scanned r = int (length (mk_items s))"
proof -
  have ready: "\<not> mk_closed s \<and> tables_sound s" and payrolls: "payrolls_sound s"
    using assms(3) mock_tables_sound [OF assms(2), of key] payrolls_run [OF seed_payrolls, of calls key]
    unfolding s_def by simp_all
  have selected: "selected_items s all_employees_query = map snd (mk_items s)"
    by (simp add: selected_items_def all_employees_query_def)
  have length: "length (sorted_items s all_employees_query) = length (mk_items s)"
    by (metis length_map mset_stable_sort selected size_mset sorted_items_def)
  have loop: "payroll_loop payrolls_of_year year month (sorted_items s all_employees_query) [] s
      = (Inr (filter (paid s year month) (sorted_items s all_employees_query)), s)"
    using payroll_loop_exact [OF payrolls, of "sorted_items s all_employees_query"] listed_exists ready by simp
  have listing: "list_all_employees list_employees all_employees_query 500 PAYROLL_PRESENCE_MAX_EMPLOYEES s
      = (Inr \<lparr>el_items = sorted_items s all_employees_query, el_page = 1,
          el_page_size = max 1 (int (length (mk_items s))), el_total = int (length (mk_items s)),
          el_has_next = False\<rparr>, s)"
    using mock.listing_complete [OF ready, of 500 500 all_employees_query] assms(4) length
    by (simp add: PAYROLL_PRESENCE_MAX_EMPLOYEES_def)
  show ?thesis
    unfolding find_employees_with_payroll_def using assms(5-8) listing loop by (simp add: sx_bind_def sx_return_def)
qed

theorem mock_payroll_comparison_exact_witness:
  "\<exists>r. find_employees_with_payroll list_employees payrolls_of_year 2026 1 (seed []) = (Inr r, seed [])
     \<and> pp_employees r = [seed_item] \<and> pp_scanned r = 1"
proof -
  have "sorted_items (seed []) all_employees_query = [seed_item]"
    by (simp add: sorted_items_def selected_items_def all_employees_query_def seed_items stable_sort_def)
  moreover have "paid (seed []) 2026 1 seed_item" by code_simp
  ultimately show ?thesis
    using mock_payroll_comparison_exact [of "[]" "[]" 2026 1] seed_open by (auto simp: seed_items)
qed

end
