(* ===== verification/ExportReports.thy ===== *)
theory ExportReports
  imports Exports MockListing
begin

text \<open>
  Reports of employees over the mock adapter: which employees a report lists, and in which order.
\<close>

section \<open>The order of the rows\<close>

text \<open>Sorting by a key keeps the order of equal keys: on top of an order it gives the lexicographic one.\<close>

definition key_order :: "('a \<Rightarrow> 'k::linorder) \<Rightarrow> ('a \<Rightarrow> 'a \<Rightarrow> bool) \<Rightarrow> 'a \<Rightarrow> 'a \<Rightarrow> bool" where
  "key_order f R a b \<longleftrightarrow> f a < f b \<or> f a = f b \<and> R a b"

lemma insort_key_order:
  assumes "sorted_wrt (key_order f R) ys" and "\<forall>y\<in>set ys. R x y"
  shows "sorted_wrt (key_order f R) (insort_key f x ys)"
  using assms
proof (induction ys)
  case (Cons y ys)
  show ?case
  proof (cases "f x \<le> f y")
    case True
    then have "key_order f R x z" if "z \<in> set (y # ys)" for z
      using that Cons.prems by (auto simp: key_order_def)
    with True Cons.prems show ?thesis by simp
  next
    case False
    then have "key_order f R y x" by (auto simp: key_order_def)
    with False Cons show ?thesis by (simp add: set_insort_key)
  qed
qed simp

lemma sort_key_order:
  "sorted_wrt R xs \<Longrightarrow> sorted_wrt (key_order f R) (sort_key f xs)"
  by (induction xs) (simp_all add: sort_key_def [symmetric] insort_key_order)

definition report_order :: "employee_export_row \<Rightarrow> employee_export_row \<Rightarrow> bool" where
  "report_order = key_order (\<lambda>r. py_casefold (text_or_empty (er_last_name r)))
     (key_order (\<lambda>r. py_casefold (text_or_empty (er_first_name r))) (\<lambda>a b. er_employee_id a \<le> er_employee_id b))"

lemma sort_rows_order: "sorted_wrt report_order (sort_rows rows)"
proof -
  have "sorted_wrt (\<lambda>a b. er_employee_id a \<le> er_employee_id b) (sort_key er_employee_id rows)"
    using sorted_sort_key [of er_employee_id rows] by (simp add: sorted_map)
  then show ?thesis unfolding sort_rows_def report_order_def by (intro sort_key_order)
qed

lemma mset_sort_rows: "mset (sort_rows rows) = mset rows"
  by (simp add: sort_rows_def)

section \<open>The employees of a report\<close>

definition filter_selects :: "employee_filter \<Rightarrow> employee_list_item \<Rightarrow> bool" where
  "filter_selects flt i = (case flt of FILTER_ACTIVE \<Rightarrow> ei_employee_state i = EMPLOYEE_ACTIVE
     | FILTER_INACTIVE \<Rightarrow> ei_employee_state i = EMPLOYEE_INACTIVE | FILTER_ALL \<Rightarrow> True)"

definition contract_ends_between ::
  "(nat \<times> nat \<times> nat) option \<Rightarrow> (nat \<times> nat \<times> nat) option \<Rightarrow> employee_list_item \<Rightarrow> bool" where
  "contract_ends_between start stop i = (\<exists>e\<in>set_option (ei_current_contract_valid_to i).
     (\<forall>s\<in>set_option start. date_order s e) \<and> (\<forall>t\<in>set_option stop. date_order e t))"

lemma expires_within_row: "expires_within start stop (employee_export_row_of i) = contract_ends_between start stop i"
  by (auto simp: expires_within_def contract_ends_between_def employee_export_row_of_def Let_def split: option.split)

lemma export_row_id [simp]: "er_employee_id (employee_export_row_of i) = ei_employee_id i"
  by (simp add: employee_export_row_of_def Let_def)

lemma selected_for_export: "selected_items s (export_query flt) = filter (filter_selects flt) (map snd (mk_items s))"
  by (cases flt) (auto simp: selected_items_def export_query_def filter_selects_def intro!: filter_cong)

text \<open>The rows of a report out of the listed employees.\<close>

lemma report_rows:
  assumes "dataset = DATASET_CONTRACTS \<longrightarrow> interval_bound repr ps ''date_from'' = Inr start
      \<and> interval_bound repr ps ''date_to'' = Inr stop"
    and "distinct (map ei_employee_id items)"
  shows "\<exists>rows filters title. export_rows_of repr ps dataset flt items = Inr (rows, filters, title)
    \<and> mset rows = mset (map employee_export_row_of (filter (\<lambda>i. dataset = DATASET_CONTRACTS
        \<longrightarrow> contract_ends_between start stop i) items))
    \<and> sorted_wrt report_order rows \<and> distinct (map er_employee_id rows)"
proof -
  let ?rows = "employee_export_rows items"
  have all: "mset ?rows = mset (map employee_export_row_of items)" "sorted_wrt report_order ?rows"
    by (simp_all add: employee_export_rows_def mset_sort_rows sort_rows_order)
  have "mset (map er_employee_id ?rows) = mset (map ei_employee_id items)"
    by (simp add: all(1) image_mset.compositionality comp_def)
  with assms(2) have ids: "distinct (map er_employee_id ?rows)" by (metis mset_eq_imp_distinct_iff)
  show ?thesis
  proof (cases dataset)
    case DATASET_EMPLOYEES
    with all ids show ?thesis by (simp add: export_rows_of_def)
  next
    case DATASET_CONTRACTS
    have "mset (filter (expires_within start stop) ?rows)
        = mset (map employee_export_row_of (filter (contract_ends_between start stop) items))"
      by (simp add: all(1) filter_mset_image_mset expires_within_row)
    with DATASET_CONTRACTS assms(1) all(2) ids show ?thesis
      by (simp add: export_rows_of_def sorted_wrt_filter distinct_map_filter)
  qed
qed

text \<open>C36: A report lists exactly the employees that were asked for. Over the mock adapter, after any run of
  prepared actions that leaves it open with at most 50000 employees, a report with valid parameters is
  generated from one row per employee whose status the filter names and, for expiring contracts, whose
  current contract ends within the interval, ordered by last name, first name and identifier. The adapter
  is left as it was, and a report that is returned has a plain file name, as many records as rows and
  content within the limit.\<close>

theorem employee_report_exact:
  fixes calls :: "mock_call list" and key :: bytes
  defines "s \<equiv> fold mock_step calls (seed key)"
  assumes "list_all prepared_call calls" and "\<not> mk_closed s" and "length (mk_items s) \<le> 50000"
    and "export_choice repr ps = Inr (f, flt)" and "export_dataset_of ps = Inr dataset"
    and "dataset = DATASET_CONTRACTS \<Longrightarrow> interval_bound repr ps ''date_from'' = Inr start
      \<and> interval_bound repr ps ''date_to'' = Inr stop"
  shows "\<exists>rows filters title. generate_employee_export repr (Some (write_document, max_bytes)) now list_employees ps s
      = (generate_employees write_document max_bytes rows f now ''Utente Discord autorizzato'' filters title, s)
    \<and> mset rows = mset (map employee_export_row_of (filter (\<lambda>i. filter_selects flt i
        \<and> (dataset = DATASET_CONTRACTS \<longrightarrow> contract_ends_between start stop i)) (map snd (mk_items s))))
    \<and> sorted_wrt report_order rows \<and> distinct (map er_employee_id rows)
    \<and> (\<forall>e. generate_employees write_document max_bytes rows f now ''Utente Discord autorizzato'' filters title = Inr e
        \<longrightarrow> plain_file_name (ge_filename e) \<and> ge_record_count e = length rows \<and> ge_content e \<noteq> []
          \<and> length (ge_content e) \<le> max_bytes)"
proof -
  let ?q = "export_query flt"
  have ready: "\<not> mk_closed s \<and> tables_sound s"
    using assms(3) mock_tables_sound [OF assms(2), of key] unfolding s_def by simp
  have listed: "mset (sorted_items s ?q) = mset (selected_items s ?q)" by (simp add: sorted_items_def mset_stable_sort)
  then have "length (sorted_items s ?q) = length (selected_items s ?q)" by (metis size_mset)
  also have "\<dots> \<le> length (mk_items s)"
    unfolding selected_for_export by (metis length_filter_le length_map)
  finally obtain r where r: "list_all_employees list_employees ?q 500 50000 s = (Inr r, s)"
      "el_items r = sorted_items s ?q"
    using mock.listing_complete [OF ready, of 500 50000 ?q] assms(4) by auto
  have "distinct (map ei_employee_id (sorted_items s ?q))" using ready by (simp add: sorted_items_distinct)
  moreover have "dataset = DATASET_CONTRACTS \<longrightarrow> interval_bound repr ps ''date_from'' = Inr start
      \<and> interval_bound repr ps ''date_to'' = Inr stop" using assms(7) by blast
  ultimately have "\<exists>rows filters title. export_rows_of repr ps dataset flt (sorted_items s ?q) = Inr (rows, filters, title)
    \<and> mset rows = mset (map employee_export_row_of (filter (\<lambda>i. dataset = DATASET_CONTRACTS
        \<longrightarrow> contract_ends_between start stop i) (sorted_items s ?q)))
    \<and> sorted_wrt report_order rows \<and> distinct (map er_employee_id rows)"
    by (intro report_rows)
  then
  obtain rows filters title where
    rows: "export_rows_of repr ps dataset flt (sorted_items s ?q) = Inr (rows, filters, title)"
      "sorted_wrt report_order rows" "distinct (map er_employee_id rows)"
    and same: "mset rows = mset (map employee_export_row_of (filter (\<lambda>i. dataset = DATASET_CONTRACTS
        \<longrightarrow> contract_ends_between start stop i) (sorted_items s ?q)))"
    by blast
  have "mset rows = mset (map employee_export_row_of (filter (\<lambda>i. filter_selects flt i
        \<and> (dataset = DATASET_CONTRACTS \<longrightarrow> contract_ends_between start stop i)) (map snd (mk_items s))))"
    unfolding same mset_map mset_filter listed selected_for_export by (simp add: filter_filter_mset conj_commute)
  moreover have "generate_employee_export repr (Some (write_document, max_bytes)) now list_employees ps s
      = (generate_employees write_document max_bytes rows f now ''Utente Discord autorizzato'' filters title, s)"
    unfolding generate_employee_export_def using assms(5,6) r rows(1)
    by (simp add: sx_bind_def sx_lift_def sx_try_def)
  ultimately show ?thesis using rows(2,3) generated_export_bounded by (intro exI conjI) blast+
qed

definition demo_export :: py_mapping where
  "demo_export = [(''format'', PStr ''pdf''), (''status'', PStr ''all''), (''dataset'', PStr ''employees'')]"

theorem employee_report_exact_witness:
  "\<exists>rows filters title. generate_employee_export (\<lambda>_. []) (Some (\<lambda>_ _ _ _ _ _. Inr ''%PDF-'', 100))
       \<lparr>lt_date = (2026, 1, 2), lt_hour = 3, lt_minute = 4, lt_second = 5, lt_zone = ''UTC''\<rparr> list_employees
       demo_export (seed [])
     = (generate_employees (\<lambda>_ _ _ _ _ _. Inr ''%PDF-'') 100 rows EXPORT_PDF
         \<lparr>lt_date = (2026, 1, 2), lt_hour = 3, lt_minute = 4, lt_second = 5, lt_zone = ''UTC''\<rparr>
         ''Utente Discord autorizzato'' filters title, seed [])
     \<and> mset rows = {#employee_export_row_of seed_item#}"
proof -
  have "export_choice (\<lambda>_. []) demo_export = Inr (EXPORT_PDF, FILTER_ALL)"
    "export_dataset_of demo_export = Inr DATASET_EMPLOYEES" by code_simp+
  then show ?thesis
    using employee_report_exact [of "[]" "[]" "\<lambda>_. []" demo_export EXPORT_PDF FILTER_ALL DATASET_EMPLOYEES None None
        "\<lambda>_ _ _ _ _ _. Inr ''%PDF-''" 100
        "\<lparr>lt_date = (2026, 1, 2), lt_hour = 3, lt_minute = 4, lt_second = 5, lt_zone = ''UTC''\<rparr>"] seed_open
    by (auto simp: seed_items filter_selects_def)
qed

end
