(* ===== verification/OnboardingMerge.thy ===== *)
theory OnboardingMerge
  imports OrderedDict DicModels "HOL-Library.Multiset" "HOL-Library.Char_ord" "HOL-Library.List_Lexorder"
begin

text \<open>
  The drafts of an onboarding (\<^verbatim>\<open>onboarding/ocr.py\<close>): the evidence records with their validators,
  and the merge of what several documents say. What the parser finds in one document is given as a list of
  named observations; a confidence is a number of hundredths.
\<close>

section \<open>Evidence and drafts\<close>

datatype onboarding_error =
    OnboardingDraftError string
  | OnboardingValueError string

record field_evidence =
  fe_value :: string
  fe_confidence :: int
  fe_source :: string

definition source_id :: "string \<Rightarrow> bool" where
  "source_id s = employee_id_syntax s"

definition new_field_evidence :: "string \<Rightarrow> int \<Rightarrow> string \<Rightarrow> onboarding_error + field_evidence" where
  "new_field_evidence v c s =
     (if v = [] \<or> 512 < length v then Inl (OnboardingValueError ''value'')
      else if c < 0 \<or> 100 < c then Inl (OnboardingValueError ''confidence'')
      else if s = [] \<or> 64 < length s \<or> \<not> source_id s
      then Inl (OnboardingValueError ''source must be an opaque identifier'')
      else Inr \<lparr>fe_value = v, fe_confidence = c, fe_source = s\<rparr>)"

definition comparison_value :: "string \<Rightarrow> string" where
  "comparison_value v = join_words (py_split (py_casefold (nfkc v)))"

definition evidence_key :: "field_evidence \<Rightarrow> string" where
  "evidence_key e = comparison_value (fe_value e)"

record field_conflict =
  fc_field_name :: string
  fc_candidates :: "field_evidence list"

definition new_field_conflict :: "string \<Rightarrow> field_evidence list \<Rightarrow> onboarding_error + field_conflict" where
  "new_field_conflict name cs =
     (if \<not> parameter_key name then Inl (OnboardingValueError ''invalid onboarding field name'')
      else if length cs < 2 then Inl (OnboardingValueError ''candidates'')
      else if length (remdups (map evidence_key cs)) < 2
      then Inl (OnboardingValueError ''a conflict requires distinct candidate values'')
      else Inr \<lparr>fc_field_name = name, fc_candidates = cs\<rparr>)"

record document_draft =
  dd_fields :: "(string \<times> field_evidence) list"
  dd_conflicts :: "field_conflict list"
  dd_missing_required :: "string list"

definition new_document_draft ::
  "(string \<times> field_evidence) list \<Rightarrow> field_conflict list \<Rightarrow> string list \<Rightarrow> onboarding_error + document_draft" where
  "new_document_draft fs conflicts missing =
     (let names = map fst fs; conflict_names = map fc_field_name conflicts in
      if list_ex (\<lambda>n. n \<in> set conflict_names) names
      then Inl (OnboardingValueError ''conflicting fields cannot be present in the merged draft'')
      else if length (remdups conflict_names) \<noteq> length conflicts
      then Inl (OnboardingValueError ''duplicate field conflict'')
      else if \<not> list_all parameter_key (names @ conflict_names @ missing)
      then Inl (OnboardingValueError ''invalid onboarding field name'')
      else if list_ex (\<lambda>n. n \<in> set names) missing
      then Inl (OnboardingValueError ''present fields cannot be reported as missing'')
      else Inr \<lparr>dd_fields = fs, dd_conflicts = conflicts, dd_missing_required = missing\<rparr>)"

section \<open>Merging the documents\<close>

type_synonym observations = "(string \<times> field_evidence) list"

text \<open>\<open>by_field[name].append(evidence)\<close>\<close>

definition add_observation :: "string \<times> field_evidence \<Rightarrow> (string \<times> field_evidence list) list
    \<Rightarrow> (string \<times> field_evidence list) list" where
  "add_observation = (\<lambda>(name, e) d.
     AList.update name ((case map_of d name of None \<Rightarrow> [] | Some es \<Rightarrow> es) @ [e]) d)"

definition add_unique :: "field_evidence \<Rightarrow> (string \<times> field_evidence) list \<Rightarrow> (string \<times> field_evidence) list" where
  "add_unique e d = (let key = evidence_key e in
     case map_of d key of
       None \<Rightarrow> AList.update key e d
     | Some current \<Rightarrow> if fe_confidence current < fe_confidence e then AList.update key e d else d)"

definition unique_evidence :: "field_evidence list \<Rightarrow> (string \<times> field_evidence) list" where
  "unique_evidence es = fold add_unique es []"

text \<open>One field: its single value, or a conflict between its values.\<close>

definition merge_field :: "string \<Rightarrow> field_evidence list
    \<Rightarrow> onboarding_error + (field_evidence + field_conflict)" where
  "merge_field name es = (let unique = map snd (unique_evidence es) in
     if length unique = 1 then Inr (Inl (hd unique))
     else case new_field_conflict name (sort_key fe_source (sort_key fe_value unique)) of
       Inl e \<Rightarrow> Inl e
     | Inr c \<Rightarrow> Inr (Inr c))"

fun merge_fields :: "(string \<times> field_evidence list) list \<Rightarrow> (string \<times> field_evidence) list
    \<Rightarrow> field_conflict list \<Rightarrow> onboarding_error + (string \<times> field_evidence) list \<times> field_conflict list" where
  "merge_fields [] fs cs = Inr (fs, cs)"
| "merge_fields ((name, es) # rest) fs cs =
     (case merge_field name es of
        Inl e \<Rightarrow> Inl e
      | Inr (Inl f) \<Rightarrow> merge_fields rest (fs @ [(name, f)]) cs
      | Inr (Inr c) \<Rightarrow> merge_fields rest fs (cs @ [c]))"

text \<open>\<open>tuple(dict.fromkeys(xs))\<close>: the first occurrences.\<close>

definition from_keys :: "'a list \<Rightarrow> 'a list" where
  "from_keys xs = rev (remdups (rev xs))"

definition merge_documents :: "observations list \<Rightarrow> string list \<Rightarrow> onboarding_error + document_draft" where
  "merge_documents documents required_fields =
     (let required = from_keys required_fields in
      if \<not> list_all parameter_key required then Inl (OnboardingValueError ''invalid required onboarding field'')
      else let by_field = fold (fold add_observation) documents [] in
      case merge_fields (sort_key fst by_field) [] [] of
        Inl e \<Rightarrow> Inl e
      | Inr (fs, conflicts) \<Rightarrow>
          new_document_draft fs conflicts (filter (\<lambda>n. n \<notin> fst ` set fs) required))"

section \<open>What a merge keeps\<close>

abbreviation same_value :: "field_evidence \<Rightarrow> field_evidence \<Rightarrow> bool" where
  "same_value e e' \<equiv> evidence_key e = evidence_key e'"

text \<open>One entry per value, of the highest confidence among the evidence of that value.\<close>

definition best_evidence :: "field_evidence list \<Rightarrow> (string \<times> field_evidence) list \<Rightarrow> bool" where
  "best_evidence es d \<longleftrightarrow> distinct (map fst d) \<and> fst ` set d = evidence_key ` set es
     \<and> (\<forall>(k, e)\<in>set d. e \<in> set es \<and> evidence_key e = k
          \<and> (\<forall>e'\<in>set es. same_value e' e \<longrightarrow> fe_confidence e' \<le> fe_confidence e))"

lemma best_evidenceI:
  assumes "distinct (map fst d)" "fst ` set d = evidence_key ` set es"
    and "\<And>k e. (k, e) \<in> set d \<Longrightarrow> e \<in> set es \<and> evidence_key e = k
      \<and> (\<forall>e'\<in>set es. same_value e' e \<longrightarrow> fe_confidence e' \<le> fe_confidence e)"
  shows "best_evidence es d"
  unfolding best_evidence_def using assms by blast

lemma best_evidenceD: "best_evidence es d \<Longrightarrow> (k, e) \<in> set d \<Longrightarrow> e \<in> set es \<and> evidence_key e = k
    \<and> (\<forall>e'\<in>set es. same_value e' e \<longrightarrow> fe_confidence e' \<le> fe_confidence e)"
  unfolding best_evidence_def by blast

lemma best_evidence_add:
  assumes "best_evidence es d"
  shows "best_evidence (es @ [e]) (add_unique e d)"
proof (cases "map_of d (evidence_key e)")
  case None
  then have new: "evidence_key e \<notin> fst ` set d" by (simp add: map_of_eq_None_iff)
  then have "{p \<in> set d. fst p \<noteq> evidence_key e} = set d" by force
  moreover have "fst ` set d = evidence_key ` set es" using assms by (simp add: best_evidence_def)
  with new have "\<forall>e'\<in>set es. \<not> same_value e' e" by (metis imageI)
  ultimately show ?thesis using None assms
    unfolding add_unique_def best_evidence_def by (auto simp: distinct_update update_set)
next
  case (Some c)
  then have c: "(evidence_key e, c) \<in> set d" by (rule map_of_SomeD)
  with assms have "same_value c e" "c \<in> set es" by (auto simp: best_evidence_def)
  note c = c this
  show ?thesis
  proof (cases "fe_confidence c < fe_confidence e")
    case True
    have upd: "set (AList.update (evidence_key e) e d) = insert (evidence_key e, e) {p \<in> set d. fst p \<noteq> evidence_key e}"
      using assms by (simp add: best_evidence_def update_set)
    have "fst ` {p \<in> set d. fst p \<noteq> k} = fst ` set d - {k}" for k by force
    then have keys: "fst ` set (AList.update (evidence_key e) e d) = evidence_key ` set (es @ [e])"
      using assms by (simp add: upd best_evidence_def)
    have best: "fe_confidence e' \<le> fe_confidence e" if "e' \<in> set es" "same_value e' e" for e'
      using that c True assms by (fastforce simp: best_evidence_def)
    have add: "add_unique e d = AList.update (evidence_key e) e d" using True Some by (simp add: add_unique_def)
    have dist: "distinct (map fst (AList.update (evidence_key e) e d))"
      using assms by (simp add: best_evidence_def distinct_update)
    have entries: "x \<in> set (es @ [e]) \<and> evidence_key x = k
        \<and> (\<forall>e'\<in>set (es @ [e]). same_value e' x \<longrightarrow> fe_confidence e' \<le> fe_confidence x)"
      if "(k, x) \<in> set (AList.update (evidence_key e) e d)" for k x
    proof (cases "k = evidence_key e")
      case True
      with that have "x = e" by (simp add: upd)
      with True best show ?thesis by auto
    next
      case False
      with that have "(k, x) \<in> set d" by (simp add: upd)
      from best_evidenceD [OF assms this] have x: "x \<in> set es" "evidence_key x = k"
        "\<And>e'. e' \<in> set es \<Longrightarrow> same_value e' x \<Longrightarrow> fe_confidence e' \<le> fe_confidence x" by blast+
      with False have "\<not> same_value e x" by metis
      with x show ?thesis by simp
    qed
    show ?thesis unfolding add by (rule best_evidenceI [OF dist keys entries])
  next
    case False
    then have same: "add_unique e d = d" using Some by (simp add: add_unique_def)
    have keys: "fst ` set d = evidence_key ` set (es @ [e])"
    proof -
      have "evidence_key e \<in> evidence_key ` set es" using c(2,3) by (metis imageI)
      then show ?thesis using assms by (simp add: best_evidence_def insert_absorb)
    qed
    have entries: "x \<in> set (es @ [e]) \<and> evidence_key x = k
        \<and> (\<forall>e'\<in>set (es @ [e]). same_value e' x \<longrightarrow> fe_confidence e' \<le> fe_confidence x)"
      if kx: "(k, x) \<in> set d" for k x
    proof -
      from best_evidenceD [OF assms kx] have x: "x \<in> set es" "evidence_key x = k"
        "\<And>e'. e' \<in> set es \<Longrightarrow> same_value e' x \<Longrightarrow> fe_confidence e' \<le> fe_confidence x" by blast+
      have "fe_confidence e \<le> fe_confidence x" if "same_value e x"
        using x(3) [of c] c(2,3) that False by (metis linorder_not_less order_trans)
      with x show ?thesis by simp
    qed
    have "distinct (map fst d)" using assms by (simp add: best_evidence_def)
    then show ?thesis unfolding same by (rule best_evidenceI [OF _ keys entries])
  qed
qed

lemma best_evidence_unique: "best_evidence es (unique_evidence es)"
proof (induction es rule: rev_induct)
  case (snoc e es)
  then show ?case using best_evidence_add by (simp add: unique_evidence_def)
qed (simp add: unique_evidence_def best_evidence_def)

lemma unique_values: "map fst (unique_evidence es) = map evidence_key (map snd (unique_evidence es))"
  using best_evidence_unique [of es] by (auto simp: best_evidence_def)

definition agreed :: "field_evidence list \<Rightarrow> bool" where
  "agreed es \<longleftrightarrow> (\<forall>e\<in>set es. \<forall>e'\<in>set es. same_value e e')"

lemma unique_single:
  assumes "es \<noteq> []"
  shows "length (unique_evidence es) = 1 \<longleftrightarrow> agreed es"
proof -
  let ?vs = "evidence_key ` set es"
  have "length (unique_evidence es) = card ?vs"
    using best_evidence_unique [of es] distinct_card [of "map fst (unique_evidence es)"]
    by (simp add: best_evidence_def)
  moreover have "card ?vs = 1 \<longleftrightarrow> agreed es"
  proof -
    from assms have e: "hd es \<in> set es" by simp
    have "(\<exists>x. ?vs = {x}) \<longleftrightarrow> agreed es"
    proof
      assume "agreed es"
      then have "\<forall>x\<in>set es. evidence_key x = evidence_key (hd es)" using e unfolding agreed_def by blast
      then have "?vs = (\<lambda>_. evidence_key (hd es)) ` set es" by (intro image_cong) simp_all
      then show "\<exists>x. ?vs = {x}" using assms by (simp add: image_constant_conv)
    next
      assume "\<exists>x. ?vs = {x}"
      then obtain x where "?vs = {x}" by blast
      then have "evidence_key e = x" if "e \<in> set es" for e using that by (metis imageI singletonD)
      then show "agreed es" unfolding agreed_def by metis
    qed
    then show ?thesis by (simp add: card_1_singleton_iff)
  qed
  ultimately show ?thesis by simp
qed

lemma merge_field_agreed:
  assumes "es \<noteq> []" "agreed es"
  shows "\<exists>e\<in>set es. merge_field name es = Inr (Inl e) \<and> (\<forall>e'\<in>set es. fe_confidence e' \<le> fe_confidence e)"
proof -
  have "length (unique_evidence es) = 1" using unique_single [OF assms(1)] assms(2) by simp
  then obtain k e where u: "unique_evidence es = [(k, e)]" by (auto simp: length_Suc_conv)
  have "best_evidence es [(k, e)]" using best_evidence_unique [of es] unfolding u .
  then have e: "e \<in> set es" "\<forall>e'\<in>set es. same_value e' e \<longrightarrow> fe_confidence e' \<le> fe_confidence e"
    by (simp_all add: best_evidence_def)
  with assms(2) have "\<forall>e'\<in>set es. fe_confidence e' \<le> fe_confidence e" unfolding agreed_def by blast
  note e = e(1) this
  then show ?thesis by (intro bexI [of _ e]) (simp_all add: merge_field_def u)
qed

lemma merge_field_disagreed:
  assumes "es \<noteq> []" "\<not> agreed es" "parameter_key name"
  shows "\<exists>c. merge_field name es = Inr (Inr c) \<and> fc_field_name c = name"
proof -
  let ?u = "map snd (unique_evidence es)"
  let ?s = "sort_key fe_source (sort_key fe_value ?u)"
  have "distinct (map evidence_key ?u)"
    using best_evidence_unique [of es] unfolding unique_values [symmetric] best_evidence_def by blast
  moreover have "mset (map evidence_key ?s) = mset (map evidence_key ?u)"
    by (simp only: mset_map mset_sort)
  ultimately have d: "distinct (map evidence_key ?s)" by (metis mset_eq_imp_distinct_iff)
  have "length ?u \<noteq> 1" using unique_single [OF assms(1)] assms(2) by simp
  moreover have "?u \<noteq> []" using best_evidence_unique [of es] assms(1) by (auto simp: best_evidence_def)
  ultimately have "2 \<le> length ?s" by (cases ?u; cases "tl ?u") auto
  with d \<open>length ?u \<noteq> 1\<close> assms(3) show ?thesis
    by (simp add: merge_field_def new_field_conflict_def distinct_remdups_id del: map_map)
qed

text \<open>The observations of a name, in order.\<close>

definition observed :: "string \<Rightarrow> observations \<Rightarrow> field_evidence list" where
  "observed n obs = map snd (filter (\<lambda>p. fst p = n) obs)"

definition grouped :: "observations \<Rightarrow> (string \<times> field_evidence list) list \<Rightarrow> bool" where
  "grouped obs d \<longleftrightarrow> distinct (map fst d)
     \<and> (\<forall>n. map_of d n = (if observed n obs = [] then None else Some (observed n obs)))"

lemma grouped_observations: "grouped obs (fold add_observation obs [])"
proof (induction obs rule: rev_induct)
  case (snoc p obs)
  obtain n e where p: "p = (n, e)" by (cases p)
  from snoc show ?case
    by (auto simp: p grouped_def add_observation_def observed_def distinct_update map_of_update split: option.split)
qed (simp add: grouped_def observed_def)

lemma observed_Nil: "observed n obs = [] \<longleftrightarrow> n \<notin> fst ` set obs"
  by (auto simp: observed_def filter_empty_conv)

lemma fold_fold_concat: "fold (fold f) xss s = fold f (concat xss) s"
  by (induction xss arbitrary: s) simp_all

lemma in_fst: "(a, b) \<in> S \<Longrightarrow> a \<in> fst ` S"
  by force

lemma merge_fields_split:
  assumes "\<forall>(n, es)\<in>set ks. parameter_key n \<and> es \<noteq> []"
  shows "\<exists>A B. merge_fields ks fs cs = Inr (fs @ A, cs @ B)
    \<and> (distinct (map fst ks) \<longrightarrow> distinct (map fst A) \<and> distinct (map fc_field_name B))
    \<and> set A = {(n, e). \<exists>es. (n, es) \<in> set ks \<and> agreed es \<and> merge_field n es = Inr (Inl e)}
    \<and> fc_field_name ` set B = {n. \<exists>es. (n, es) \<in> set ks \<and> \<not> agreed es}"
  using assms
proof (induction ks arbitrary: fs cs)
  case (Cons k ks)
  obtain n es where k: "k = (n, es)" by (cases k)
  with Cons.prems have es: "es \<noteq> []" "parameter_key n" by auto
  show ?case
  proof (cases "agreed es")
    case True
    with merge_field_agreed [OF es(1), of n] obtain e where e: "merge_field n es = Inr (Inl e)" by blast
    from Cons.IH [of "fs @ [(n, e)]" cs] Cons.prems obtain A B where IH: "merge_fields ks (fs @ [(n, e)]) cs = Inr ((fs @ [(n, e)]) @ A, cs @ B)"
      "distinct (map fst ks) \<longrightarrow> distinct (map fst A) \<and> distinct (map fc_field_name B)"
      "set A = {(n, e). \<exists>es. (n, es) \<in> set ks \<and> agreed es \<and> merge_field n es = Inr (Inl e)}"
      "fc_field_name ` set B = {n. \<exists>es. (n, es) \<in> set ks \<and> \<not> agreed es}"
      by auto
    from IH(3) have "fst ` set A \<subseteq> fst ` set ks" by force
    with IH e k True show ?thesis
      by (intro exI [of _ "(n, e) # A"] exI [of _ B]) (auto dest: in_fst)
  next
    case False
    with merge_field_disagreed [OF es(1) _ es(2)] obtain c where
      c: "merge_field n es = Inr (Inr c)" "fc_field_name c = n" by blast
    from Cons.IH [of fs "cs @ [c]"] Cons.prems obtain A B where IH: "merge_fields ks fs (cs @ [c]) = Inr (fs @ A, (cs @ [c]) @ B)"
      "distinct (map fst ks) \<longrightarrow> distinct (map fst A) \<and> distinct (map fc_field_name B)"
      "set A = {(n, e). \<exists>es. (n, es) \<in> set ks \<and> agreed es \<and> merge_field n es = Inr (Inl e)}"
      "fc_field_name ` set B = {n. \<exists>es. (n, es) \<in> set ks \<and> \<not> agreed es}"
      by auto
    from IH(4) have "fc_field_name ` set B \<subseteq> fst ` set ks" by force
    with IH c k False show ?thesis
      by (intro exI [of _ A] exI [of _ "c # B"]) (auto dest: in_fst)
  qed
qed simp

lemma merge_documents_result:
  fixes documents :: "observations list"
  defines "obs \<equiv> concat documents"
  assumes "list_all parameter_key required" and "\<forall>p\<in>set obs. parameter_key (fst p)"
  shows "\<exists>d. merge_documents documents required = Inr d
    \<and> (\<forall>(n, e)\<in>set (dd_fields d). agreed (observed n obs) \<and> e \<in> set (observed n obs)
         \<and> (\<forall>e'\<in>set (observed n obs). fe_confidence e' \<le> fe_confidence e))
    \<and> fst ` set (dd_fields d) = {n. observed n obs \<noteq> [] \<and> agreed (observed n obs)}
    \<and> fc_field_name ` set (dd_conflicts d) = {n. observed n obs \<noteq> [] \<and> \<not> agreed (observed n obs)}
    \<and> dd_missing_required d = filter (\<lambda>n. n \<notin> fst ` set (dd_fields d)) (from_keys required)"
proof -
  define by_field where "by_field = fold (fold add_observation) documents []"
  let ?ks = "sort_key fst by_field"
  have g: "grouped obs by_field" unfolding by_field_def obs_def fold_fold_concat by (rule grouped_observations)
  then have d: "distinct (map fst ?ks)"
    by (metis grouped_def mset_map mset_sort mset_eq_imp_distinct_iff)
  have mem: "(n, es) \<in> set by_field \<longleftrightarrow> observed n obs \<noteq> [] \<and> es = observed n obs" for n es
  proof -
    have look: "map_of by_field n = (if observed n obs = [] then None else Some (observed n obs))"
      using g by (simp add: grouped_def)
    have "distinct (map fst by_field)" using g by (simp add: grouped_def)
    then have "(n, es) \<in> set by_field \<longleftrightarrow> map_of by_field n = Some es" by simp
    also have "\<dots> \<longleftrightarrow> observed n obs \<noteq> [] \<and> es = observed n obs" unfolding look by auto
    finally show ?thesis .
  qed
  have ok: "\<forall>(n, es)\<in>set ?ks. parameter_key n \<and> es \<noteq> []"
    using assms(3) observed_Nil [of _ obs] by (fastforce simp: mem)
  from merge_fields_split [OF ok, of "[]" "[]"] d obtain A B where
    merged: "merge_fields ?ks [] [] = Inr (A, B)" and names: "distinct (map fst A)" "distinct (map fc_field_name B)"
    and A: "set A = {(n, e). \<exists>es. (n, es) \<in> set ?ks \<and> agreed es \<and> merge_field n es = Inr (Inl e)}"
    and B: "fc_field_name ` set B = {n. \<exists>es. (n, es) \<in> set ?ks \<and> \<not> agreed es}" by auto
  have fields: "agreed (observed n obs) \<and> e \<in> set (observed n obs)
      \<and> (\<forall>e'\<in>set (observed n obs). fe_confidence e' \<le> fe_confidence e)" if "(n, e) \<in> set A" for n e
    using that merge_field_agreed [of "observed n obs" n] by (auto simp: A mem)
  have fnames: "fst ` set A = {n. observed n obs \<noteq> [] \<and> agreed (observed n obs)}"
  proof (intro equalityI subsetI)
    fix n
    assume "n \<in> {n. observed n obs \<noteq> [] \<and> agreed (observed n obs)}"
    with merge_field_agreed [of "observed n obs" n] obtain e where "(n, e) \<in> set A" by (auto simp: A mem)
    then show "n \<in> fst ` set A" by (rule in_fst)
  qed (auto simp: A mem)
  have cnames: "fc_field_name ` set B = {n. observed n obs \<noteq> [] \<and> \<not> agreed (observed n obs)}"
    by (auto simp: B mem)
  have keys: "parameter_key n" if "n \<in> fst ` set A \<union> fc_field_name ` set B" for n
    using that assms(3) unfolding fnames cnames by (auto simp: observed_Nil)
  have req: "list_all parameter_key (from_keys required)" "set (from_keys required) = set required"
    using assms(2) by (auto simp: from_keys_def list_all_iff)
  have "new_document_draft A B (filter (\<lambda>n. n \<notin> fst ` set A) (from_keys required))
      = Inr \<lparr>dd_fields = A, dd_conflicts = B,
          dd_missing_required = filter (\<lambda>n. n \<notin> fst ` set A) (from_keys required)\<rparr>"
  proof -
    have "\<not> list_ex (\<lambda>n. n \<in> set (map fc_field_name B)) (map fst A)"
      using fnames cnames by (auto simp: list_ex_iff)
    moreover have "list_all parameter_key (map fst A)" "list_all parameter_key (map fc_field_name B)"
      "list_all parameter_key (filter (\<lambda>n. n \<notin> fst ` set A) (from_keys required))"
      using keys req(1) by (simp_all add: list_all_iff)
    moreover have "length (remdups (map fc_field_name B)) = length B"
      using names(2) by (simp add: distinct_remdups_id)
    ultimately show ?thesis unfolding new_document_draft_def Let_def by (simp add: list_ex_iff)
  qed
  moreover have "merge_documents documents required
      = new_document_draft A B (filter (\<lambda>n. n \<notin> fst ` set A) (from_keys required))"
    using merged req(1) unfolding merge_documents_def by_field_def by simp
  ultimately have merged: "merge_documents documents required = Inr \<lparr>dd_fields = A, dd_conflicts = B,
      dd_missing_required = filter (\<lambda>n. n \<notin> fst ` set A) (from_keys required)\<rparr>" by simp
  show ?thesis
  proof (intro exI conjI)
    show "merge_documents documents required = Inr \<lparr>dd_fields = A, dd_conflicts = B,
      dd_missing_required = filter (\<lambda>n. n \<notin> fst ` set A) (from_keys required)\<rparr>" by (rule merged)
  qed (use fields in \<open>auto simp only: document_draft.select_convs fnames cnames\<close>)
qed

text \<open>C39: A merge decides nothing that the documents disagree on. With valid field names it returns a draft
  in which a field is an observation that every other one of that field agrees with, of the highest
  confidence; a field is a conflict exactly when two observations differ; every observed field is one or
  the other; and the missing fields are the required ones without a value.\<close>

theorem merged_draft_exact:
  assumes "list_all parameter_key required" and "list_all (list_all (\<lambda>p. parameter_key (fst p))) documents"
  shows "\<exists>d. merge_documents documents required = Inr d
    \<and> (\<forall>(n, e)\<in>set (dd_fields d). (n, e) \<in> set (concat documents)
         \<and> (\<forall>(m, e')\<in>set (concat documents). m = n \<longrightarrow>
              comparison_value (fe_value e') = comparison_value (fe_value e) \<and> fe_confidence e' \<le> fe_confidence e))
    \<and> fc_field_name ` set (dd_conflicts d) = {n. \<exists>e e'. (n, e) \<in> set (concat documents)
         \<and> (n, e') \<in> set (concat documents) \<and> comparison_value (fe_value e) \<noteq> comparison_value (fe_value e')}
    \<and> fst ` set (dd_fields d) \<union> fc_field_name ` set (dd_conflicts d) = fst ` set (concat documents)
    \<and> fst ` set (dd_fields d) \<inter> fc_field_name ` set (dd_conflicts d) = {}
    \<and> set (dd_missing_required d) = set required - fst ` set (dd_fields d)"
proof -
  let ?obs = "concat documents"
  have names: "\<forall>p\<in>set ?obs. parameter_key (fst p)" using assms(2) by (auto simp: list_all_iff)
  have mem: "e \<in> set (observed n ?obs) \<longleftrightarrow> (n, e) \<in> set ?obs" for n e by (force simp: observed_def)
  from merge_documents_result [OF assms(1) names] obtain d where
    d: "merge_documents documents required = Inr d"
    and fields: "\<forall>(n, e)\<in>set (dd_fields d). agreed (observed n ?obs) \<and> e \<in> set (observed n ?obs)
         \<and> (\<forall>e'\<in>set (observed n ?obs). fe_confidence e' \<le> fe_confidence e)"
    and fnames: "fst ` set (dd_fields d) = {n. observed n ?obs \<noteq> [] \<and> agreed (observed n ?obs)}"
    and cnames: "fc_field_name ` set (dd_conflicts d) = {n. observed n ?obs \<noteq> [] \<and> \<not> agreed (observed n ?obs)}"
    and missing: "dd_missing_required d = filter (\<lambda>n. n \<notin> fst ` set (dd_fields d)) (from_keys required)" by blast
  have missing_set: "set (dd_missing_required d) = set required - fst ` set (dd_fields d)"
    unfolding missing by (auto simp: from_keys_def)
  have all: "fst ` set (dd_fields d) \<union> fc_field_name ` set (dd_conflicts d) = fst ` set ?obs"
    unfolding fnames cnames observed_Nil by blast
  have disjoint: "fst ` set (dd_fields d) \<inter> fc_field_name ` set (dd_conflicts d) = {}"
    unfolding fnames cnames by blast
  have conflicts: "fc_field_name ` set (dd_conflicts d) = {n. \<exists>e e'. (n, e) \<in> set ?obs \<and> (n, e') \<in> set ?obs
      \<and> comparison_value (fe_value e) \<noteq> comparison_value (fe_value e')}"
  proof -
    have "observed n ?obs \<noteq> []" if "(n, e) \<in> set ?obs" for n e using that mem [of e n] by (metis empty_iff empty_set)
    then show ?thesis unfolding cnames agreed_def Ball_def mem evidence_key_def by (intro Collect_cong) blast
  qed
  have field: "(n, e) \<in> set ?obs \<and> (\<forall>(m, e')\<in>set ?obs. m = n \<longrightarrow>
      comparison_value (fe_value e') = comparison_value (fe_value e) \<and> fe_confidence e' \<le> fe_confidence e)"
    if "(n, e) \<in> set (dd_fields d)" for n e
  proof -
    from bspec [OF fields that] have e: "e \<in> set (observed n ?obs)" "agreed (observed n ?obs)"
      "\<forall>e'\<in>set (observed n ?obs). fe_confidence e' \<le> fe_confidence e" by simp_all
    have "comparison_value (fe_value e') = comparison_value (fe_value e) \<and> fe_confidence e' \<le> fe_confidence e"
      if "(n, e') \<in> set ?obs" for e'
    proof -
      from that have e': "e' \<in> set (observed n ?obs)" by (simp only: mem)
      with e(1,2) have "evidence_key e' = evidence_key e" unfolding agreed_def by metis
      with e(3) e' show ?thesis by (simp add: evidence_key_def)
    qed
    moreover have "(n, e) \<in> set ?obs" using e(1) by (simp only: mem)
    ultimately show ?thesis by blast
  qed
  have fields': "\<forall>(n, e)\<in>set (dd_fields d). (n, e) \<in> set ?obs \<and> (\<forall>(m, e')\<in>set ?obs. m = n \<longrightarrow>
      comparison_value (fe_value e') = comparison_value (fe_value e) \<and> fe_confidence e' \<le> fe_confidence e)"
  proof
    fix p
    assume "p \<in> set (dd_fields d)"
    moreover obtain n e where p: "p = (n, e)" by (cases p)
    ultimately have "(n, e) \<in> set (dd_fields d)" by (simp only:)
    from field [OF this] show "case p of (n, e) \<Rightarrow> (n, e) \<in> set ?obs \<and> (\<forall>(m, e')\<in>set ?obs. m = n \<longrightarrow>
        comparison_value (fe_value e') = comparison_value (fe_value e) \<and> fe_confidence e' \<le> fe_confidence e)"
      unfolding p prod.case .
  qed
  show ?thesis by (intro exI [of _ d] conjI d fields' conflicts all disjoint missing_set)
qed

definition demo_documents :: "observations list" where
  "demo_documents =
     [[(''first_name'', \<lparr>fe_value = ''Ada'', fe_confidence = 90, fe_source = ''u1''\<rparr>),
       (''last_name'', \<lparr>fe_value = ''Lovelace'', fe_confidence = 90, fe_source = ''u1''\<rparr>)],
      [(''first_name'', \<lparr>fe_value = ''ADA'', fe_confidence = 94, fe_source = ''u2''\<rparr>),
       (''last_name'', \<lparr>fe_value = ''Byron'', fe_confidence = 90, fe_source = ''u2''\<rparr>)]]"

theorem merged_draft_exact_witness:
  "\<exists>d. merge_documents demo_documents [''email''] = Inr d \<and> set (dd_missing_required d) = {''email''}
     \<and> fst ` set (dd_fields d) \<inter> fc_field_name ` set (dd_conflicts d) = {}"
proof -
  have names: "list_all parameter_key [''email'']"
    "list_all (list_all (\<lambda>p. parameter_key (fst p))) demo_documents"
    by (simp_all add: demo_documents_def parameter_key_def is_lower_def)
  have "''email'' \<notin> fst ` set (concat demo_documents)" by (simp add: demo_documents_def)
  then have email: "X \<union> Y = fst ` set (concat demo_documents) \<Longrightarrow> {''email''} - X = {''email''}" for X Y by blast
  from merged_draft_exact [OF names] obtain d where d: "merge_documents demo_documents [''email''] = Inr d"
    "fst ` set (dd_fields d) \<union> fc_field_name ` set (dd_conflicts d) = fst ` set (concat demo_documents)"
    "fst ` set (dd_fields d) \<inter> fc_field_name ` set (dd_conflicts d) = {}"
    "set (dd_missing_required d) = set [''email''] - fst ` set (dd_fields d)" by (elim exE conjE)
  have "set (dd_missing_required d) = {''email''}" unfolding d(4) by (simp only: list.set email [OF d(2)])
  show ?thesis by (intro exI [of _ d] conjI d(1,3)) fact
qed

end
