(* ===== verification/OnboardingDrafts.thy ===== *)
theory OnboardingDrafts
  imports OnboardingMerge OrderedDict ScalarValues
begin

text \<open>
  The store of onboarding drafts with their completion by hand (\<^verbatim>\<open>onboarding/drafts.py\<close>): a bounded
  dictionary whose drafts belong to a user, guild and channel and expire. A call is given what the clocks
  and \<open>uuid4\<close> returned to it; the timer that the event loop runs is a call of its own.
\<close>

section \<open>The store\<close>

record draft_key =
  dk_user_id :: int
  dk_guild_id :: int
  dk_channel_id :: int

definition new_draft_key :: "int \<Rightarrow> int \<Rightarrow> int \<Rightarrow> onboarding_error + draft_key" where
  "new_draft_key u g c = (if u \<le> 0 \<or> g \<le> 0 \<or> c \<le> 0
     then Inl (OnboardingValueError ''onboarding draft key identifiers must be positive'')
     else Inr \<lparr>dk_user_id = u, dk_guild_id = g, dk_channel_id = c\<rparr>)"

record stored_draft =
  sd_draft_id :: string
  sd_key :: draft_key
  sd_draft :: document_draft
  sd_expires_at :: int

record draft_config =
  df_ttl :: int
  df_max_drafts :: nat

type_synonym draft_items = "(string \<times> stored_draft) list"

type_synonym 'a draft_op = "(draft_items, onboarding_error, 'a) sx"

definition new_draft_store :: "int \<Rightarrow> nat \<Rightarrow> onboarding_error + draft_config \<times> draft_items" where
  "new_draft_store ttl max_drafts =
     (if \<not> (0 < ttl \<and> ttl \<le> 3600) then Inl (OnboardingValueError ''onboarding draft TTL is out of bounds'')
      else if \<not> (1 \<le> max_drafts \<and> max_drafts \<le> 1000)
      then Inl (OnboardingValueError ''onboarding draft bound is invalid'')
      else Inr (\<lparr>df_ttl = ttl, df_max_drafts = max_drafts\<rparr>, []))"

definition live_drafts :: "int \<Rightarrow> draft_items \<Rightarrow> draft_items" where
  "live_drafts now d = filter (\<lambda>(i, s). now < sd_expires_at s) d"

definition purge_drafts :: "int \<Rightarrow> int draft_op" where
  "purge_drafts now = (\<lambda>d. (Inr (int (length d) - int (length (live_drafts now d))), live_drafts now d))"

definition create_draft :: "draft_config \<Rightarrow> int \<Rightarrow> string \<Rightarrow> draft_key \<Rightarrow> document_draft \<Rightarrow> stored_draft draft_op" where
  "create_draft conf now draft_id key draft =
     (let stored = \<lparr>sd_draft_id = draft_id, sd_key = key, sd_draft = draft, sd_expires_at = now + df_ttl conf\<rparr> in
      sx_bind (purge_drafts now) (\<lambda>_.
      sx_bind (sx_modify (\<lambda>d. od_trim (df_max_drafts conf) (AList.update draft_id stored d))) (\<lambda>_.
      sx_return stored)))"

definition draft_id_syntax :: "string \<Rightarrow> bool" where
  "draft_id_syntax s = (length s = 32 \<and> list_all is_hex_lower s)"

definition get_draft :: "int \<Rightarrow> draft_key \<Rightarrow> string \<Rightarrow> stored_draft draft_op" where
  "get_draft now key draft_id =
     (if \<not> draft_id_syntax draft_id then sx_raise (OnboardingDraftError ''bozza onboarding non valida'')
      else sx_bind (purge_drafts now) (\<lambda>_.
        sx_bind (sx_gets (\<lambda>d. map_of d draft_id)) (\<lambda>found. case found of
          None \<Rightarrow> sx_raise (OnboardingDraftError ''bozza onboarding non disponibile'')
        | Some stored \<Rightarrow>
            if sd_key stored \<noteq> key then sx_raise (OnboardingDraftError ''bozza onboarding non disponibile'')
            else sx_bind (sx_modify (od_move_to_end draft_id)) (\<lambda>_. sx_return stored))))"

text \<open>\<open>str.isalpha\<close> up to U+00FF, and the patterns of the form fields under \<open>fullmatch\<close>.\<close>

definition is_letter :: "char \<Rightarrow> bool" where
  "is_letter c = (let n = code_point c in is_upper c \<or> is_lower c \<or> n \<in> {170, 181, 186}
     \<or> (192 \<le> n \<and> n \<noteq> 215 \<and> n \<noteq> 247))"

definition email_local_char :: "char \<Rightarrow> bool" where
  "email_local_char c = (is_alnum c \<or> c \<in> set ''._%+-'')"

definition email_domain_char :: "char \<Rightarrow> bool" where
  "email_domain_char c = (is_alnum c \<or> c \<in> set ''.-'')"

definition email_syntax :: "string \<Rightarrow> bool" where
  "email_syntax s = (let local = takeWhile (\<lambda>c. c \<noteq> CHR ''@'') s; domain = drop (length local + 1) s;
       tld = rev (takeWhile (\<lambda>c. c \<noteq> CHR ''.'') (rev domain));
       host = take (length domain - length tld - 1) domain in
     length local < length s \<and> local \<noteq> [] \<and> list_all email_local_char local
     \<and> length tld < length domain \<and> host \<noteq> [] \<and> list_all email_domain_char host
     \<and> 2 \<le> length tld \<and> length tld \<le> 63 \<and> list_all (\<lambda>c. is_upper c \<or> is_lower c) tld)"

definition phone_syntax :: "string \<Rightarrow> bool" where
  "phone_syntax s = (let t = (if s \<noteq> [] \<and> hd s = CHR ''+'' then tl s else s) in
     t \<noteq> [] \<and> is_digit (hd t) \<and> 6 \<le> length t \<and> length t \<le> 25
     \<and> list_all (\<lambda>c. is_digit c \<or> c \<in> set '' ()/.-'') (tl t))"

definition tax_code_syntax :: "string \<Rightarrow> bool" where
  "tax_code_syntax s = (11 \<le> length s \<and> length s \<le> 32 \<and> list_all is_alnum s)"

fun date_at_most :: "nat \<times> nat \<times> nat \<Rightarrow> nat \<times> nat \<times> nat \<Rightarrow> bool" where
  "date_at_most (y, m, d) (y', m', d') \<longleftrightarrow> y < y' \<or> y = y' \<and> (m < m' \<or> m = m' \<and> d \<le> d')"

definition validate_form_value :: "nat \<times> nat \<times> nat \<Rightarrow> string \<Rightarrow> string \<Rightarrow> onboarding_error + string" where
  "validate_form_value today name raw_value =
     (if \<not> parameter_key name then Inl (OnboardingDraftError ''campo onboarding non valido'')
      else let v = join_words (py_split (py_strip raw_value)) in
      if v = [] \<or> 320 < length v \<or> list_ex (\<lambda>c. code_point c < 32) v
      then Inl (OnboardingDraftError ''valore onboarding non valido'')
      else if name \<in> {''first_name'', ''last_name''} then
        (if 128 < length v \<or> list_ex (\<lambda>c. \<not> (is_letter c \<or> c \<in> {CHR '' '', CHR 0x27, CHR ''-''})) v
         then Inl (OnboardingDraftError ''nome onboarding non valido'') else Inr v)
      else if name = ''email'' \<and> \<not> email_syntax v then Inl (OnboardingDraftError ''email onboarding non valida'')
      else if name = ''phone'' \<and> \<not> phone_syntax v
      then Inl (OnboardingDraftError ''telefono onboarding non valido'')
      else if name = ''tax_code'' \<and> \<not> tax_code_syntax v
      then Inl (OnboardingDraftError ''codice fiscale onboarding non valido'')
      else if name = ''date_of_birth'' then
        (case parse_date v of
           None \<Rightarrow> Inl (OnboardingDraftError ''data onboarding non valida'')
         | Some d \<Rightarrow> if date_at_most (1900, 1, 1) d \<and> date_at_most d today then Inr v
             else Inl (OnboardingDraftError ''data onboarding fuori intervallo''))
      else Inr v)"

fun fill_fields :: "nat \<times> nat \<times> nat \<Rightarrow> (string \<times> string) list \<Rightarrow> (string \<times> field_evidence) list
    \<Rightarrow> onboarding_error + (string \<times> field_evidence) list" where
  "fill_fields today [] fs = Inr fs"
| "fill_fields today ((name, raw) # rest) fs =
     (case validate_form_value today name raw of
        Inl e \<Rightarrow> Inl e
      | Inr v \<Rightarrow> (case new_field_evidence v 100 ''discord_form'' of
          Inl e \<Rightarrow> Inl e
        | Inr ev \<Rightarrow> fill_fields today rest (AList.update name ev fs)))"

definition filled_draft :: "nat \<times> nat \<times> nat \<Rightarrow> (string \<times> string) list \<Rightarrow> stored_draft
    \<Rightarrow> onboarding_error + stored_draft" where
  "filled_draft today entries stored =
     (let draft = sd_draft stored in
      if dd_conflicts draft \<noteq> []
      then Inl (OnboardingDraftError ''risolvi i conflitti documentali con un nuovo caricamento'')
      else if entries = [] \<or> 5 < length entries
      then Inl (OnboardingDraftError ''compilazione onboarding non valida'')
      else if set (map fst entries) \<noteq> set (take 5 (dd_missing_required draft))
      then Inl (OnboardingDraftError ''i campi della bozza non corrispondono'')
      else case fill_fields today entries (dd_fields draft) of
        Inl e \<Rightarrow> Inl e
      | Inr fs \<Rightarrow>
          (case new_document_draft fs (dd_conflicts draft)
                 (filter (\<lambda>n. n \<notin> fst ` set fs) (dd_missing_required draft)) of
             Inl e \<Rightarrow> Inl e
           | Inr draft' \<Rightarrow> Inr (stored\<lparr>sd_draft := draft'\<rparr>)))"

definition fill_missing :: "int \<Rightarrow> nat \<times> nat \<times> nat \<Rightarrow> draft_key \<Rightarrow> string \<Rightarrow> (string \<times> string) list
    \<Rightarrow> stored_draft draft_op" where
  "fill_missing now today key draft_id entries =
     sx_bind (get_draft now key draft_id) (\<lambda>stored.
     sx_bind (sx_lift (filled_draft today entries stored)) (\<lambda>updated.
     sx_bind (sx_modify (od_store draft_id updated)) (\<lambda>_. sx_return updated)))"

definition discard_draft :: "int \<Rightarrow> draft_key \<Rightarrow> string \<Rightarrow> bool draft_op" where
  "discard_draft now key draft_id =
     sx_bind (sx_try (get_draft now key draft_id)) (\<lambda>r. case r of
       Inl e \<Rightarrow> sx_return False
     | Inr stored \<Rightarrow> sx_bind (sx_gets (\<lambda>d. map_of d (sd_draft_id stored) \<noteq> None)) (\<lambda>there.
         sx_bind (sx_modify (od_pop (sd_draft_id stored))) (\<lambda>_. sx_return there)))"

definition expire_if_current :: "int \<Rightarrow> string \<Rightarrow> int \<Rightarrow> unit draft_op" where
  "expire_if_current now draft_id expires_at =
     sx_modify (\<lambda>d. case map_of d draft_id of
        None \<Rightarrow> d
      | Some stored \<Rightarrow> if sd_expires_at stored = expires_at \<and> expires_at \<le> now then od_pop draft_id d else d)"

section \<open>What a stored draft comes from\<close>

definition well_formed_draft :: "document_draft \<Rightarrow> bool" where
  "well_formed_draft d \<longleftrightarrow> new_document_draft (dd_fields d) (dd_conflicts d) (dd_missing_required d) = Inr d"

text \<open>A field that was filled in by hand.\<close>

definition filled_by_hand :: "string \<Rightarrow> field_evidence \<Rightarrow> bool" where
  "filled_by_hand n e \<longleftrightarrow> fe_source e = ''discord_form'' \<and> (\<exists>today raw. validate_form_value today n raw = Inr (fe_value e))"

text \<open>A draft keeps what the documents said: only fields that were missing are filled in.\<close>

definition draft_grown :: "document_draft \<Rightarrow> document_draft \<Rightarrow> bool" where
  "draft_grown d d' \<longleftrightarrow> dd_conflicts d' = dd_conflicts d
     \<and> (\<forall>n. map_of (dd_fields d') n = map_of (dd_fields d) n
         \<or> n \<in> set (dd_missing_required d) \<and> map_of (dd_fields d) n = None
           \<and> (\<exists>e. map_of (dd_fields d') n = Some e \<and> filled_by_hand n e))
     \<and> dd_missing_required d' = filter (\<lambda>n. map_of (dd_fields d') n = None) (dd_missing_required d)"

lemma well_formed_missing: "well_formed_draft d \<Longrightarrow> n \<in> set (dd_missing_required d) \<Longrightarrow> map_of (dd_fields d) n = None"
  by (auto simp: well_formed_draft_def new_document_draft_def Let_def list_ex_iff map_of_eq_None_iff
      split: if_splits)

lemma draft_grown_refl: "well_formed_draft d \<Longrightarrow> draft_grown d d"
  by (auto simp: draft_grown_def well_formed_missing)

lemma draft_grown_trans:
  assumes "draft_grown d d'" "draft_grown d' d''"
  shows "draft_grown d d''"
proof -
  have "map_of (dd_fields d'') n = map_of (dd_fields d) n \<or> n \<in> set (dd_missing_required d)
      \<and> map_of (dd_fields d) n = None \<and> (\<exists>e. map_of (dd_fields d'') n = Some e \<and> filled_by_hand n e)" for n
  proof -
    have "set (dd_missing_required d') \<subseteq> set (dd_missing_required d)" using assms(1) by (auto simp: draft_grown_def)
    then show ?thesis using assms unfolding draft_grown_def by (metis subsetD)
  qed
  moreover have "dd_missing_required d'' = filter (\<lambda>n. map_of (dd_fields d'') n = None) (dd_missing_required d)"
  proof -
    have "map_of (dd_fields d') n = None" if "map_of (dd_fields d'') n = None" for n
      using assms(2) that unfolding draft_grown_def by (metis option.distinct(1))
    then have "filter (\<lambda>n. map_of (dd_fields d'') n = None) (filter (\<lambda>n. map_of (dd_fields d') n = None)
        (dd_missing_required d)) = filter (\<lambda>n. map_of (dd_fields d'') n = None) (dd_missing_required d)"
      unfolding filter_filter by (intro filter_cong) auto
    with assms show ?thesis by (simp add: draft_grown_def)
  qed
  ultimately show ?thesis using assms by (simp add: draft_grown_def)
qed

lemma fill_fields_map:
  assumes "fill_fields today entries fs = Inr fs'"
  shows "(\<forall>n. map_of fs' n = map_of fs n \<and> n \<notin> fst ` set entries
     \<or> n \<in> fst ` set entries \<and> (\<exists>e. map_of fs' n = Some e \<and> filled_by_hand n e))"
  using assms
proof (induction entries arbitrary: fs)
  case (Cons p rest)
  obtain n raw where p: "p = (n, raw)" by (cases p)
  from Cons.prems obtain v e where v: "validate_form_value today n raw = Inr v"
    "new_field_evidence v 100 ''discord_form'' = Inr e"
    and rest: "fill_fields today rest (AList.update n e fs) = Inr fs'"
    by (auto simp: p split: sum.splits)
  from v(2) have "fe_value e = v" "fe_source e = ''discord_form''"
    by (auto simp: new_field_evidence_def split: if_splits)
  with v(1) have "filled_by_hand n e" unfolding filled_by_hand_def by blast
  then have "map_of (AList.update n e fs) m = map_of fs m \<and> m \<noteq> n
      \<or> m = n \<and> map_of (AList.update n e fs) m = Some e \<and> filled_by_hand m e" for m
    by (simp add: map_of_update)
  with Cons.IH [OF rest] show ?case unfolding p by (simp del: map_of_update) metis
qed simp

lemma new_document_draft_Inr:
  "new_document_draft fs cs ms = Inr d \<Longrightarrow> d = \<lparr>dd_fields = fs, dd_conflicts = cs, dd_missing_required = ms\<rparr>"
  by (auto simp: new_document_draft_def Let_def split: if_splits)

lemma filled_draft_grown:
  assumes "filled_draft today entries stored = Inr stored'" "well_formed_draft (sd_draft stored)"
  shows "draft_grown (sd_draft stored) (sd_draft stored') \<and> well_formed_draft (sd_draft stored')
    \<and> sd_key stored' = sd_key stored \<and> sd_draft_id stored' = sd_draft_id stored
    \<and> sd_expires_at stored' = sd_expires_at stored"
proof -
  let ?d = "sd_draft stored"
  from assms(1) obtain fs d where named: "set (map fst entries) = set (take 5 (dd_missing_required ?d))"
    and fs: "fill_fields today entries (dd_fields ?d) = Inr fs"
    and d: "new_document_draft fs (dd_conflicts ?d) (filter (\<lambda>n. n \<notin> fst ` set fs) (dd_missing_required ?d)) = Inr d"
    and stored': "stored' = stored\<lparr>sd_draft := d\<rparr>"
    by (auto simp: filled_draft_def Let_def split: if_splits sum.splits)
  note d_eq = new_document_draft_Inr [OF d]
  have missing: "n \<in> set (dd_missing_required ?d)" if "n \<in> fst ` set entries" for n
    using named that by (auto dest: in_set_takeD)
  have "map_of fs n = map_of (dd_fields ?d) n \<or> n \<in> set (dd_missing_required ?d)
      \<and> map_of (dd_fields ?d) n = None \<and> (\<exists>e. map_of fs n = Some e \<and> filled_by_hand n e)" for n
    using fill_fields_map [OF fs] missing [of n] well_formed_missing [OF assms(2)] by blast
  moreover have "filter (\<lambda>n. n \<notin> fst ` set fs) ms = filter (\<lambda>n. map_of fs n = None) ms" for ms
    by (intro filter_cong) (auto simp: map_of_eq_None_iff)
  ultimately have "draft_grown ?d d" by (simp add: draft_grown_def d_eq)
  moreover have "well_formed_draft d" using d by (simp add: well_formed_draft_def d_eq)
  ultimately show ?thesis by (simp add: stored')
qed

section \<open>Any sequence of calls\<close>

datatype onboarding_call =
    CallCreate int string draft_key document_draft
  | CallGet int draft_key string
  | CallFill int "nat \<times> nat \<times> nat" draft_key string "(string \<times> string) list"
  | CallDiscard int draft_key string
  | CallPurge int
  | CallTimer int string int

fun onboarding_step :: "draft_config \<Rightarrow> onboarding_call \<Rightarrow> draft_items \<Rightarrow> draft_items" where
  "onboarding_step conf (CallCreate now i key draft) d = snd (create_draft conf now i key draft d)"
| "onboarding_step conf (CallGet now key i) d = snd (get_draft now key i d)"
| "onboarding_step conf (CallFill now today key i entries) d = snd (fill_missing now today key i entries d)"
| "onboarding_step conf (CallDiscard now key i) d = snd (discard_draft now key i d)"
| "onboarding_step conf (CallPurge now) d = snd (purge_drafts now d)"
| "onboarding_step conf (CallTimer now i t) d = snd (expire_if_current now i t d)"

abbreviation onboarding_run :: "draft_config \<Rightarrow> onboarding_call list \<Rightarrow> draft_items \<Rightarrow> draft_items" where
  "onboarding_run conf calls d \<equiv> fold (onboarding_step conf) calls d"

fun created_well_formed :: "onboarding_call \<Rightarrow> bool" where
  "created_well_formed (CallCreate now i key draft) = well_formed_draft draft"
| "created_well_formed _ = True"

text \<open>The draft was created in one of the calls, for its key, and has only grown since.\<close>

definition created_in :: "draft_config \<Rightarrow> onboarding_call list \<Rightarrow> string \<Rightarrow> stored_draft \<Rightarrow> bool" where
  "created_in conf calls i s \<longleftrightarrow> sd_draft_id s = i \<and> well_formed_draft (sd_draft s)
     \<and> (\<exists>now draft. CallCreate now i (sd_key s) draft \<in> set calls
          \<and> sd_expires_at s = now + df_ttl conf \<and> draft_grown draft (sd_draft s))"

lemma created_in_mono: "created_in conf calls i s \<Longrightarrow> set calls \<subseteq> set calls' \<Longrightarrow> created_in conf calls' i s"
  unfolding created_in_def by blast

definition drafts_ok :: "draft_config \<Rightarrow> onboarding_call list \<Rightarrow> draft_items \<Rightarrow> bool" where
  "drafts_ok conf calls d \<longleftrightarrow> od_ok (created_in conf calls) d \<and> length d \<le> df_max_drafts conf"

lemma drafts_ok_filter: "drafts_ok conf calls d \<Longrightarrow> drafts_ok conf calls (filter R d)"
  unfolding drafts_ok_def by (metis le_trans length_filter_le od_ok_filter)

lemma drafts_ok_move: "drafts_ok conf calls d \<Longrightarrow> drafts_ok conf calls (od_move_to_end i d)"
  by (simp add: drafts_ok_def od_ok_move)

lemma drafts_ok_pop: "drafts_ok conf calls d \<Longrightarrow> drafts_ok conf calls (od_pop i d)"
  unfolding od_pop_def by (rule drafts_ok_filter)

lemma keeps_purge_drafts: "keeps (drafts_ok conf calls) (purge_drafts now)"
  by (simp add: keeps_snd purge_drafts_def live_drafts_def drafts_ok_filter)

lemma get_draft_triple:
  "triple (drafts_ok conf calls) (get_draft now key i)
     (\<lambda>s d. drafts_ok conf calls d \<and> map_of d i = Some s \<and> sd_key s = key \<and> now < sd_expires_at s)
     (\<lambda>_. drafts_ok conf calls)"
proof -
  have step: "(case get_draft now key i d of
        (Inl e, d') \<Rightarrow> drafts_ok conf calls d'
      | (Inr s, d') \<Rightarrow> drafts_ok conf calls d' \<and> map_of d' i = Some s \<and> sd_key s = key \<and> now < sd_expires_at s)"
    if ok: "drafts_ok conf calls d" for d
  proof -
    let ?d = "live_drafts now d"
    have live: "drafts_ok conf calls ?d" using ok by (simp add: live_drafts_def drafts_ok_filter)
    show ?thesis
    proof (cases "draft_id_syntax i \<and> (\<exists>s. map_of ?d i = Some s \<and> sd_key s = key)")
      case True
      then obtain s where s: "map_of ?d i = Some s" "sd_key s = key" by blast
      from s(1) have "(i, s) \<in> set ?d" by (rule map_of_SomeD)
      then have in_d: "(i, s) \<in> set (od_move_to_end i ?d)" and t: "now < sd_expires_at s"
        by (simp_all add: live_drafts_def)
      have "distinct (map fst (od_move_to_end i ?d))" using live by (simp add: drafts_ok_def od_ok_def)
      with in_d have "map_of (od_move_to_end i ?d) i = Some s" by (intro map_of_is_SomeI)
      with True s t live show ?thesis
        by (simp add: get_draft_def purge_drafts_def sx_bind_def sx_gets_def sx_modify_def sx_return_def
            drafts_ok_move)
    next
      case False
      with ok live show ?thesis
        by (auto simp: get_draft_def purge_drafts_def sx_bind_def sx_gets_def sx_raise_def split: option.split)
    qed
  qed
  then show ?thesis unfolding triple_def by blast
qed

lemma drafts_ok_step:
  assumes "drafts_ok conf calls d" "created_well_formed call"
  shows "drafts_ok conf (calls @ [call]) (onboarding_step conf call d)"
proof -
  let ?I = "drafts_ok conf (calls @ [call])"
  have "od_ok (created_in conf calls) d" using assms(1) by (simp add: drafts_ok_def)
  then have "od_ok (created_in conf (calls @ [call])) d"
    by (rule od_ok_mono) (erule created_in_mono, auto)
  then have I: "?I d" using assms(1) by (simp add: drafts_ok_def)
  have get: "keeps ?I (get_draft now key i)" for now key i
    by (rule triple_conseq [OF get_draft_triple]) simp_all
  show ?thesis
  proof (cases call)
    case (CallCreate now i key draft)
    let ?s = "\<lparr>sd_draft_id = i, sd_key = key, sd_draft = draft, sd_expires_at = now + df_ttl conf\<rparr>"
    have "created_in conf (calls @ [call]) i ?s"
      using assms(2) draft_grown_refl by (auto simp: CallCreate created_in_def)
    moreover have "?I (live_drafts now d)" using I by (simp add: live_drafts_def drafts_ok_filter)
    ultimately have "od_ok (created_in conf (calls @ [call])) (AList.update i ?s (live_drafts now d))"
      by (auto simp: drafts_ok_def od_ok_def distinct_update update_set)
    then show ?thesis
      by (simp add: CallCreate create_draft_def Let_def purge_drafts_def sx_bind_def sx_modify_def sx_return_def
          drafts_ok_def od_ok_trim)
  next
    case (CallGet now key i)
    with I get show ?thesis by (simp add: keepsD)
  next
    case (CallFill now today key i entries)
    have store: "?I (od_store i s' d)"
      if "?I d \<and> map_of d i = Some s \<and> sd_key s = key \<and> now < sd_expires_at s"
        and s': "filled_draft today entries s = Inr s'" for s s' d
    proof -
      from that have s: "created_in conf (calls @ [call]) i s" "map_of d i = Some s" "?I d"
        by (auto simp: drafts_ok_def dest: od_ok_lookup)
      from filled_draft_grown [OF s'] s(1) have "created_in conf (calls @ [call]) i s'"
        unfolding created_in_def by (metis draft_grown_trans)
      moreover have "length (od_store i s' d) = length d"
      proof -
        have "i \<in> fst ` set d" using s(2) by (metis map_of_eq_None_iff option.distinct(1))
        then have "map fst (AList.update i s' d) = map fst d" by (simp add: update_keys)
        then have "length (AList.update i s' d) = length d" by (metis length_map)
        then show ?thesis by (simp add: od_store_def)
      qed
      ultimately show ?thesis using s(3) by (simp add: drafts_ok_def od_ok_store)
    qed
    have "keeps ?I (fill_missing now today key i entries)"
      unfolding fill_missing_def
      by (rule triple_bind [OF get_draft_triple])
        (auto simp: triple_def sx_bind_def sx_lift_def sx_modify_def sx_return_def store split: sum.splits)
    with I show ?thesis unfolding CallFill onboarding_step.simps by (blast intro: keepsD)
  next
    case (CallDiscard now key i)
    have "keeps ?I (discard_draft now key i)"
      unfolding discard_draft_def
      by (intro keeps_bind keeps_try get)
        (auto simp: keeps_snd sx_bind_def sx_gets_def sx_modify_def sx_return_def drafts_ok_pop split: sum.split)
    with I show ?thesis unfolding CallDiscard onboarding_step.simps by (blast intro: keepsD)
  next
    case (CallPurge now)
    with I keeps_purge_drafts show ?thesis by (simp add: keepsD)
  next
    case (CallTimer now i t)
    with I show ?thesis by (simp add: expire_if_current_def sx_modify_def drafts_ok_pop split: option.split)
  qed
qed

lemma drafts_ok_run: "list_all created_well_formed calls \<Longrightarrow> drafts_ok conf calls (onboarding_run conf calls [])"
proof (induction calls rule: rev_induct)
  case Nil
  then show ?case by (simp add: drafts_ok_def od_ok_Nil)
next
  case (snoc call calls)
  then show ?case by (simp add: drafts_ok_step)
qed

text \<open>C38: Onboarding drafts are isolated, bounded and keep their evidence. Over any calls from the empty
  store, it holds at most the configured number of drafts, and a draft that a call reads was created under
  its identifier for the same user, guild and channel less than the time to live ago; it has all the fields
  the documents gave it unchanged, and every other field was missing, was filled in by hand and passed its
  validation.\<close>

theorem onboarding_drafts_isolated:
  assumes "list_all created_well_formed calls"
    and "get_draft now key i (onboarding_run conf calls []) = (Inr s, d)"
  shows "length (onboarding_run conf calls []) \<le> df_max_drafts conf \<and> length d \<le> df_max_drafts conf
    \<and> (\<exists>t draft. CallCreate t i key draft \<in> set calls \<and> now < t + df_ttl conf
        \<and> dd_conflicts (sd_draft s) = dd_conflicts draft
        \<and> (\<forall>n. map_of (dd_fields (sd_draft s)) n = map_of (dd_fields draft) n
            \<or> n \<in> set (dd_missing_required draft) \<and> map_of (dd_fields draft) n = None
              \<and> (\<exists>e. map_of (dd_fields (sd_draft s)) n = Some e \<and> filled_by_hand n e))
        \<and> dd_missing_required (sd_draft s)
          = filter (\<lambda>n. map_of (dd_fields (sd_draft s)) n = None) (dd_missing_required draft))"
proof -
  have ok: "drafts_ok conf calls (onboarding_run conf calls [])" using assms(1) by (rule drafts_ok_run)
  from get_draft_triple [of conf calls now key i] ok assms(2)
  have d: "drafts_ok conf calls d" "map_of d i = Some s" "sd_key s = key" "now < sd_expires_at s"
    unfolding triple_def by (metis (mono_tags, lifting) case_prod_conv sum.case(2))+
  then have "created_in conf calls i s" by (auto simp: drafts_ok_def dest: od_ok_lookup)
  then obtain t draft where "CallCreate t i key draft \<in> set calls" "now < t + df_ttl conf"
    "draft_grown draft (sd_draft s)"
    using d(3,4) unfolding created_in_def by auto
  with ok d(1) show ?thesis unfolding drafts_ok_def draft_grown_def by blast
qed

definition demo_draft :: document_draft where
  "demo_draft = \<lparr>dd_fields = [(''first_name'', \<lparr>fe_value = ''Ada'', fe_confidence = 90, fe_source = ''u1''\<rparr>)],
     dd_conflicts = [], dd_missing_required = [''last_name'']\<rparr>"

definition demo_draft_key :: draft_key where
  "demo_draft_key = \<lparr>dk_user_id = 1, dk_guild_id = 2, dk_channel_id = 3\<rparr>"

definition demo_draft_calls :: "onboarding_call list" where
  "demo_draft_calls = [CallCreate 0 (replicate 32 CHR ''a'') demo_draft_key demo_draft,
     CallFill 5 (2026, 1, 1) demo_draft_key (replicate 32 CHR ''a'') [(''last_name'', '' Lovelace '')]]"

theorem onboarding_drafts_isolated_witness:
  "\<exists>s d. get_draft 10 demo_draft_key (replicate 32 CHR ''a'')
      (onboarding_run \<lparr>df_ttl = 900, df_max_drafts = 2\<rparr> demo_draft_calls []) = (Inr s, d)
     \<and> dd_missing_required (sd_draft s) = [] \<and> length d \<le> 2"
proof -
  let ?run = "onboarding_run \<lparr>df_ttl = 900, df_max_drafts = 2\<rparr> demo_draft_calls []"
  let ?i = "replicate 32 CHR ''a''"
  have "case get_draft 10 demo_draft_key ?i ?run of (Inl e, d) \<Rightarrow> False
      | (Inr s, d) \<Rightarrow> dd_missing_required (sd_draft s) = []" by code_simp
  then obtain s d where s: "get_draft 10 demo_draft_key ?i ?run = (Inr s, d)" "dd_missing_required (sd_draft s) = []"
    by (auto split: prod.splits sum.splits)
  have "list_all created_well_formed demo_draft_calls"
    by (simp add: demo_draft_calls_def) (simp add: well_formed_draft_def demo_draft_def new_document_draft_def
        parameter_key_def is_lower_def)
  from onboarding_drafts_isolated [OF this s(1)] s show ?thesis by auto
qed

end
