(* ===== verification/Spec2Isabelle.thy ===== *)
theory Spec2Isabelle
  imports WriteDispatch BrowserRuntime QueueLiveness ApprovalTable ConversationContext AuditChain RateLimit UploadScreening
    RoutingScope DiscordGate ModelUsage ExportReports OnboardingDrafts
begin

text \<open>
  \<^bold>\<open>BH-DiC.\<close> A Discord bot through which an HR office reads and changes the employee records of
  Dipendenti in Cloud. A message passes the transport gate, is routed to one function of a fixed
  catalogue, and is checked by a deterministic policy engine. A read is answered; a write becomes a
  pending action that its requester confirms with a one-time code, that other people approve, and that the
  coordinator executes once, through an adapter that drives a browser, recording the outcome. This
  development models the parts of that path that decide something, and the stores they decide over. All
  paths below are under \<^verbatim>\<open>src/src/bh_dic\<close>.

  \<^bold>\<open>How the code is rendered.\<close> An operation that reads and writes an object and may raise is a
  function from the state to an error or a result together with the state, which is returned on both
  branches (theory Prelude, with its rules for keeping a predicate through a sequence of such operations).
  A class that is only data is a record, an enumeration or a tagged union a datatype, an exception a
  constructor of an error type of the component, a dictionary a map, or a list of pairs where its order is
  observable. Python's integers are \<open>int\<close>. Time is an integer and is an argument of the
  operations that ask for it. What an \<open>await\<close> lets in between two steps of one call is
  modelled where the code depends on it: the write path and the browser queue have explicit interleavings,
  and the methods that hold a lock over their whole body are single steps. Code that is not in the
  repository (HMAC-SHA256, the random draws, libmagic, the virus scanner, the browser, Discord) is an
  argument. A statement about digests or codes excludes a collision between the two inputs it names,
  and nothing more.

  \<^bold>\<open>The policy\<close> (\<^verbatim>\<open>policies/\<close>). PolicyRoles: logical roles, their closure, role rules.
  PolicyCatalog: the 36 function specifications and the catalogue's own checks. WriteParameters: the
  validation of a write's parameters, with ScalarValues for decimals (\<^verbatim>\<open>dic/values.py\<close>). FeatureFlags: the
  deployment baseline and the runtime flags, which can only narrow it (locale
  \<open>feature_flag_store\<close>, interpreted on the model). PolicyEngine: every gate of \<open>evaluate\<close> in
  source order. The lemmas give the exact condition under which a request is allowed, that no runtime change
  makes a write allowed that the baseline forbids, that the catalogue builds and is consistent, and that
  accepted parameters conform and are stable under another validation.

  \<^bold>\<open>The transport gate\<close> (\<^verbatim>\<open>discord/checks.py\<close>), DiscordGate: the exact condition
  for a message to be let through, and with which logical roles.

  \<^bold>\<open>Approvals\<close> (\<^verbatim>\<open>approvals/\<close>). Confirmation: codes and their digests.
  VersionedStore: the contract of a repository of versioned records, as a locale, and of one whose
  keys can be claimed once, as a locale that extends it. ApprovalStore: the action record and the in-memory
  repository, an interpretation. ApprovalService: every method of the service. ApprovalMachine: the events,
  the reachable stores, the moves of one action. ApprovalInvariant: what every reachable store satisfies.
  ApprovalProperties: separation of duty, one execution per action and per key, single use of a
  confirmation, the kill switch, the abstract life cycle that every history refines, the exact condition
  of every call, and that the service's compare-and-set never fails. ApprovalTable: the SQL repository over
  its three tables, which refines the in-memory one for every call the service makes.

  \<^bold>\<open>The write path\<close>. DicService (\<^verbatim>\<open>services/dic_service.py\<close>): what is handed to the adapter, and
  that its fingerprint binds the action. WriteExecution (\<^verbatim>\<open>application.py\<close>): from a full
  approval to the recorded outcome, with a fault possible at every call of another component, cancellation,
  and calls of other users between the steps. WriteSafety: over every history of commands an action
  is dispatched at most once and only when fully approved, and its recorded status is truthful even when
  the outcome of the dispatch is lost. WriteDispatch: one command sends at most one write, which is prepared
  from the stored action it names.

  \<^bold>\<open>The browser\<close> (\<^verbatim>\<open>services/browser_runtime.py\<close>). BrowserRuntime: the circuit
  breaker, the bounded retries of a read, the single attempt of a write. BrowserQueue: workers, keyed locks
  and the bounded queue as a step relation; QueueLiveness: while it is open, what was submitted is served.

  \<^bold>\<open>The adapter and the reads\<close>. DicModels and DicRecords (\<^verbatim>\<open>dic/models.py\<close>): the exchanged
  records, their validation and JSON text. EmployeePages: the paginated listing, whose loop is total
  because the page number grows towards the page limit, and the contract of an adapter that lists soundly
  (locale \<open>paged_listing\<close>). MockDic, MockWrites, MockExecution, MockAdapter
  (\<^verbatim>\<open>dic/mock.py\<close>, \<^verbatim>\<open>dic/catalog.py\<close>): the whole adapter of the safe mode, with
  its tables, reads, 21 kinds of write, postconditions, idempotency keys, reconciliation and state digests.
  MockFrame: two locales that walk through all writes once and keep a predicate of the tables;
  MockProperties and MockListing interpret them for the data of another employee, for the bookkeeping of
  the adapter, for the tables' invariant and for the payroll columns, and interpret \<open>paged_listing\<close> on
  the adapter. What follows: a write touches its own employee only, a key takes effect once, reconciliation
  agrees with what happened, and the payroll comparison of the service over this adapter is exact.

  \<^bold>\<open>Reports\<close>. Exports (\<^verbatim>\<open>exports/\<close>, \<open>_generate_employee_export\<close> of
  \<^verbatim>\<open>application.py\<close>): the cells and rows of a report, the table with its split into messages of
  Discord, and the generation of a bounded document, whose writer is an argument. ExportReports: over the
  adapter of the safe mode a report lists exactly the employees that were asked for, in order.

  \<^bold>\<open>Uploads\<close> (\<^verbatim>\<open>files/\<close>). UploadStore: metadata and both repositories, the in-memory one
  and the SQL one, each an interpretation of the same locale. Quarantine: MIME rules and the
  directory tree with links, modes and faults. Antivirus: the request framing and the bounded answer.
  Uploads: the service and the retention sweep. UploadProperties and UploadScreening: a delivered file was
  screened and is what was recorded, it is delivered once, and ingestion is equivalent to a stateless rule
  over the whole content.

  \<^bold>\<open>Queries\<close> (\<^verbatim>\<open>query/\<close>). QueryPlan: the plan of a request with its validators and
  the evidence budget. RoutingScope: which functions a model provider may route to.
  ConversationContext: the references of a conversation and their expiry. OrderedDict: the
  least-recently-used dictionaries of the stores.

  \<^bold>\<open>Onboarding\<close> (\<^verbatim>\<open>onboarding/\<close>). OnboardingMerge: the evidence of several documents and its
  merge, which decides nothing they disagree on. OnboardingDrafts: the store of the drafts, bound to a
  user, guild and channel, and the completion of a draft by hand.

  \<^bold>\<open>Audit and limits\<close>. Sanitization and Json (\<^verbatim>\<open>security/sanitization.py\<close>,
  \<open>json.dumps\<close> and UTF-8) under AuditChain (\<^verbatim>\<open>audit/\<close>): the hash chain, append and
  verification, and that equal ends mean equal events. RateLimit (\<^verbatim>\<open>security/rate_limit.py\<close>): the
  cost admitted in every window. ModelUsage (\<^verbatim>\<open>model_usage/\<close>): the record of the calls of
  a model provider, one row per call and one outcome per row, and the totals over them.

  \<^bold>\<open>Bounds.\<close> No definition uses fuel. The loops that are not structural end by a measure proved
  with them: the attempts left of a read, the page number against the page limit of a listing,
  the bytes left of a scanner's answer (8192) or of a file to frame, the rest of a
  file name or number, and the roles not yet in a closure.
  Histories are lists of commands of any length.

  \<^bold>\<open>Bounds of faithfulness.\<close> Texts that are normalised (Unicode forms, case folding,
  control characters) are modelled on the code points up to U+00FF; sanitisation that inserts a code point
  above is left out. Floating-point rounding of durations is not modelled. Collaborators of the write path
  that may be absent (None in a configuration without them) are assumed present.

  \<^bold>\<open>Not modelled.\<close> The browser adapter and its page captures and login: selectors and waits over
  Playwright, which is an argument here. The model providers: HTTP clients, prompts and schemas. The
  parsing of Italian free text, the query planner and the presentation of answers: regular expressions and
  rendering whose specification is the text itself. The part of \<^verbatim>\<open>application.py\<close> that asks,
  previews and presents. Discord callbacks and views. The database engine. The writers
  of PDF, DOCX and XLSX documents, which are libraries. The OCR process and the parsing of one document.
  Start-up, configuration, secrets and logging. The facade classes that only forward a call.
\<close>

end
